(* ===== verification/Prelude.thy ===== *)
theory Prelude
  imports Main "HOL-Library.Word" "HOL-Library.List_Lexorder" "HOL-Library.Char_ord"
begin

text \<open>
  What every component of the development shares.  Python exceptions are the values of
  \<open>py_error\<close>; a function that may raise returns \<open>py_error + 'a\<close> (\<open>Inl\<close> the
  exception, without its message).  Bytes are lists of 8-bit words.  A Python \<open>str\<close>
  is represented by its UTF-8 encoding, so \<open>s.encode("utf-8")\<close> and the order
  \<open>sorted\<close> uses (code points; the same order as that of the encodings) read off the
  list directly.  The rest is little-endian integers, hexadecimal text as
  \<open>bytes.hex\<close> and \<open>bytes.fromhex\<close> treat it, and slices.
\<close>

named_theorems res_simps "unfolding of results that may be exceptions"
named_theorems codec_simps "encoders and decoders"

section \<open>Results\<close>

text \<open>The exception classes the code raises or lets through.  Classes derived from
  \<open>ValueError\<close> are told apart by \<open>is_value_error\<close>, which is what
  \<open>except ValueError\<close> tests.\<close>

datatype py_error =
    ValueError | CodecError | SchemaError | GovernanceError | RegistryError | LedgerError
  | NetworkIdentityError | ReorgError | UnicodeError | JSONDecodeError
  | KeyError | TypeError | AttributeError | IndexError | OverflowError | StructError
  | RuntimeError | StorageIOError | NetworkValidationError | UnknownMessageTypeError
  | OversizedPayloadError | PayloadHashMismatchError | TransportStateError
  | TransportClosedError | TransportLimitError | TransportValidationError
  | SocketTransportError | SocketTransportLimitError | SocketClosedError | PeerTableFullError
  | GossipError | GossipRateLimitError | SyncInvalidDataError | SyncStorageError | RelayInvalidBlockError
  | DiscoveryError | TransportTimeoutError | ZlibError
  | StorageError | RecoveryError | JournalError | FileNotFound

type_synonym 'a res = "py_error + 'a"

definition is_value_error :: "py_error \<Rightarrow> bool" where
  "is_value_error e = (e \<in> {ValueError, CodecError, SchemaError, GovernanceError, RegistryError,
     LedgerError, NetworkIdentityError, ReorgError, UnicodeError, JSONDecodeError, RecoveryError, JournalError})"

definition bindE :: "'a res \<Rightarrow> ('a \<Rightarrow> 'b res) \<Rightarrow> 'b res" where
  "bindE m f = (case m of Inl e \<Rightarrow> Inl e | Inr x \<Rightarrow> f x)"

text \<open>\<open>try: m except \<dots>\<close> with the classes caught given by \<open>p\<close>.\<close>

definition catchE :: "'a res \<Rightarrow> (py_error \<Rightarrow> bool) \<Rightarrow> 'a res \<Rightarrow> 'a res" where
  "catchE m p h = (case m of Inl e \<Rightarrow> if p e then h else Inl e | Inr x \<Rightarrow> Inr x)"

definition of_option :: "py_error \<Rightarrow> 'a option \<Rightarrow> 'a res" where
  "of_option e m = (case m of None \<Rightarrow> Inl e | Some x \<Rightarrow> Inr x)"

text \<open>A comprehension whose element expression may raise, and a loop that updates a
  state and stops at the first exception.\<close>

primrec mapE :: "('a \<Rightarrow> 'b res) \<Rightarrow> 'a list \<Rightarrow> 'b list res" where
  "mapE f [] = Inr []"
| "mapE f (x # xs) = bindE (f x) (\<lambda>y. bindE (mapE f xs) (\<lambda>ys. Inr (y # ys)))"

primrec foldE :: "('s \<Rightarrow> 'a \<Rightarrow> 's res) \<Rightarrow> 's \<Rightarrow> 'a list \<Rightarrow> 's res" where
  "foldE f s [] = Inr s"
| "foldE f s (x # xs) = bindE (f s x) (\<lambda>s'. foldE f s' xs)"

lemma bindE_simps [simp]: "bindE (Inl e) f = Inl e" "bindE (Inr x) f = f x"
  by (simp_all add: bindE_def)

lemma bindE_Inr_iff [res_simps]: "bindE m f = Inr y \<longleftrightarrow> (\<exists>x. m = Inr x \<and> f x = Inr y)"
  by (cases m) auto

lemma bindE_Inl_iff:
  "bindE m f = Inl e \<longleftrightarrow> m = Inl e \<or> (\<exists>x. m = Inr x \<and> f x = Inl e)"
  by (cases m) auto

lemma catchE_simps [simp]:
  "catchE (Inr x) p h = Inr x" "catchE (Inl e) p h = (if p e then h else Inl e)"
  by (simp_all add: catchE_def)

lemma catchE_Inl_Inr_iff [res_simps]: "catchE m p (Inl e) = Inr x \<longleftrightarrow> m = Inr x"
  by (cases m) auto

lemma of_option_simps [simp]: "of_option e None = Inl e" "of_option e (Some x) = Inr x"
  by (simp_all add: of_option_def)

lemma of_option_Inr_iff [res_simps]: "of_option e m = Inr x \<longleftrightarrow> m = Some x"
  by (cases m) auto

lemma mapE_Inr_iff: "mapE f xs = Inr ys \<longleftrightarrow> list_all2 (\<lambda>x y. f x = Inr y) xs ys"
  by (induction xs arbitrary: ys) (auto simp: res_simps list_all2_Cons1)

lemma mapE_all_Inr: "(\<And>x. x \<in> set xs \<Longrightarrow> f x = Inr (g x)) \<Longrightarrow> mapE f xs = Inr (map g xs)"
  by (induction xs) auto

text \<open>\<open>if not c: raise e\<close>, and a loop that only checks.\<close>

definition checkE :: "bool \<Rightarrow> py_error \<Rightarrow> unit res" where
  "checkE c e = (if c then Inr () else Inl e)"

abbreviation thenE :: "unit res \<Rightarrow> 'b res \<Rightarrow> 'b res" where
  "thenE m n \<equiv> bindE m (\<lambda>_. n)"

primrec forE :: "('a \<Rightarrow> unit res) \<Rightarrow> 'a list \<Rightarrow> unit res" where
  "forE f [] = Inr ()"
| "forE f (x # xs) = thenE (f x) (forE f xs)"

lemma checkE_Inr [res_simps]: "checkE c e = Inr u \<longleftrightarrow> c"
  by (simp add: checkE_def)

lemma checkE_Inl [res_simps]: "checkE c e = Inl e' \<longleftrightarrow> \<not> c \<and> e' = e"
  by (auto simp: checkE_def)

lemma forE_Inr [res_simps]: "forE f xs = Inr u \<longleftrightarrow> (\<forall>x \<in> set xs. f x = Inr ())"
  by (induction xs) (auto simp: res_simps)

lemma forE_Inl: "forE f xs = Inl e \<Longrightarrow> \<exists>x \<in> set xs. f x = Inl e"
  by (induction xs) (auto simp: bindE_Inl_iff)

text \<open>The exceptions a computation may end in.\<close>

definition raises_only :: "py_error set \<Rightarrow> 'a res \<Rightarrow> bool" where
  "raises_only E m = (\<forall>e. m = Inl e \<longrightarrow> e \<in> E)"

lemma raises_onlyD: "raises_only E m \<Longrightarrow> m = Inl e \<Longrightarrow> e \<in> E"
  by (simp add: raises_only_def)

lemma raises_only_mono: "raises_only E m \<Longrightarrow> E \<subseteq> E' \<Longrightarrow> raises_only E' m"
  by (auto simp: raises_only_def)

lemma raises_only_Inr [simp]: "raises_only E (Inr x)"
  by (simp add: raises_only_def)

lemma raises_only_Inl [simp]: "raises_only E (Inl e) \<longleftrightarrow> e \<in> E"
  by (simp add: raises_only_def)

lemma raises_only_checkE [simp]: "raises_only E (checkE c e) \<longleftrightarrow> c \<or> e \<in> E"
  by (simp add: checkE_def)

lemma raises_only_bindE:
  "raises_only E m \<Longrightarrow> (\<And>x. m = Inr x \<Longrightarrow> raises_only E (f x)) \<Longrightarrow> raises_only E (bindE m f)"
  by (cases m) auto

lemma raises_only_forE: "(\<And>x. x \<in> set xs \<Longrightarrow> raises_only E (f x)) \<Longrightarrow> raises_only E (forE f xs)"
  by (auto simp: raises_only_def dest: forE_Inl)

lemma raises_only_mapE: "(\<And>x. x \<in> set xs \<Longrightarrow> raises_only E (f x)) \<Longrightarrow> raises_only E (mapE f xs)"
  by (induction xs) (auto intro!: raises_only_bindE)

lemma raises_only_catchE:
  "raises_only E' m \<Longrightarrow> raises_only E h \<Longrightarrow> (\<And>e. e \<in> E' \<Longrightarrow> \<not> p e \<Longrightarrow> e \<in> E) \<Longrightarrow> raises_only E (catchE m p h)"
  by (cases m) auto

lemma raises_only_if:
  "(c \<Longrightarrow> raises_only E m) \<Longrightarrow> (\<not> c \<Longrightarrow> raises_only E n) \<Longrightarrow> raises_only E (if c then m else n)"
  by simp

lemmas raises_only_intros = raises_only_bindE raises_only_forE raises_only_mapE raises_only_if

lemma foldE_append:
  "foldE f s (xs @ ys) = bindE (foldE f s xs) (\<lambda>s'. foldE f s' ys)"
  by (induction xs arbitrary: s) (auto simp: bindE_def split: sum.splits)

lemma foldE_invariant:
  assumes "foldE f s xs = Inr s'" and "P s"
    and "\<And>t x t'. x \<in> set xs \<Longrightarrow> P t \<Longrightarrow> f t x = Inr t' \<Longrightarrow> P t'"
  shows "P s'"
  using assms by (induction xs arbitrary: s) (auto simp: res_simps)

section \<open>Bytes and little-endian integers\<close>

type_synonym byte = "8 word"
type_synonym bytes = "8 word list"

fun le_bytes :: "nat \<Rightarrow> nat \<Rightarrow> bytes" where
  "le_bytes 0 n = []"
| "le_bytes (Suc k) n = word_of_nat n # le_bytes k (n div 256)"

fun le_val :: "bytes \<Rightarrow> nat" where
  "le_val [] = 0"
| "le_val (b # bs) = unat b + 256 * le_val bs"

definition be_bytes :: "nat \<Rightarrow> nat \<Rightarrow> bytes" where
  "be_bytes k n = rev (le_bytes k n)"

definition be_val :: "bytes \<Rightarrow> nat" where
  "be_val bs = le_val (rev bs)"

lemma length_le_bytes [simp]: "length (le_bytes k n) = k"
  by (induction k arbitrary: n) auto

lemma length_be_bytes [simp]: "length (be_bytes k n) = k"
  by (simp add: be_bytes_def)

lemma le_bytes_numeral:
  "le_bytes (numeral k) n = word_of_nat n # le_bytes (pred_numeral k) (n div 256)"
  by (subst numeral_eq_Suc) (rule le_bytes.simps)

lemma unat_byte_of_nat: "unat (word_of_nat n :: byte) = n mod 256"
  by (simp add: unat_of_nat)

lemma byte_of_nat_mod: "(word_of_nat (n mod 256) :: byte) = word_of_nat n"
  by (subst word_unat_eq_iff) (simp add: unat_of_nat)

lemma unat_byte_less: "unat (b :: byte) < 256"
  using unsigned_less [of b, where ?'a = nat] by simp

lemma le_val_le_bytes: "le_val (le_bytes k n) = n mod 256 ^ k"
proof (induction k arbitrary: n)
  case 0
  then show ?case by simp
next
  case (Suc k)
  have "n mod 256 + 256 * (n div 256 mod 256 ^ k) = n mod (256 * 256 ^ k)"
    by (simp add: mod_mult2_eq)
  with Suc show ?case by (simp add: unat_byte_of_nat)
qed

lemma le_val_le_bytes_id [simp]: "n < 256 ^ k \<Longrightarrow> le_val (le_bytes k n) = n"
  by (simp add: le_val_le_bytes)

lemma le_val_less: "le_val bs < 256 ^ length bs"
proof (induction bs)
  case Nil
  then show ?case by simp
next
  case (Cons b bs)
  have "unat b < 256" by (rule unat_byte_less)
  with Cons have "unat b + 256 * le_val bs < 256 + 256 * (256 ^ length bs - 1)"
    by (smt (verit) One_nat_def Suc_pred add_less_le_mono less_Suc_eq_le mult_le_mono2
        nat_zero_less_power_iff zero_less_numeral)
  also have "\<dots> = 256 ^ length (b # bs)"
    by (simp add: diff_mult_distrib2)
  finally show ?case by simp
qed

lemma le_bytes_le_val [simp]: "le_bytes (length bs) (le_val bs) = bs"
proof (induction bs)
  case Nil
  then show ?case by simp
next
  case (Cons b bs)
  have u: "unat b < 256" by (rule unat_byte_less)
  have "word_of_nat (unat b + 256 * le_val bs) = b"
    by (subst word_unat_eq_iff) (subst unat_byte_of_nat, simp add: u)
  moreover have "(unat b + 256 * le_val bs) div 256 = le_val bs" using u by simp
  ultimately show ?case using Cons by simp
qed

lemma le_bytes_le_val_len: "length bs = k \<Longrightarrow> le_bytes k (le_val bs) = bs"
  by auto

lemma be_val_be_bytes [simp]: "n < 256 ^ k \<Longrightarrow> be_val (be_bytes k n) = n"
  by (simp add: be_val_def be_bytes_def)

lemma be_bytes_be_val: "length bs = k \<Longrightarrow> be_bytes k (be_val bs) = bs"
  by (metis be_bytes_def be_val_def le_bytes_le_val length_rev rev_rev_ident)

lemma be_val_less: "be_val bs < 256 ^ length bs"
  using le_val_less [of "rev bs"] by (simp add: be_val_def)

lemma le_bytes_inj: "m < 256 ^ k \<Longrightarrow> n < 256 ^ k \<Longrightarrow> le_bytes k m = le_bytes k n \<Longrightarrow> m = n"
  by (metis le_val_le_bytes_id)

text \<open>\<open>n.to_bytes(k, "little")\<close> raises \<open>OverflowError\<close> out of range,
  \<open>struct.pack\<close> raises \<open>struct.error\<close>.\<close>

definition int_to_le :: "nat \<Rightarrow> int \<Rightarrow> bytes res" where
  "int_to_le k n = (if 0 \<le> n \<and> n < 256 ^ k then Inr (le_bytes k (nat n)) else Inl OverflowError)"

definition int_to_be :: "nat \<Rightarrow> int \<Rightarrow> bytes res" where
  "int_to_be k n = (if 0 \<le> n \<and> n < 256 ^ k then Inr (be_bytes k (nat n)) else Inl OverflowError)"

definition struct_pack :: "nat \<Rightarrow> int \<Rightarrow> bytes res" where
  "struct_pack k n = (if 0 \<le> n \<and> n < 256 ^ k then Inr (le_bytes k (nat n)) else Inl StructError)"

definition struct_pack_be :: "nat \<Rightarrow> int \<Rightarrow> bytes res" where
  "struct_pack_be k n = (if 0 \<le> n \<and> n < 256 ^ k then Inr (be_bytes k (nat n)) else Inl StructError)"

lemma struct_pack_Inr [res_simps]:
  "struct_pack k n = Inr bs \<longleftrightarrow> 0 \<le> n \<and> n < 256 ^ k \<and> bs = le_bytes k (nat n)"
  by (auto simp: struct_pack_def)

lemma int_to_le_Inr [res_simps]:
  "int_to_le k n = Inr bs \<longleftrightarrow> 0 \<le> n \<and> n < 256 ^ k \<and> bs = le_bytes k (nat n)"
  by (auto simp: int_to_le_def)

lemma int_to_be_Inr [res_simps]:
  "int_to_be k n = Inr bs \<longleftrightarrow> 0 \<le> n \<and> n < 256 ^ k \<and> bs = be_bytes k (nat n)"
  by (auto simp: int_to_be_def)

lemma nat_less_256_pow: "0 \<le> n \<Longrightarrow> n < 256 ^ k \<Longrightarrow> nat n < 256 ^ k"
  by (simp add: nat_less_iff)

section \<open>Slices\<close>

definition slice :: "nat \<Rightarrow> nat \<Rightarrow> 'a list \<Rightarrow> 'a list" where
  "slice off len xs = take len (drop off xs)"

lemma length_slice: "off + len \<le> length xs \<Longrightarrow> length (slice off len xs) = len"
  by (simp add: slice_def)

lemma slice_append_mid [simp]: "slice (length pre) (length ys) (pre @ ys @ suf) = ys"
  by (simp add: slice_def)

lemma slice_mid: "off = length pre \<Longrightarrow> len = length ys \<Longrightarrow> slice off len (pre @ ys @ suf) = ys"
  by simp

lemma take_slice: "off + len \<le> length xs \<Longrightarrow> take off xs @ slice off len xs = take (off + len) xs"
  by (simp add: slice_def take_add)

lemma slice_Cons_nth: "off < length xs \<Longrightarrow> slice off 1 xs = [xs ! off]"
  by (simp add: slice_def take_Suc_conv_app_nth hd_drop_conv_nth take_Suc)

lemma slice_slice_append:
  "slice off a xs @ slice (off + a) b xs = slice off (a + b) xs"
  by (simp add: slice_def take_add add.commute)

end
