(* ===== verification/Hex.thy ===== *)
theory Hex
  imports Prelude
begin

text \<open>
  Hexadecimal text as the code reads and writes it: \<open>bytes.hex\<close>, \<open>bytes.fromhex\<close>
  (which skips ASCII white space between the pairs of digits and accepts both cases),
  \<open>str.lower\<close>, and the pattern \<open>^[0-9a-f]{64}$\<close> of \<open>codec.py\<close> used with
  \<open>re.match\<close>, where \<open>$\<close> also matches before a final newline.
\<close>

definition hex_digit :: "nat \<Rightarrow> char" where
  "hex_digit n = (if n < 10 then char_of (48 + n) else char_of (87 + n))"

definition hex_val :: "char \<Rightarrow> nat option" where
  "hex_val c = (let k = of_char c :: nat in
     if 48 \<le> k \<and> k \<le> 57 then Some (k - 48)
     else if 97 \<le> k \<and> k \<le> 102 then Some (k - 87)
     else if 65 \<le> k \<and> k \<le> 70 then Some (k - 55)
     else None)"

definition is_space :: "char \<Rightarrow> bool" where
  "is_space c = (let k = of_char c :: nat in k = 32 \<or> (9 \<le> k \<and> k \<le> 13))"

fun hex_of_bytes :: "bytes \<Rightarrow> string" where
  "hex_of_bytes [] = []"
| "hex_of_bytes (b # bs) =
     hex_digit (unat b div 16) # hex_digit (unat b mod 16) # hex_of_bytes bs"

fun fromhex :: "string \<Rightarrow> bytes option" where
  "fromhex [] = Some []"
| "fromhex [c] = (if is_space c then Some [] else None)"
| "fromhex (c # d # cs) =
     (if is_space c then fromhex (d # cs)
      else case (hex_val c, hex_val d) of
          (Some a, Some b) \<Rightarrow> map_option (\<lambda>bs. word_of_nat (16 * a + b) # bs) (fromhex cs)
        | _ \<Rightarrow> None)"

definition lower_char :: "char \<Rightarrow> char" where
  "lower_char c = (let k = of_char c :: nat in
     if 65 \<le> k \<and> k \<le> 90 then char_of (k + 32) else c)"

definition lower :: "string \<Rightarrow> string" where
  "lower s = map lower_char s"

definition is_lower_hex :: "char \<Rightarrow> bool" where
  "is_lower_hex c = (let k = of_char c :: nat in (48 \<le> k \<and> k \<le> 57) \<or> (97 \<le> k \<and> k \<le> 102))"

definition hex64 :: "string \<Rightarrow> bool" where
  "hex64 s = (length s = 64 \<and> list_all is_lower_hex s)"

definition newline :: char where
  "newline = char_of (10 :: nat)"

text \<open>\<open>HASH_RE.match(s)\<close> of \<open>codec.py\<close>.\<close>

definition hash_re_match :: "string \<Rightarrow> bool" where
  "hash_re_match s = (hex64 s \<or> (s \<noteq> [] \<and> last s = newline \<and> hex64 (butlast s)))"

definition zero_hash :: string where
  "zero_hash = replicate 64 (CHR ''0'')"

section \<open>Round trips\<close>

lemma of_char_char_of_small: "n < 256 \<Longrightarrow> (of_char (char_of n) :: nat) = n"
  by (simp add: of_char_of)

lemma hex_val_digit [simp]: "n < 16 \<Longrightarrow> hex_val (hex_digit n) = Some n"
  by (auto simp: hex_val_def hex_digit_def of_char_char_of_small Let_def)

lemma hex_digit_not_space [simp]: "n < 16 \<Longrightarrow> \<not> is_space (hex_digit n)"
  by (auto simp: is_space_def hex_digit_def of_char_char_of_small Let_def)

lemma is_lower_hex_digit [simp]: "n < 16 \<Longrightarrow> is_lower_hex (hex_digit n)"
  by (auto simp: is_lower_hex_def hex_digit_def of_char_char_of_small Let_def)

lemma is_lower_hexE:
  assumes "is_lower_hex c"
  obtains n where "n < 16" and "c = hex_digit n"
proof -
  define k where "k = (of_char c :: nat)"
  have c: "c = char_of k" by (simp add: k_def)
  from assms have "(48 \<le> k \<and> k \<le> 57) \<or> (97 \<le> k \<and> k \<le> 102)"
    by (simp add: is_lower_hex_def k_def Let_def)
  then show thesis
  proof
    assume "48 \<le> k \<and> k \<le> 57"
    then show thesis by (intro that [of "k - 48"]) (auto simp: hex_digit_def c)
  next
    assume "97 \<le> k \<and> k \<le> 102"
    then show thesis by (intro that [of "k - 87"]) (auto simp: hex_digit_def c)
  qed
qed

lemma lower_hex_digit [simp]: "n < 16 \<Longrightarrow> lower_char (hex_digit n) = hex_digit n"
  by (auto simp: lower_char_def hex_digit_def of_char_char_of_small Let_def)

lemma byte_nibbles: "word_of_nat (16 * (unat b div 16) + unat b mod 16) = (b :: byte)"
  by (simp only: mult_div_mod_eq) simp

lemma unat_div16 [simp]: "unat (b :: byte) div 16 < 16"
  using unat_byte_less [of b] by simp

lemma fromhex_hex [simp]: "fromhex (hex_of_bytes bs) = Some bs"
  by (induction bs) (simp_all add: byte_nibbles)

lemma length_hex [simp]: "length (hex_of_bytes bs) = 2 * length bs"
  by (induction bs) simp_all

lemma hex_inj [simp]: "hex_of_bytes xs = hex_of_bytes ys \<longleftrightarrow> xs = ys"
  by (metis fromhex_hex option.inject)

lemma hex_append: "hex_of_bytes (xs @ ys) = hex_of_bytes xs @ hex_of_bytes ys"
  by (induction xs) simp_all

lemma list_all_hex [simp]: "list_all is_lower_hex (hex_of_bytes bs)"
  by (induction bs) simp_all

lemma lower_hex [simp]: "lower (hex_of_bytes bs) = hex_of_bytes bs"
  by (induction bs) (simp_all add: lower_def)

lemma hex64_hex: "length bs = 32 \<Longrightarrow> hex64 (hex_of_bytes bs)"
  by (simp add: hex64_def)

text \<open>Lower-case hexadecimal text of even length is the \<open>hex\<close> of exactly one string
  of bytes.\<close>

lemma lower_hex_is_hex:
  "list_all is_lower_hex s \<Longrightarrow> even (length s) \<Longrightarrow> \<exists>bs. s = hex_of_bytes bs"
proof (induction s rule: induct_list012)
  case 1
  show ?case by (rule exI [of _ "[]"]) simp
next
  case (2 c)
  then show ?case by simp
next
  case (3 c d cs)
  from "3.prems" obtain a b where a: "a < 16" "c = hex_digit a" and b: "b < 16" "d = hex_digit b"
    by (auto elim!: is_lower_hexE)
  from "3.IH"(1) "3.prems" obtain bs where bs: "cs = hex_of_bytes bs" by auto
  have u: "unat (word_of_nat (16 * a + b) :: byte) = 16 * a + b"
    using a b by (subst unat_byte_of_nat) simp
  show ?case
    by (rule exI [of _ "word_of_nat (16 * a + b) # bs"]) (simp add: u a b bs del: of_nat_add of_nat_mult)
qed

lemma hex64E:
  assumes "hex64 s"
  obtains bs where "s = hex_of_bytes bs" and "length bs = 32"
proof -
  from assms obtain bs where "s = hex_of_bytes bs"
    using lower_hex_is_hex [of s] by (auto simp: hex64_def)
  with assms show thesis by (intro that) (auto simp: hex64_def)
qed

lemma hex64_fromhex: "hex64 s \<Longrightarrow> \<exists>bs. fromhex s = Some bs \<and> length bs = 32 \<and> hex_of_bytes bs = s"
  by (elim hex64E) auto

lemma hex64_lower: "hex64 s \<Longrightarrow> lower s = s"
  by (elim hex64E) auto

lemma lower_char_code:
  "(of_char (lower_char c) :: nat) =
     (let k = of_char c in if 65 \<le> k \<and> k \<le> 90 then k + 32 else k)"
  by (auto simp: lower_char_def Let_def of_char_char_of_small)

lemma lower_char_idem [simp]: "lower_char (lower_char c) = lower_char c"
  by (auto simp: lower_char_def Let_def of_char_char_of_small)

lemma lower_idem [simp]: "lower (lower s) = lower s"
  by (simp add: lower_def)

lemma length_lower [simp]: "length (lower s) = length s"
  by (simp add: lower_def)

lemma lower_Nil [simp]: "lower [] = []" and lower_Cons [simp]: "lower (c # s) = lower_char c # lower s"
  by (simp_all add: lower_def)

lemma hex_val_lower [simp]: "hex_val (lower_char c) = hex_val c"
  by (auto simp: hex_val_def Let_def lower_char_code)

lemma is_space_lower [simp]: "is_space (lower_char c) = is_space c"
  by (auto simp: is_space_def Let_def lower_char_code)

lemma fromhex_lower [simp]: "fromhex (lower s) = fromhex s"
  by (induction s rule: fromhex.induct) (auto split: option.splits)

lemma newline_space: "is_space newline"
  by (simp add: is_space_def newline_def Let_def)

text \<open>A trailing newline changes neither the bytes the text stands for nor whether the
  pattern accepts it.\<close>

lemma fromhex_newline: "fromhex (hex_of_bytes bs @ [newline]) = Some bs"
  by (induction bs) (simp_all add: byte_nibbles newline_space)

lemma hash_re_match_newline: "hex64 s \<Longrightarrow> hash_re_match (s @ [newline])"
  by (simp add: hash_re_match_def)

lemma hash_re_matchE:
  assumes "hash_re_match s"
  obtains bs where "length bs = 32" and "s = hex_of_bytes bs \<or> s = hex_of_bytes bs @ [newline]"
proof -
  from assms consider "hex64 s" | "s \<noteq> []" "last s = newline" "hex64 (butlast s)"
    by (auto simp: hash_re_match_def)
  then show thesis
  proof cases
    case 1
    then show ?thesis by (elim hex64E) (rule that, auto)
  next
    case 2
    then obtain bs where bs: "butlast s = hex_of_bytes bs" "length bs = 32"
      by (elim hex64E)
    with 2 have "s = hex_of_bytes bs @ [newline]"
      by (metis append_butlast_last_id)
    with bs show ?thesis by (intro that) auto
  qed
qed

lemma zero_char: "char_of (48 :: nat) = CHR ''0''"
  by code_simp

lemma zero_hash_hex: "zero_hash = hex_of_bytes (replicate 32 0)"
proof -
  have "hex_of_bytes (replicate n 0) = replicate (2 * n) (CHR ''0'')" for n
    by (induction n) (simp_all add: hex_digit_def zero_char)
  from this [of 32] show ?thesis by (simp add: zero_hash_def)
qed

lemma hex64_zero_hash: "hex64 zero_hash"
  by (simp add: zero_hash_hex hex64_hex)

lemma fromhex_zero_hash [simp]: "fromhex zero_hash = Some (replicate 32 0)"
  by (simp add: zero_hash_hex)

end
