(* ===== verification/Json.thy ===== *)
theory Json
  imports Hex "HOL-Library.Multiset"
begin

text \<open>
  The Python values that reach the code as JSON (transactions, manifests, messages, index
  files) and \<open>json.dumps\<close> in the styles the code calls it with; keys are always sorted.  A
  \<open>dict\<close> is the list of its items in insertion order; its keys are distinct.  A float is
  the text \<open>float.__repr__\<close> prints for it.  A Python \<open>str\<close> is its UTF-8 encoding, where
  the code points U+D800 to U+DFFF (which a \<open>str\<close> may hold, and UTF-8 may not) are encoded
  like their neighbours.
\<close>

datatype json =
    JNull
  | JBool bool
  | JInt int
  | JFloat string
  | JStr string
  | JList "json list"
  | JDict "(string \<times> json) list"

section \<open>Text and bytes\<close>

definition str_bytes :: "string \<Rightarrow> bytes" where
  "str_bytes s = map (\<lambda>c. word_of_nat (of_char c)) s"

definition bytes_str :: "bytes \<Rightarrow> string" where
  "bytes_str bs = map (\<lambda>b. char_of (unat b)) bs"

lemma length_str_bytes [simp]: "length (str_bytes s) = length s"
  by (simp add: str_bytes_def)

lemma length_bytes_str [simp]: "length (bytes_str bs) = length bs"
  by (simp add: bytes_str_def)

lemma of_char_less: "(of_char c :: nat) < 256"
  by (metis char_of_char of_char_of mod_less_divisor zero_less_numeral)

lemma bytes_str_str_bytes [simp]: "bytes_str (str_bytes s) = s"
proof -
  have "unat (word_of_nat (of_char c) :: byte) = of_char c" for c
    using of_char_less [of c] by (simp add: unat_byte_of_nat)
  then show ?thesis by (simp add: str_bytes_def bytes_str_def comp_def)
qed

lemma str_bytes_bytes_str [simp]: "str_bytes (bytes_str bs) = bs"
proof -
  have "word_of_nat (of_char (char_of (unat b) :: char)) = b" for b :: byte
    using unat_byte_less [of b] by (simp add: of_char_of)
  then show ?thesis by (simp add: str_bytes_def bytes_str_def comp_def)
qed

lemma str_bytes_inj [simp]: "str_bytes s = str_bytes t \<longleftrightarrow> s = t"
  by (metis bytes_str_str_bytes)

lemma str_bytes_append [simp]: "str_bytes (s @ t) = str_bytes s @ str_bytes t"
  by (simp add: str_bytes_def)

text \<open>The code points a text stands for, \<open>None\<close> where the bytes are not UTF-8: overlong
  forms are refused, and surrogates when \<open>strict\<close>, as \<open>decode("utf-8")\<close> does.\<close>

definition utf8_cont :: "char \<Rightarrow> nat option" where
  "utf8_cont c = (let k = of_char c :: nat in if 128 \<le> k \<and> k < 192 then Some (k - 128) else None)"

fun text_points :: "bool \<Rightarrow> string \<Rightarrow> nat list option" where
  "text_points strict [] = Some []"
| "text_points strict (c # cs) =
     (let b = of_char c :: nat in
      if b < 128 then map_option ((#) b) (text_points strict cs)
      else if 194 \<le> b \<and> b \<le> 223 then
        (case cs of
           c1 # r \<Rightarrow> (case utf8_cont c1 of
               Some x1 \<Rightarrow> map_option ((#) ((b - 192) * 64 + x1)) (text_points strict r)
             | None \<Rightarrow> None)
         | _ \<Rightarrow> None)
      else if 224 \<le> b \<and> b \<le> 239 then
        (case cs of
           c1 # c2 # r \<Rightarrow> (case (utf8_cont c1, utf8_cont c2) of
               (Some x1, Some x2) \<Rightarrow>
                 (if (b = 224 \<and> x1 < 32) \<or> (strict \<and> b = 237 \<and> 32 \<le> x1) then None
                  else map_option ((#) ((b - 224) * 4096 + x1 * 64 + x2)) (text_points strict r))
             | _ \<Rightarrow> None)
         | _ \<Rightarrow> None)
      else if 240 \<le> b \<and> b \<le> 244 then
        (case cs of
           c1 # c2 # c3 # r \<Rightarrow> (case (utf8_cont c1, utf8_cont c2, utf8_cont c3) of
               (Some x1, Some x2, Some x3) \<Rightarrow>
                 (if (b = 240 \<and> x1 < 16) \<or> (b = 244 \<and> 16 \<le> x1) then None
                  else map_option ((#) ((b - 240) * 262144 + x1 * 4096 + x2 * 64 + x3))
                         (text_points strict r))
             | _ \<Rightarrow> None)
         | _ \<Rightarrow> None)
      else None)"

definition utf8_valid :: "string \<Rightarrow> bool" where
  "utf8_valid s = (text_points True s \<noteq> None)"

definition str_valid :: "string \<Rightarrow> bool" where
  "str_valid s = (text_points False s \<noteq> None)"

definition decode_utf8 :: "bytes \<Rightarrow> string res" where
  "decode_utf8 bs = (if utf8_valid (bytes_str bs) then Inr (bytes_str bs) else Inl UnicodeError)"

definition encode_utf8 :: "string \<Rightarrow> bytes res" where
  "encode_utf8 s = (if utf8_valid s then Inr (str_bytes s) else Inl UnicodeError)"

text \<open>Without surrogates both readings of a text agree.\<close>

lemma text_points_strict: "text_points True s = Some ps \<Longrightarrow> text_points False s = Some ps"
proof (induction "True" s arbitrary: ps rule: text_points.induct)
  case (2 c cs)
  then show ?case
    by (auto simp: Let_def split: if_split_asm list.split_asm option.split_asm)
qed simp

lemma utf8_str_valid: "utf8_valid s \<Longrightarrow> str_valid s"
  by (auto simp: utf8_valid_def str_valid_def dest: text_points_strict)

lemma utf8_valid_ascii: "list_all (\<lambda>c. (of_char c :: nat) < 128) s \<Longrightarrow> utf8_valid s"
  by (induction s) (auto simp: utf8_valid_def Let_def)

lemma hex_digit_ascii: "n < 16 \<Longrightarrow> (of_char (hex_digit n) :: nat) < 128"
  by (simp add: hex_digit_def of_char_char_of_small)

lemma utf8_valid_hex [simp]: "utf8_valid (hex_of_bytes bs)"
  by (rule utf8_valid_ascii, induction bs) (simp_all add: hex_digit_ascii)

lemma decode_utf8_str_bytes [simp]: "utf8_valid s \<Longrightarrow> decode_utf8 (str_bytes s) = Inr s"
  by (simp add: decode_utf8_def)

section \<open>Decimal integers and escaped text\<close>

fun nat_text :: "nat \<Rightarrow> string" where
  "nat_text n = (if n < 10 then [char_of (48 + n)]
                 else nat_text (n div 10) @ [char_of (48 + n mod 10)])"

declare nat_text.simps [simp del]

definition int_text :: "int \<Rightarrow> string" where
  "int_text i = (if i < 0 then CHR ''-'' # nat_text (nat (- i)) else nat_text (nat i))"

definition hex4 :: "nat \<Rightarrow> string" where
  "hex4 n = [hex_digit (n div 4096 mod 16), hex_digit (n div 256 mod 16),
             hex_digit (n div 16 mod 16), hex_digit (n mod 16)]"

definition backslash :: char where
  "backslash = char_of (92 :: nat)"

definition escape_point :: "nat \<Rightarrow> string" where
  "escape_point p =
     (if p = 34 then [backslash, CHR 0x22]
      else if p = 92 then [backslash, backslash]
      else if p = 8 then [backslash, CHR ''b'']
      else if p = 9 then [backslash, CHR ''t'']
      else if p = 10 then [backslash, CHR ''n'']
      else if p = 12 then [backslash, CHR ''f'']
      else if p = 13 then [backslash, CHR ''r'']
      else if 32 \<le> p \<and> p \<le> 126 then [char_of p]
      else if p < 65536 then backslash # CHR ''u'' # hex4 p
      else backslash # CHR ''u'' # hex4 (55296 + (p - 65536) div 1024)
             @ backslash # CHR ''u'' # hex4 (56320 + (p - 65536) mod 1024))"

definition text_json :: "string \<Rightarrow> string option" where
  "text_json s = map_option (\<lambda>ps. CHR 0x22 # concat (map escape_point ps) @ [CHR 0x22])
                   (text_points False s)"

text \<open>The same with \<open>ensure_ascii=False\<close>: only the quote, the backslash and control
  characters are escaped.\<close>

definition escape_raw :: "char \<Rightarrow> string" where
  "escape_raw c = (let k = of_char c :: nat in
     if k = 34 \<or> k = 92 \<or> k < 32 then escape_point k else [c])"

definition raw_text :: "string \<Rightarrow> string" where
  "raw_text s = CHR 0x22 # concat (map escape_raw s) @ [CHR 0x22]"

section \<open>json.dumps\<close>

fun join :: "string \<Rightarrow> string list \<Rightarrow> string" where
  "join sep [] = []"
| "join sep [x] = x"
| "join sep (x # y # xs) = x @ sep @ join sep (y # xs)"

text \<open>The arguments of a call: \<open>ensure_ascii\<close>, \<open>allow_nan\<close>, the two separators and the
  indent.\<close>

record json_style =
  js_ascii :: bool
  js_nan :: bool
  js_item :: string
  js_key :: string
  js_indent :: "nat option"

definition canonical_style :: json_style where
  "canonical_style = \<lparr>js_ascii = True, js_nan = False, js_item = '','', js_key = '':'', js_indent = None\<rparr>"

definition compact_style :: json_style where
  "compact_style = canonical_style\<lparr>js_nan := True\<rparr>"

definition record_style :: json_style where
  "record_style = compact_style\<lparr>js_ascii := False\<rparr>"

definition default_style :: json_style where
  "default_style = \<lparr>js_ascii = True, js_nan = True, js_item = '', '', js_key = '': '', js_indent = None\<rparr>"

definition indent_style :: json_style where
  "indent_style = \<lparr>js_ascii = True, js_nan = True, js_item = '','', js_key = '': '', js_indent = Some 2\<rparr>"

lemmas style_defs = canonical_style_def compact_style_def record_style_def default_style_def indent_style_def

definition finite_float :: "string \<Rightarrow> bool" where
  "finite_float f = (f \<notin> {''nan'', ''inf'', ''-inf''})"

definition nan_text :: "string \<Rightarrow> string" where
  "nan_text f = (if f = ''nan'' then ''NaN'' else if f = ''inf'' then ''Infinity'' else ''-Infinity'')"

definition style_text :: "json_style \<Rightarrow> string \<Rightarrow> string option" where
  "style_text st s = (if js_ascii st then text_json s else Some (raw_text s))"

definition style_float :: "json_style \<Rightarrow> string \<Rightarrow> string option" where
  "style_float st f = (if finite_float f then Some f else if js_nan st then Some (nan_text f) else None)"

text \<open>The line break before an item at depth \<open>d\<close>.\<close>

definition line_break :: "json_style \<Rightarrow> nat \<Rightarrow> string" where
  "line_break st d = (case js_indent st of None \<Rightarrow> [] | Some n \<Rightarrow> newline # replicate (n * d) CHR '' '')"

definition bracket :: "json_style \<Rightarrow> nat \<Rightarrow> string \<Rightarrow> string \<Rightarrow> string list \<Rightarrow> string" where
  "bracket st d op cl ts =
     (if ts = [] then op @ cl
      else op @ line_break st (Suc d) @ join (js_item st @ line_break st (Suc d)) ts @ line_break st d @ cl)"

text \<open>\<open>jdump_items\<close> renders the items of a \<open>dict\<close> in the order they are stored;
  the sort by key happens where the pieces are joined.\<close>

fun jdump :: "json_style \<Rightarrow> nat \<Rightarrow> json \<Rightarrow> string option"
  and jdump_list :: "json_style \<Rightarrow> nat \<Rightarrow> json list \<Rightarrow> string list option"
  and jdump_items :: "json_style \<Rightarrow> nat \<Rightarrow> (string \<times> json) list \<Rightarrow> (string \<times> string) list option" where
  "jdump st d JNull = Some ''null''"
| "jdump st d (JBool b) = Some (if b then ''true'' else ''false'')"
| "jdump st d (JInt i) = Some (int_text i)"
| "jdump st d (JFloat f) = style_float st f"
| "jdump st d (JStr s) = style_text st s"
| "jdump st d (JList xs) = map_option (bracket st d ''['' '']'') (jdump_list st (Suc d) xs)"
| "jdump st d (JDict kvs) =
     map_option (\<lambda>items. bracket st d ''{'' ''}'' (map snd (sort_key fst items))) (jdump_items st (Suc d) kvs)"
| "jdump_list st d [] = Some []"
| "jdump_list st d (x # xs) =
     (case jdump st d x of None \<Rightarrow> None | Some t \<Rightarrow> map_option ((#) t) (jdump_list st d xs))"
| "jdump_items st d [] = Some []"
| "jdump_items st d ((k, v) # kvs) =
     (case (style_text st k, jdump st d v) of
        (Some kt, Some vt) \<Rightarrow> map_option ((#) (k, kt @ js_key st @ vt)) (jdump_items st d kvs)
      | _ \<Rightarrow> None)"

definition json_dumps :: "json_style \<Rightarrow> json \<Rightarrow> string res" where
  "json_dumps st j = of_option ValueError (jdump st 0 j)"

definition canonical_json :: "json \<Rightarrow> bytes res" where
  "canonical_json j = bindE (json_dumps canonical_style j) (\<lambda>t. Inr (str_bytes t))"

text \<open>The values a call writes: no non-finite float unless it is allowed, and only texts of
  code points.\<close>

definition str_ok :: "json_style \<Rightarrow> string \<Rightarrow> bool" where
  "str_ok st s = (js_ascii st \<longrightarrow> str_valid s)"

fun dumps_ok :: "json_style \<Rightarrow> json \<Rightarrow> bool" where
  "dumps_ok st (JFloat f) = (finite_float f \<or> js_nan st)"
| "dumps_ok st (JStr s) = str_ok st s"
| "dumps_ok st (JList xs) = (\<forall>x \<in> set xs. dumps_ok st x)"
| "dumps_ok st (JDict d) = (\<forall>(k, v) \<in> set d. str_ok st k \<and> dumps_ok st v)"
| "dumps_ok st _ = True"

abbreviation json_ok :: "json \<Rightarrow> bool" where
  "json_ok \<equiv> dumps_ok canonical_style"

lemma str_ok_utf8 [simp]: "utf8_valid s \<Longrightarrow> str_ok st s"
  by (simp add: str_ok_def utf8_str_valid)

lemma style_text_None: "style_text st s = None \<longleftrightarrow> \<not> str_ok st s"
  by (simp add: style_text_def text_json_def str_ok_def str_valid_def)

lemma jdump_None:
  "jdump st d j = None \<longleftrightarrow> \<not> dumps_ok st j"
  "jdump_list st d xs = None \<longleftrightarrow> \<not> (\<forall>x \<in> set xs. dumps_ok st x)"
  "jdump_items st d kvs = None \<longleftrightarrow> \<not> (\<forall>(k, v) \<in> set kvs. str_ok st k \<and> dumps_ok st v)"
proof (induction st d j and st d xs and st d kvs rule: jdump_jdump_list_jdump_items.induct)
  case (11 st d k v kvs)
  then show ?case
    by (cases "style_text st k"; cases "jdump st d v") (auto simp flip: style_text_None)
qed (auto simp: style_text_None style_float_def split: option.splits)

lemma canonical_json_Inr: "(\<exists>b. canonical_json j = Inr b) \<longleftrightarrow> json_ok j"
  using jdump_None(1) [of canonical_style 0 j]
  by (cases "jdump canonical_style 0 j") (auto simp: canonical_json_def json_dumps_def)

section \<open>Dictionaries\<close>

definition dget :: "(string \<times> json) list \<Rightarrow> string \<Rightarrow> json \<Rightarrow> json" where
  "dget d k dflt = (case map_of d k of Some v \<Rightarrow> v | None \<Rightarrow> dflt)"

definition dindex :: "(string \<times> json) list \<Rightarrow> string \<Rightarrow> json res" where
  "dindex d k = of_option KeyError (map_of d k)"

definition dkeys :: "(string \<times> json) list \<Rightarrow> string set" where
  "dkeys d = fst ` set d"

definition drop_keys :: "string list \<Rightarrow> (string \<times> json) list \<Rightarrow> (string \<times> json) list" where
  "drop_keys ks d = filter (\<lambda>(k, v). k \<notin> set ks) d"

lemma dindex_Inr [res_simps]: "dindex d k = Inr v \<longleftrightarrow> map_of d k = Some v"
  by (simp add: dindex_def res_simps)

lemma dkeys_map_of: "k \<in> dkeys d \<longleftrightarrow> (\<exists>v. map_of d k = Some v)"
  by (metis dkeys_def map_of_eq_None_iff not_None_eq)

lemma dindex_present: "k \<in> dkeys d \<Longrightarrow> dindex d k = Inr (dget d k e)"
  by (auto simp: dkeys_map_of dindex_def dget_def)

lemma raises_only_dindex: "k \<in> dkeys d \<or> KeyError \<in> E \<Longrightarrow> raises_only E (dindex d k)"
  by (auto simp: dkeys_map_of dindex_def of_option_def split: option.splits)

text \<open>The order in which items were inserted does not show in the canonical text.\<close>

lemma sort_key_fst_perm:
  assumes "mset xs = mset ys" and "distinct (map fst xs)"
  shows "sort_key fst xs = sort_key fst ys"
proof (rule map_sorted_distinct_set_unique [where f = fst])
  have d: "distinct (map fst zs)" if "mset zs = mset xs" for zs
    using that assms(2) by (metis mset_map mset_eq_imp_distinct_iff)
  show "distinct (map fst (sort_key fst xs))" and "distinct (map fst (sort_key fst ys))"
    by (rule d, simp add: assms(1))+
  have "set xs = set ys" using assms(1) by (rule mset_eq_setD)
  then show "set (sort_key fst xs) = set (sort_key fst ys)"
    and "inj_on fst (set (sort_key fst xs) \<union> set (sort_key fst ys))"
    using assms(2) by (simp_all add: distinct_map)
qed simp_all

lemma jdump_items_cons_Some:
  "jdump_items st d (kv # kvs) = Some ts \<longleftrightarrow>
   (\<exists>kt vt us. style_text st (fst kv) = Some kt \<and> jdump st d (snd kv) = Some vt
      \<and> jdump_items st d kvs = Some us \<and> ts = (fst kv, kt @ js_key st @ vt) # us)"
  by (cases kv) (auto split: option.splits)

text \<open>The text of an item of a \<open>dict\<close>.\<close>

definition item_text :: "json_style \<Rightarrow> nat \<Rightarrow> string \<times> json \<Rightarrow> string" where
  "item_text st d kv = the (style_text st (fst kv)) @ js_key st @ the (jdump st d (snd kv))"

lemma jdump_items_set:
  "jdump_items st d kvs = Some ts \<Longrightarrow> ts = map (\<lambda>kv. (fst kv, item_text st d kv)) kvs"
  by (induction kvs arbitrary: ts)
    (auto simp: jdump_items_cons_Some item_text_def simp del: jdump_items.simps(2))

lemma jdump_list_set: "jdump_list st d xs = Some ts \<Longrightarrow> ts = map (\<lambda>x. the (jdump st d x)) xs"
  by (induction xs arbitrary: ts) (auto split: option.split_asm)

lemma canonical_json_order:
  assumes "mset kvs = mset kvs'" and "distinct (map fst kvs)"
  shows "canonical_json (JDict kvs) = canonical_json (JDict kvs')"
proof (cases "jdump_items canonical_style 1 kvs")
  case None
  moreover have "set kvs = set kvs'" using assms(1) by (rule mset_eq_setD)
  ultimately have "jdump_items canonical_style 1 kvs' = None" unfolding jdump_None by simp
  with None show ?thesis by (simp add: canonical_json_def json_dumps_def)
next
  case (Some ts)
  have "set kvs = set kvs'" using assms(1) by (rule mset_eq_setD)
  moreover from Some have "jdump_items canonical_style 1 kvs \<noteq> None" by simp
  ultimately have "jdump_items canonical_style 1 kvs' \<noteq> None" unfolding jdump_None by simp
  then obtain ts' where ts': "jdump_items canonical_style 1 kvs' = Some ts'" by auto
  note eqs = jdump_items_set [OF Some] jdump_items_set [OF ts']
  have "mset ts = mset ts'"
    by (subst eqs(1), subst eqs(2)) (simp only: mset_map assms(1))
  moreover have "distinct (map fst ts)" using assms(2) by (simp add: eqs comp_def)
  ultimately have "sort_key fst ts = sort_key fst ts'" by (rule sort_key_fst_perm)
  with Some ts' show ?thesis by (simp add: canonical_json_def json_dumps_def)
qed

end
