(* ===== verification/Sha256.thy ===== *)
theory Sha256
  imports Prelude
begin

unbundle bit_operations_syntax

text \<open>
  SHA-256 (FIPS 180-4), the function behind \<open>hashlib.sha256(data).digest()\<close>.  The
  rest of the development is stated for any hash function; this theory supplies the
  concrete one, proves that a digest has 32 bytes, and gives rewrite rules with which
  the simplifier computes digests inside the kernel (used for the genesis constants).
\<close>

type_synonym u32 = "32 word"
type_synonym sha_state = "u32 \<times> u32 \<times> u32 \<times> u32 \<times> u32 \<times> u32 \<times> u32 \<times> u32"

definition add32 :: "u32 \<Rightarrow> u32 \<Rightarrow> u32" where
  "add32 x y = x + y"

definition rotr32 :: "nat \<Rightarrow> u32 \<Rightarrow> u32" where
  "rotr32 n x = drop_bit n x OR push_bit (32 - n) x"

definition small_sigma0 :: "u32 \<Rightarrow> u32" where
  "small_sigma0 x = rotr32 7 x XOR rotr32 18 x XOR drop_bit 3 x"

definition small_sigma1 :: "u32 \<Rightarrow> u32" where
  "small_sigma1 x = rotr32 17 x XOR rotr32 19 x XOR drop_bit 10 x"

definition big_sigma0 :: "u32 \<Rightarrow> u32" where
  "big_sigma0 x = rotr32 2 x XOR rotr32 13 x XOR rotr32 22 x"

definition big_sigma1 :: "u32 \<Rightarrow> u32" where
  "big_sigma1 x = rotr32 6 x XOR rotr32 11 x XOR rotr32 25 x"

definition ch32 :: "u32 \<Rightarrow> u32 \<Rightarrow> u32 \<Rightarrow> u32" where
  "ch32 x y z = (x AND y) XOR (NOT x AND z)"

definition maj32 :: "u32 \<Rightarrow> u32 \<Rightarrow> u32 \<Rightarrow> u32" where
  "maj32 x y z = (x AND y) XOR (x AND z) XOR (y AND z)"

text \<open>The round constants and the initial state, in decimal.\<close>

definition sha_k :: "u32 list" where
  "sha_k = [
   1116352408, 1899447441, 3049323471, 3921009573, 961987163, 1508970993,
   2453635748, 2870763221, 3624381080, 310598401, 607225278, 1426881987,
   1925078388, 2162078206, 2614888103, 3248222580, 3835390401, 4022224774,
   264347078, 604807628, 770255983, 1249150122, 1555081692, 1996064986,
   2554220882, 2821834349, 2952996808, 3210313671, 3336571891, 3584528711,
   113926993, 338241895, 666307205, 773529912, 1294757372, 1396182291,
   1695183700, 1986661051, 2177026350, 2456956037, 2730485921, 2820302411,
   3259730800, 3345764771, 3516065817, 3600352804, 4094571909, 275423344,
   430227734, 506948616, 659060556, 883997877, 958139571, 1322822218,
   1537002063, 1747873779, 1955562222, 2024104815, 2227730452, 2361852424,
   2428436474, 2756734187, 3204031479, 3329325298]"

definition sha_h0 :: sha_state where
  "sha_h0 =
    (1779033703, 3144134277, 1013904242, 2773480762, 1359893119, 2600822924, 528734635, 1541459225)"

definition be32 :: "byte \<Rightarrow> byte \<Rightarrow> byte \<Rightarrow> byte \<Rightarrow> u32" where
  "be32 a b c d = push_bit 24 (ucast a) OR push_bit 16 (ucast b) OR push_bit 8 (ucast c) OR ucast d"

fun words_of :: "bytes \<Rightarrow> u32 list" where
  "words_of (a # b # c # d # xs) = be32 a b c d # words_of xs"
| "words_of _ = []"

definition bytes_of32 :: "u32 \<Rightarrow> bytes" where
  "bytes_of32 x =
     [ucast (drop_bit 24 x), ucast (drop_bit 16 x), ucast (drop_bit 8 x), ucast x]"

text \<open>The message schedule: \<open>sched [16..<64]\<close> extends the 16 words of a block to 64;
  the list argument counts the words still to make.\<close>

fun sched :: "nat list \<Rightarrow> u32 list \<Rightarrow> u32 list" where
  "sched (t # ts) [w0, w1, w2, w3, w4, w5, w6, w7, w8, w9, w10, w11, w12, w13, w14, w15] =
     w0 # sched ts [w1, w2, w3, w4, w5, w6, w7, w8, w9, w10, w11, w12, w13, w14, w15,
       add32 (add32 (add32 (small_sigma1 w14) w9) (small_sigma0 w1)) w0]"
| "sched ts ws = ws"

fun sha_next :: "u32 \<Rightarrow> u32 \<Rightarrow> sha_state \<Rightarrow> sha_state" where
  "sha_next t1 t2 (a, b, c, d, e, f, g, h) = (add32 t1 t2, a, b, c, add32 d t1, e, f, g)"

fun sha_rounds :: "u32 list \<Rightarrow> u32 list \<Rightarrow> sha_state \<Rightarrow> sha_state" where
  "sha_rounds (k # ks) (w # ws) (a, b, c, d, e, f, g, h) =
     sha_rounds ks ws
       (sha_next (add32 (add32 (add32 (add32 h (big_sigma1 e)) (ch32 e f g)) k) w)
          (add32 (big_sigma0 a) (maj32 a b c)) (a, b, c, d, e, f, g, h))"
| "sha_rounds _ _ st = st"

fun sha_add :: "sha_state \<Rightarrow> sha_state \<Rightarrow> sha_state" where
  "sha_add (a, b, c, d, e, f, g, h) (a', b', c', d', e', f', g', h') =
     (add32 a a', add32 b b', add32 c c', add32 d d',
      add32 e e', add32 f f', add32 g g', add32 h h')"

definition sha_compress :: "sha_state \<Rightarrow> u32 list \<Rightarrow> sha_state" where
  "sha_compress st blk = sha_add st (sha_rounds sha_k (sched [16..<64] blk) st)"

definition sha_pad :: "bytes \<Rightarrow> bytes" where
  "sha_pad m = m @ 0x80 # replicate ((119 - length m mod 64) mod 64) 0 @ be_bytes 8 (8 * length m)"

function sha_blocks :: "sha_state \<Rightarrow> u32 list \<Rightarrow> sha_state" where
  "sha_blocks st ws =
     (if length ws < 16 then st else sha_blocks (sha_compress st (take 16 ws)) (drop 16 ws))"
  by pat_completeness auto
termination
  by (relation "measure (\<lambda>(st, ws). length ws)") auto

declare sha_blocks.simps [simp del]

fun sha_digest :: "sha_state \<Rightarrow> bytes" where
  "sha_digest (a, b, c, d, e, f, g, h) = concat (map bytes_of32 [a, b, c, d, e, f, g, h])"

definition sha256 :: "bytes \<Rightarrow> bytes" where
  "sha256 m = sha_digest (sha_blocks sha_h0 (words_of (sha_pad m)))"

lemma length_sha256 [simp]: "length (sha256 m) = 32"
proof -
  have "length (sha_digest st) = 32" for st
    by (cases st rule: sha_digest.cases) (simp add: bytes_of32_def)
  then show ?thesis by (simp add: sha256_def)
qed

section \<open>Evaluation\<close>

text \<open>The simplifier computes on word numerals without reducing them modulo the word
  size; masking forces the reduction.\<close>

lemma mask_all32: "x AND 0xFFFFFFFF = (x :: u32)"
proof -
  have m: "mask 32 = (0xFFFFFFFF :: u32)" by (simp add: mask_eq_exp_minus_1)
  have "take_bit 32 x = x" by (rule take_bit_word_eq_self) simp
  then show ?thesis unfolding take_bit_eq_mask m .
qed

lemma mask_all8: "x AND 0xFF = (x :: byte)"
proof -
  have m: "mask 8 = (0xFF :: byte)" by (simp add: mask_eq_exp_minus_1)
  have "take_bit 8 x = x" by (rule take_bit_word_eq_self) simp
  then show ?thesis unfolding take_bit_eq_mask m .
qed

lemma add32_eval: "add32 x y = (x + y) AND 0xFFFFFFFF"
  by (simp add: mask_all32 add32_def)

lemma rotr32_eval: "rotr32 n x = (drop_bit n x OR push_bit (32 - n) x) AND 0xFFFFFFFF"
  by (simp add: mask_all32 rotr32_def)

lemma ch32_eval: "ch32 x y z = (x AND y) XOR ((x XOR 0xFFFFFFFF) AND z)"
proof -
  have "(0xFFFFFFFF :: u32) = -1" by simp
  then have "NOT x = x XOR 0xFFFFFFFF" by (metis bit.xor_one_right)
  then show ?thesis by (simp add: ch32_def)
qed

lemma bytes_of32_eval:
  "bytes_of32 x = [ucast (drop_bit 24 x) AND 0xFF, ucast (drop_bit 16 x) AND 0xFF,
                   ucast (drop_bit 8 x) AND 0xFF, ucast x AND 0xFF]"
  by (simp add: bytes_of32_def mask_all8)

lemma upt16_64:
  "[16..<64] = [16, 17, 18, 19, 20, 21, 22, 23, 24, 25, 26, 27, 28, 29, 30, 31, 32, 33, 34,
     35, 36, 37, 38, 39, 40, 41, 42, 43, 44, 45, 46, 47, 48, 49, 50, 51, 52, 53, 54, 55, 56,
     57, 58, 59, 60, 61, 62, 63]"
  by (simp add: upt_rec)

lemma be_bytes8_eval:
  "be_bytes 8 n = [word_of_nat (n div 72057594037927936), word_of_nat (n div 281474976710656),
     word_of_nat (n div 1099511627776), word_of_nat (n div 4294967296),
     word_of_nat (n div 16777216), word_of_nat (n div 65536),
     word_of_nat (n div 256), word_of_nat n]"
proof -
  have eight: "(8 :: nat) = Suc (Suc (Suc (Suc (Suc (Suc (Suc (Suc 0)))))))" by simp
  show ?thesis
    unfolding be_bytes_def eight by (simp flip: div_mult2_eq)
qed

lemma replicate_numeral_eval:
  "replicate (numeral k) x = x # replicate (pred_numeral k) x"
  by (simp add: numeral_eq_Suc)

lemmas sha_round_eval =
  small_sigma0_def small_sigma1_def big_sigma0_def big_sigma1_def ch32_eval maj32_def
  rotr32_eval add32_eval

lemma sha_blocks_Nil: "sha_blocks st [] = st"
  by (subst sha_blocks.simps) simp

lemma sha_blocks_16:
  "sha_blocks st (w0 # w1 # w2 # w3 # w4 # w5 # w6 # w7 # w8 # w9 # w10 # w11 # w12 # w13
      # w14 # w15 # ws) =
   sha_blocks (sha_compress st [w0, w1, w2, w3, w4, w5, w6, w7, w8, w9, w10, w11, w12, w13,
      w14, w15]) ws"
  by (subst sha_blocks.simps) simp

text \<open>A check against the standard's example: the digest of \<open>abc\<close>.\<close>

lemma sha256_abc:
  "sha256 [97, 98, 99] = [186, 120, 22, 191, 143, 1, 207, 234, 65, 65, 64, 222, 93, 174, 34, 35, 176, 3, 97, 163, 150, 23, 122, 156, 180, 16, 255, 97, 242, 0, 21, 173]"
proof -
  have pad: "words_of (sha_pad [97, 98, 99]) = [0x61626380, 0x00000000, 0x00000000, 0x00000000, 0x00000000, 0x00000000, 0x00000000, 0x00000000, 0x00000000, 0x00000000, 0x00000000, 0x00000000, 0x00000000, 0x00000000, 0x00000000, 0x00000018]"
    by (simp add: sha_pad_def be_bytes8_eval be32_def replicate_numeral_eval)
  have step: "sha_compress sha_h0 [0x61626380, 0x00000000, 0x00000000, 0x00000000, 0x00000000, 0x00000000, 0x00000000, 0x00000000, 0x00000000, 0x00000000, 0x00000000, 0x00000000, 0x00000000, 0x00000000, 0x00000000, 0x00000018] = (0xba7816bf, 0x8f01cfea, 0x414140de, 0x5dae2223, 0xb00361a3, 0x96177a9c, 0xb410ff61, 0xf20015ad)"
    by (simp add: sha_compress_def sha_h0_def sha_k_def upt16_64 sha_round_eval)
  show ?thesis
    unfolding sha256_def pad sha_blocks_16 sha_blocks_Nil step
    by (simp add: bytes_of32_eval)
qed

end
