(* ===== verification/Crypto.thy ===== *)
theory Crypto
  imports Json Sha256
begin

text \<open>
  \<open>chainbreaker/crypto.py\<close>: hashing, the Merkle tree, targets and work.  What the
  code takes from outside the repository is the record \<open>env\<close>: the SHA-256 of
  \<open>hashlib\<close> (the theory \<open>Sha256\<close> has it concretely) and Ed25519 of the
  \<open>cryptography\<close> package (whether a 32-byte key loads, whether a signature is
  accepted).  Every definition holds for any such environment.
\<close>

record env =
  sha :: "bytes \<Rightarrow> bytes"
  ed_load :: "bytes \<Rightarrow> bool"
  ed_check :: "bytes \<Rightarrow> bytes \<Rightarrow> bytes \<Rightarrow> bool"

text \<open>A small environment in which the witnesses evaluate: every digest is 32 zero bytes,
  every key loads and every signature is accepted.\<close>

definition demo_env :: env where
  "demo_env = \<lparr>sha = (\<lambda>_. replicate 32 0), ed_load = (\<lambda>_. True), ed_check = (\<lambda>_ _ _. True)\<rparr>"

lemma demo_env_simps [simp]:
  "sha demo_env m = replicate 32 0" "ed_load demo_env k" "ed_check demo_env k m s"
  by (simp_all add: demo_env_def)

section \<open>HashEngine\<close>

definition hash_single_hex :: "env \<Rightarrow> bytes \<Rightarrow> string" where
  "hash_single_hex E d = hex_of_bytes (sha E d)"

definition double_sha256 :: "env \<Rightarrow> bytes \<Rightarrow> bytes" where
  "double_sha256 E d = sha E (sha E d)"

definition hash_double_hex :: "env \<Rightarrow> bytes \<Rightarrow> string" where
  "hash_double_hex E d = hex_of_bytes (double_sha256 E d)"

definition hash_object :: "env \<Rightarrow> json \<Rightarrow> bytes res" where
  "hash_object E j = bindE (canonical_json j) (\<lambda>b. Inr (sha E b))"

definition hash_object_hex :: "env \<Rightarrow> json \<Rightarrow> string res" where
  "hash_object_hex E j = bindE (hash_object E j) (\<lambda>b. Inr (hex_of_bytes b))"

lemma hash_object_Inr: "(\<exists>h. hash_object E j = Inr h) \<longleftrightarrow> json_ok j"
  using canonical_json_Inr [of j] by (auto simp: hash_object_def res_simps)

section \<open>MerkleTree\<close>

text \<open>One pass of the \<open>for i in range(0, len(current), 2)\<close> loop of \<open>_build\<close>.\<close>

fun merkle_next_level :: "env \<Rightarrow> bytes list \<Rightarrow> bytes list" where
  "merkle_next_level E [] = []"
| "merkle_next_level E [l] = [double_sha256 E (l @ l)]"
| "merkle_next_level E (l # r # rest) = double_sha256 E (l @ r) # merkle_next_level E rest"

lemma length_merkle_next_level [simp]:
  "length (merkle_next_level E ls) = (length ls + 1) div 2"
  by (induction E ls rule: merkle_next_level.induct) auto

text \<open>\<open>while len(current) > 1\<close>: the list of all levels, leaves first.\<close>

function merkle_build :: "env \<Rightarrow> bytes list \<Rightarrow> bytes list list" where
  "merkle_build E current =
     (if length current > 1 then current # merkle_build E (merkle_next_level E current)
      else [current])"
  by pat_completeness auto
termination
  by (relation "measure (\<lambda>(E, ls). length ls)") auto

declare merkle_build.simps [simp del]

definition merkle_levels :: "env \<Rightarrow> bytes list \<Rightarrow> bytes list list" where
  "merkle_levels E leaves = (if leaves = [] then [] else merkle_build E leaves)"

definition merkle_tree_root :: "env \<Rightarrow> bytes list \<Rightarrow> bytes option" where
  "merkle_tree_root E leaves =
     (if merkle_levels E leaves = [] then None else Some (last (merkle_levels E leaves) ! 0))"

text \<open>\<open>get_proof\<close>: the loop over \<open>self.levels[:-1]\<close>; \<open>level[index]\<close> out of
  range is an \<open>IndexError\<close>.\<close>

fun proof_loop :: "bytes list list \<Rightarrow> nat \<Rightarrow> bytes list res" where
  "proof_loop [] index = Inr []"
| "proof_loop (level # rest) index =
     (let sibling = (if index mod 2 = 0 then index + 1 else index - 1)
      in bindE (if sibling < length level then Inr (level ! sibling)
                else if index < length level then Inr (level ! index) else Inl IndexError)
           (\<lambda>s. bindE (proof_loop rest (index div 2)) (\<lambda>ss. Inr (s # ss))))"

definition get_proof :: "env \<Rightarrow> bytes list \<Rightarrow> nat \<Rightarrow> bytes list res" where
  "get_proof E leaves index = proof_loop (butlast (merkle_levels E leaves)) index"

fun verify_loop :: "env \<Rightarrow> bytes \<Rightarrow> bytes list \<Rightarrow> nat \<Rightarrow> bytes" where
  "verify_loop E current [] index = current"
| "verify_loop E current (sibling # rest) index =
     verify_loop E
       (if index mod 2 = 0 then double_sha256 E (current @ sibling)
        else double_sha256 E (sibling @ current))
       rest (index div 2)"

definition verify_proof :: "env \<Rightarrow> bytes \<Rightarrow> bytes \<Rightarrow> bytes list \<Rightarrow> nat \<Rightarrow> bool" where
  "verify_proof E root leaf prf index = (verify_loop E leaf prf index = root)"

section \<open>Targets and work\<close>

definition MAX_TARGET :: int where
  "MAX_TARGET = 0x0000FFFF00000000000000000000000000000000000000000000000000000000"

definition MIN_TARGET :: int where
  "MIN_TARGET = 1"

definition target_to_hex :: "int \<Rightarrow> string res" where
  "target_to_hex target = bindE (int_to_be 32 target) (\<lambda>b. Inr (hex_of_bytes b))"

definition hex_to_target :: "string \<Rightarrow> int res" where
  "hex_to_target h = bindE (of_option ValueError (fromhex h)) (\<lambda>b. Inr (int (be_val b)))"

definition work_for_target_v2 :: "int \<Rightarrow> int res" where
  "work_for_target_v2 target = (if target \<le> 0 then Inl ValueError else Inr (MAX_TARGET div target))"

definition check_pow_v2 :: "env \<Rightarrow> bytes \<Rightarrow> int \<Rightarrow> bool" where
  "check_pow_v2 E header target =
     (length header = 149 \<and> \<not> target \<le> 0 \<and> int (be_val (double_sha256 E header)) \<le> target)"

section \<open>Keys and signatures\<close>

text \<open>\<open>decode_public_key\<close> and \<open>verify\<close>; a loaded key is its 32 raw bytes.\<close>

definition decode_public_key :: "env \<Rightarrow> string \<Rightarrow> bytes res" where
  "decode_public_key E hex_key =
     bindE (of_option ValueError (fromhex hex_key))
       (\<lambda>raw. if length raw \<noteq> 32 then Inl ValueError
              else if ed_load E raw then Inr raw else Inl ValueError)"

definition verify :: "env \<Rightarrow> bytes \<Rightarrow> bytes \<Rightarrow> string \<Rightarrow> bool" where
  "verify E pk message signature_hex =
     (case fromhex signature_hex of
        None \<Rightarrow> False
      | Some raw \<Rightarrow> length raw = 64 \<and> ed_check E pk message raw)"

section \<open>Merkle proofs\<close>

text \<open>The sibling that \<open>get_proof\<close> records for an index of a level.\<close>

definition level_sibling :: "bytes list \<Rightarrow> nat \<Rightarrow> bytes" where
  "level_sibling level i =
     (let s = (if i mod 2 = 0 then i + 1 else i - 1)
      in if s < length level then level ! s else level ! i)"

definition merkle_step :: "env \<Rightarrow> bytes \<Rightarrow> bytes \<Rightarrow> nat \<Rightarrow> bytes" where
  "merkle_step E cur sib i =
     (if i mod 2 = 0 then double_sha256 E (cur @ sib) else double_sha256 E (sib @ cur))"

lemma proof_loop_Cons:
  "i < length level \<Longrightarrow>
     proof_loop (level # rest) i =
       bindE (proof_loop rest (i div 2)) (\<lambda>ss. Inr (level_sibling level i # ss))"
  by (simp add: level_sibling_def Let_def)

lemma verify_loop_Cons:
  "verify_loop E cur (s # ss) i = verify_loop E (merkle_step E cur s i) ss (i div 2)"
  by (simp add: merkle_step_def)

lemma merkle_next_level_nth:
  "i < length ls \<Longrightarrow>
     merkle_next_level E ls ! (i div 2) = merkle_step E (ls ! i) (level_sibling ls i) i"
proof (induction E ls arbitrary: i rule: merkle_next_level.induct)
  case (1 E)
  then show ?case by simp
next
  case (2 E l)
  then show ?case by (simp add: merkle_step_def level_sibling_def)
next
  case (3 E l r rest)
  show ?case
  proof (cases "i < 2")
    case True
    then have "i = 0 \<or> i = 1" by auto
    then show ?thesis by (auto simp: merkle_step_def level_sibling_def)
  next
    case False
    then obtain j where i: "i = j + 2" by (metis add.commute le_Suc_ex not_less)
    have j: "j < length rest" using "3.prems" i by simp
    have "level_sibling (l # r # rest) i = level_sibling rest j"
    proof (cases "j mod 2 = 0")
      case True
      then show ?thesis by (simp add: level_sibling_def i Let_def)
    next
      case False
      then obtain k where "j = Suc k" by (metis mod_0 not0_implies_Suc)
      then show ?thesis using False j by (simp add: level_sibling_def i Let_def)
    qed
    then show ?thesis using "3.IH" [OF j] by (simp add: i merkle_step_def)
  qed
qed

lemma merkle_build_not_Nil [simp]: "merkle_build E ls \<noteq> []"
  by (subst merkle_build.simps) simp

lemma merkle_build_proof:
  "i < length ls \<Longrightarrow> \<exists>p. proof_loop (butlast (merkle_build E ls)) i = Inr p
     \<and> verify_loop E (ls ! i) p i = last (merkle_build E ls) ! 0"
proof (induction E ls arbitrary: i rule: merkle_build.induct)
  case (1 E ls)
  show ?case
  proof (cases "length ls > 1")
    case True
    have "i div 2 < length (merkle_next_level E ls)" using "1.prems" by simp
    with "1.IH" [OF True] obtain p where
      p: "proof_loop (butlast (merkle_build E (merkle_next_level E ls))) (i div 2) = Inr p"
        "verify_loop E (merkle_next_level E ls ! (i div 2)) p (i div 2)
           = last (merkle_build E (merkle_next_level E ls)) ! 0"
      by blast
    have "proof_loop (butlast (merkle_build E ls)) i = Inr (level_sibling ls i # p)"
      using True p(1) "1.prems"
      by (subst merkle_build.simps) (simp add: proof_loop_Cons del: proof_loop.simps)
    moreover have "verify_loop E (ls ! i) (level_sibling ls i # p) i = last (merkle_build E ls) ! 0"
      using True p(2) merkle_next_level_nth [OF "1.prems", of E]
      by (subst merkle_build.simps) (simp add: verify_loop_Cons del: verify_loop.simps)
    ultimately show ?thesis by blast
  next
    case False
    with "1.prems" show ?thesis
      by (cases ls) (auto simp: merkle_build.simps [of E "[a]" for a])
  qed
qed

lemma merkle_tree_root_Some:
  "leaves \<noteq> [] \<Longrightarrow> merkle_tree_root E leaves = Some (last (merkle_build E leaves) ! 0)"
  by (simp add: merkle_tree_root_def merkle_levels_def)

text \<open>C26: a Merkle proof produced for a leaf verifies: for every index of a non-empty
  list of leaves \<open>get_proof\<close> returns a proof and \<open>verify_proof\<close> accepts it against
  the root of the tree, for any number of leaves (odd levels included).\<close>

theorem merkle_proof_complete:
  assumes "i < length leaves"
  shows "\<exists>prf root. get_proof E leaves i = Inr prf \<and> merkle_tree_root E leaves = Some root
           \<and> verify_proof E root (leaves ! i) prf i"
proof -
  from assms have "leaves \<noteq> []" by auto
  with merkle_build_proof [OF assms, of E] show ?thesis
    by (auto simp: get_proof_def merkle_levels_def verify_proof_def merkle_tree_root_Some)
qed

theorem merkle_proof_complete_witness:
  "\<exists>prf root. get_proof demo_env [[1], [2], [3]] 2 = Inr prf
     \<and> merkle_tree_root demo_env [[1], [2], [3]] = Some root \<and> verify_proof demo_env root [3] prf 2"
  using merkle_proof_complete [of 2 "[[1], [2], [3]]" demo_env] by simp

text \<open>The byte strings a verification hashes.\<close>

fun verify_inputs :: "env \<Rightarrow> bytes \<Rightarrow> bytes list \<Rightarrow> nat \<Rightarrow> bytes set" where
  "verify_inputs E cur [] i = {}"
| "verify_inputs E cur (s # ss) i =
     insert (if i mod 2 = 0 then cur @ s else s @ cur)
       (verify_inputs E (merkle_step E cur s i) ss (i div 2))"

text \<open>Two different byte strings among \<open>A\<close> and \<open>B\<close> with one double hash.\<close>

definition collides :: "env \<Rightarrow> bytes set \<Rightarrow> bytes set \<Rightarrow> bool" where
  "collides E A B = (\<exists>x \<in> A. \<exists>y \<in> B. x \<noteq> y \<and> double_sha256 E x = double_sha256 E y)"

lemma collides_mono: "collides E A B \<Longrightarrow> A \<subseteq> A' \<Longrightarrow> B \<subseteq> B' \<Longrightarrow> collides E A' B'"
  unfolding collides_def by blast

locale hash_length =
  fixes E :: env
  assumes sha_length: "length (sha E m) = 32"
begin

lemma double_sha_length [simp]: "length (double_sha256 E m) = 32"
  by (simp add: double_sha256_def sha_length)

lemma merkle_step_length [simp]: "length (merkle_step E c s i) = 32"
  by (simp add: merkle_step_def)

lemma hash_double_hex64 [simp]: "hex64 (hash_double_hex E d)"
  by (simp add: hash_double_hex_def hex64_hex)

lemma hash_single_hex64 [simp]: "hex64 (hash_single_hex E d)"
  by (simp add: hash_single_hex_def hex64_hex sha_length)

lemma verify_loop_binding:
  assumes "length leaf = 32" and "length leaf' = 32"
    and "\<forall>s \<in> set p. length s = 32" and "\<forall>s \<in> set p'. length s = 32"
    and "length p = length p'"
    and "verify_loop E leaf p i = verify_loop E leaf' p' i"
  shows "(leaf = leaf' \<and> p = p') \<or> collides E (verify_inputs E leaf p i) (verify_inputs E leaf' p' i)"
  using assms
proof (induction p arbitrary: leaf leaf' p' i)
  case Nil
  then show ?case by simp
next
  case (Cons s ss)
  then obtain t ts where p': "p' = t # ts" by (cases p') auto
  let ?c = "merkle_step E leaf s i" and ?c' = "merkle_step E leaf' t i"
  have "(?c = ?c' \<and> ss = ts) \<or>
      collides E (verify_inputs E ?c ss (i div 2)) (verify_inputs E ?c' ts (i div 2))"
    using Cons.prems p' by (intro Cons.IH) (simp_all add: verify_loop_Cons del: verify_loop.simps)
  then show ?case
  proof
    assume eq: "?c = ?c' \<and> ss = ts"
    have "length s = 32" "length t = 32" using Cons.prems p' by auto
    with eq Cons.prems(1,2) show ?thesis
      by (cases "i mod 2 = 0") (auto simp: merkle_step_def collides_def p')
  next
    assume "collides E (verify_inputs E ?c ss (i div 2)) (verify_inputs E ?c' ts (i div 2))"
    then show ?thesis by (rule disjI2 [OF collides_mono]) (auto simp: p')
  qed
qed

end

text \<open>The environment with the real SHA-256; Ed25519 stays arbitrary.\<close>

definition std_env :: "(bytes \<Rightarrow> bool) \<Rightarrow> (bytes \<Rightarrow> bytes \<Rightarrow> bytes \<Rightarrow> bool) \<Rightarrow> env" where
  "std_env ld ck = \<lparr>sha = sha256, ed_load = ld, ed_check = ck\<rparr>"

interpretation std: hash_length "std_env ld ck" for ld ck
  by unfold_locales (simp add: std_env_def)

text \<open>C27: a Merkle proof binds the leaf: two proofs of one length for one index, accepted
  against one root, are the same proof of the same leaf, or two of the byte strings hashed
  in the two verifications are a collision of the double SHA-256.\<close>

theorem merkle_proof_binding:
  assumes "length leaf = 32" and "length leaf' = 32"
    and "\<forall>s \<in> set prf. length s = 32" and "\<forall>s \<in> set prf'. length s = 32"
    and "length prf = length prf'"
    and "verify_proof (std_env ld ck) root leaf prf i"
    and "verify_proof (std_env ld ck) root leaf' prf' i"
  shows "(leaf = leaf' \<and> prf = prf')
    \<or> collides (std_env ld ck) (verify_inputs (std_env ld ck) leaf prf i)
        (verify_inputs (std_env ld ck) leaf' prf' i)"
  using std.verify_loop_binding [OF assms(1-5)] assms(6,7) by (simp add: verify_proof_def)

theorem merkle_proof_binding_witness:
  "(replicate 32 7 = (replicate 32 7 :: bytes) \<and> [replicate 32 9] = [replicate 32 (9 :: byte)])
    \<or> collides (std_env (\<lambda>_. True) (\<lambda>_ _ _. True))
        (verify_inputs (std_env (\<lambda>_. True) (\<lambda>_ _ _. True)) (replicate 32 7) [replicate 32 9] 1)
        (verify_inputs (std_env (\<lambda>_. True) (\<lambda>_ _ _. True)) (replicate 32 7) [replicate 32 9] 1)"
  by (rule merkle_proof_binding
        [where root = "verify_loop (std_env (\<lambda>_. True) (\<lambda>_ _ _. True)) (replicate 32 7)
                         [replicate 32 9] 1"]) (simp_all add: verify_proof_def)

section \<open>The duplicated last leaf\<close>

lemma merkle_next_level_dup:
  "odd (length ls) \<Longrightarrow> merkle_next_level E (ls @ [last ls]) = merkle_next_level E ls"
  by (induction E ls rule: merkle_next_level.induct) (auto split: if_splits)

lemma merkle_dup_aux:
  assumes "odd (length leaves)" and "1 < length leaves"
  shows "merkle_tree_root E (leaves @ [last leaves]) = merkle_tree_root E leaves"
proof -
  have "last (merkle_build E (leaves @ [last leaves])) = last (merkle_build E leaves)"
    using assms
    by (subst (1 2) merkle_build.simps) (auto simp: merkle_next_level_dup)
  then show ?thesis using assms by (auto simp: merkle_tree_root_def merkle_levels_def)
qed

text \<open>The tree does not commit to the number of leaves: appending a copy of the last
  leaf to an odd number (greater than one) of leaves gives the same root.\<close>

theorem merkle_root_duplicate_leaf:
  assumes "odd (length leaves)" and "1 < length leaves"
  shows "merkle_tree_root E (leaves @ [last leaves]) = merkle_tree_root E leaves"
  by (rule merkle_dup_aux [OF assms])

theorem merkle_root_duplicate_leaf_witness:
  "merkle_tree_root demo_env [[1], [2], [3], [3]] = merkle_tree_root demo_env [[1], [2], [3 :: byte]]"
  using merkle_root_duplicate_leaf [of "[[1], [2], [3]]" demo_env] by simp

section \<open>Targets and work\<close>

lemma target_to_hex_Inr [res_simps]:
  "target_to_hex t = Inr h \<longleftrightarrow> 0 \<le> t \<and> t < 2 ^ 256 \<and> h = hex_of_bytes (be_bytes 32 (nat t))"
proof -
  have "(256 :: int) ^ 32 = 2 ^ 256" by simp
  then show ?thesis by (auto simp: target_to_hex_def res_simps)
qed

lemma nat_less_2_256: "0 \<le> t \<Longrightarrow> t < 2 ^ 256 \<Longrightarrow> nat t < 256 ^ 32"
  by (simp add: nat_less_iff)

text \<open>Writing a target and reading it back.\<close>

lemma hex_to_target_to_hex: "target_to_hex t = Inr h \<Longrightarrow> hex_to_target h = Inr t"
  using nat_less_2_256 [of t] by (auto simp: res_simps hex_to_target_def)

lemma target_to_hex64: "target_to_hex t = Inr h \<Longrightarrow> hex64 h"
  by (auto simp: res_simps hex64_hex)

text \<open>The work of a v2 block: defined exactly for positive targets, at least one for a
  target the consensus rules allow, and larger for a smaller target.\<close>

theorem work_for_target_v2_spec:
  "(work_for_target_v2 t = Inl ValueError \<longleftrightarrow> t \<le> 0)
   \<and> (MIN_TARGET \<le> t \<and> t \<le> MAX_TARGET \<longrightarrow> (\<exists>w \<ge> 1. work_for_target_v2 t = Inr w))
   \<and> (0 < t \<and> t \<le> t' \<longrightarrow>
        (\<exists>w w'. work_for_target_v2 t = Inr w \<and> work_for_target_v2 t' = Inr w' \<and> w' \<le> w))"
proof (intro conjI impI)
  show "work_for_target_v2 t = Inl ValueError \<longleftrightarrow> t \<le> 0"
    by (simp add: work_for_target_v2_def)
  assume "MIN_TARGET \<le> t \<and> t \<le> MAX_TARGET"
  then have "0 < t" and "MAX_TARGET div t \<ge> 1"
    using zdiv_mono1 [of t MAX_TARGET t] by (auto simp: MIN_TARGET_def)
  then show "\<exists>w \<ge> 1. work_for_target_v2 t = Inr w" by (simp add: work_for_target_v2_def)
next
  assume "0 < t \<and> t \<le> t'"
  then show "\<exists>w w'. work_for_target_v2 t = Inr w \<and> work_for_target_v2 t' = Inr w' \<and> w' \<le> w"
    using zdiv_mono2 [of MAX_TARGET t t'] by (auto simp: work_for_target_v2_def MAX_TARGET_def)
qed

theorem work_for_target_v2_spec_witness:
  "\<exists>w w'. work_for_target_v2 1000 = Inr w \<and> work_for_target_v2 2000 = Inr w' \<and> w' \<le> w"
  using work_for_target_v2_spec [of 1000 2000] by simp

end
