(* ===== verification/Schema.thy ===== *)
theory Schema
  imports Crypto
begin

text \<open>
  The transaction validators of \<open>chainbreaker/codec.py\<close>: they return nothing or raise.
  They run on parsed JSON, so every value they see is a \<open>json\<close> and each test is the
  Python test on it: \<open>isinstance\<close> is a match on the constructor (\<open>bool\<close> is a
  subclass of \<open>int\<close>), \<open>x in {\<dots>}\<close> raises \<open>TypeError\<close> on an unhashable
  value, \<open>body[k]\<close> raises \<open>KeyError\<close>, \<open>.keys()\<close> on a value that is not a
  \<open>dict\<close> raises \<open>AttributeError\<close>.
\<close>

section \<open>Tests on values\<close>

fun is_hash :: "json \<Rightarrow> bool" where
  "is_hash (JStr s) = hash_re_match s"
| "is_hash _ = False"

fun is_str :: "json \<Rightarrow> bool" where
  "is_str (JStr s) = True"
| "is_str _ = False"

fun nonempty_str :: "json \<Rightarrow> bool" where
  "nonempty_str (JStr s) = (s \<noteq> [])"
| "nonempty_str _ = False"

fun is_list :: "json \<Rightarrow> bool" where
  "is_list (JList xs) = True"
| "is_list _ = False"

fun is_dict :: "json \<Rightarrow> bool" where
  "is_dict (JDict d) = True"
| "is_dict _ = False"

text \<open>The length is that of the encoding, which a text with a lone surrogate does not have.\<close>

fun require_string :: "json \<Rightarrow> bool \<Rightarrow> bool res" where
  "require_string JNull nullable = Inr nullable"
| "require_string (JStr s) nullable = bindE (encode_utf8 s) (\<lambda>encoded. Inr (length encoded \<le> 65535))"
| "require_string _ nullable = Inr False"

fun require_int :: "json \<Rightarrow> int option \<Rightarrow> int option \<Rightarrow> bool" where
  "require_int (JInt i) lo hi =
     ((case lo of None \<Rightarrow> True | Some m \<Rightarrow> \<not> i < m) \<and> (case hi of None \<Rightarrow> True | Some m \<Rightarrow> \<not> m < i))"
| "require_int _ lo hi = False"

text \<open>\<open>x in {"a", "b"}\<close> and \<open>x == 1\<close> (which holds for \<open>True\<close> and \<open>1.0\<close> as
  well).\<close>

fun in_str_set :: "json \<Rightarrow> string list \<Rightarrow> bool res" where
  "in_str_set (JStr s) xs = Inr (s \<in> set xs)"
| "in_str_set (JList l) xs = Inl TypeError"
| "in_str_set (JDict d) xs = Inl TypeError"
| "in_str_set _ xs = Inr False"

fun py_eq_one :: "json \<Rightarrow> bool" where
  "py_eq_one (JInt i) = (i = 1)"
| "py_eq_one (JBool b) = b"
| "py_eq_one (JFloat f) = (f = ''1.0'')"
| "py_eq_one _ = False"

definition require_field :: "(string \<times> json) list \<Rightarrow> string \<Rightarrow> (json \<Rightarrow> bool) \<Rightarrow> unit res" where
  "require_field d k p = bindE (dindex d k) (\<lambda>v. checkE (p v) SchemaError)"

definition require_text :: "(string \<times> json) list \<Rightarrow> string \<Rightarrow> unit res" where
  "require_text d k = bindE (dindex d k) (\<lambda>v. bindE (require_string v True) (\<lambda>ok. checkE ok SchemaError))"

definition require_member :: "json \<Rightarrow> string list \<Rightarrow> unit res" where
  "require_member v xs = bindE (in_str_set v xs) (\<lambda>b. checkE b SchemaError)"

section \<open>Bodies\<close>

definition scripture_required :: "string list" where
  "scripture_required = [''schema'', ''content_hash'', ''byte_length'', ''media_type'', ''title'',
     ''language'', ''source'', ''source_uri'', ''acquisition_date'', ''license'',
     ''parent_hash'', ''metadata_hash'', ''notes_hash'']"

definition scripture_texts :: "string list" where
  "scripture_texts = [''media_type'', ''title'', ''language'', ''source'', ''source_uri'', ''license'']"

fun validate_scripture_body :: "json \<Rightarrow> unit res" where
  "validate_scripture_body (JDict body) =
     thenE (checkE (dkeys body \<subseteq> set (scripture_required @ [''network_id'', ''schema_version'']))
              SchemaError)
    (thenE (checkE (set scripture_required \<subseteq> dkeys body) SchemaError)
    (thenE (require_field body ''schema'' (\<lambda>v. v = JStr ''chainbreaker-manifest-v1''))
    (thenE (require_field body ''content_hash'' is_hash)
    (thenE (require_field body ''metadata_hash'' is_hash)
    (thenE (require_field body ''parent_hash'' (\<lambda>v. v = JNull \<or> is_hash v))
    (thenE (require_field body ''notes_hash'' (\<lambda>v. v = JNull \<or> is_hash v))
    (thenE (require_field body ''byte_length'' (\<lambda>v. require_int v (Some 0) None))
    (thenE (forE (require_text body) scripture_texts)
       (require_field body ''acquisition_date'' (\<lambda>v. v = JNull \<or> require_int v None None))))))))))"
| "validate_scripture_body _ = Inl AttributeError"

fun validate_genesis_body :: "json \<Rightarrow> unit res" where
  "validate_genesis_body (JDict body) =
     thenE (checkE (dkeys body = {''network_id'', ''message'', ''timestamp''}) SchemaError)
    (thenE (require_field body ''network_id'' is_str)
    (thenE (require_field body ''message'' is_str)
       (require_field body ''timestamp'' (\<lambda>v. require_int v None None))))"
| "validate_genesis_body _ = Inl AttributeError"

text \<open>The minimum passed for \<open>revocation_height\<close> is the \<open>activation_height\<close> that the
  check before it found to be an integer.\<close>

fun int_of :: "json \<Rightarrow> int" where
  "int_of (JInt i) = i"
| "int_of _ = 0"

fun validate_registry_body :: "json \<Rightarrow> unit res" where
  "validate_registry_body (JDict body) =
     thenE (checkE (dkeys body = {''action'', ''curator_id'', ''public_key_hex'',
              ''activation_height'', ''revocation_height'', ''previous_key_hex''}) SchemaError)
    (thenE (bindE (dindex body ''action'') (\<lambda>a. require_member a [''add'', ''revoke'', ''rotate'']))
    (thenE (require_field body ''curator_id'' nonempty_str)
    (thenE (require_field body ''public_key_hex'' is_hash)
    (thenE (require_field body ''activation_height'' (\<lambda>v. require_int v (Some 0) None))
    (thenE (bindE (dindex body ''activation_height'') (\<lambda>a. require_field body ''revocation_height''
              (\<lambda>v. v = JNull \<or> require_int v (Some (int_of a)) None)))
       (require_field body ''previous_key_hex'' (\<lambda>v. v = JNull \<or> is_hash v)))))))"
| "validate_registry_body _ = Inl AttributeError"

section \<open>Transactions\<close>

fun validate_witness :: "json \<Rightarrow> unit res" where
  "validate_witness (JDict w) =
     thenE (checkE (dkeys w = {''curator_id'', ''timestamp'', ''signature''}) SchemaError)
    (thenE (require_field w ''curator_id'' is_str)
    (thenE (require_field w ''timestamp'' (\<lambda>v. require_int v None None))
       (require_field w ''signature'' is_str)))"
| "validate_witness _ = Inl SchemaError"

text \<open>The loop \<open>for w in witnesses\<close> and the test before it.\<close>

fun validate_witnesses :: "json \<Rightarrow> unit res" where
  "validate_witnesses (JList ws) = forE validate_witness ws"
| "validate_witnesses _ = Inl SchemaError"

fun validate_transaction :: "json \<Rightarrow> unit res" where
  "validate_transaction (JDict tx) =
     thenE (checkE (dkeys tx = {''version'', ''type'', ''body'', ''witnesses''}) SchemaError)
    (thenE (require_field tx ''version'' (\<lambda>v. require_int v (Some 1) (Some 1)))
    (bindE (dindex tx ''type'') (\<lambda>ty. bindE (dindex tx ''body'') (\<lambda>body.
     bindE (dindex tx ''witnesses'') (\<lambda>witnesses.
     thenE (require_member ty [''genesis'', ''scripture'', ''registry''])
    (thenE (if ty = JStr ''genesis'' then validate_genesis_body body
            else if ty = JStr ''scripture'' then validate_scripture_body body
            else if ty = JStr ''registry'' then validate_registry_body body
            else Inr ())
       (validate_witnesses witnesses)))))))"
| "validate_transaction _ = Inl SchemaError"

fun validate_gov_signature :: "json \<Rightarrow> unit res" where
  "validate_gov_signature (JDict sig) =
     thenE (checkE (require_int (dget sig ''key_index'' JNull) (Some 0) None) SchemaError)
       (checkE (is_str (dget sig ''signature'' JNull)) SchemaError)"
| "validate_gov_signature _ = Inl SchemaError"

fun validate_gov_signatures :: "json \<Rightarrow> unit res" where
  "validate_gov_signatures (JList sigs) =
     thenE (checkE (sigs \<noteq> []) SchemaError) (forE validate_gov_signature sigs)"
| "validate_gov_signatures _ = Inl SchemaError"

definition governance_required :: "string list" where
  "governance_required = [''action'', ''curator_id'', ''public_key_hex'',
     ''previous_registry_root'', ''network_id'', ''schema_version'']"

text \<open>The part of \<open>validate_v2_transaction\<close> after \<open># Governance transaction\<close>.\<close>

definition validate_governance_body :: "(string \<times> json) list \<Rightarrow> unit res" where
  "validate_governance_body body =
     (let action = dget body ''action'' JNull in
      thenE (require_member action [''curator_register'', ''curator_rotate'', ''curator_revoke''])
     (thenE (checkE (set governance_required \<subseteq> dkeys body) SchemaError)
     (thenE (require_field body ''curator_id'' nonempty_str)
     (thenE (require_field body ''public_key_hex'' is_hash)
     (thenE (require_field body ''previous_registry_root'' is_hash)
     (thenE (checkE (nonempty_str (dget body ''network_id'' JNull)) SchemaError)
     (thenE (checkE (py_eq_one (dget body ''schema_version'' (JInt 1))) SchemaError)
     (thenE
       (if action = JStr ''curator_register'' then
          checkE (require_int (dget body ''activation_height'' JNull) (Some 0) None) SchemaError
        else if action = JStr ''curator_rotate'' then
          thenE (checkE (require_int (dget body ''activation_height'' JNull) (Some 0) None) SchemaError)
            (if ''new_public_key_hex'' \<notin> dkeys body then Inl SchemaError
             else require_field body ''new_public_key_hex'' is_hash)
        else if action = JStr ''curator_revoke'' then
          thenE (checkE (require_int (dget body ''revocation_height'' JNull) (Some 0) None) SchemaError)
            (checkE (nonempty_str (dget body ''reason_code'' JNull)) SchemaError)
        else Inr ())
      (validate_gov_signatures (dget body ''governance_signatures'' JNull))))))))))"

definition validate_v2_transaction :: "json \<Rightarrow> unit res" where
  "validate_v2_transaction txj =
     (case txj of
        JDict tx \<Rightarrow>
          let ty = dget tx ''type'' JNull; body = dget tx ''body'' JNull in
          thenE (require_member ty [''genesis'', ''governance'', ''scripture''])
         (case body of
            JDict b \<Rightarrow>
              (if ty = JStr ''genesis'' then validate_genesis_body body
               else if ty = JStr ''scripture'' then validate_scripture_body body
               else validate_governance_body b)
          | _ \<Rightarrow> Inl SchemaError)
      | _ \<Rightarrow> Inl SchemaError)"

section \<open>What the validators raise\<close>

lemma raises_only_require_field:
  "k \<in> dkeys d \<Longrightarrow> SchemaError \<in> E \<Longrightarrow> raises_only E (require_field d k p)"
  unfolding require_field_def by (intro raises_only_bindE raises_only_dindex) simp_all

lemma raises_only_require_member:
  "SchemaError \<in> E \<Longrightarrow> TypeError \<in> E \<Longrightarrow> raises_only E (require_member v xs)"
  unfolding require_member_def by (intro raises_only_bindE; cases v) simp_all

lemmas schema_raises = raises_only_bindE raises_only_forE raises_only_if
  raises_only_require_field raises_only_require_member

text \<open>The only exception from outside the schema: a text that cannot be encoded.\<close>

definition unencodable :: "(string \<times> json) list \<Rightarrow> bool" where
  "unencodable body = list_ex (\<lambda>k. case map_of body k of Some (JStr s) \<Rightarrow> \<not> utf8_valid s | _ \<Rightarrow> False) scripture_texts"

lemma raises_require_text:
  assumes "k \<in> dkeys d" and "SchemaError \<in> E" and "\<And>s. map_of d k = Some (JStr s) \<Longrightarrow> utf8_valid s \<or> UnicodeError \<in> E"
  shows "raises_only E (require_text d k)"
proof -
  from assms(1) obtain v where v: "map_of d k = Some v" by (auto simp: dkeys_map_of)
  with assms(2,3) show ?thesis
    by (cases v) (auto simp: require_text_def dindex_def checkE_def encode_utf8_def)
qed

lemma raises_scripture:
  "raises_only ({SchemaError} \<union> (if unencodable body then {UnicodeError} else {})) (validate_scripture_body (JDict body))"
proof -
  have texts: "raises_only ({SchemaError} \<union> (if unencodable body then {UnicodeError} else {})) (require_text body k)"
    if "k \<in> set scripture_texts" "set scripture_required \<subseteq> dkeys body" for k
  proof (rule raises_require_text)
    have "set scripture_texts \<subseteq> set scripture_required" by (simp add: scripture_texts_def scripture_required_def)
    with that show "k \<in> dkeys body" by blast
    show "utf8_valid s \<or> UnicodeError \<in> {SchemaError} \<union> (if unencodable body then {UnicodeError} else {})"
      if "map_of body k = Some (JStr s)" for s
      using that \<open>k \<in> set scripture_texts\<close> by (auto simp: unencodable_def list_ex_iff intro!: bexI [of _ k])
  qed simp
  show ?thesis
    unfolding validate_scripture_body.simps
    by (intro schema_raises texts) (auto simp: res_simps scripture_required_def)
qed

lemma raises_genesis: "raises_only {SchemaError} (validate_genesis_body (JDict body))"
  unfolding validate_genesis_body.simps by (intro schema_raises) (auto simp: res_simps)

lemma raises_registry: "raises_only {SchemaError, TypeError} (validate_registry_body (JDict body))"
  unfolding validate_registry_body.simps
  by (intro schema_raises raises_only_dindex) (auto simp: res_simps)

lemma raises_witness: "raises_only {SchemaError} (validate_witness w)"
proof (cases w)
  case (JDict d)
  show ?thesis unfolding JDict validate_witness.simps
    by (intro schema_raises) (auto simp: res_simps)
qed simp_all

lemma raises_witnesses: "raises_only {SchemaError} (validate_witnesses ws)"
  by (cases ws) (auto intro: raises_only_forE raises_witness)

lemma raises_gov_signatures: "raises_only {SchemaError} (validate_gov_signatures sigs)"
proof -
  have "raises_only {SchemaError} (validate_gov_signature s)" for s
    by (cases s) (simp_all add: raises_only_bindE)
  then show ?thesis by (cases sigs) (auto intro!: schema_raises)
qed

lemma raises_governance_body:
  "raises_only {SchemaError, TypeError} (validate_governance_body body)"
proof -
  have sigs: "raises_only {SchemaError, TypeError} (validate_gov_signatures s)" for s
    by (rule raises_only_mono [OF raises_gov_signatures]) simp
  show ?thesis
    unfolding validate_governance_body_def Let_def
    by (intro schema_raises sigs) (auto simp: res_simps governance_required_def)
qed

text \<open>C40: the v2 transaction validator, run on any JSON value, returns or raises
  \<open>SchemaError\<close>, or \<open>TypeError\<close> where the type or the action of a dictionary is
  unhashable, or \<open>UnicodeError\<close> for a scripture manifest one of whose six texts has a lone surrogate,
  which the length check tries to encode; no missing key and no wrong kind of value gets out as
  another exception.\<close>

theorem validate_v2_transaction_raises:
  "validate_v2_transaction txj \<in> {Inr (), Inl SchemaError, Inl TypeError}
   \<or> (validate_v2_transaction txj = Inl UnicodeError
      \<and> (\<exists>tx b. txj = JDict tx \<and> dget tx ''type'' JNull = JStr ''scripture'' \<and> dget tx ''body'' JNull = JDict b \<and> unencodable b))"
proof (cases "\<exists>tx b. txj = JDict tx \<and> dget tx ''type'' JNull = JStr ''scripture'' \<and> dget tx ''body'' JNull = JDict b")
  case True
  then obtain tx b where tx: "txj = JDict tx" "dget tx ''type'' JNull = JStr ''scripture''" "dget tx ''body'' JNull = JDict b" by blast
  then have "validate_v2_transaction txj = validate_scripture_body (JDict b)"
    by (simp add: validate_v2_transaction_def require_member_def checkE_def del: validate_scripture_body.simps)
  with raises_scripture [of b] tx show ?thesis
    by (cases "validate_v2_transaction txj") (auto simp del: validate_scripture_body.simps split: if_split_asm)
next
  case False
  have body: "raises_only {SchemaError, TypeError} (validate_governance_body b)"
    "raises_only {SchemaError, TypeError} (validate_genesis_body (JDict b))" for b
    by (rule raises_governance_body, rule raises_only_mono [OF raises_genesis], simp)
  have "raises_only {SchemaError, TypeError} (validate_v2_transaction txj)"
  proof (cases txj)
    case (JDict tx)
    show ?thesis
      unfolding JDict validate_v2_transaction_def Let_def json.case
    proof (intro raises_only_bindE raises_only_require_member)
      show "raises_only {SchemaError, TypeError} (case dget tx ''body'' JNull of
           JDict b \<Rightarrow> if dget tx ''type'' JNull = JStr ''genesis'' then validate_genesis_body (dget tx ''body'' JNull)
              else if dget tx ''type'' JNull = JStr ''scripture'' then validate_scripture_body (dget tx ''body'' JNull)
              else validate_governance_body b
         | _ \<Rightarrow> Inl SchemaError)"
        using False JDict
        by (cases "dget tx ''body'' JNull") (simp_all only: json.case body raises_only_Inl if_split, auto)
    qed simp_all
  qed (simp_all add: validate_v2_transaction_def)
  then show ?thesis by (cases "validate_v2_transaction txj") auto
qed

text \<open>What an accepted governance body has.\<close>

lemma validate_governance_body_accepts:
  assumes "validate_governance_body body = Inr ()"
  shows "dget body ''action'' JNull \<in> JStr ` {''curator_register'', ''curator_rotate'', ''curator_revoke''}"
    and "set governance_required \<subseteq> dkeys body"
    and "\<exists>s. map_of body ''curator_id'' = Some (JStr s) \<and> s \<noteq> []"
    and "\<exists>s. map_of body ''public_key_hex'' = Some (JStr s) \<and> hash_re_match s"
    and "\<exists>s. map_of body ''previous_registry_root'' = Some (JStr s) \<and> hash_re_match s"
    and "\<exists>sigs. map_of body ''governance_signatures'' = Some (JList sigs) \<and> sigs \<noteq> []"
proof -
  have mem: "require_member v xs = Inr () \<longleftrightarrow> (\<exists>s \<in> set xs. v = JStr s)" for v xs
    by (cases v) (auto simp: require_member_def res_simps)
  have str: "nonempty_str v \<longleftrightarrow> (\<exists>s. v = JStr s \<and> s \<noteq> [])" "is_hash v \<longleftrightarrow> (\<exists>s. v = JStr s \<and> hash_re_match s)" for v
    by (cases v; simp)+
  have sigs: "validate_gov_signatures v = Inr () \<Longrightarrow> \<exists>sigs. v = JList sigs \<and> sigs \<noteq> []" for v
    by (cases v) (auto simp: res_simps)
  note facts = assms [unfolded validate_governance_body_def Let_def bindE_Inr_iff checkE_Inr mem
      require_field_def]
  show "dget body ''action'' JNull \<in> JStr ` {''curator_register'', ''curator_rotate'', ''curator_revoke''}"
    using facts by (auto simp: mem)
  show "set governance_required \<subseteq> dkeys body" using facts by auto
  show "\<exists>s. map_of body ''curator_id'' = Some (JStr s) \<and> s \<noteq> []"
    "\<exists>s. map_of body ''public_key_hex'' = Some (JStr s) \<and> hash_re_match s"
    "\<exists>s. map_of body ''previous_registry_root'' = Some (JStr s) \<and> hash_re_match s"
    using facts by (auto simp: str dindex_Inr)
  from facts obtain sg where "dget body ''governance_signatures'' JNull = JList sg" "sg \<noteq> []"
    using sigs by blast
  then show "\<exists>sigs. map_of body ''governance_signatures'' = Some (JList sigs) \<and> sigs \<noteq> []"
    by (auto simp: dget_def split: option.splits)
qed

end
