(* ===== verification/Governance.thy ===== *)
theory Governance
  imports Schema
begin

text \<open>
  \<open>chainbreaker/governance.py\<close>: the three registry transactions with their
  \<open>to_dict\<close> and \<open>from_dict\<close>, the governance context of the genesis block and the
  check of threshold signatures.  A frozen dataclass is a record; \<open>from_dict\<close> takes
  any JSON value and raises \<open>GovernanceError\<close>, or \<open>KeyError\<close> where the code indexes
  a key it has not checked.
\<close>

section \<open>Constants and records\<close>

definition GOV_NETWORK_ID :: string where
  "GOV_NETWORK_ID = ''chainbreaker-scripture-v2''"

definition PROTOCOL_VERSION :: int where
  "PROTOCOL_VERSION = 2"

definition GOVERNANCE_SCHEMA_VERSION :: int where
  "GOVERNANCE_SCHEMA_VERSION = 1"

definition MAX_CURATOR_ID_BYTES :: nat where
  "MAX_CURATOR_ID_BYTES = 128"

definition MAX_REASON_CODE_BYTES :: nat where
  "MAX_REASON_CODE_BYTES = 64"

record gov_sig =
  key_index :: int
  signature_hex :: string

record register_tx =
  rg_curator_id :: string
  rg_public_key_hex :: string
  rg_activation_height :: int
  rg_display_metadata_hash :: "string option"
  rg_previous_registry_root :: string
  rg_governance_signatures :: "gov_sig list"
  rg_network_id :: string
  rg_schema_version :: int

record rotate_tx =
  ro_curator_id :: string
  ro_public_key_hex :: string
  ro_new_public_key_hex :: string
  ro_activation_height :: int
  ro_display_metadata_hash :: "string option"
  ro_previous_registry_root :: string
  ro_governance_signatures :: "gov_sig list"
  ro_curator_signature_hex :: string
  ro_network_id :: string
  ro_schema_version :: int

record revoke_tx =
  rv_curator_id :: string
  rv_public_key_hex :: string
  rv_revocation_height :: int
  rv_reason_code :: string
  rv_previous_registry_root :: string
  rv_governance_signatures :: "gov_sig list"
  rv_curator_signature_hex :: string
  rv_network_id :: string
  rv_schema_version :: int

datatype governance_tx = RegisterTx register_tx | RotateTx rotate_tx | RevokeTx revoke_tx

section \<open>Field checks\<close>

fun require_hex_hash :: "nat \<Rightarrow> json \<Rightarrow> string res" where
  "require_hex_hash len (JStr s) =
     (case fromhex s of
        None \<Rightarrow> Inl GovernanceError
      | Some raw \<Rightarrow> if length raw * 2 \<noteq> len then Inl GovernanceError else Inr (lower s))"
| "require_hex_hash len _ = Inl GovernanceError"

fun require_curator_id :: "json \<Rightarrow> string res" where
  "require_curator_id (JStr s) =
     (if s = [] then Inl GovernanceError
      else bindE (encode_utf8 s) (\<lambda>encoded.
        if length encoded < 1 \<or> length encoded > MAX_CURATOR_ID_BYTES then Inl GovernanceError
        else Inr s))"
| "require_curator_id _ = Inl GovernanceError"

fun require_reason_code :: "json \<Rightarrow> string res" where
  "require_reason_code (JStr s) =
     (if s = [] then Inl GovernanceError
      else bindE (encode_utf8 s) (\<lambda>encoded.
        if length encoded > MAX_REASON_CODE_BYTES then Inl GovernanceError
        else Inr s))"
| "require_reason_code _ = Inl GovernanceError"

fun require_height :: "json \<Rightarrow> int res" where
  "require_height (JInt i) = (if i < 0 then Inl GovernanceError else Inr i)"
| "require_height _ = Inl GovernanceError"

fun require_optional_hex_hash :: "json \<Rightarrow> string option res" where
  "require_optional_hex_hash JNull = Inr None"
| "require_optional_hex_hash v = bindE (require_hex_hash 64 v) (\<lambda>s. Inr (Some s))"

definition sig_to_dict :: "gov_sig \<Rightarrow> json" where
  "sig_to_dict s = JDict [(''key_index'', JInt (key_index s)), (''signature'', JStr (signature_hex s))]"

fun sig_from_dict :: "json \<Rightarrow> gov_sig res" where
  "sig_from_dict (JDict d) =
     (if dkeys d \<noteq> {''key_index'', ''signature''} then Inl GovernanceError
      else bindE (dindex d ''key_index'') (\<lambda>k. case k of
        JInt i \<Rightarrow>
          if i < 0 then Inl GovernanceError
          else bindE (dindex d ''signature'') (\<lambda>s. case s of
            JStr sig \<Rightarrow>
              (case fromhex sig of
                 None \<Rightarrow> Inl GovernanceError
               | Some raw \<Rightarrow> if length raw \<noteq> 64 then Inl GovernanceError
                             else Inr \<lparr>key_index = i, signature_hex = sig\<rparr>)
          | _ \<Rightarrow> Inl GovernanceError)
      | _ \<Rightarrow> Inl GovernanceError))"
| "sig_from_dict _ = Inl GovernanceError"

fun require_signatures :: "json \<Rightarrow> gov_sig list res" where
  "require_signatures (JList xs) = mapE sig_from_dict xs"
| "require_signatures _ = Inl GovernanceError"

section \<open>The transactions as dictionaries\<close>

definition opt_item :: "string \<Rightarrow> string option \<Rightarrow> (string \<times> json) list" where
  "opt_item k v = (case v of None \<Rightarrow> [] | Some s \<Rightarrow> [(k, JStr s)])"

definition register_to_dict :: "register_tx \<Rightarrow> (string \<times> json) list" where
  "register_to_dict tx =
    [(''action'', JStr ''curator_register''),
     (''curator_id'', JStr (rg_curator_id tx)),
     (''public_key_hex'', JStr (rg_public_key_hex tx)),
     (''activation_height'', JInt (rg_activation_height tx)),
     (''previous_registry_root'', JStr (rg_previous_registry_root tx)),
     (''governance_signatures'', JList (map sig_to_dict (rg_governance_signatures tx))),
     (''network_id'', JStr (rg_network_id tx)),
     (''schema_version'', JInt (rg_schema_version tx))]
    @ opt_item ''display_metadata_hash'' (rg_display_metadata_hash tx)"

definition rotate_to_dict :: "rotate_tx \<Rightarrow> (string \<times> json) list" where
  "rotate_to_dict tx =
    [(''action'', JStr ''curator_rotate''),
     (''curator_id'', JStr (ro_curator_id tx)),
     (''public_key_hex'', JStr (ro_public_key_hex tx)),
     (''new_public_key_hex'', JStr (ro_new_public_key_hex tx)),
     (''activation_height'', JInt (ro_activation_height tx)),
     (''previous_registry_root'', JStr (ro_previous_registry_root tx)),
     (''governance_signatures'', JList (map sig_to_dict (ro_governance_signatures tx))),
     (''curator_signature'', JStr (ro_curator_signature_hex tx)),
     (''network_id'', JStr (ro_network_id tx)),
     (''schema_version'', JInt (ro_schema_version tx))]
    @ opt_item ''display_metadata_hash'' (ro_display_metadata_hash tx)"

definition revoke_to_dict :: "revoke_tx \<Rightarrow> (string \<times> json) list" where
  "revoke_to_dict tx =
    [(''action'', JStr ''curator_revoke''),
     (''curator_id'', JStr (rv_curator_id tx)),
     (''public_key_hex'', JStr (rv_public_key_hex tx)),
     (''revocation_height'', JInt (rv_revocation_height tx)),
     (''reason_code'', JStr (rv_reason_code tx)),
     (''previous_registry_root'', JStr (rv_previous_registry_root tx)),
     (''governance_signatures'', JList (map sig_to_dict (rv_governance_signatures tx))),
     (''curator_signature'', JStr (rv_curator_signature_hex tx)),
     (''network_id'', JStr (rv_network_id tx)),
     (''schema_version'', JInt (rv_schema_version tx))]"

text \<open>The checks the three \<open>from_dict\<close> methods share: the keys, the action, the network
  and the schema version.\<close>

definition check_envelope :: "string set \<Rightarrow> string \<Rightarrow> string \<Rightarrow> (string \<times> json) list \<Rightarrow> unit res" where
  "check_envelope expected_keys action expected_network_id d =
     thenE (checkE (dkeys d \<subseteq> expected_keys) GovernanceError)
    (thenE (checkE (dget d ''action'' JNull = JStr action) GovernanceError)
    (thenE (checkE (dget d ''network_id'' (JStr GOV_NETWORK_ID) = JStr expected_network_id)
              GovernanceError)
       (checkE (py_eq_one (dget d ''schema_version'' (JInt GOVERNANCE_SCHEMA_VERSION)))
          GovernanceError)))"

definition field :: "(string \<times> json) list \<Rightarrow> string \<Rightarrow> (json \<Rightarrow> 'a res) \<Rightarrow> 'a res" where
  "field d k f = bindE (dindex d k) f"

fun register_from_dict :: "json \<Rightarrow> string \<Rightarrow> register_tx res" where
  "register_from_dict (JDict d) expected_network_id =
     thenE (check_envelope {''action'', ''curator_id'', ''public_key_hex'', ''activation_height'',
              ''previous_registry_root'', ''governance_signatures'', ''network_id'',
              ''schema_version'', ''display_metadata_hash''}
              ''curator_register'' expected_network_id d)
    (bindE (field d ''curator_id'' require_curator_id) (\<lambda>cid.
     bindE (field d ''public_key_hex'' (require_hex_hash 64)) (\<lambda>pk.
     bindE (field d ''activation_height'' require_height) (\<lambda>ah.
     bindE (require_optional_hex_hash (dget d ''display_metadata_hash'' JNull)) (\<lambda>md.
     bindE (field d ''previous_registry_root'' (require_hex_hash 64)) (\<lambda>root.
     bindE (field d ''governance_signatures'' require_signatures) (\<lambda>sigs.
       Inr \<lparr>rg_curator_id = cid, rg_public_key_hex = pk, rg_activation_height = ah,
            rg_display_metadata_hash = md, rg_previous_registry_root = root,
            rg_governance_signatures = sigs, rg_network_id = expected_network_id,
            rg_schema_version = GOVERNANCE_SCHEMA_VERSION\<rparr>)))))))"
| "register_from_dict _ expected_network_id = Inl GovernanceError"

fun rotate_from_dict :: "json \<Rightarrow> string \<Rightarrow> rotate_tx res" where
  "rotate_from_dict (JDict d) expected_network_id =
     thenE (check_envelope {''action'', ''curator_id'', ''public_key_hex'', ''new_public_key_hex'',
              ''activation_height'', ''previous_registry_root'', ''governance_signatures'',
              ''curator_signature'', ''network_id'', ''schema_version'', ''display_metadata_hash''}
              ''curator_rotate'' expected_network_id d)
    (bindE (field d ''curator_id'' require_curator_id) (\<lambda>cid.
     bindE (field d ''public_key_hex'' (require_hex_hash 64)) (\<lambda>pk.
     bindE (field d ''new_public_key_hex'' (require_hex_hash 64)) (\<lambda>npk.
     bindE (field d ''activation_height'' require_height) (\<lambda>ah.
     bindE (require_optional_hex_hash (dget d ''display_metadata_hash'' JNull)) (\<lambda>md.
     bindE (field d ''previous_registry_root'' (require_hex_hash 64)) (\<lambda>root.
     bindE (field d ''governance_signatures'' require_signatures) (\<lambda>sigs.
     bindE (field d ''curator_signature'' (require_hex_hash 128)) (\<lambda>csig.
       Inr \<lparr>ro_curator_id = cid, ro_public_key_hex = pk, ro_new_public_key_hex = npk,
            ro_activation_height = ah, ro_display_metadata_hash = md,
            ro_previous_registry_root = root, ro_governance_signatures = sigs,
            ro_curator_signature_hex = csig, ro_network_id = expected_network_id,
            ro_schema_version = GOVERNANCE_SCHEMA_VERSION\<rparr>)))))))))"
| "rotate_from_dict _ expected_network_id = Inl GovernanceError"

fun revoke_from_dict :: "json \<Rightarrow> string \<Rightarrow> revoke_tx res" where
  "revoke_from_dict (JDict d) expected_network_id =
     thenE (check_envelope {''action'', ''curator_id'', ''public_key_hex'', ''revocation_height'',
              ''reason_code'', ''previous_registry_root'', ''governance_signatures'',
              ''curator_signature'', ''network_id'', ''schema_version''}
              ''curator_revoke'' expected_network_id d)
    (bindE (field d ''curator_id'' require_curator_id) (\<lambda>cid.
     bindE (field d ''public_key_hex'' (require_hex_hash 64)) (\<lambda>pk.
     bindE (field d ''revocation_height'' require_height) (\<lambda>rh.
     bindE (field d ''reason_code'' require_reason_code) (\<lambda>rc.
     bindE (field d ''previous_registry_root'' (require_hex_hash 64)) (\<lambda>root.
     bindE (field d ''governance_signatures'' require_signatures) (\<lambda>sigs.
     bindE (field d ''curator_signature'' (require_hex_hash 128)) (\<lambda>csig.
       Inr \<lparr>rv_curator_id = cid, rv_public_key_hex = pk, rv_revocation_height = rh,
            rv_reason_code = rc, rv_previous_registry_root = root,
            rv_governance_signatures = sigs, rv_curator_signature_hex = csig,
            rv_network_id = expected_network_id,
            rv_schema_version = GOVERNANCE_SCHEMA_VERSION\<rparr>))))))))"
| "revoke_from_dict _ expected_network_id = Inl GovernanceError"

section \<open>GovernanceContext\<close>

record gov_context =
  gc_public_keys_hex :: "string list"
  gc_threshold :: int
  gc_network_id :: string

definition check_gov_key :: "string set \<Rightarrow> string \<Rightarrow> string set res" where
  "check_gov_key seen key =
     (if key \<in> seen then Inl GovernanceError
      else case fromhex key of
          None \<Rightarrow> Inl GovernanceError
        | Some raw \<Rightarrow> if length raw \<noteq> 32 then Inl GovernanceError else Inr (insert key seen))"

definition governance_context :: "string list \<Rightarrow> int \<Rightarrow> string \<Rightarrow> gov_context res" where
  "governance_context public_keys_hex threshold network_id =
     (if \<not> (1 \<le> length public_keys_hex \<and> length public_keys_hex \<le> 16) then Inl GovernanceError
      else bindE (foldE check_gov_key {} public_keys_hex) (\<lambda>_.
        if \<not> (1 \<le> threshold \<and> threshold \<le> int (length public_keys_hex)) then Inl GovernanceError
        else if network_id = [] then Inl GovernanceError
        else Inr \<lparr>gc_public_keys_hex = public_keys_hex, gc_threshold = threshold,
                  gc_network_id = network_id\<rparr>))"

definition governance_message :: "env \<Rightarrow> (string \<times> json) list \<Rightarrow> string \<Rightarrow> bytes res" where
  "governance_message E body network_id =
     bindE (hash_object_hex E (JDict body)) (\<lambda>body_hash.
       hash_object E (JDict [(''network_id'', JStr network_id), (''version'', JInt PROTOCOL_VERSION),
         (''type'', JStr ''registry''), (''body_hash'', JStr body_hash)]))"

text \<open>The \<open>try\<close> block of the loop: a key that does not load counts as an invalid
  signature.\<close>

definition signature_valid :: "env \<Rightarrow> string \<Rightarrow> bytes \<Rightarrow> string \<Rightarrow> bool" where
  "signature_valid E key message sig_hex =
     (case decode_public_key E key of Inl _ \<Rightarrow> False | Inr pk \<Rightarrow> verify E pk message sig_hex)"

fun count_signature :: "env \<Rightarrow> gov_context \<Rightarrow> bytes \<Rightarrow> int set \<times> int \<Rightarrow> gov_sig \<Rightarrow> (int set \<times> int) res" where
  "count_signature E ctx message (used, valid) sig =
     (if key_index sig < 0 then Inl GovernanceError
      else if key_index sig \<ge> int (length (gc_public_keys_hex ctx)) then Inl GovernanceError
      else if key_index sig \<in> used then Inl GovernanceError
      else Inr (insert (key_index sig) used,
        if signature_valid E (gc_public_keys_hex ctx ! nat (key_index sig)) message (signature_hex sig)
        then valid + 1 else valid))"

definition verify_governance_signatures ::
    "env \<Rightarrow> gov_context \<Rightarrow> (string \<times> json) list \<Rightarrow> gov_sig list \<Rightarrow> unit res" where
  "verify_governance_signatures E ctx body signatures =
     bindE (governance_message E body (gc_network_id ctx)) (\<lambda>message.
     bindE (foldE (count_signature E ctx message) ({}, 0) signatures) (\<lambda>(used, valid).
       if valid < gc_threshold ctx then Inl GovernanceError else Inr ()))"

section \<open>Round trips\<close>

text \<open>The contract of a \<open>to_dict\<close> and its \<open>from_dict\<close>: a well-formed value survives the
  trip, and every value \<open>from_dict\<close> returns is well formed and of the expected network.\<close>

locale dict_codec =
  fixes to_d :: "'a \<Rightarrow> (string \<times> json) list"
    and from_d :: "json \<Rightarrow> string \<Rightarrow> 'a res"
    and net :: "'a \<Rightarrow> string"
    and wf :: "'a \<Rightarrow> bool"
  assumes from_to: "wf x \<Longrightarrow> from_d (JDict (to_d x)) (net x) = Inr x"
    and from_wf: "from_d j n = Inr x \<Longrightarrow> wf x \<and> net x = n"
begin

lemma from_to_net: "wf x \<Longrightarrow> net x = n \<Longrightarrow> from_d (JDict (to_d x)) n = Inr x"
  using from_to by blast

lemma normalised: "from_d j n = Inr x \<Longrightarrow> from_d (JDict (to_d x)) n = Inr x"
  using from_to from_wf by blast

lemma to_inj: "wf x \<Longrightarrow> wf y \<Longrightarrow> net x = net y \<Longrightarrow> to_d x = to_d y \<Longrightarrow> x = y"
  by (metis from_to sum.inject(2))

end

text \<open>The strings \<open>_require_hex_hash\<close> returns: lower case, and hexadecimal up to white
  space, which \<open>bytes.fromhex\<close> skips.\<close>

definition hex_str :: "nat \<Rightarrow> string \<Rightarrow> bool" where
  "hex_str len s = (lower s = s \<and> (case fromhex s of None \<Rightarrow> False | Some raw \<Rightarrow> length raw * 2 = len))"

definition wf_sig :: "gov_sig \<Rightarrow> bool" where
  "wf_sig s = (0 \<le> key_index s \<and>
     (case fromhex (signature_hex s) of None \<Rightarrow> False | Some raw \<Rightarrow> length raw = 64))"

definition wf_curator_id :: "string \<Rightarrow> bool" where
  "wf_curator_id s = (s \<noteq> [] \<and> utf8_valid s \<and> length s \<le> MAX_CURATOR_ID_BYTES)"

definition wf_reason_code :: "string \<Rightarrow> bool" where
  "wf_reason_code s = (s \<noteq> [] \<and> utf8_valid s \<and> length s \<le> MAX_REASON_CODE_BYTES)"

definition wf_register :: "register_tx \<Rightarrow> bool" where
  "wf_register tx =
    (wf_curator_id (rg_curator_id tx) \<and> hex_str 64 (rg_public_key_hex tx)
     \<and> 0 \<le> rg_activation_height tx \<and> pred_option (hex_str 64) (rg_display_metadata_hash tx)
     \<and> hex_str 64 (rg_previous_registry_root tx) \<and> list_all wf_sig (rg_governance_signatures tx)
     \<and> rg_schema_version tx = GOVERNANCE_SCHEMA_VERSION)"

definition wf_rotate :: "rotate_tx \<Rightarrow> bool" where
  "wf_rotate tx =
    (wf_curator_id (ro_curator_id tx) \<and> hex_str 64 (ro_public_key_hex tx)
     \<and> hex_str 64 (ro_new_public_key_hex tx)
     \<and> 0 \<le> ro_activation_height tx \<and> pred_option (hex_str 64) (ro_display_metadata_hash tx)
     \<and> hex_str 64 (ro_previous_registry_root tx) \<and> list_all wf_sig (ro_governance_signatures tx)
     \<and> hex_str 128 (ro_curator_signature_hex tx) \<and> ro_schema_version tx = GOVERNANCE_SCHEMA_VERSION)"

definition wf_revoke :: "revoke_tx \<Rightarrow> bool" where
  "wf_revoke tx =
    (wf_curator_id (rv_curator_id tx) \<and> hex_str 64 (rv_public_key_hex tx)
     \<and> 0 \<le> rv_revocation_height tx \<and> wf_reason_code (rv_reason_code tx)
     \<and> hex_str 64 (rv_previous_registry_root tx) \<and> list_all wf_sig (rv_governance_signatures tx)
     \<and> hex_str 128 (rv_curator_signature_hex tx) \<and> rv_schema_version tx = GOVERNANCE_SCHEMA_VERSION)"

lemma require_hex_hash_Inr [res_simps]:
  "require_hex_hash n v = Inr s \<longleftrightarrow> (\<exists>t. v = JStr t \<and> s = lower t \<and> hex_str n (lower t))"
  by (cases v) (auto simp: hex_str_def split: option.splits)

lemma require_optional_hex_hash_Inr [res_simps]:
  "require_optional_hex_hash v = Inr s \<longleftrightarrow>
     (v = JNull \<and> s = None) \<or> (\<exists>t. v = JStr t \<and> s = Some (lower t) \<and> hex_str 64 (lower t))"
  by (cases v) (auto simp: res_simps simp del: require_hex_hash.simps)

lemma require_curator_id_Inr [res_simps]:
  "require_curator_id v = Inr s \<longleftrightarrow> v = JStr s \<and> wf_curator_id s"
  by (cases v) (auto simp: wf_curator_id_def encode_utf8_def str_bytes_def)

lemma require_reason_code_Inr [res_simps]:
  "require_reason_code v = Inr s \<longleftrightarrow> v = JStr s \<and> wf_reason_code s"
  by (cases v) (auto simp: wf_reason_code_def encode_utf8_def)

lemma require_height_Inr [res_simps]: "require_height v = Inr i \<longleftrightarrow> v = JInt i \<and> 0 \<le> i"
  by (cases v) auto

lemma hex_str_lower: "hex_str n s \<Longrightarrow> lower s = s"
  by (simp add: hex_str_def)

lemma field_Inr [res_simps]: "field d k f = Inr x \<longleftrightarrow> (\<exists>v. map_of d k = Some v \<and> f v = Inr x)"
  by (auto simp: field_def res_simps)

declare require_hex_hash.simps [simp del] require_curator_id.simps [simp del]
  require_reason_code.simps [simp del] require_height.simps [simp del]
  require_optional_hex_hash.simps [simp del]

text \<open>The checks on a value of the right form.\<close>

lemma require_wf [codec_simps]:
  "hex_str n s \<Longrightarrow> require_hex_hash n (JStr s) = Inr s"
  "wf_curator_id c \<Longrightarrow> require_curator_id (JStr c) = Inr c"
  "0 \<le> i \<Longrightarrow> require_height (JInt i) = Inr i"
  "wf_reason_code r \<Longrightarrow> require_reason_code (JStr r) = Inr r"
  "require_optional_hex_hash JNull = Inr None"
  "hex_str 64 m \<Longrightarrow> require_optional_hex_hash (JStr m) = Inr (Some m)"
  by (auto simp: res_simps hex_str_lower)

lemma sig_from_to: "wf_sig s \<Longrightarrow> sig_from_dict (sig_to_dict s) = Inr s"
  by (auto simp: wf_sig_def sig_to_dict_def dkeys_def dindex_def split: option.splits)

lemma sig_from_wf:
  assumes "sig_from_dict v = Inr s"
  shows "wf_sig s"
proof -
  obtain d where v: "v = JDict d" using assms by (cases v) auto
  from assms obtain k where k: "map_of d ''key_index'' = Some k"
    by (auto simp: v res_simps split: if_splits)
  have dk: "dkeys d = {''key_index'', ''signature''}" and ik: "dindex d ''key_index'' = Inr k"
    using assms k by (auto simp: v dindex_def split: if_splits)
  note s = assms [unfolded v sig_from_dict.simps dk ik bindE_simps, simplified]
  obtain i where i: "k = JInt i" "0 \<le> i"
    using s by (cases k) (simp_all split: if_splits)
  note s2 = s [unfolded i json.case, simplified i(2), simplified]
  obtain x where ix: "dindex d ''signature'' = Inr x"
    using s2 i(2) by (cases "dindex d ''signature''") (simp_all split: if_splits)
  show ?thesis using s2 i(2)
    by (cases x) (simp_all add: ix wf_sig_def split: if_splits option.splits, auto)
qed

lemma require_signatures_Inr:
  "require_signatures v = Inr ss \<Longrightarrow> list_all wf_sig ss"
  by (cases v)
    (auto simp: mapE_Inr_iff list_all2_conv_all_nth list_all_length intro: sig_from_wf)

lemma require_signatures_to:
  "list_all wf_sig ss \<Longrightarrow> require_signatures (JList (map sig_to_dict ss)) = Inr ss"
  by (induction ss) (auto simp: sig_from_to)

lemma check_envelope_Inr [res_simps]:
  "check_envelope ks a n d = Inr u \<longleftrightarrow>
     dkeys d \<subseteq> ks \<and> dget d ''action'' JNull = JStr a
     \<and> dget d ''network_id'' (JStr GOV_NETWORK_ID) = JStr n
     \<and> py_eq_one (dget d ''schema_version'' (JInt GOVERNANCE_SCHEMA_VERSION))"
  by (auto simp: check_envelope_def res_simps)

lemma register_from_wf: "register_from_dict j n = Inr tx \<Longrightarrow> wf_register tx \<and> rg_network_id tx = n"
  by (cases j) (auto simp: res_simps wf_register_def dest: require_signatures_Inr)

lemma rotate_from_wf: "rotate_from_dict j n = Inr tx \<Longrightarrow> wf_rotate tx \<and> ro_network_id tx = n"
  by (cases j) (auto simp: res_simps wf_rotate_def dest: require_signatures_Inr)

lemma revoke_from_wf: "revoke_from_dict j n = Inr tx \<Longrightarrow> wf_revoke tx \<and> rv_network_id tx = n"
  by (cases j) (auto simp: res_simps wf_revoke_def dest: require_signatures_Inr)

lemmas from_dict_eval = codec_simps check_envelope_def checkE_def field_def dindex_def dget_def
  dkeys_def opt_item_def require_signatures_to GOVERNANCE_SCHEMA_VERSION_def

lemma register_from_to:
  assumes "wf_register tx"
  shows "register_from_dict (JDict (register_to_dict tx)) (rg_network_id tx) = Inr tx"
  using assms
  by (cases "rg_display_metadata_hash tx"; cases tx)
    (simp_all add: wf_register_def register_to_dict_def from_dict_eval del: require_signatures.simps)

lemma rotate_from_to:
  assumes "wf_rotate tx"
  shows "rotate_from_dict (JDict (rotate_to_dict tx)) (ro_network_id tx) = Inr tx"
  using assms
  by (cases "ro_display_metadata_hash tx"; cases tx)
    (simp_all add: wf_rotate_def rotate_to_dict_def from_dict_eval del: require_signatures.simps)

lemma revoke_from_to:
  assumes "wf_revoke tx"
  shows "revoke_from_dict (JDict (revoke_to_dict tx)) (rv_network_id tx) = Inr tx"
  using assms
  by (cases tx)
    (simp add: wf_revoke_def revoke_to_dict_def from_dict_eval del: require_signatures.simps)

interpretation register_codec: dict_codec register_to_dict register_from_dict rg_network_id wf_register
  by unfold_locales (blast intro: register_from_to dest: register_from_wf)+

interpretation rotate_codec: dict_codec rotate_to_dict rotate_from_dict ro_network_id wf_rotate
  by unfold_locales (blast intro: rotate_from_to dest: rotate_from_wf)+

interpretation revoke_codec: dict_codec revoke_to_dict revoke_from_dict rv_network_id wf_revoke
  by unfold_locales (blast intro: revoke_from_to dest: revoke_from_wf)+

section \<open>Governance transactions in blocks\<close>

fun gov_to_dict :: "governance_tx \<Rightarrow> (string \<times> json) list" where
  "gov_to_dict (RegisterTx t) = register_to_dict t"
| "gov_to_dict (RotateTx t) = rotate_to_dict t"
| "gov_to_dict (RevokeTx t) = revoke_to_dict t"

fun gov_network_id :: "governance_tx \<Rightarrow> string" where
  "gov_network_id (RegisterTx t) = rg_network_id t"
| "gov_network_id (RotateTx t) = ro_network_id t"
| "gov_network_id (RevokeTx t) = rv_network_id t"

fun wf_gov :: "governance_tx \<Rightarrow> bool" where
  "wf_gov (RegisterTx t) = wf_register t"
| "wf_gov (RotateTx t) = wf_rotate t"
| "wf_gov (RevokeTx t) = wf_revoke t"

text \<open>\<open>Ledger._parse_governance_transaction\<close>.  \<open>body.get\<close> on a body that is not a dictionary is an \<open>AttributeError\<close>.\<close>

definition parse_governance_body :: "string \<Rightarrow> (string \<times> json) list \<Rightarrow> governance_tx option res" where
  "parse_governance_body network_id b =
     (let action = dget b ''action'' JNull in
      if action = JStr ''curator_register'' then
        bindE (register_from_dict (JDict b) network_id) (\<lambda>t. Inr (Some (RegisterTx t)))
      else if action = JStr ''curator_rotate'' then
        bindE (rotate_from_dict (JDict b) network_id) (\<lambda>t. Inr (Some (RotateTx t)))
      else if action = JStr ''curator_revoke'' then
        bindE (revoke_from_dict (JDict b) network_id) (\<lambda>t. Inr (Some (RevokeTx t)))
      else Inr None)"

definition parse_governance_transaction :: "string \<Rightarrow> json \<Rightarrow> governance_tx option res" where
  "parse_governance_transaction network_id tx =
     (case tx of
        JDict d \<Rightarrow>
          if dget d ''type'' JNull \<noteq> JStr ''governance'' then Inr None
          else (case dget d ''body'' (JDict []) of
                  JDict b \<Rightarrow> parse_governance_body network_id b
                | _ \<Rightarrow> Inl AttributeError)
      | _ \<Rightarrow> Inr None)"

definition governance_envelope :: "governance_tx \<Rightarrow> json" where
  "governance_envelope tx = JDict [(''type'', JStr ''governance''), (''body'', JDict (gov_to_dict tx))]"

lemma to_dict_action:
  "dget (register_to_dict r) ''action'' e = JStr ''curator_register''"
  "dget (rotate_to_dict t) ''action'' e = JStr ''curator_rotate''"
  "dget (revoke_to_dict v) ''action'' e = JStr ''curator_revoke''"
  by (simp_all add: dget_def register_to_dict_def rotate_to_dict_def revoke_to_dict_def)

lemma parse_governance_Some_wf:
  "parse_governance_transaction n j = Inr (Some tx) \<Longrightarrow> wf_gov tx \<and> gov_network_id tx = n"
  by (auto simp: parse_governance_transaction_def parse_governance_body_def Let_def bindE_Inr_iff
      simp del: register_from_dict.simps rotate_from_dict.simps revoke_from_dict.simps
      dest: register_codec.from_wf rotate_codec.from_wf revoke_codec.from_wf
      split: json.splits if_splits)

text \<open>A governance transaction written into a block is read back unchanged, exactly when
  its fields satisfy the protocol's checks and it is of the ledger's network.\<close>

theorem governance_roundtrip:
  "parse_governance_transaction n (governance_envelope tx) = Inr (Some tx)
     \<longleftrightarrow> wf_gov tx \<and> gov_network_id tx = n"
proof
  assume "wf_gov tx \<and> gov_network_id tx = n"
  then show "parse_governance_transaction n (governance_envelope tx) = Inr (Some tx)"
    using register_codec.from_to_net rotate_codec.from_to_net revoke_codec.from_to_net
    by (cases tx)
      (simp_all add: parse_governance_transaction_def parse_governance_body_def
        governance_envelope_def to_dict_action dget_def [of "[_, _]"]
        del: register_from_dict.simps rotate_from_dict.simps revoke_from_dict.simps)
qed (rule parse_governance_Some_wf)

text \<open>What the parsers raise on a body with the keys they index.\<close>

lemma raises_require:
  "GovernanceError \<in> E \<Longrightarrow> raises_only E (require_hex_hash n v)"
  "GovernanceError \<in> E \<Longrightarrow> UnicodeError \<in> E \<Longrightarrow> raises_only E (require_curator_id v)"
  "GovernanceError \<in> E \<Longrightarrow> UnicodeError \<in> E \<Longrightarrow> raises_only E (require_reason_code v)"
  "GovernanceError \<in> E \<Longrightarrow> raises_only E (require_height v)"
  by (cases v; simp add: require_hex_hash.simps require_curator_id.simps
      require_reason_code.simps require_height.simps encode_utf8_def split: option.splits)+

lemma raises_require_optional:
  "GovernanceError \<in> E \<Longrightarrow> raises_only E (require_optional_hex_hash v)"
  by (cases v) (auto simp: require_optional_hex_hash.simps intro!: raises_only_bindE raises_require)

lemma raises_sig_from_dict: "raises_only {GovernanceError} (sig_from_dict v)"
proof (cases v)
  case (JDict d)
  show ?thesis
  proof (cases "dkeys d = {''key_index'', ''signature''}")
    case True
    then have "dindex d ''key_index'' = Inr (dget d ''key_index'' JNull)"
        "dindex d ''signature'' = Inr (dget d ''signature'' JNull)"
      by (auto intro: dindex_present)
    then show ?thesis
      by (auto simp: JDict raises_only_def split: json.splits if_splits option.splits)
  qed (simp add: JDict)
qed simp_all

lemma raises_require_signatures:
  "GovernanceError \<in> E \<Longrightarrow> raises_only E (require_signatures v)"
  by (cases v)
    (auto intro!: raises_only_mapE raises_only_mono [OF raises_sig_from_dict])

lemma raises_field:
  "(k \<in> dkeys d \<or> KeyError \<in> E) \<Longrightarrow> (\<And>v. raises_only E (f v)) \<Longrightarrow> raises_only E (field d k f)"
  unfolding field_def by (intro raises_only_bindE raises_only_dindex) auto

lemma raises_check_envelope:
  "GovernanceError \<in> E \<Longrightarrow> raises_only E (check_envelope ks a n d)"
  unfolding check_envelope_def by (intro raises_only_bindE) simp_all

lemmas from_dict_raises = raises_only_bindE raises_field raises_check_envelope raises_require
  raises_require_optional raises_require_signatures

lemma raises_register:
  "{''curator_id'', ''public_key_hex'', ''activation_height'', ''previous_registry_root'',
    ''governance_signatures''} \<subseteq> dkeys b \<or> KeyError \<in> E \<Longrightarrow> GovernanceError \<in> E \<Longrightarrow> UnicodeError \<in> E
   \<Longrightarrow> raises_only E (register_from_dict (JDict b) n)"
  unfolding register_from_dict.simps by (intro from_dict_raises) auto

lemma raises_rotate:
  "{''curator_id'', ''public_key_hex'', ''new_public_key_hex'', ''activation_height'',
    ''previous_registry_root'', ''governance_signatures'', ''curator_signature''} \<subseteq> dkeys b \<or> KeyError \<in> E
   \<Longrightarrow> GovernanceError \<in> E \<Longrightarrow> UnicodeError \<in> E \<Longrightarrow> raises_only E (rotate_from_dict (JDict b) n)"
  unfolding rotate_from_dict.simps by (intro from_dict_raises) auto

lemma raises_revoke:
  "{''curator_id'', ''public_key_hex'', ''revocation_height'', ''reason_code'',
    ''previous_registry_root'', ''governance_signatures'', ''curator_signature''} \<subseteq> dkeys b \<or> KeyError \<in> E
   \<Longrightarrow> GovernanceError \<in> E \<Longrightarrow> UnicodeError \<in> E \<Longrightarrow> raises_only E (revoke_from_dict (JDict b) n)"
  unfolding revoke_from_dict.simps by (intro from_dict_raises) auto

lemma dget_dkeys: "dget d k JNull \<noteq> JNull \<Longrightarrow> k \<in> dkeys d"
  by (auto simp: dget_def dkeys_map_of split: option.splits)

text \<open>The keys an accepted body has, by action.\<close>

lemma validate_governance_body_keys:
  assumes "validate_governance_body b = Inr ()"
  shows "{''curator_id'', ''public_key_hex'', ''previous_registry_root'', ''governance_signatures''} \<subseteq> dkeys b"
    and "dget b ''action'' JNull = JStr ''curator_register'' \<Longrightarrow> ''activation_height'' \<in> dkeys b"
    and "dget b ''action'' JNull = JStr ''curator_rotate'' \<Longrightarrow>
           {''activation_height'', ''new_public_key_hex''} \<subseteq> dkeys b"
    and "dget b ''action'' JNull = JStr ''curator_revoke'' \<Longrightarrow>
           {''revocation_height'', ''reason_code''} \<subseteq> dkeys b"
proof -
  have nn: "\<not> require_int JNull lo hi" "\<not> nonempty_str JNull" for lo hi by simp_all
  have present: "P (dget b k JNull) \<Longrightarrow> \<not> P JNull \<Longrightarrow> k \<in> dkeys b" for P k
    using dget_dkeys [of b k] by metis
  note facts = assms [unfolded validate_governance_body_def Let_def bindE_Inr_iff checkE_Inr]
  show "{''curator_id'', ''public_key_hex'', ''previous_registry_root'', ''governance_signatures''} \<subseteq> dkeys b"
    using validate_governance_body_accepts(2,6) [OF assms]
    by (auto simp: governance_required_def dkeys_map_of)
  show "''activation_height'' \<in> dkeys b" if "dget b ''action'' JNull = JStr ''curator_register''"
    using facts that by (intro present [of "\<lambda>v. require_int v (Some 0) None"]) (auto simp: res_simps)
  show "{''activation_height'', ''new_public_key_hex''} \<subseteq> dkeys b"
    if "dget b ''action'' JNull = JStr ''curator_rotate''"
    using facts that present [of "\<lambda>v. require_int v (Some 0) None" "''activation_height''"]
    by (auto simp: res_simps split: if_splits)
  show "{''revocation_height'', ''reason_code''} \<subseteq> dkeys b"
    if "dget b ''action'' JNull = JStr ''curator_revoke''"
    using facts that present [of "\<lambda>v. require_int v (Some 0) None" "''revocation_height''"]
      present [of nonempty_str "''reason_code''"]
    by (auto simp: res_simps)
qed

text \<open>After the schema check the parser of governance transactions fails in three ways only:
  with \<open>GovernanceError\<close>, with \<open>KeyError\<close> where the body has no \<open>curator_signature\<close>, a key the
  schema check does not ask for, or with \<open>UnicodeError\<close>, for a curator id or a reason with a lone surrogate,
  which the schema check lets through.\<close>

theorem governance_parse_raises:
  assumes "validate_v2_transaction (JDict tx) = Inr ()" and "dget tx ''body'' (JDict []) = JDict b"
    and err: "parse_governance_transaction n (JDict tx) = Inl e"
  shows "e = GovernanceError \<or> e = UnicodeError \<or> (e = KeyError \<and> ''curator_signature'' \<notin> dkeys b)"
proof -
  from err have ty: "dget tx ''type'' JNull = JStr ''governance''"
    by (auto simp: parse_governance_transaction_def split: if_splits)
  let ?E = "{GovernanceError, UnicodeError} \<union> (if ''curator_signature'' \<in> dkeys b then {} else {KeyError})"
  have "dget tx ''body'' JNull = JDict b"
    using assms(1,2) by (auto simp: validate_v2_transaction_def dget_def res_simps split: option.splits)
  with assms(1) ty have v: "validate_governance_body b = Inr ()"
    by (auto simp: validate_v2_transaction_def res_simps)
  note keys = validate_governance_body_keys [OF v]
  have "raises_only ?E (parse_governance_body n b)"
    unfolding parse_governance_body_def Let_def
    using keys by (intro raises_only_if raises_only_bindE raises_register raises_rotate raises_revoke) auto
  then show "e = GovernanceError \<or> e = UnicodeError \<or> (e = KeyError \<and> ''curator_signature'' \<notin> dkeys b)"
    using err ty assms(2) by (auto simp: parse_governance_transaction_def raises_only_def split: if_splits)
qed

text \<open>A rotation without \<open>curator_signature\<close>: the schema accepts it.\<close>

definition unsigned_rotation :: "(string \<times> json) list" where
  "unsigned_rotation =
    [(''action'', JStr ''curator_rotate''),
     (''curator_id'', JStr ''alice''),
     (''public_key_hex'', JStr zero_hash),
     (''new_public_key_hex'', JStr zero_hash),
     (''activation_height'', JInt 1),
     (''previous_registry_root'', JStr zero_hash),
     (''governance_signatures'', JList [sig_to_dict \<lparr>key_index = 0, signature_hex = hex_of_bytes (replicate 64 0)\<rparr>]),
     (''network_id'', JStr GOV_NETWORK_ID),
     (''schema_version'', JInt 1)]"

lemma unsigned_rotation_schema:
  "validate_v2_transaction (JDict [(''type'', JStr ''governance''), (''body'', JDict unsigned_rotation)]) = Inr ()"
  by (simp add: validate_v2_transaction_def validate_governance_body_def unsigned_rotation_def
      require_member_def require_field_def checkE_def dget_def dindex_def dkeys_def
      governance_required_def hash_re_match_def hex64_zero_hash GOV_NETWORK_ID_def sig_to_dict_def)

lemma unsigned_rotation_parse:
  "parse_governance_transaction GOV_NETWORK_ID
     (JDict [(''type'', JStr ''governance''), (''body'', JDict unsigned_rotation)]) = Inl KeyError"
proof -
  have h: "hex_str 64 zero_hash"
    by (simp add: hex_str_def hex64_lower hex64_zero_hash)
  have s: "require_signatures (JList [sig_to_dict \<lparr>key_index = 0, signature_hex = hex_of_bytes (replicate 64 0)\<rparr>])
      = Inr [\<lparr>key_index = 0, signature_hex = hex_of_bytes (replicate 64 0)\<rparr>]"
    using require_signatures_to [of "[\<lparr>key_index = 0, signature_hex = hex_of_bytes (replicate 64 0)\<rparr>]"]
    by (simp add: wf_sig_def)
  have c: "wf_curator_id ''alice''" by (simp add: wf_curator_id_def MAX_CURATOR_ID_BYTES_def utf8_valid_ascii)
  show ?thesis
    by (simp add: parse_governance_transaction_def parse_governance_body_def unsigned_rotation_def
        from_dict_eval h s c del: require_signatures.simps)
qed

theorem governance_parse_raises_witness:
  "KeyError = GovernanceError \<or> KeyError = UnicodeError \<or> (KeyError = KeyError \<and> ''curator_signature'' \<notin> dkeys unsigned_rotation)"
  by (rule governance_parse_raises [OF unsigned_rotation_schema _ unsigned_rotation_parse])
    (simp add: dget_def)

section \<open>Threshold signatures\<close>

text \<open>A signature of the list that its key accepts.\<close>

definition accepted_sig :: "env \<Rightarrow> gov_context \<Rightarrow> bytes \<Rightarrow> gov_sig \<Rightarrow> bool" where
  "accepted_sig E ctx message s =
     signature_valid E (gc_public_keys_hex ctx ! nat (key_index s)) message (signature_hex s)"

definition index_ok :: "gov_context \<Rightarrow> gov_sig \<Rightarrow> bool" where
  "index_ok ctx s = (0 \<le> key_index s \<and> key_index s < int (length (gc_public_keys_hex ctx)))"

lemma count_signatures:
  "foldE (count_signature E ctx m) (used, n) sigs = Inr r \<longleftrightarrow>
     list_all (index_ok ctx) sigs \<and> distinct (map key_index sigs)
     \<and> used \<inter> key_index ` set sigs = {}
     \<and> r = (used \<union> key_index ` set sigs, n + int (length (filter (accepted_sig E ctx m) sigs)))"
proof (induction sigs arbitrary: used n)
  case Nil
  then show ?case by auto
next
  case (Cons s sigs)
  show ?case
  proof (cases "index_ok ctx s \<and> key_index s \<notin> used")
    case True
    then have "foldE (count_signature E ctx m) (used, n) (s # sigs) =
        foldE (count_signature E ctx m)
          (insert (key_index s) used, if accepted_sig E ctx m s then n + 1 else n) sigs"
      by (simp add: index_ok_def accepted_sig_def not_le)
    with Cons.IH True show ?thesis by auto
  next
    case False
    then have "foldE (count_signature E ctx m) (used, n) (s # sigs) = Inl GovernanceError"
      by (auto simp: index_ok_def)
    with False show ?thesis by auto
  qed
qed

lemma verify_governance_signatures_iff:
  "verify_governance_signatures E ctx body sigs = Inr () \<longleftrightarrow>
     (\<exists>m. governance_message E body (gc_network_id ctx) = Inr m
        \<and> list_all (index_ok ctx) sigs \<and> distinct (map key_index sigs)
        \<and> gc_threshold ctx \<le> int (length (filter (accepted_sig E ctx m) sigs)))"
  by (cases "governance_message E body (gc_network_id ctx)")
    (auto simp: verify_governance_signatures_def res_simps count_signatures split: if_splits)

text \<open>C5: the threshold check accepts exactly when every signature names one of the
  context's keys, no key is named twice, and at least \<open>threshold\<close> of the signatures are
  accepted by the key they name over the message built from the network, the protocol
  version and the body; all other signatures in the list may be invalid.\<close>

theorem governance_threshold:
  "verify_governance_signatures E ctx body sigs = Inr () \<longleftrightarrow>
     (\<exists>m. governance_message E body (gc_network_id ctx) = Inr m
        \<and> list_all (index_ok ctx) sigs \<and> distinct (map key_index sigs)
        \<and> gc_threshold ctx \<le> int (length (filter (accepted_sig E ctx m) sigs)))"
  by (rule verify_governance_signatures_iff)

lemma check_gov_keys:
  "foldE check_gov_key seen ks = Inr seen' \<Longrightarrow>
     distinct ks \<and> set ks \<inter> seen = {} \<and> (\<forall>k \<in> set ks. \<exists>raw. fromhex k = Some raw \<and> length raw = 32)"
proof (induction ks arbitrary: seen)
  case (Cons k ks)
  then show ?case
    by (auto simp: res_simps check_gov_key_def split: if_splits option.splits)
qed simp

lemma governance_context_Inr:
  assumes "governance_context keys t n = Inr ctx"
  shows "ctx = \<lparr>gc_public_keys_hex = keys, gc_threshold = t, gc_network_id = n\<rparr>"
    and "distinct keys" and "1 \<le> t" and "t \<le> int (length keys)" and "n \<noteq> []"
    and "\<forall>k \<in> set keys. \<exists>raw. fromhex k = Some raw \<and> length raw = 32"
  using assms
  by (auto simp: governance_context_def res_simps split: if_splits dest: check_gov_keys)

lemma signers_of_context:
  assumes "governance_context keys t n = Inr ctx"
    and "verify_governance_signatures E ctx body sigs = Inr ()"
  shows "\<exists>m. governance_message E body n = Inr m \<and>
    t \<le> int (card {k \<in> set keys. \<exists>s \<in> set sigs. signature_valid E k m (signature_hex s)})"
proof -
  note ctx = governance_context_Inr [OF assms(1)]
  let ?key = "\<lambda>s. keys ! nat (key_index s)"
  from assms(2) obtain m where m: "governance_message E body n = Inr m"
    and ok: "list_all (index_ok ctx) sigs" and d: "distinct (map key_index sigs)"
    and t: "t \<le> int (length (filter (accepted_sig E ctx m) sigs))"
    unfolding verify_governance_signatures_iff by (auto simp: ctx(1))
  let ?A = "set (filter (accepted_sig E ctx m) sigs)"
  have acc: "accepted_sig E ctx m s = signature_valid E (?key s) m (signature_hex s)" for s
    by (simp add: accepted_sig_def ctx(1))
  have dist: "distinct (filter (accepted_sig E ctx m) sigs)"
    using d by (simp add: distinct_map)
  have inj: "inj_on ?key ?A"
  proof (rule inj_onI)
    fix s s' assume "s \<in> ?A" "s' \<in> ?A" and eq: "?key s = ?key s'"
    then have mem: "s \<in> set sigs" "s' \<in> set sigs" by auto
    then have "index_ok ctx s" "index_ok ctx s'" using ok by (auto simp: list_all_iff)
    with eq have "key_index s = key_index s'"
      by (auto simp: index_ok_def ctx(1) nth_eq_iff_index_eq [OF ctx(2)] nat_less_iff eq_nat_nat_iff)
    with d mem show "s = s'" by (auto simp: distinct_map inj_on_def)
  qed
  have sub: "?key ` ?A \<subseteq> {k \<in> set keys. \<exists>s \<in> set sigs. signature_valid E k m (signature_hex s)}"
  proof
    fix k assume "k \<in> ?key ` ?A"
    then obtain s where s: "s \<in> set sigs" "accepted_sig E ctx m s" "k = ?key s" by auto
    with ok have "index_ok ctx s" by (simp add: list_all_iff)
    then have "k \<in> set keys" using s(3) by (auto simp: index_ok_def ctx(1))
    with s show "k \<in> {k \<in> set keys. \<exists>s \<in> set sigs. signature_valid E k m (signature_hex s)}"
      by (auto simp: acc)
  qed
  have "length (filter (accepted_sig E ctx m) sigs) = card (?key ` ?A)"
    by (simp only: distinct_card [OF dist] card_image [OF inj])
  also have "\<dots> \<le> card {k \<in> set keys. \<exists>s \<in> set sigs. signature_valid E k m (signature_hex s)}"
    by (rule card_mono [OF _ sub]) simp
  finally show ?thesis using m t by auto
qed

text \<open>An accepted body carries valid signatures of at least \<open>threshold\<close> different
  governance key strings of the configuration.\<close>

theorem governance_distinct_signers:
  assumes "governance_context keys t n = Inr ctx"
    and "verify_governance_signatures E ctx body sigs = Inr ()"
  shows "\<exists>m. governance_message E body n = Inr m \<and>
    t \<le> int (card {k \<in> set keys. \<exists>s \<in> set sigs. signature_valid E k m (signature_hex s)})"
  by (rule signers_of_context [OF assms])

lemma governance_message_Inr:
  assumes "json_ok (JDict body)" and "utf8_valid n"
  shows "\<exists>m. governance_message E body n = Inr m"
proof -
  obtain h where h: "hash_object E (JDict body) = Inr h" using assms(1) hash_object_Inr by blast
  have "json_ok (JDict [(''network_id'', JStr n), (''version'', JInt PROTOCOL_VERSION),
         (''type'', JStr ''registry''), (''body_hash'', JStr (hex_of_bytes h))])"
    using assms(2) by (simp add: utf8_valid_ascii)
  with h show ?thesis using hash_object_Inr
    by (simp add: governance_message_def hash_object_hex_def)
qed

lemma demo_signature_valid:
  "fromhex k = Some raw \<Longrightarrow> length raw = 32 \<Longrightarrow> fromhex s = Some sig \<Longrightarrow> length sig = 64
     \<Longrightarrow> signature_valid demo_env k m s"
  by (simp add: signature_valid_def decode_public_key_def verify_def)

theorem governance_distinct_signers_witness:
  "\<exists>m. governance_message demo_env [] ''net'' = Inr m \<and>
    1 \<le> int (card {k \<in> set [zero_hash]. \<exists>s \<in> set [\<lparr>key_index = 0, signature_hex = hex_of_bytes (replicate 64 0)\<rparr>].
       signature_valid demo_env k m (signature_hex s)})"
proof (rule governance_distinct_signers)
  let ?ctx = "\<lparr>gc_public_keys_hex = [zero_hash], gc_threshold = 1, gc_network_id = ''net''\<rparr>"
  show "governance_context [zero_hash] 1 ''net'' = Inr ?ctx"
    by (simp add: governance_context_def check_gov_key_def)
  obtain m where "governance_message demo_env [] ''net'' = Inr m"
    using governance_message_Inr [of "[]" "''net''"] by (auto simp: utf8_valid_ascii)
  then show "verify_governance_signatures demo_env ?ctx []
      [\<lparr>key_index = 0, signature_hex = hex_of_bytes (replicate 64 0)\<rparr>] = Inr ()"
    unfolding verify_governance_signatures_iff
    by (intro exI [of _ m]) (simp add: index_ok_def accepted_sig_def demo_signature_valid)
qed

text \<open>One 32-byte key in two spellings.\<close>

definition key_aa :: bytes where
  "key_aa = replicate 32 0xAA"

lemma hex_key_aa:
  "fromhex (replicate 64 (CHR ''a'')) = Some key_aa" "fromhex (replicate 64 (CHR ''A'')) = Some key_aa"
proof -
  have v: "hex_val (CHR ''a'') = Some 10" "hex_val (CHR ''A'') = Some 10"
    "\<not> is_space (CHR ''a'')" "\<not> is_space (CHR ''A'')"
    by (simp_all add: hex_val_def is_space_def)
  have "fromhex (replicate (2 * n) (CHR ''a'')) = Some (replicate n 0xAA)"
    "fromhex (replicate (2 * n) (CHR ''A'')) = Some (replicate n 0xAA)" for n
    by (induction n) (simp_all add: v)
  from this [of 32] show "fromhex (replicate 64 (CHR ''a'')) = Some key_aa"
    "fromhex (replicate 64 (CHR ''A'')) = Some key_aa"
    by (simp_all add: key_aa_def)
qed

text \<open>The duplicate check of the governance context compares spellings, not keys: a
  configuration that lists one key in lower and in upper case is accepted with threshold
  two, and one signature of that key, listed under both indices, reaches the threshold.\<close>

theorem governance_key_two_spellings:
  assumes "governance_message E body n = Inr m" and "n \<noteq> []"
    and "ed_load E key_aa" and "length sig = 64" and "ed_check E key_aa m sig"
  shows "\<exists>ctx. governance_context [replicate 64 (CHR ''a''), replicate 64 (CHR ''A'')] 2 n = Inr ctx
    \<and> verify_governance_signatures E ctx body
        [\<lparr>key_index = 0, signature_hex = hex_of_bytes sig\<rparr>,
         \<lparr>key_index = 1, signature_hex = hex_of_bytes sig\<rparr>] = Inr ()"
proof -
  let ?keys = "[replicate 64 (CHR ''a''), replicate 64 (CHR ''A'')]"
  let ?ctx = "\<lparr>gc_public_keys_hex = ?keys, gc_threshold = 2, gc_network_id = n\<rparr>"
  have len: "length key_aa = 32" by (simp add: key_aa_def)
  have "replicate 64 (CHR ''a'') \<noteq> replicate 64 (CHR ''A'')" by simp
  then have ctx: "governance_context ?keys 2 n = Inr ?ctx"
    using assms(2) by (simp add: governance_context_def check_gov_key_def hex_key_aa len del: replicate_Suc)
  have "signature_valid E (replicate 64 c) m (hex_of_bytes sig)" if "fromhex (replicate 64 c) = Some key_aa" for c
    using assms that len by (simp add: signature_valid_def decode_public_key_def verify_def)
  then have "verify_governance_signatures E ?ctx body
      [\<lparr>key_index = 0, signature_hex = hex_of_bytes sig\<rparr>, \<lparr>key_index = 1, signature_hex = hex_of_bytes sig\<rparr>] = Inr ()"
    unfolding verify_governance_signatures_iff using assms(1)
    by (intro exI [of _ m]) (simp add: index_ok_def accepted_sig_def hex_key_aa)
  with ctx show ?thesis by blast
qed

theorem governance_key_two_spellings_witness:
  "\<exists>m ctx. governance_message demo_env [] ''net'' = Inr m
    \<and> governance_context [replicate 64 (CHR ''a''), replicate 64 (CHR ''A'')] 2 ''net'' = Inr ctx
    \<and> verify_governance_signatures demo_env ctx []
        [\<lparr>key_index = 0, signature_hex = hex_of_bytes (replicate 64 0)\<rparr>,
         \<lparr>key_index = 1, signature_hex = hex_of_bytes (replicate 64 0)\<rparr>] = Inr ()"
proof -
  obtain m where "governance_message demo_env [] ''net'' = Inr m"
    using governance_message_Inr [of "[]" "''net''"] by (auto simp: utf8_valid_ascii)
  with governance_key_two_spellings [OF this, of "replicate 64 0"] show ?thesis by simp
qed

end
