(* ===== verification/Codec.thy ===== *)
theory Codec
  imports Crypto
begin

text \<open>
  \<open>BinaryCodec\<close> of \<open>chainbreaker/codec.py\<close>: variable-length integers, length-prefixed
  bytes and text, and the two block headers.  A decoder takes the whole input and an
  offset and returns the value and the next offset, as the class methods do; offsets are
  natural numbers, so the guards against negative ones in \<open>_need\<close> cannot fire.  The
  contract of such a pair of functions is the locale \<open>stream_codec\<close>; where the
  decoder accepts only what the encoder writes it is a \<open>canonical_codec\<close>.
\<close>

section \<open>The contract of an encoder and its decoder\<close>

lemma drop_append_next: "drop off data = b @ suf \<Longrightarrow> drop (off + length b) data = suf"
  by (metis add.commute append_eq_conv_conj drop_drop)

lemma drop_append_bound: "drop off data = b @ suf \<Longrightarrow> b \<noteq> [] \<Longrightarrow> off + length b \<le> length data"
proof -
  assume d: "drop off data = b @ suf" and b: "b \<noteq> []"
  from d have "length data - off = length b + length suf" by (metis length_append length_drop)
  moreover from b have "0 < length b" by simp
  ultimately show ?thesis by linarith
qed

lemma drop_append_slice: "drop off data = b @ suf \<Longrightarrow> slice off (length b) data = b"
  by (simp add: slice_def)

lemma drop_slice_split:
  "off + k \<le> length data \<Longrightarrow> drop off data = slice off k data @ drop (off + k) data"
  by (simp add: slice_def add.commute flip: drop_drop)

text \<open>A loop that decodes \<open>n\<close> values in a row.\<close>

fun decode_n :: "(bytes \<Rightarrow> nat \<Rightarrow> ('a \<times> nat) res) \<Rightarrow> nat \<Rightarrow> bytes \<Rightarrow> nat \<Rightarrow> ('a list \<times> nat) res" where
  "decode_n dec 0 data off = Inr ([], off)"
| "decode_n dec (Suc n) data off =
     bindE (dec data off) (\<lambda>(x, off1).
       bindE (decode_n dec n data off1) (\<lambda>(xs, off2). Inr (x # xs, off2)))"

locale stream_codec =
  fixes enc :: "'a \<Rightarrow> bytes res"
    and dec :: "bytes \<Rightarrow> nat \<Rightarrow> ('a \<times> nat) res"
    and wf :: "'a \<Rightarrow> bool"
  assumes dec_enc:
    "wf x \<Longrightarrow> enc x = Inr b \<Longrightarrow> drop off data = b @ suf \<Longrightarrow> dec data off = Inr (x, off + length b)"
begin

lemma dec_enc_at: "wf x \<Longrightarrow> enc x = Inr b \<Longrightarrow> dec (pre @ b @ suf) (length pre) = Inr (x, length pre + length b)"
  by (rule dec_enc) simp_all

lemma prefix_free:
  assumes "wf x" "wf y" "enc x = Inr b" "enc y = Inr c" "b @ s = c @ t"
  shows "x = y \<and> s = t"
proof -
  have "dec (b @ s) 0 = Inr (x, length b)" using dec_enc [of x b 0 "b @ s" s] assms by simp
  moreover have "dec (b @ s) 0 = Inr (y, length c)" using dec_enc [of y c 0 "b @ s" t] assms by simp
  ultimately show ?thesis using assms(5) by simp
qed

lemma enc_inj: "wf x \<Longrightarrow> wf y \<Longrightarrow> enc x = Inr b \<Longrightarrow> enc y = Inr b \<Longrightarrow> x = y"
  using prefix_free [of x y b b "[]" "[]"] by simp

lemma decode_n_enc:
  assumes "\<forall>x \<in> set xs. wf x" and "mapE enc xs = Inr bs" and "drop off data = concat bs @ suf"
  shows "decode_n dec (length xs) data off = Inr (xs, off + length (concat bs))"
  using assms
proof (induction xs arbitrary: bs off)
  case Nil
  then show ?case by simp
next
  case (Cons x xs)
  then obtain b bs' where b: "enc x = Inr b" "mapE enc xs = Inr bs'" "bs = b # bs'"
    by (auto simp: res_simps)
  with Cons.prems have d: "dec data off = Inr (x, off + length b)"
    by (intro dec_enc) auto
  have "decode_n dec (length xs) data (off + length b) = Inr (xs, off + length b + length (concat bs'))"
    using Cons.prems b by (intro Cons.IH) (auto intro: drop_append_next)
  with d b show ?case by (simp add: add.assoc)
qed

end

locale canonical_codec = stream_codec +
  assumes enc_dec:
    "dec data off = Inr (x, off') \<Longrightarrow>
       wf x \<and> (\<exists>b suf. enc x = Inr b \<and> drop off data = b @ suf \<and> off' = off + length b)"
begin

lemma unique_encoding:
  assumes "dec data off = Inr (x, end1)" and "dec data' off' = Inr (x, end2)"
  shows "slice off (end1 - off) data = slice off' (end2 - off') data'"
  using enc_dec [OF assms(1)] enc_dec [OF assms(2)] by (auto dest!: drop_append_slice)

lemma dec_iff_enc:
  "dec data off = Inr (x, off') \<longleftrightarrow>
     wf x \<and> (\<exists>b suf. enc x = Inr b \<and> drop off data = b @ suf \<and> off' = off + length b)"
  using enc_dec dec_enc by blast

end

section \<open>Variable-length integers\<close>

definition need :: "bytes \<Rightarrow> nat \<Rightarrow> nat \<Rightarrow> unit res" where
  "need data offset len = (if offset + len > length data then Inl CodecError else Inr ())"

definition MAX_VARINT :: int where
  "MAX_VARINT = 0xFFFFFFFFFFFFFFFF"

definition encode_varint :: "int \<Rightarrow> bytes res" where
  "encode_varint n =
     (if n < 0 then Inl CodecError
      else if n < 0xFD then struct_pack 1 n
      else if n \<le> 0xFFFF then bindE (struct_pack 2 n) (\<lambda>b. Inr (0xFD # b))
      else if n \<le> 0xFFFFFFFF then bindE (struct_pack 4 n) (\<lambda>b. Inr (0xFE # b))
      else if n \<le> MAX_VARINT then bindE (struct_pack 8 n) (\<lambda>b. Inr (0xFF # b))
      else Inl CodecError)"

definition canonical_length :: "int \<Rightarrow> nat" where
  "canonical_length n =
     (if n < 0xFD then 1 else if n \<le> 0xFFFF then 3 else if n \<le> 0xFFFFFFFF then 5 else 9)"

definition unpack_le :: "nat \<Rightarrow> bytes \<Rightarrow> nat \<Rightarrow> int" where
  "unpack_le k data offset = int (le_val (slice offset k data))"

definition decode_varint :: "bytes \<Rightarrow> nat \<Rightarrow> (int \<times> nat) res" where
  "decode_varint data offset =
     bindE (need data offset 1) (\<lambda>_.
       let prefix = uint (data ! offset) in
       if prefix < 0xFD then Inr (prefix, offset + 1)
       else if prefix = 0xFD then
         bindE (need data (offset + 1) 2) (\<lambda>_.
           let n = unpack_le 2 data (offset + 1) in
           if canonical_length n \<noteq> 3 then Inl CodecError else Inr (n, offset + 3))
       else if prefix = 0xFE then
         bindE (need data (offset + 1) 4) (\<lambda>_.
           let n = unpack_le 4 data (offset + 1) in
           if canonical_length n \<noteq> 5 then Inl CodecError else Inr (n, offset + 5))
       else if prefix = 0xFF then
         bindE (need data (offset + 1) 8) (\<lambda>_.
           let n = unpack_le 8 data (offset + 1) in
           if canonical_length n \<noteq> 9 then Inl CodecError else Inr (n, offset + 9))
       else Inl CodecError)"

definition encode_bytes :: "bytes \<Rightarrow> bytes res" where
  "encode_bytes blob = bindE (encode_varint (int (length blob))) (\<lambda>b. Inr (b @ blob))"

definition decode_bytes :: "bytes \<Rightarrow> nat \<Rightarrow> (bytes \<times> nat) res" where
  "decode_bytes data offset =
     bindE (decode_varint data offset) (\<lambda>(len, offset1).
     bindE (need data offset1 (nat len)) (\<lambda>_.
       Inr (slice offset1 (nat len) data, offset1 + nat len)))"

definition decode_string :: "bytes \<Rightarrow> nat \<Rightarrow> (string \<times> nat) res" where
  "decode_string data offset =
     bindE (decode_bytes data offset) (\<lambda>(raw, offset1).
     bindE (catchE (decode_utf8 raw) (\<lambda>e. e = UnicodeError) (Inl CodecError)) (\<lambda>s.
       Inr (s, offset1)))"

lemma need_Inr [res_simps]: "need data off k = Inr u \<longleftrightarrow> off + k \<le> length data"
  by (auto simp: need_def)

lemma encode_varint_shape:
  "encode_varint n = Inr b \<longleftrightarrow>
     (0 \<le> n \<and> n < 0xFD \<and> b = [word_of_int n])
     \<or> (0xFD \<le> n \<and> n \<le> 0xFFFF \<and> b = 0xFD # le_bytes 2 (nat n))
     \<or> (0xFFFF < n \<and> n \<le> 0xFFFFFFFF \<and> b = 0xFE # le_bytes 4 (nat n))
     \<or> (0xFFFFFFFF < n \<and> n \<le> MAX_VARINT \<and> b = 0xFF # le_bytes 8 (nat n))"
  by (auto simp: encode_varint_def res_simps MAX_VARINT_def)

lemma drop_ConsD: "drop off data = x # r \<Longrightarrow> off < length data \<and> data ! off = x \<and> drop (Suc off) data = r"
  by (metis drop_eq_Nil2 drop_Suc hd_drop_conv_nth list.discI list.sel(1,3) not_le tl_drop)

lemma need_drop: "drop off data = b @ suf \<Longrightarrow> b \<noteq> [] \<Longrightarrow> need data off (length b) = Inr ()"
  using drop_append_bound [of off data b suf] by (simp add: need_def)

lemma unpack_le_drop:
  "drop off data = b @ suf \<Longrightarrow> length b = k \<Longrightarrow> unpack_le k data off = int (le_val b)"
  using drop_append_slice [of off data b suf] by (simp add: unpack_le_def)

lemma uint_byte_of_int: "0 \<le> n \<Longrightarrow> n < 256 \<Longrightarrow> uint (word_of_int n :: byte) = n"
  by (simp add: unsigned_of_int take_bit_int_eq_self)

lemma varint_tail:
  assumes "drop off data = p # le_bytes k m @ suf" and "0 < k"
  shows "need data (Suc off) k = Inr ()" and "unpack_le k data (Suc off) = int (m mod 256 ^ k)"
proof -
  from assms(1) have d: "drop (Suc off) data = le_bytes k m @ suf"
    by (rule drop_ConsD [THEN conjunct2, THEN conjunct2])
  have "le_bytes k m \<noteq> []" using assms(2) by (cases k) auto
  then show "need data (Suc off) k = Inr ()" using need_drop [OF d] by simp
  show "unpack_le k data (Suc off) = int (m mod 256 ^ k)"
    using unpack_le_drop [OF d] by (simp add: le_val_le_bytes)
qed

lemma decode_encode_varint:
  assumes "encode_varint n = Inr b" and d: "drop off data = b @ suf"
  shows "decode_varint data off = Inr (n, off + length b)"
  using assms(1) unfolding encode_varint_shape
proof (elim disjE conjE)
  assume n: "0 \<le> n" "n < 0xFD" "b = [word_of_int n]"
  with d have v: "drop off data = word_of_int n # suf" by simp
  have "uint (word_of_int n :: byte) = n" using n by (simp add: uint_byte_of_int)
  with drop_ConsD [OF v] n show ?thesis by (simp add: decode_varint_def need_def)
next
  assume n: "0xFD \<le> n" "n \<le> 0xFFFF" "b = 0xFD # le_bytes 2 (nat n)"
  with d have v: "drop off data = 0xFD # le_bytes 2 (nat n) @ suf" by simp
  from drop_ConsD [OF this] varint_tail [OF this] n show ?thesis
    by (simp add: decode_varint_def need_def canonical_length_def)
next
  assume n: "0xFFFF < n" "n \<le> 0xFFFFFFFF" "b = 0xFE # le_bytes 4 (nat n)"
  with d have v: "drop off data = 0xFE # le_bytes 4 (nat n) @ suf" by simp
  from drop_ConsD [OF this] varint_tail [OF this] n show ?thesis
    by (simp add: decode_varint_def need_def canonical_length_def)
next
  assume n: "0xFFFFFFFF < n" "n \<le> MAX_VARINT" "b = 0xFF # le_bytes 8 (nat n)"
  with d have v: "drop off data = 0xFF # le_bytes 8 (nat n) @ suf" by simp
  from drop_ConsD [OF this] varint_tail [OF this] n show ?thesis
    by (simp add: decode_varint_def need_def canonical_length_def MAX_VARINT_def)
qed

lemma unpack_le_bytes:
  assumes "off + k \<le> length data"
  shows "slice off k data = le_bytes k (nat (unpack_le k data off))"
    and "0 \<le> unpack_le k data off" and "unpack_le k data off < 256 ^ k"
proof -
  have len: "length (slice off k data) = k" using assms by (rule length_slice)
  show "slice off k data = le_bytes k (nat (unpack_le k data off))"
    by (simp add: unpack_le_def le_bytes_le_val_len [OF len])
  show "0 \<le> unpack_le k data off" by (simp add: unpack_le_def)
  have "le_val (slice off k data) < 256 ^ k" using le_val_less [of "slice off k data"] len by simp
  then show "unpack_le k data off < 256 ^ k"
    unfolding unpack_le_def by (metis of_nat_less_iff of_nat_numeral of_nat_power)
qed

lemma varint_tail_split:
  assumes "Suc off + k \<le> length data"
  shows "drop off data = data ! off # le_bytes k (nat (unpack_le k data (Suc off))) @ drop (Suc off + k) data"
proof -
  have "drop off data = data ! off # drop (Suc off) data"
    using assms by (simp add: Cons_nth_drop_Suc)
  also have "drop (Suc off) data = slice (Suc off) k data @ drop (Suc off + k) data"
    using assms by (rule drop_slice_split)
  finally show ?thesis using unpack_le_bytes(1) [OF assms] by simp
qed

lemma byte_prefix: "uint (b :: byte) = numeral k \<Longrightarrow> b = numeral k"
  by (metis word_of_int_uint word_of_int_numeral)

lemma encode_decode_varint:
  assumes "decode_varint data off = Inr (n, off')"
  shows "\<exists>b suf. encode_varint n = Inr b \<and> drop off data = b @ suf \<and> off' = off + length b"
proof -
  let ?p = "uint (data ! off)"
  have off: "off < length data" using assms by (auto simp: decode_varint_def res_simps)
  have tail: "\<exists>b suf. encode_varint n = Inr b \<and> drop off data = b @ suf \<and> off' = off + length b"
    if "data ! off = p" and "Suc off + k \<le> length data" and "n = unpack_le k data (Suc off)"
      and "off' = off + Suc k" and "encode_varint n = Inr (p # le_bytes k (nat n))" for p k
    using varint_tail_split [OF that(2)] that by force
  consider "?p < 0xFD" | "?p = 0xFD" | "?p = 0xFE" | "?p = 0xFF"
    using assms by (auto simp: decode_varint_def res_simps Let_def split: if_splits)
  then show ?thesis
  proof cases
    case 1
    have "drop off data = [data ! off] @ drop (Suc off) data"
      using off by (simp add: Cons_nth_drop_Suc)
    moreover have "word_of_int ?p = data ! off" by simp
    ultimately show ?thesis using assms 1
      by (auto simp: decode_varint_def res_simps encode_varint_shape)
  next
    case 2
    then show ?thesis using assms unpack_le_bytes [of "Suc off" 2 data]
      by (intro tail [of "0xFD" 2])
        (auto simp: decode_varint_def res_simps encode_varint_shape canonical_length_def byte_prefix
          Let_def split: if_splits)
  next
    case 3
    then show ?thesis using assms unpack_le_bytes [of "Suc off" 4 data]
      by (intro tail [of "0xFE" 4])
        (auto simp: decode_varint_def res_simps encode_varint_shape canonical_length_def byte_prefix
          Let_def split: if_splits)
  next
    case 4
    then show ?thesis using assms unpack_le_bytes [of "Suc off" 8 data]
      by (intro tail [of "0xFF" 8])
        (auto simp: decode_varint_def res_simps encode_varint_shape canonical_length_def byte_prefix
          MAX_VARINT_def Let_def split: if_splits)
  qed
qed

interpretation varint: canonical_codec encode_varint decode_varint "\<lambda>_. True"
  by unfold_locales (auto simp: decode_encode_varint dest: encode_decode_varint)

text \<open>C28: variable-length integers are canonical: decoding at an offset yields \<open>n\<close>
  exactly when the bytes there are the encoding of \<open>n\<close>, so every value has one accepted
  encoding and none is a prefix of another.\<close>

theorem varint_canonical:
  "decode_varint data off = Inr (n, off') \<longleftrightarrow>
     (\<exists>b suf. encode_varint n = Inr b \<and> drop off data = b @ suf \<and> off' = off + length b)"
  using varint.dec_iff_enc by simp

section \<open>Length-prefixed bytes\<close>

lemma decode_encode_bytes:
  assumes "encode_bytes x = Inr b" and d: "drop off data = b @ suf"
  shows "decode_bytes data off = Inr (x, off + length b)"
proof -
  from assms(1) obtain v where v: "encode_varint (int (length x)) = Inr v" "b = v @ x"
    by (auto simp: encode_bytes_def res_simps)
  have dv: "drop off data = v @ x @ suf" using d v by simp
  from varint.dec_enc [OF TrueI v(1) dv]
  have 1: "decode_varint data off = Inr (int (length x), off + length v)" .
  from drop_append_next [OF dv] have dx: "drop (off + length v) data = x @ suf" .
  have "v \<noteq> []" using v(1) by (auto simp: encode_varint_shape)
  then have "off + length v \<le> length data" using drop_append_bound [OF dv] by simp
  then have "off + length v + length x \<le> length data"
    using arg_cong [OF dx, of length] by simp
  with 1 v show ?thesis
    by (simp add: decode_bytes_def need_def drop_append_slice [OF dx])
qed

lemma encode_decode_bytes:
  assumes "decode_bytes data off = Inr (x, off')"
  shows "\<exists>b suf. encode_bytes x = Inr b \<and> drop off data = b @ suf \<and> off' = off + length b"
proof -
  from assms obtain n off1 where 1: "decode_varint data off = Inr (n, off1)"
    and 2: "off1 + nat n \<le> length data" "x = slice off1 (nat n) data" "off' = off1 + nat n"
    by (auto simp: decode_bytes_def res_simps)
  from encode_decode_varint [OF 1] obtain v suf where
    v: "encode_varint n = Inr v" "drop off data = v @ suf" "off1 = off + length v" by blast
  have "0 \<le> n" using v(1) by (auto simp: encode_varint_shape)
  moreover have len: "length x = nat n" using 2 by (simp add: length_slice)
  ultimately have "encode_bytes x = Inr (v @ x)" using v(1) by (simp add: encode_bytes_def)
  moreover have "suf = x @ drop off' data"
    using drop_append_next [OF v(2)] drop_slice_split [OF 2(1)] v(3) 2 by simp
  ultimately show ?thesis using v 2(3) len by auto
qed

interpretation lenbytes: canonical_codec encode_bytes decode_bytes "\<lambda>_. True"
  by unfold_locales (auto simp: decode_encode_bytes dest: encode_decode_bytes)

section \<open>Hashes and fixed-width fields\<close>

definition encode_hash :: "string \<Rightarrow> bytes res" where
  "encode_hash h =
     bindE (of_option ValueError (fromhex h)) (\<lambda>raw.
       if length raw \<noteq> 32 then Inl CodecError else Inr raw)"

definition decode_hash :: "bytes \<Rightarrow> string res" where
  "decode_hash data = (if length data \<noteq> 32 then Inl CodecError else Inr (hex_of_bytes data))"

text \<open>The three lines \<open>cls._need(data, offset, k)\<close>, the read and \<open>offset += k\<close>, for an
  integer field and for a hash field.\<close>

definition read_le :: "nat \<Rightarrow> bytes \<Rightarrow> nat \<Rightarrow> (int \<times> nat) res" where
  "read_le k data offset = bindE (need data offset k) (\<lambda>_. Inr (unpack_le k data offset, offset + k))"

definition read_hash :: "bytes \<Rightarrow> nat \<Rightarrow> (string \<times> nat) res" where
  "read_hash data offset =
     bindE (need data offset 32) (\<lambda>_.
     bindE (decode_hash (slice offset 32 data)) (\<lambda>h. Inr (h, offset + 32)))"

lemma encode_hash_hex [simp]: "length b = 32 \<Longrightarrow> encode_hash (hex_of_bytes b) = Inr b"
  by (simp add: encode_hash_def)

lemma encode_hash_Inr_length: "encode_hash h = Inr b \<Longrightarrow> length b = 32"
  by (auto simp: encode_hash_def res_simps split: if_splits)

lemma encode_hash_hex64: "hex64 h \<Longrightarrow> encode_hash h = Inr b \<longleftrightarrow> h = hex_of_bytes b \<and> length b = 32"
  by (elim hex64E) (auto simp: encode_hash_def)

lemma read_le_enc:
  assumes "0 < k" "struct_pack k n = Inr b" "drop off data = b @ suf"
  shows "read_le k data off = Inr (n, off + length b)"
proof -
  from assms(2) have b: "length b = k" "le_val b = nat n" "0 \<le> n"
    by (auto simp: res_simps nat_less_256_pow)
  with assms(1) have "b \<noteq> []" by auto
  with b show ?thesis
    using need_drop [OF assms(3)] unpack_le_drop [OF assms(3)] by (simp add: read_le_def)
qed

lemma read_le_dec:
  assumes "read_le k data off = Inr (n, off')"
  shows "\<exists>b suf. struct_pack k n = Inr b \<and> drop off data = b @ suf \<and> off' = off + length b"
proof -
  from assms have n: "off + k \<le> length data" "n = unpack_le k data off" "off' = off + k"
    by (auto simp: read_le_def res_simps)
  with unpack_le_bytes [OF n(1)] drop_slice_split [OF n(1)] show ?thesis
    by (auto simp: res_simps)
qed

interpretation u32_field: canonical_codec "struct_pack 4" "read_le 4" "\<lambda>_. True"
  by unfold_locales (auto intro: read_le_enc dest: read_le_dec)

interpretation u64_field: canonical_codec "struct_pack 8" "read_le 8" "\<lambda>_. True"
  by unfold_locales (auto intro: read_le_enc dest: read_le_dec)

lemma read_hash_dec:
  assumes "read_hash data off = Inr (h, off')"
  shows "hex64 h \<and> (\<exists>b suf. encode_hash h = Inr b \<and> drop off data = b @ suf \<and> off' = off + length b)"
proof -
  from assms have n: "off + 32 \<le> length data" "h = hex_of_bytes (slice off 32 data)" "off' = off + 32"
    by (auto simp: read_hash_def res_simps decode_hash_def split: if_splits)
  with drop_slice_split [OF n(1)] length_slice [OF n(1)] show ?thesis by (auto simp: hex64_hex)
qed

interpretation hash_field: canonical_codec encode_hash read_hash hex64
proof unfold_locales
  fix h b off data suf
  assume "hex64 h" and "encode_hash h = Inr b" and d: "drop off data = b @ suf"
  then have "h = hex_of_bytes b" "length b = 32" by (auto simp: encode_hash_hex64)
  then show "read_hash data off = Inr (h, off + length b)"
    using need_drop [OF d] drop_append_slice [OF d]
    by (cases b) (auto simp: read_hash_def decode_hash_def)
qed (rule read_hash_dec)

section \<open>Block headers\<close>

text \<open>The header dictionaries that \<open>BlockHeader.to_dict\<close> and \<open>BlockHeaderV2.to_dict\<close>
  build; every key is present, so the \<open>KeyError\<close> branch of the encoders is dead.\<close>

record hdr_dict =
  hd_version :: int
  hd_prev_hash :: string
  hd_merkle_root :: string
  hd_timestamp :: int
  hd_target :: string
  hd_nonce :: int

record hdr_dict_v2 = hdr_dict +
  hd_registry_root :: string

definition TYPE_HEADER :: byte where
  "TYPE_HEADER = 0x02"

definition encode_header :: "'a hdr_dict_scheme \<Rightarrow> bytes res" where
  "encode_header h =
     catchE
       (bindE (struct_pack 4 (hd_version h)) (\<lambda>v.
        bindE (encode_hash (hd_prev_hash h)) (\<lambda>p.
        bindE (encode_hash (hd_merkle_root h)) (\<lambda>m.
        bindE (struct_pack 8 (hd_timestamp h)) (\<lambda>t.
        bindE (encode_hash (hd_target h)) (\<lambda>g.
        bindE (struct_pack 8 (hd_nonce h)) (\<lambda>n.
          Inr (TYPE_HEADER # v @ p @ m @ t @ g @ n))))))))
       (\<lambda>e. e = KeyError \<or> is_value_error e) (Inl CodecError)"

definition encode_header_v2 :: "hdr_dict_v2 \<Rightarrow> bytes res" where
  "encode_header_v2 h =
     catchE
       (bindE (struct_pack 4 (hd_version h)) (\<lambda>v.
        bindE (encode_hash (hd_prev_hash h)) (\<lambda>p.
        bindE (encode_hash (hd_merkle_root h)) (\<lambda>m.
        bindE (encode_hash (hd_registry_root h)) (\<lambda>r.
        bindE (struct_pack 8 (hd_timestamp h)) (\<lambda>t.
        bindE (encode_hash (hd_target h)) (\<lambda>g.
        bindE (struct_pack 8 (hd_nonce h)) (\<lambda>n.
          Inr (TYPE_HEADER # v @ p @ m @ r @ t @ g @ n)))))))))
       (\<lambda>e. e = KeyError \<or> is_value_error e) (Inl CodecError)"

definition decode_header :: "bytes \<Rightarrow> nat \<Rightarrow> (hdr_dict \<times> nat) res" where
  "decode_header data offset =
     bindE (need data offset 1) (\<lambda>_.
     if data ! offset \<noteq> TYPE_HEADER then Inl CodecError
     else
       bindE (read_le 4 data (offset + 1)) (\<lambda>(version, offset).
       bindE (read_hash data offset) (\<lambda>(prev_hash, offset).
       bindE (read_hash data offset) (\<lambda>(merkle_root, offset).
       bindE (read_le 8 data offset) (\<lambda>(timestamp, offset).
       bindE (read_hash data offset) (\<lambda>(target, offset).
       bindE (read_le 8 data offset) (\<lambda>(nonce, offset).
         Inr (\<lparr>hd_version = version, hd_prev_hash = prev_hash, hd_merkle_root = merkle_root,
               hd_timestamp = timestamp, hd_target = target, hd_nonce = nonce\<rparr>, offset))))))))"

definition decode_header_v2 :: "bytes \<Rightarrow> nat \<Rightarrow> bool \<Rightarrow> (hdr_dict_v2 \<times> nat) res" where
  "decode_header_v2 data offset strict =
     (if strict \<and> offset \<noteq> 0 then Inl CodecError
      else if strict \<and> length data \<noteq> 149 then Inl CodecError
      else
        bindE (need data offset 1) (\<lambda>_.
        if data ! offset \<noteq> TYPE_HEADER then Inl CodecError
        else
          bindE (read_le 4 data (offset + 1)) (\<lambda>(version, offset).
          bindE (read_hash data offset) (\<lambda>(prev_hash, offset).
          bindE (read_hash data offset) (\<lambda>(merkle_root, offset).
          bindE (read_hash data offset) (\<lambda>(registry_root, offset).
          bindE (read_le 8 data offset) (\<lambda>(timestamp, offset).
          bindE (read_hash data offset) (\<lambda>(target, offset).
          bindE (read_le 8 data offset) (\<lambda>(nonce, offset).
            if strict \<and> offset \<noteq> length data then Inl CodecError
            else Inr (\<lparr>hd_version = version, hd_prev_hash = prev_hash,
                  hd_merkle_root = merkle_root, hd_timestamp = timestamp,
                  hd_target = target, hd_nonce = nonce,
                  hd_registry_root = registry_root\<rparr>, offset))))))))))"

lemma encode_header_v2_Inr:
  "encode_header_v2 h = Inr b \<longleftrightarrow>
     (\<exists>v p m r t g n. struct_pack 4 (hd_version h) = Inr v \<and> encode_hash (hd_prev_hash h) = Inr p
        \<and> encode_hash (hd_merkle_root h) = Inr m \<and> encode_hash (hd_registry_root h) = Inr r
        \<and> struct_pack 8 (hd_timestamp h) = Inr t \<and> encode_hash (hd_target h) = Inr g
        \<and> struct_pack 8 (hd_nonce h) = Inr n \<and> b = TYPE_HEADER # v @ p @ m @ r @ t @ g @ n)"
  unfolding encode_header_v2_def catchE_Inl_Inr_iff bindE_Inr_iff by blast

lemma encode_header_Inr:
  "encode_header h = Inr b \<longleftrightarrow>
     (\<exists>v p m t g n. struct_pack 4 (hd_version h) = Inr v \<and> encode_hash (hd_prev_hash h) = Inr p
        \<and> encode_hash (hd_merkle_root h) = Inr m
        \<and> struct_pack 8 (hd_timestamp h) = Inr t \<and> encode_hash (hd_target h) = Inr g
        \<and> struct_pack 8 (hd_nonce h) = Inr n \<and> b = TYPE_HEADER # v @ p @ m @ t @ g @ n)"
  unfolding encode_header_def catchE_Inl_Inr_iff bindE_Inr_iff by blast

lemma struct_pack_length: "struct_pack k n = Inr b \<Longrightarrow> length b = k"
  by (auto simp: res_simps)

lemma encode_header_v2_length: "encode_header_v2 h = Inr b \<Longrightarrow> length b = 149"
  by (auto simp: encode_header_v2_Inr dest!: struct_pack_length encode_hash_Inr_length)

lemma encode_header_length: "encode_header h = Inr b \<Longrightarrow> length b = 117"
  by (auto simp: encode_header_Inr dest!: struct_pack_length encode_hash_Inr_length)

definition wf_hdr_dict :: "'a hdr_dict_scheme \<Rightarrow> bool" where
  "wf_hdr_dict h = (hex64 (hd_prev_hash h) \<and> hex64 (hd_merkle_root h) \<and> hex64 (hd_target h))"

definition wf_hdr_dict_v2 :: "hdr_dict_v2 \<Rightarrow> bool" where
  "wf_hdr_dict_v2 h = (wf_hdr_dict h \<and> hex64 (hd_registry_root h))"

lemma decode_encode_header_v2:
  assumes "wf_hdr_dict_v2 h" and "encode_header_v2 h = Inr b" and d: "drop off data = b @ suf"
    and strict: "strict \<Longrightarrow> off = 0 \<and> suf = []"
  shows "decode_header_v2 data off strict = Inr (h, off + 149)"
proof -
  from assms(2) obtain v p m r t g n where
    f: "struct_pack 4 (hd_version h) = Inr v" "encode_hash (hd_prev_hash h) = Inr p"
      "encode_hash (hd_merkle_root h) = Inr m" "encode_hash (hd_registry_root h) = Inr r"
      "struct_pack 8 (hd_timestamp h) = Inr t" "encode_hash (hd_target h) = Inr g"
      "struct_pack 8 (hd_nonce h) = Inr n"
    and b: "b = TYPE_HEADER # v @ p @ m @ r @ t @ g @ n"
    by (auto simp: encode_header_v2_Inr)
  note len = f(1,5,7)[THEN struct_pack_length] f(2,3,4,6)[THEN encode_hash_Inr_length]
  from assms(1) have wf: "hex64 (hd_prev_hash h)" "hex64 (hd_merkle_root h)"
      "hex64 (hd_registry_root h)" "hex64 (hd_target h)"
    by (auto simp: wf_hdr_dict_v2_def wf_hdr_dict_def)
  have d0: "drop off data = TYPE_HEADER # (v @ p @ m @ r @ t @ g @ n) @ suf" using d b by simp
  have d1: "drop (off + 1) data = v @ p @ m @ r @ t @ g @ n @ suf" using drop_ConsD [OF d0] by simp
  note d2 = drop_append_next [OF d1]
  note d3 = drop_append_next [OF d2]
  note d4 = drop_append_next [OF d3]
  note d5 = drop_append_next [OF d4]
  note d6 = drop_append_next [OF d5]
  note d7 = drop_append_next [OF d6]
  note reads = u32_field.dec_enc [OF TrueI f(1) d1] hash_field.dec_enc [OF wf(1) f(2) d2]
    hash_field.dec_enc [OF wf(2) f(3) d3] hash_field.dec_enc [OF wf(3) f(4) d4]
    u64_field.dec_enc [OF TrueI f(5) d5] hash_field.dec_enc [OF wf(4) f(6) d6]
    u64_field.dec_enc [OF TrueI f(7) d7]
  have total: "length data = 149" if strict
    using strict [OF that] d encode_header_v2_length [OF assms(2)] by simp
  show ?thesis
    using drop_ConsD [OF d0] reads strict total
    by (simp add: decode_header_v2_def need_def len)
qed

lemma encode_decode_header_v2:
  assumes "decode_header_v2 data off strict = Inr (h, off')"
  shows "wf_hdr_dict_v2 h \<and> (\<exists>b suf. encode_header_v2 h = Inr b \<and> drop off data = b @ suf
           \<and> off' = off + length b)"
proof -
  from assms obtain v p m r t g n o1 o2 o3 o4 o5 o6 where
    off: "off < length data" "data ! off = TYPE_HEADER" and
    reads: "read_le 4 data (off + 1) = Inr (v, o1)" "read_hash data o1 = Inr (p, o2)"
      "read_hash data o2 = Inr (m, o3)" "read_hash data o3 = Inr (r, o4)"
      "read_le 8 data o4 = Inr (t, o5)" "read_hash data o5 = Inr (g, o6)"
      "read_le 8 data o6 = Inr (n, off')"
    and h: "h = \<lparr>hd_version = v, hd_prev_hash = p, hd_merkle_root = m, hd_timestamp = t,
              hd_target = g, hd_nonce = n, hd_registry_root = r\<rparr>"
    by (auto simp: decode_header_v2_def res_simps split: if_splits)
  from reads(1)[THEN u32_field.enc_dec] reads(2,3,4,6)[THEN hash_field.enc_dec]
    reads(5,7)[THEN u64_field.enc_dec]
  obtain v' p' m' r' t' g' n' s1 s2 s3 s4 s5 s6 s7 where
    f: "struct_pack 4 v = Inr v'" "encode_hash p = Inr p'" "encode_hash m = Inr m'"
      "encode_hash r = Inr r'" "struct_pack 8 t = Inr t'" "encode_hash g = Inr g'"
      "struct_pack 8 n = Inr n'"
    and d: "drop (off + 1) data = v' @ s1" "drop o1 data = p' @ s2" "drop o2 data = m' @ s3"
      "drop o3 data = r' @ s4" "drop o4 data = t' @ s5" "drop o5 data = g' @ s6"
      "drop o6 data = n' @ s7"
    and o: "o1 = off + 1 + length v'" "o2 = o1 + length p'" "o3 = o2 + length m'"
      "o4 = o3 + length r'" "o5 = o4 + length t'" "o6 = o5 + length g'" "off' = o6 + length n'"
    and wf: "hex64 p" "hex64 m" "hex64 r" "hex64 g"
    by auto
  have s: "s1 = p' @ s2" "s2 = m' @ s3" "s3 = r' @ s4" "s4 = t' @ s5" "s5 = g' @ s6" "s6 = n' @ s7"
    using d(1-6)[THEN drop_append_next] d(2-7) o(1-6) by simp_all
  have "drop off data = TYPE_HEADER # v' @ p' @ m' @ r' @ t' @ g' @ n' @ s7"
    using off d(1) s by (simp flip: Cons_nth_drop_Suc)
  with f o h wf show ?thesis
    by (auto simp: encode_header_v2_Inr wf_hdr_dict_v2_def wf_hdr_dict_def)
qed

interpretation header_v2: canonical_codec encode_header_v2
    "\<lambda>data off. decode_header_v2 data off False" wf_hdr_dict_v2
  by unfold_locales
    (auto dest: encode_header_v2_length encode_decode_header_v2 simp: decode_encode_header_v2)

text \<open>The strict mode of the v2 header decoder: it accepts a byte string exactly when it
  is the 149-byte encoding of the header it returns, so accepted headers and well-formed
  header values correspond one to one.\<close>

theorem header_v2_strict_canonical:
  "decode_header_v2 data 0 True = Inr (h, k) \<longleftrightarrow>
     wf_hdr_dict_v2 h \<and> encode_header_v2 h = Inr data \<and> k = 149"
proof
  assume d: "decode_header_v2 data 0 True = Inr (h, k)"
  then have "length data = 149" by (auto simp: decode_header_v2_def split: if_splits)
  with encode_decode_header_v2 [OF d] encode_header_v2_length [of h]
  show "wf_hdr_dict_v2 h \<and> encode_header_v2 h = Inr data \<and> k = 149" by force
next
  assume "wf_hdr_dict_v2 h \<and> encode_header_v2 h = Inr data \<and> k = 149"
  then show "decode_header_v2 data 0 True = Inr (h, k)"
    using decode_encode_header_v2 [of h data 0 data "[]" True] by simp
qed

end
