(* ===== verification/Registry.thy ===== *)
theory Registry
  imports Governance Codec
begin

text \<open>
  \<open>chainbreaker/registry_state.py\<close>: the curator registry that the ledger derives from its
  governance transactions, its canonical bytes and root, the reducer and the historical
  lookups.  Records and states are immutable dataclasses, so the reducer is a function
  from a state to a new state or an exception.
\<close>

section \<open>Records and states\<close>

record curator_record =
  cr_curator_id :: string
  cr_public_key_hex :: string
  cr_activation_height :: int
  cr_revocation_height :: "int option"
  cr_previous_key_hex :: "string option"
  cr_registration_txid :: string
  cr_latest_rotation_txid :: "string option"

record registry_state =
  rs_records :: "curator_record list"
  rs_governance_version :: int
  rs_network_id :: string
  rs_governance_keys :: "string list"
  rs_threshold :: int

definition is_active_at :: "curator_record \<Rightarrow> int \<Rightarrow> bool" where
  "is_active_at r height =
     (height \<ge> cr_activation_height r \<and>
      (case cr_revocation_height r of None \<Rightarrow> True | Some v \<Rightarrow> height < v))"

text \<open>\<open>max(xs, key=f)\<close>: the first of the elements with the largest key.\<close>

fun py_max :: "('a \<Rightarrow> int) \<Rightarrow> 'a list \<Rightarrow> 'a option" where
  "py_max f [] = None"
| "py_max f (x # xs) = Some (foldl (\<lambda>m y. if f m < f y then y else m) x xs)"

definition records_of :: "registry_state \<Rightarrow> string \<Rightarrow> curator_record list" where
  "records_of state curator_id = filter (\<lambda>r. cr_curator_id r = curator_id) (rs_records state)"

definition by_id :: "registry_state \<Rightarrow> string \<Rightarrow> curator_record option" where
  "by_id state curator_id = py_max cr_activation_height (records_of state curator_id)"

definition is_active :: "registry_state \<Rightarrow> string \<Rightarrow> int \<Rightarrow> bool" where
  "is_active state curator_id height =
     (case by_id state curator_id of None \<Rightarrow> False | Some r \<Rightarrow> is_active_at r height)"

definition active_key_at :: "registry_state \<Rightarrow> string \<Rightarrow> int \<Rightarrow> string option" where
  "active_key_at state curator_id height =
     (case by_id state curator_id of
        None \<Rightarrow> None
      | Some r \<Rightarrow> if is_active_at r height then Some (cr_public_key_hex r) else None)"

definition key_was_valid_at :: "registry_state \<Rightarrow> string \<Rightarrow> string \<Rightarrow> int \<Rightarrow> bool" where
  "key_was_valid_at state curator_id public_key_hex height =
     list_ex (\<lambda>r. (cr_public_key_hex r = public_key_hex \<and> is_active_at r height)
                \<or> (cr_previous_key_hex r = Some public_key_hex \<and> height < cr_activation_height r))
       (records_of state curator_id)"

definition with_network_id :: "registry_state \<Rightarrow> string \<Rightarrow> registry_state" where
  "with_network_id state network_id = state\<lparr>rs_network_id := network_id\<rparr>"

text \<open>The constructor with its default arguments, and \<open>RegistryState.genesis\<close>.\<close>

definition registry_default :: "curator_record list \<Rightarrow> registry_state" where
  "registry_default records = \<lparr>rs_records = records, rs_governance_version = GOVERNANCE_SCHEMA_VERSION,
     rs_network_id = GOV_NETWORK_ID, rs_governance_keys = [], rs_threshold = 0\<rparr>"

definition registry_genesis :: "string list \<Rightarrow> int \<Rightarrow> registry_state res" where
  "registry_genesis governance_keys threshold =
     (if governance_keys = [] then Inl RegistryError
      else if \<not> (1 \<le> threshold \<and> threshold \<le> int (length governance_keys)) then Inl RegistryError
      else bindE
        (forE (\<lambda>key. bindE (of_option ValueError (fromhex key)) (\<lambda>raw.
                 checkE (length raw = 32) RegistryError)) governance_keys)
        (\<lambda>_. Inr \<lparr>rs_records = [], rs_governance_version = GOVERNANCE_SCHEMA_VERSION,
               rs_network_id = GOV_NETWORK_ID, rs_governance_keys = sort governance_keys,
               rs_threshold = threshold\<rparr>))"

section \<open>Canonical bytes\<close>

definition reg_encode_varint :: "int \<Rightarrow> bytes res" where
  "reg_encode_varint n =
     (if n < 0xFD then (if n < 0 then Inl ValueError else Inr [word_of_int n])
      else if n \<le> 0xFFFF then bindE (int_to_le 2 n) (\<lambda>b. Inr (0xFD # b))
      else if n \<le> 0xFFFFFFFF then bindE (int_to_le 4 n) (\<lambda>b. Inr (0xFE # b))
      else if n \<le> 0xFFFFFFFFFFFFFFFF then bindE (int_to_le 8 n) (\<lambda>b. Inr (0xFF # b))
      else Inl RegistryError)"

definition reg_encode_bytes :: "bytes \<Rightarrow> bytes res" where
  "reg_encode_bytes data = bindE (reg_encode_varint (int (length data))) (\<lambda>b. Inr (b @ data))"

definition reg_encode_str :: "string \<Rightarrow> bytes res" where
  "reg_encode_str s = bindE (encode_utf8 s) reg_encode_bytes"

definition from_hex :: "string \<Rightarrow> bytes res" where
  "from_hex s = of_option ValueError (fromhex s)"

text \<open>\<open>bytes.fromhex(x) if x else bytes(32)\<close>.\<close>

definition opt_hash_bytes :: "string option \<Rightarrow> bytes res" where
  "opt_hash_bytes v =
     (case v of None \<Rightarrow> Inr (replicate 32 0)
      | Some s \<Rightarrow> if s = [] then Inr (replicate 32 0) else from_hex s)"

definition serialize_record :: "curator_record \<Rightarrow> bytes res" where
  "serialize_record r =
     bindE (int_to_le 4 GOVERNANCE_SCHEMA_VERSION) (\<lambda>version.
     bindE (reg_encode_str (cr_curator_id r)) (\<lambda>cid.
     bindE (from_hex (cr_public_key_hex r)) (\<lambda>pk.
     bindE (int_to_le 8 (cr_activation_height r)) (\<lambda>activation.
     bindE (int_to_le 8 (case cr_revocation_height r of None \<Rightarrow> 0xFFFFFFFFFFFFFFFF | Some v \<Rightarrow> v)) (\<lambda>revocation.
     bindE (opt_hash_bytes (cr_previous_key_hex r)) (\<lambda>previous.
     bindE (from_hex (cr_registration_txid r)) (\<lambda>txid.
     bindE (opt_hash_bytes (cr_latest_rotation_txid r)) (\<lambda>latest.
       Inr (version @ cid @ pk @ activation @ revocation @ previous @ txid @ latest)))))))))"

text \<open>\<open>sorted(records, key=lambda r: r.curator_id.encode("utf-8"))\<close>: the key of every record is computed first.\<close>

definition ids_encodable :: "curator_record list \<Rightarrow> bool" where
  "ids_encodable rs = list_all (\<lambda>r. utf8_valid (cr_curator_id r)) rs"

definition sort_records :: "curator_record list \<Rightarrow> curator_record list res" where
  "sort_records rs = (if ids_encodable rs then Inr (sort_key cr_curator_id rs) else Inl UnicodeError)"

definition serialize_registry_state :: "registry_state \<Rightarrow> bytes res" where
  "serialize_registry_state state =
     bindE (sort_records (rs_records state)) (\<lambda>sorted_records.
      bindE (int_to_le 4 (rs_governance_version state)) (\<lambda>version.
      bindE (reg_encode_str (rs_network_id state)) (\<lambda>network.
      bindE (reg_encode_varint (int (length (rs_governance_keys state)))) (\<lambda>key_count.
      bindE (mapE from_hex (rs_governance_keys state)) (\<lambda>keys.
      bindE (int_to_le 1 (rs_threshold state)) (\<lambda>threshold.
      bindE (reg_encode_varint (int (length sorted_records))) (\<lambda>record_count.
      bindE (mapE serialize_record sorted_records) (\<lambda>records.
        Inr (version @ network @ key_count @ concat keys @ threshold @ record_count @ concat records)))))))))"

text \<open>The decoders slice without checking the length: a slice past the end is shorter.\<close>

definition reg_decode_varint :: "bytes \<Rightarrow> nat \<Rightarrow> (int \<times> nat) res" where
  "reg_decode_varint data offset =
     (if offset \<ge> length data then Inl RegistryError
      else
        let first = uint (data ! offset) in
        if first < 0xFD then Inr (first, offset + 1)
        else if first = 0xFD then Inr (unpack_le 2 data (offset + 1), offset + 3)
        else if first = 0xFE then Inr (unpack_le 4 data (offset + 1), offset + 5)
        else if first = 0xFF then Inr (unpack_le 8 data (offset + 1), offset + 9)
        else Inl RegistryError)"

definition reg_decode_bytes :: "bytes \<Rightarrow> nat \<Rightarrow> (bytes \<times> nat) res" where
  "reg_decode_bytes data offset =
     bindE (reg_decode_varint data offset) (\<lambda>(len, offset).
       if offset + nat len > length data then Inl RegistryError
       else Inr (slice offset (nat len) data, offset + nat len))"

definition reg_decode_str :: "bytes \<Rightarrow> nat \<Rightarrow> (string \<times> nat) res" where
  "reg_decode_str data offset =
     bindE (reg_decode_bytes data offset) (\<lambda>(raw, offset).
       bindE (decode_utf8 raw) (\<lambda>s. Inr (s, offset)))"

definition hex_at :: "bytes \<Rightarrow> nat \<Rightarrow> string" where
  "hex_at data offset = hex_of_bytes (slice offset 32 data)"

definition opt_hex_at :: "bytes \<Rightarrow> nat \<Rightarrow> string option" where
  "opt_hex_at data offset =
     (if slice offset 32 data \<noteq> replicate 32 0 then Some (hex_at data offset) else None)"

definition deserialize_record :: "bytes \<Rightarrow> nat \<Rightarrow> (curator_record \<times> nat) res" where
  "deserialize_record data offset =
     (if unpack_le 4 data offset \<noteq> GOVERNANCE_SCHEMA_VERSION then Inl RegistryError
      else
        bindE (reg_decode_str data (offset + 4)) (\<lambda>(curator_id, o1).
        let revocation_raw = unpack_le 8 data (o1 + 40) in
        Inr (\<lparr>cr_curator_id = curator_id,
              cr_public_key_hex = hex_at data o1,
              cr_activation_height = unpack_le 8 data (o1 + 32),
              cr_revocation_height =
                (if revocation_raw = 0xFFFFFFFFFFFFFFFF then None else Some revocation_raw),
              cr_previous_key_hex = opt_hex_at data (o1 + 48),
              cr_registration_txid = hex_at data (o1 + 80),
              cr_latest_rotation_txid = opt_hex_at data (o1 + 112)\<rparr>, o1 + 144)))"

definition deserialize_registry_state :: "bytes \<Rightarrow> registry_state res" where
  "deserialize_registry_state data =
     (if length data < 4 then Inl RegistryError
      else if unpack_le 4 data 0 \<noteq> GOVERNANCE_SCHEMA_VERSION then Inl RegistryError
      else
        bindE (reg_decode_str data 4) (\<lambda>(network_id, o1).
        bindE (reg_decode_varint data o1) (\<lambda>(key_count, o2).
        if o2 + nat key_count * 32 > length data then Inl RegistryError
        else
          let keys = map (\<lambda>i. hex_at data (o2 + i * 32)) [0..<nat key_count];
              o3 = o2 + nat key_count * 32 in
          if o3 \<ge> length data then Inl IndexError
          else
            bindE (reg_decode_varint data (o3 + 1)) (\<lambda>(record_count, o4).
            bindE (decode_n deserialize_record (nat record_count) data o4) (\<lambda>(records, o5).
              if o5 \<noteq> length data then Inl RegistryError
              else Inr \<lparr>rs_records = records, rs_governance_version = unpack_le 4 data 0,
                        rs_network_id = network_id, rs_governance_keys = keys,
                        rs_threshold = uint (data ! o3)\<rparr>)))))"

definition registry_root :: "env \<Rightarrow> registry_state \<Rightarrow> string res" where
  "registry_root E state = bindE (serialize_registry_state state) (\<lambda>b. Inr (hash_single_hex E b))"

section \<open>The reducer\<close>

definition require_not_registered :: "registry_state \<Rightarrow> string \<Rightarrow> string \<Rightarrow> unit res" where
  "require_not_registered state curator_id public_key_hex =
     forE (\<lambda>r. thenE (checkE (cr_curator_id r \<noteq> curator_id) RegistryError)
                     (checkE (cr_public_key_hex r \<noteq> public_key_hex) RegistryError)) (rs_records state)"

definition require_public_key_unused :: "registry_state \<Rightarrow> string \<Rightarrow> string \<Rightarrow> unit res" where
  "require_public_key_unused state public_key_hex exclude_curator_id =
     forE (\<lambda>r. checkE (\<not> (cr_public_key_hex r = public_key_hex \<and> cr_curator_id r \<noteq> exclude_curator_id))
             RegistryError) (rs_records state)"

definition require_active_record :: "registry_state \<Rightarrow> string \<Rightarrow> string \<Rightarrow> curator_record res" where
  "require_active_record state curator_id public_key_hex =
     (case py_max cr_activation_height (records_of state curator_id) of
        None \<Rightarrow> Inl RegistryError
      | Some r \<Rightarrow> if cr_public_key_hex r \<noteq> public_key_hex then Inl RegistryError else Inr r)"

definition verify_curator_signature ::
    "env \<Rightarrow> curator_record \<Rightarrow> (string \<times> json) list \<Rightarrow> string \<Rightarrow> unit res" where
  "verify_curator_signature E r body sig_hex =
     bindE (governance_message E body GOV_NETWORK_ID) (\<lambda>message.
     bindE (decode_public_key E (cr_public_key_hex r)) (\<lambda>pk.
       checkE (verify E pk message sig_hex) RegistryError))"

definition with_records :: "registry_state \<Rightarrow> curator_record list \<Rightarrow> registry_state" where
  "with_records state records = state\<lparr>rs_records := records\<rparr>"

definition apply_register ::
    "env \<Rightarrow> registry_state \<Rightarrow> register_tx \<Rightarrow> int \<Rightarrow> string \<Rightarrow> gov_context \<Rightarrow> registry_state res" where
  "apply_register E state tx block_height txid ctx =
     (let body = drop_keys [''governance_signatures''] (register_to_dict tx) in
      thenE (verify_governance_signatures E ctx body (rg_governance_signatures tx))
     (thenE (checkE (rg_activation_height tx > block_height) RegistryError)
     (bindE (registry_root E state) (\<lambda>root.
      thenE (checkE (rg_previous_registry_root tx = root) RegistryError)
     (thenE (require_not_registered state (rg_curator_id tx) (rg_public_key_hex tx))
        (bindE (sort_records (rs_records state @
           [\<lparr>cr_curator_id = rg_curator_id tx, cr_public_key_hex = rg_public_key_hex tx,
             cr_activation_height = rg_activation_height tx, cr_revocation_height = None,
             cr_previous_key_hex = None, cr_registration_txid = txid,
             cr_latest_rotation_txid = None\<rparr>])) (\<lambda>new_records. Inr (with_records state new_records))))))))"

definition apply_rotate ::
    "env \<Rightarrow> registry_state \<Rightarrow> rotate_tx \<Rightarrow> int \<Rightarrow> string \<Rightarrow> gov_context \<Rightarrow> registry_state res" where
  "apply_rotate E state tx block_height txid ctx =
     (let body = drop_keys [''governance_signatures'', ''curator_signature''] (rotate_to_dict tx) in
      thenE (verify_governance_signatures E ctx body (ro_governance_signatures tx))
     (thenE (checkE (ro_activation_height tx > block_height) RegistryError)
     (bindE (registry_root E state) (\<lambda>root.
      thenE (checkE (ro_previous_registry_root tx = root) RegistryError)
     (bindE (require_active_record state (ro_curator_id tx) (ro_public_key_hex tx)) (\<lambda>old_record.
      thenE (verify_curator_signature E old_record body (ro_curator_signature_hex tx))
     (thenE (checkE (ro_new_public_key_hex tx \<noteq> cr_public_key_hex old_record) RegistryError)
     (thenE (require_public_key_unused state (ro_new_public_key_hex tx) (ro_curator_id tx))
        (let revoked_old = old_record\<lparr>cr_revocation_height := Some (ro_activation_height tx),
               cr_latest_rotation_txid := Some txid\<rparr>;
             new_record = \<lparr>cr_curator_id = ro_curator_id tx,
               cr_public_key_hex = ro_new_public_key_hex tx,
               cr_activation_height = ro_activation_height tx, cr_revocation_height = None,
               cr_previous_key_hex = Some (cr_public_key_hex old_record),
               cr_registration_txid = cr_registration_txid old_record,
               cr_latest_rotation_txid = Some txid\<rparr>
         in bindE (sort_records (filter (\<lambda>r. cr_curator_id r \<noteq> ro_curator_id tx) (rs_records state)
               @ [revoked_old, new_record])) (\<lambda>new_records. Inr (with_records state new_records)))))))))))"

definition apply_revoke ::
    "env \<Rightarrow> registry_state \<Rightarrow> revoke_tx \<Rightarrow> int \<Rightarrow> string \<Rightarrow> gov_context \<Rightarrow> registry_state res" where
  "apply_revoke E state tx block_height txid ctx =
     (let body = drop_keys [''governance_signatures'', ''curator_signature''] (revoke_to_dict tx) in
      thenE (verify_governance_signatures E ctx body (rv_governance_signatures tx))
     (thenE (checkE (rv_revocation_height tx > block_height) RegistryError)
     (bindE (registry_root E state) (\<lambda>root.
      thenE (checkE (rv_previous_registry_root tx = root) RegistryError)
     (bindE (require_active_record state (rv_curator_id tx) (rv_public_key_hex tx)) (\<lambda>old_record.
      thenE (verify_curator_signature E old_record body (rv_curator_signature_hex tx))
     (thenE (checkE (cr_revocation_height old_record = None) RegistryError)
     (thenE (checkE (rv_revocation_height tx \<ge> cr_activation_height old_record) RegistryError)
        (let revoked = old_record\<lparr>cr_revocation_height := Some (rv_revocation_height tx),
               cr_latest_rotation_txid := Some txid\<rparr>
         in bindE (sort_records (filter (\<lambda>r. cr_curator_id r \<noteq> rv_curator_id tx) (rs_records state) @ [revoked]))
              (\<lambda>new_records. Inr (registry_default new_records)))))))))))"

fun apply_registry_transaction ::
    "env \<Rightarrow> registry_state \<Rightarrow> governance_tx \<Rightarrow> int \<Rightarrow> string \<Rightarrow> gov_context \<Rightarrow> registry_state res" where
  "apply_registry_transaction E state (RegisterTx t) h txid ctx = apply_register E state t h txid ctx"
| "apply_registry_transaction E state (RotateTx t) h txid ctx = apply_rotate E state t h txid ctx"
| "apply_registry_transaction E state (RevokeTx t) h txid ctx = apply_revoke E state t h txid ctx"

section \<open>Encodable ids\<close>

lemma sort_records_Inr [res_simps]: "sort_records rs = Inr rs' \<longleftrightarrow> ids_encodable rs \<and> rs' = sort_key cr_curator_id rs"
  by (auto simp: sort_records_def)

lemma ids_encodable_simps [simp]:
  "ids_encodable []" "ids_encodable (r # rs) \<longleftrightarrow> utf8_valid (cr_curator_id r) \<and> ids_encodable rs"
  "ids_encodable (rs @ rs') \<longleftrightarrow> ids_encodable rs \<and> ids_encodable rs'"
  by (simp_all add: ids_encodable_def)

lemma ids_encodable_filter: "ids_encodable rs \<Longrightarrow> ids_encodable (filter P rs)"
  by (induction rs) auto

lemma ids_encodableD: "ids_encodable rs \<Longrightarrow> r \<in> set rs \<Longrightarrow> utf8_valid (cr_curator_id r)"
  by (simp add: ids_encodable_def list_all_iff)

text \<open>A state with a root has encodable ids.\<close>

lemma registry_root_encodable: "registry_root E s = Inr root \<Longrightarrow> ids_encodable (rs_records s)"
  by (auto simp: registry_root_def serialize_registry_state_def res_simps)

end
