(* ===== verification/Registry_Codec.thy ===== *)
theory Registry_Codec
  imports Registry
begin

text \<open>
  The canonical bytes of the registry state: the pieces of the encoder and the decoder as
  \<open>stream_codec\<close>s, the round trip of a whole state, and what the registry root commits
  to.
\<close>

section \<open>Integers, text\<close>

lemma reg_encode_varint_Inr: "reg_encode_varint n = Inr b \<longleftrightarrow> encode_varint n = Inr b"
  unfolding encode_varint_shape by (auto simp: reg_encode_varint_def res_simps MAX_VARINT_def)

text \<open>The registry's decoder accepts what the canonical one accepts.\<close>

lemma reg_decode_varint_extends:
  assumes "decode_varint data off = Inr (n, off')"
  shows "reg_decode_varint data off = Inr (n, off')"
  using assms
  by (auto simp: decode_varint_def reg_decode_varint_def res_simps Let_def split: if_splits)

interpretation reg_varint: stream_codec reg_encode_varint reg_decode_varint "\<lambda>_. True"
proof unfold_locales
  fix n b off data suf
  assume "reg_encode_varint n = Inr b" and d: "drop off data = b @ suf"
  then have "encode_varint n = Inr b" by (simp add: reg_encode_varint_Inr)
  then show "reg_decode_varint data off = Inr (n, off + length b)"
    by (intro reg_decode_varint_extends varint.dec_enc [OF TrueI _ d])
qed

lemma reg_bytes_dec_enc:
  assumes "reg_encode_bytes x = Inr b" and d: "drop off data = b @ suf"
  shows "reg_decode_bytes data off = Inr (x, off + length b)"
proof -
  from assms(1) obtain v where v: "reg_encode_varint (int (length x)) = Inr v" "b = v @ x"
    by (auto simp: reg_encode_bytes_def res_simps)
  with d have d1: "drop off data = v @ x @ suf" by simp
  note d2 = drop_append_next [OF d1]
  have "off + length v + length x \<le> length data"
  proof (cases "x = []")
    case True
    have "v \<noteq> []" using v(1) by (auto simp: reg_encode_varint_Inr encode_varint_shape)
    then show ?thesis using drop_append_bound [OF d1] True by simp
  next
    case False
    then show ?thesis using drop_append_bound [OF d2] by simp
  qed
  then show ?thesis
    using reg_varint.dec_enc [OF TrueI v(1) d1] drop_append_slice [OF d2] v(2)
    by (simp add: reg_decode_bytes_def)
qed

interpretation reg_str: stream_codec reg_encode_str reg_decode_str utf8_valid
proof unfold_locales
  fix s b off data suf
  assume s: "utf8_valid s" and "reg_encode_str s = Inr b" and d: "drop off data = b @ suf"
  then have "reg_decode_bytes data off = Inr (str_bytes s, off + length b)"
    by (intro reg_bytes_dec_enc [OF _ d]) (simp add: reg_encode_str_def encode_utf8_def)
  with s show "reg_decode_str data off = Inr (s, off + length b)"
    by (simp add: reg_decode_str_def)
qed

section \<open>Records\<close>

text \<open>The records the bytes can represent: a height that is not the marker for none, and
  optional hashes other than zero, which stands for none.\<close>

definition wf_opt_hash :: "string option \<Rightarrow> bool" where
  "wf_opt_hash v = (case v of None \<Rightarrow> True | Some s \<Rightarrow> hex64 s \<and> s \<noteq> zero_hash)"

definition wf_record :: "curator_record \<Rightarrow> bool" where
  "wf_record r =
     (utf8_valid (cr_curator_id r) \<and> length (cr_curator_id r) \<le> 65535
      \<and> hex64 (cr_public_key_hex r)
      \<and> 0 \<le> cr_activation_height r \<and> cr_activation_height r < 2 ^ 64
      \<and> (case cr_revocation_height r of None \<Rightarrow> True | Some v \<Rightarrow> 0 \<le> v \<and> v < 2 ^ 64 - 1)
      \<and> wf_opt_hash (cr_previous_key_hex r) \<and> hex64 (cr_registration_txid r)
      \<and> wf_opt_hash (cr_latest_rotation_txid r))"

lemma from_hex_hex64: "hex64 s \<Longrightarrow> \<exists>b. from_hex s = Inr b \<and> length b = 32 \<and> hex_of_bytes b = s"
  by (elim hex64E) (auto simp: from_hex_def)

lemma opt_hash_bytes_wf:
  assumes "wf_opt_hash v"
  shows "\<exists>b. opt_hash_bytes v = Inr b \<and> length b = 32
           \<and> (if b \<noteq> replicate 32 0 then Some (hex_of_bytes b) else None) = v"
proof (cases v)
  case None
  then show ?thesis by (simp add: opt_hash_bytes_def)
next
  case (Some s)
  with assms have s: "hex64 s" "s \<noteq> zero_hash" by (simp_all add: wf_opt_hash_def)
  then obtain b where b: "from_hex s = Inr b" "length b = 32" "hex_of_bytes b = s"
    using from_hex_hex64 by blast
  moreover from s b have "b \<noteq> replicate 32 0" by (auto simp: zero_hash_hex)
  moreover from s(1) have "s \<noteq> []" by (auto simp: hex64_def)
  ultimately show ?thesis by (simp add: Some opt_hash_bytes_def)
qed

lemma reg_encode_str_total: "utf8_valid s \<Longrightarrow> length s \<le> 65535 \<Longrightarrow> \<exists>b. reg_encode_str s = Inr b"
  by (auto simp: reg_encode_str_def encode_utf8_def reg_encode_bytes_def reg_encode_varint_def int_to_le_def)

lemma int_to_le_total: "0 \<le> n \<Longrightarrow> n < 256 ^ k \<Longrightarrow> int_to_le k n = Inr (le_bytes k (nat n))"
  by (simp add: int_to_le_def)

lemma unpack_le_at:
  assumes "drop off data = le_bytes k (nat n) @ suf" "0 \<le> n" "n < 256 ^ k"
  shows "unpack_le k data off = n"
  using unpack_le_drop [OF assms(1)] assms(2,3) nat_less_256_pow [OF assms(2,3)] by simp

definition revocation_value :: "int option \<Rightarrow> int" where
  "revocation_value v = (case v of None \<Rightarrow> 0xFFFFFFFFFFFFFFFF | Some h \<Rightarrow> h)"

lemma wf_record_serialize:
  assumes "wf_record r"
  shows "\<exists>c pk p t l. serialize_record r = Inr (le_bytes 4 1 @ c @ pk
       @ le_bytes 8 (nat (cr_activation_height r)) @ le_bytes 8 (nat (revocation_value (cr_revocation_height r)))
       @ p @ t @ l)
     \<and> reg_encode_str (cr_curator_id r) = Inr c
     \<and> length pk = 32 \<and> hex_of_bytes pk = cr_public_key_hex r
     \<and> length p = 32 \<and> (if p \<noteq> replicate 32 0 then Some (hex_of_bytes p) else None) = cr_previous_key_hex r
     \<and> length t = 32 \<and> hex_of_bytes t = cr_registration_txid r
     \<and> length l = 32 \<and> (if l \<noteq> replicate 32 0 then Some (hex_of_bytes l) else None) = cr_latest_rotation_txid r"
proof -
  note wf = assms [unfolded wf_record_def]
  from wf obtain c where c: "reg_encode_str (cr_curator_id r) = Inr c"
    using reg_encode_str_total by blast
  from wf obtain pk where pk: "from_hex (cr_public_key_hex r) = Inr pk" "length pk = 32"
      "hex_of_bytes pk = cr_public_key_hex r" using from_hex_hex64 by blast
  from wf obtain t where t: "from_hex (cr_registration_txid r) = Inr t" "length t = 32"
      "hex_of_bytes t = cr_registration_txid r" using from_hex_hex64 by blast
  from wf obtain p where p: "opt_hash_bytes (cr_previous_key_hex r) = Inr p" "length p = 32"
      "(if p \<noteq> replicate 32 0 then Some (hex_of_bytes p) else None) = cr_previous_key_hex r"
    using opt_hash_bytes_wf by blast
  from wf obtain l where l: "opt_hash_bytes (cr_latest_rotation_txid r) = Inr l" "length l = 32"
      "(if l \<noteq> replicate 32 0 then Some (hex_of_bytes l) else None) = cr_latest_rotation_txid r"
    using opt_hash_bytes_wf by blast
  have act: "int_to_le 8 (cr_activation_height r) = Inr (le_bytes 8 (nat (cr_activation_height r)))"
    using wf by (intro int_to_le_total) simp_all
  have rev: "int_to_le 8 (revocation_value (cr_revocation_height r))
      = Inr (le_bytes 8 (nat (revocation_value (cr_revocation_height r))))"
    using wf by (intro int_to_le_total) (auto simp: revocation_value_def split: option.splits)
  have "int_to_le 4 GOVERNANCE_SCHEMA_VERSION = Inr (le_bytes 4 1)"
    by (simp add: int_to_le_def GOVERNANCE_SCHEMA_VERSION_def)
  with c pk t p l act rev show ?thesis
    unfolding serialize_record_def revocation_value_def [symmetric] by (simp only: bindE_simps) blast
qed

lemma drop_next: "drop off data = b @ suf \<Longrightarrow> length b = k \<Longrightarrow> drop (off + k) data = suf"
  using drop_append_next by blast

lemma deserialize_serialize_record:
  assumes "wf_record r" and "serialize_record r = Inr b" and d: "drop off data = b @ suf"
  shows "deserialize_record data off = Inr (r, off + length b)"
proof -
  note wf = assms(1) [unfolded wf_record_def]
  let ?act = "le_bytes 8 (nat (cr_activation_height r))"
  let ?rev = "le_bytes 8 (nat (revocation_value (cr_revocation_height r)))"
  from wf_record_serialize [OF assms(1)] assms(2) obtain c pk p t l where
    b: "b = le_bytes 4 1 @ c @ pk @ ?act @ ?rev @ p @ t @ l"
    and c: "reg_encode_str (cr_curator_id r) = Inr c"
    and pk: "length pk = 32" "hex_of_bytes pk = cr_public_key_hex r"
    and p: "length p = 32" "(if p \<noteq> replicate 32 0 then Some (hex_of_bytes p) else None) = cr_previous_key_hex r"
    and t: "length t = 32" "hex_of_bytes t = cr_registration_txid r"
    and l: "length l = 32" "(if l \<noteq> replicate 32 0 then Some (hex_of_bytes l) else None) = cr_latest_rotation_txid r"
    by auto
  have d0: "drop off data = le_bytes 4 (nat 1) @ c @ pk @ ?act @ ?rev @ p @ t @ l @ suf" using d b by simp
  have d1: "drop (off + 4) data = c @ pk @ ?act @ ?rev @ p @ t @ l @ suf" using drop_next [OF d0] by simp
  define o1 where "o1 = off + 4 + length c"
  have e0: "drop o1 data = pk @ ?act @ ?rev @ p @ t @ l @ suf"
    using drop_next [OF d1] by (simp add: o1_def)
  have e1: "drop (o1 + 32) data = ?act @ ?rev @ p @ t @ l @ suf" using drop_next [OF e0 pk(1)] .
  have e2: "drop (o1 + 40) data = ?rev @ p @ t @ l @ suf" using drop_next [OF e1, of 8] by (simp add: add.commute)
  have e3: "drop (o1 + 48) data = p @ t @ l @ suf" using drop_next [OF e2, of 8] by (simp add: add.commute)
  have e4: "drop (o1 + 80) data = t @ l @ suf" using drop_next [OF e3 p(1)] by (simp add: add.commute)
  have e5: "drop (o1 + 112) data = l @ suf" using drop_next [OF e4 t(1)] by (simp add: add.commute)
  have version: "unpack_le 4 data off = GOVERNANCE_SCHEMA_VERSION"
    using unpack_le_at [OF d0] by (simp add: GOVERNANCE_SCHEMA_VERSION_def)
  have str: "reg_decode_str data (off + 4) = Inr (cr_curator_id r, o1)"
    unfolding o1_def using wf by (intro reg_str.dec_enc [OF _ c d1]) simp
  have act: "unpack_le 8 data (o1 + 32) = cr_activation_height r"
    using wf by (intro unpack_le_at [OF e1]) simp_all
  have rev: "unpack_le 8 data (o1 + 40) = revocation_value (cr_revocation_height r)"
    using wf by (intro unpack_le_at [OF e2]) (auto simp: revocation_value_def split: option.splits)
  have revo: "(if revocation_value (cr_revocation_height r) = 0xFFFFFFFFFFFFFFFF then None
      else Some (revocation_value (cr_revocation_height r))) = cr_revocation_height r"
    using wf by (auto simp: revocation_value_def split: option.splits)
  have hexes: "hex_at data o1 = cr_public_key_hex r" "opt_hex_at data (o1 + 48) = cr_previous_key_hex r"
      "hex_at data (o1 + 80) = cr_registration_txid r" "opt_hex_at data (o1 + 112) = cr_latest_rotation_txid r"
    using drop_append_slice [OF e0] drop_append_slice [OF e3] drop_append_slice [OF e4] drop_append_slice [OF e5]
      pk p t l by (simp_all add: hex_at_def opt_hex_at_def split: if_splits)
  have "off + length b = o1 + 144" using b pk p t l by (simp add: o1_def)
  then show ?thesis
    using revo by (simp add: deserialize_record_def version str act rev hexes Let_def split: if_splits)
qed

interpretation record_codec: stream_codec serialize_record deserialize_record wf_record
  by unfold_locales (rule deserialize_serialize_record)

section \<open>States\<close>

definition wf_registry :: "registry_state \<Rightarrow> bool" where
  "wf_registry s =
     (list_all wf_record (rs_records s) \<and> length (rs_records s) < 2 ^ 64
      \<and> rs_governance_version s = GOVERNANCE_SCHEMA_VERSION
      \<and> utf8_valid (rs_network_id s) \<and> length (rs_network_id s) \<le> 65535
      \<and> list_all hex64 (rs_governance_keys s) \<and> length (rs_governance_keys s) < 2 ^ 64
      \<and> 0 \<le> rs_threshold s \<and> rs_threshold s < 256)"

definition canonical_state :: "registry_state \<Rightarrow> registry_state" where
  "canonical_state s = s\<lparr>rs_records := sort_key cr_curator_id (rs_records s)\<rparr>"

lemma keys_bytes:
  "list_all hex64 ks \<Longrightarrow> \<exists>bs. mapE from_hex ks = Inr bs \<and> map hex_of_bytes bs = ks
     \<and> list_all (\<lambda>b. length b = 32) bs"
proof (induction ks)
  case (Cons k ks)
  then obtain bs where bs: "mapE from_hex ks = Inr bs" "map hex_of_bytes bs = ks"
      "list_all (\<lambda>b. length b = 32) bs" by auto
  from Cons.prems obtain b where "from_hex k = Inr b" "length b = 32" "hex_of_bytes b = k"
    using from_hex_hex64 by auto
  with bs show ?case by (intro exI [of _ "b # bs"]) simp
qed simp

lemma length_concat_32: "list_all (\<lambda>b. length b = 32) bs \<Longrightarrow> length (concat bs) = length bs * 32"
  by (induction bs) simp_all

lemma hexes_at_concat:
  assumes "drop off data = concat bs @ suf" and "list_all (\<lambda>b. length b = 32) bs"
  shows "map (\<lambda>i. hex_at data (off + i * 32)) [0..<length bs] = map hex_of_bytes bs"
  using assms
proof (induction bs arbitrary: off)
  case (Cons b bs)
  from Cons.prems have d: "drop off data = b @ concat bs @ suf" and len: "length b = 32" by simp_all
  have d': "drop (off + 32) data = concat bs @ suf" by (rule drop_next [OF d len])
  have "map (\<lambda>i. hex_at data (off + 32 + i * 32)) [0..<length bs] = map hex_of_bytes bs"
    using Cons.prems by (intro Cons.IH [OF d']) simp
  moreover have "hex_at data off = hex_of_bytes b"
    using drop_append_slice [OF d] len by (simp add: hex_at_def)
  ultimately show ?case
    by (simp add: upt_conv_Cons del: upt_Suc flip: map_Suc_upt, simp add: comp_def algebra_simps)
qed simp

lemma reg_varint_total: "0 \<le> n \<Longrightarrow> n < 2 ^ 64 \<Longrightarrow> \<exists>b. reg_encode_varint n = Inr b"
  by (auto simp: reg_encode_varint_def int_to_le_def)

lemma int_less_2_64: "k < 2 ^ 64 \<Longrightarrow> int k < 2 ^ 64"
  by (metis of_nat_less_iff of_nat_numeral of_nat_power)

text \<open>The parts of a serialised state.\<close>

lemma wf_registry_serialize:
  assumes "wf_registry s"
  shows "\<exists>net kc ks rc rs. serialize_registry_state s = Inr (le_bytes 4 1 @ net @ kc @ concat ks
       @ le_bytes 1 (nat (rs_threshold s)) @ rc @ concat rs)
     \<and> reg_encode_str (rs_network_id s) = Inr net
     \<and> reg_encode_varint (int (length (rs_governance_keys s))) = Inr kc
     \<and> map hex_of_bytes ks = rs_governance_keys s \<and> list_all (\<lambda>b. length b = 32) ks
     \<and> reg_encode_varint (int (length (rs_records s))) = Inr rc
     \<and> mapE serialize_record (sort_key cr_curator_id (rs_records s)) = Inr rs"
proof -
  note wf = assms [unfolded wf_registry_def]
  from wf obtain net where net: "reg_encode_str (rs_network_id s) = Inr net"
    using reg_encode_str_total by blast
  from wf obtain kc where kc: "reg_encode_varint (int (length (rs_governance_keys s))) = Inr kc"
    using reg_varint_total int_less_2_64 by (metis of_nat_0_le_iff)
  from wf obtain ks where ks: "mapE from_hex (rs_governance_keys s) = Inr ks"
      "map hex_of_bytes ks = rs_governance_keys s" "list_all (\<lambda>b. length b = 32) ks"
    using keys_bytes by blast
  from wf obtain rc where rc: "reg_encode_varint (int (length (rs_records s))) = Inr rc"
    using reg_varint_total int_less_2_64 by (metis of_nat_0_le_iff)
  have "\<forall>r \<in> set (sort_key cr_curator_id (rs_records s)). \<exists>b. serialize_record r = Inr b"
    using wf wf_record_serialize by (auto simp: list_all_iff) blast
  then have "\<exists>rs. mapE serialize_record (sort_key cr_curator_id (rs_records s)) = Inr rs"
    using mapE_all_Inr [of _ serialize_record] by metis
  then obtain rs where rs: "mapE serialize_record (sort_key cr_curator_id (rs_records s)) = Inr rs" ..
  have "int_to_le 4 (rs_governance_version s) = Inr (le_bytes 4 1)"
    "int_to_le 1 (rs_threshold s) = Inr (le_bytes 1 (nat (rs_threshold s)))"
    using wf by (simp_all add: int_to_le_def GOVERNANCE_SCHEMA_VERSION_def)
  moreover have "ids_encodable (rs_records s)"
    using wf by (auto simp: ids_encodable_def list_all_iff wf_record_def)
  ultimately show ?thesis using net kc ks rc rs
    by (simp add: serialize_registry_state_def sort_records_def) blast
qed

lemma deserialize_serialize:
  assumes "wf_registry s" and "serialize_registry_state s = Inr b"
  shows "deserialize_registry_state b = Inr (canonical_state s)"
proof -
  note wf = assms(1) [unfolded wf_registry_def]
  let ?sorted = "sort_key cr_curator_id (rs_records s)"
  from wf_registry_serialize [OF assms(1)] assms(2) obtain net kc ks rc rs where
    b: "b = le_bytes 4 1 @ net @ kc @ concat ks @ le_bytes 1 (nat (rs_threshold s)) @ rc @ concat rs"
    and net: "reg_encode_str (rs_network_id s) = Inr net"
    and kc: "reg_encode_varint (int (length (rs_governance_keys s))) = Inr kc"
    and ks: "map hex_of_bytes ks = rs_governance_keys s" "list_all (\<lambda>b. length b = 32) ks"
    and rc: "reg_encode_varint (int (length (rs_records s))) = Inr rc"
    and rs: "mapE serialize_record ?sorted = Inr rs"
    by auto
  have klen: "length (rs_governance_keys s) = length ks" using ks(1) by (metis length_map)
  have kbytes: "length (concat ks) = length ks * 32" using ks(2) by (rule length_concat_32)
  let ?th = "le_bytes 1 (nat (rs_threshold s))"
  let ?o1 = "4 + length net"
  let ?o2 = "?o1 + length kc"
  let ?o3 = "?o2 + length ks * 32"
  let ?o4 = "?o3 + 1 + length rc"
  have d0: "drop 0 b = le_bytes 4 (nat 1) @ net @ kc @ concat ks @ ?th @ rc @ concat rs" using b by simp
  have d1: "drop 4 b = net @ kc @ concat ks @ ?th @ rc @ concat rs" using drop_next [OF d0, of 4] by simp
  have d2: "drop ?o1 b = kc @ concat ks @ ?th @ rc @ concat rs" using drop_next [OF d1] by simp
  have d3: "drop ?o2 b = concat ks @ ?th @ rc @ concat rs" using drop_next [OF d2] by simp
  have d4: "drop ?o3 b = ?th @ rc @ concat rs" using drop_next [OF d3 kbytes] .
  have d5: "drop (?o3 + 1) b = rc @ concat rs" using drop_next [OF d4] by simp
  have d6: "drop ?o4 b = concat rs @ []" using drop_next [OF d5] by simp
  have len: "length b = ?o4 + length (concat rs)" using b kbytes by simp
  have version: "unpack_le 4 b 0 = GOVERNANCE_SCHEMA_VERSION"
    using unpack_le_at [OF d0] by (simp add: GOVERNANCE_SCHEMA_VERSION_def)
  have s1: "reg_decode_str b 4 = Inr (rs_network_id s, ?o1)"
    using wf by (intro reg_str.dec_enc [OF _ net d1]) simp
  have s2: "reg_decode_varint b ?o1 = Inr (int (length ks), ?o2)"
    using reg_varint.dec_enc [OF TrueI kc d2] klen by simp
  have s3: "map (\<lambda>i. hex_at b (?o2 + i * 32)) [0..<length ks] = rs_governance_keys s"
    using hexes_at_concat [OF d3 ks(2)] ks(1) by simp
  have th: "?o3 < length b" "uint (b ! ?o3) = rs_threshold s"
  proof -
    from d4 have d4': "drop ?o3 b = word_of_nat (nat (rs_threshold s)) # rc @ concat rs" by simp
    note drop_ConsD [OF this]
    then show "?o3 < length b" "uint (b ! ?o3) = rs_threshold s"
      using wf uint_byte_of_int [of "rs_threshold s"] by simp_all
  qed
  have s4: "reg_decode_varint b (?o3 + 1) = Inr (int (length ?sorted), ?o4)"
    using reg_varint.dec_enc [OF TrueI rc d5] by simp
  have s5: "decode_n deserialize_record (length ?sorted) b ?o4 = Inr (?sorted, length b)"
    using record_codec.decode_n_enc [OF _ rs d6] wf len by (simp add: list_all_iff)
  have "\<not> ?o2 + length ks * 32 > length b" using th(1) by simp
  with th version s1 s2 s3 s4 s5 len show ?thesis
    using wf by (cases s) (simp add: deserialize_registry_state_def canonical_state_def Let_def)
qed

text \<open>C30: the canonical bytes of a registry state can be written and read back: a well-formed
  state serialises, and its bytes parse to the state with its records sorted by curator.\<close>

theorem registry_state_roundtrip:
  assumes "wf_registry s"
  shows "\<exists>b. serialize_registry_state s = Inr b \<and> deserialize_registry_state b = Inr (canonical_state s)"
  using wf_registry_serialize [OF assms] deserialize_serialize [OF assms] by blast

definition demo_registry :: registry_state where
  "demo_registry = \<lparr>rs_records = [\<lparr>cr_curator_id = ''bob'', cr_public_key_hex = zero_hash,
       cr_activation_height = 5, cr_revocation_height = Some 9, cr_previous_key_hex = None,
       cr_registration_txid = zero_hash, cr_latest_rotation_txid = None\<rparr>,
      \<lparr>cr_curator_id = ''alice'', cr_public_key_hex = zero_hash,
       cr_activation_height = 7, cr_revocation_height = None, cr_previous_key_hex = None,
       cr_registration_txid = zero_hash, cr_latest_rotation_txid = None\<rparr>],
     rs_governance_version = 1, rs_network_id = GOV_NETWORK_ID,
     rs_governance_keys = [zero_hash], rs_threshold = 1\<rparr>"

lemma wf_demo_registry: "wf_registry demo_registry"
  by (simp add: demo_registry_def wf_registry_def wf_record_def wf_opt_hash_def hex64_zero_hash
      GOVERNANCE_SCHEMA_VERSION_def GOV_NETWORK_ID_def utf8_valid_ascii)

theorem registry_state_roundtrip_witness:
  "\<exists>b. serialize_registry_state demo_registry = Inr b
     \<and> deserialize_registry_state b = Inr (canonical_state demo_registry)"
  by (rule registry_state_roundtrip [OF wf_demo_registry])

text \<open>The registry root commits to the state: two well-formed states with one root have
  the same canonical form, or their serialisations are a SHA-256 collision.\<close>

theorem registry_root_binding:
  assumes "wf_registry s" and "wf_registry s'"
    and "registry_root E s = Inr r" and "registry_root E s' = Inr r"
  shows "canonical_state s = canonical_state s' \<or>
    (\<exists>b b'. serialize_registry_state s = Inr b \<and> serialize_registry_state s' = Inr b'
       \<and> b \<noteq> b' \<and> sha E b = sha E b')"
proof -
  from assms(3,4) obtain b b' where b: "serialize_registry_state s = Inr b"
      "serialize_registry_state s' = Inr b'" "sha E b = sha E b'"
    by (auto simp: registry_root_def res_simps hash_single_hex_def)
  show ?thesis
  proof (cases "b = b'")
    case True
    with deserialize_serialize [OF assms(1) b(1)] deserialize_serialize [OF assms(2) b(2)]
    show ?thesis by simp
  next
    case False
    with b show ?thesis by blast
  qed
qed

theorem registry_root_binding_witness:
  "canonical_state demo_registry = canonical_state demo_registry \<or>
    (\<exists>b b'. serialize_registry_state demo_registry = Inr b \<and> serialize_registry_state demo_registry = Inr b'
       \<and> b \<noteq> b' \<and> sha demo_env b = sha demo_env b')"
proof -
  obtain r where "registry_root demo_env demo_registry = Inr r"
    using wf_registry_serialize [OF wf_demo_registry] by (auto simp: registry_root_def)
  from registry_root_binding [OF wf_demo_registry wf_demo_registry this this] show ?thesis .
qed

end
