(* ===== verification/Reducer.thy ===== *)
theory Reducer
  imports Registry_Codec
begin

text \<open>
  What the registry reducer does: the lookups after a registration, a rotation and a
  revocation, for the curator concerned and for all others, the authorisation every step
  needs, and the invariant of the states it builds.
\<close>

section \<open>Lookups after a change of the records of one curator\<close>

lemma py_max_None [simp]: "py_max f xs = None \<longleftrightarrow> xs = []"
  by (cases xs) simp_all

lemma foldl_max:
  "let m = foldl (\<lambda>m y. if f m < f y then y else m) x xs
   in m \<in> set (x # xs) \<and> (\<forall>y \<in> set (x # xs). (f y :: int) \<le> f m)"
proof (induction xs arbitrary: x)
  case (Cons y xs)
  show ?case
  proof (cases "f x < f y")
    case True
    with Cons [of y] show ?thesis by (auto simp: Let_def)
  next
    case False
    with Cons [of x] show ?thesis by (auto simp: Let_def)
  qed
qed simp

lemma py_max_Some:
  assumes "py_max f xs = Some m"
  shows "m \<in> set xs" and "x \<in> set xs \<Longrightarrow> f x \<le> f m"
  using assms foldl_max [of f "hd xs" "tl xs"] by (cases xs; auto simp: Let_def)+

lemma sort_key_same: "\<forall>x \<in> set xs. f x = (c :: 'b :: linorder) \<Longrightarrow> sort_key f xs = xs"
  by (rule sort_key_id_if_sorted) (induction xs, auto)

lemma records_of_sorted [simp]:
  "filter (\<lambda>r. cr_curator_id r = c) (sort_key cr_curator_id rs) = filter (\<lambda>r. cr_curator_id r = c) rs"
  unfolding filter_sort by (rule sort_key_same [of _ _ c]) simp

lemma with_records_simps [simp]:
  "rs_records (with_records s rs) = rs" "rs_network_id (with_records s rs) = rs_network_id s"
  "rs_governance_version (with_records s rs) = rs_governance_version s"
  "rs_governance_keys (with_records s rs) = rs_governance_keys s"
  "rs_threshold (with_records s rs) = rs_threshold s"
  by (simp_all add: with_records_def)

lemma registry_default_records [simp]: "rs_records (registry_default rs) = rs"
  by (simp add: registry_default_def)

lemma filter_other [simp]:
  "filter (\<lambda>r. cr_curator_id r \<noteq> i \<and> cr_curator_id r = c) rs =
     (if c = i then [] else filter (\<lambda>r. cr_curator_id r = c) rs)"
  by (induction rs) auto

lemma lookups_cong:
  assumes "records_of s' c = records_of s c"
  shows "by_id s' c = by_id s c" "active_key_at s' c h = active_key_at s c h"
    "key_was_valid_at s' c k h = key_was_valid_at s c k h" "is_active s' c h = is_active s c h"
  using assms by (simp_all add: by_id_def active_key_at_def key_was_valid_at_def is_active_def)

section \<open>Successful steps\<close>

lemma require_not_registered_Inr [res_simps]:
  "require_not_registered s c k = Inr u \<longleftrightarrow>
     (\<forall>r \<in> set (rs_records s). cr_curator_id r \<noteq> c \<and> cr_public_key_hex r \<noteq> k)"
  by (simp add: require_not_registered_def res_simps)

lemma require_public_key_unused_Inr [res_simps]:
  "require_public_key_unused s k c = Inr u \<longleftrightarrow>
     (\<forall>r \<in> set (rs_records s). cr_public_key_hex r = k \<longrightarrow> cr_curator_id r = c)"
  by (auto simp: require_public_key_unused_def res_simps)

lemma require_active_record_Inr [res_simps]:
  "require_active_record s c k = Inr r \<longleftrightarrow> by_id s c = Some r \<and> cr_public_key_hex r = k"
  by (auto simp: require_active_record_def by_id_def split: option.splits)

lemma by_id_Some: "by_id s c = Some r \<Longrightarrow> r \<in> set (rs_records s) \<and> cr_curator_id r = c"
  by (auto simp: by_id_def records_of_def dest: py_max_Some(1))

definition registered_record :: "register_tx \<Rightarrow> string \<Rightarrow> curator_record" where
  "registered_record tx txid =
     \<lparr>cr_curator_id = rg_curator_id tx, cr_public_key_hex = rg_public_key_hex tx,
      cr_activation_height = rg_activation_height tx, cr_revocation_height = None,
      cr_previous_key_hex = None, cr_registration_txid = txid, cr_latest_rotation_txid = None\<rparr>"

definition replaced_record :: "rotate_tx \<Rightarrow> string \<Rightarrow> curator_record \<Rightarrow> curator_record" where
  "replaced_record tx txid old =
     old\<lparr>cr_revocation_height := Some (ro_activation_height tx), cr_latest_rotation_txid := Some txid\<rparr>"

definition rotated_record :: "rotate_tx \<Rightarrow> string \<Rightarrow> curator_record \<Rightarrow> curator_record" where
  "rotated_record tx txid old =
     \<lparr>cr_curator_id = ro_curator_id tx, cr_public_key_hex = ro_new_public_key_hex tx,
      cr_activation_height = ro_activation_height tx, cr_revocation_height = None,
      cr_previous_key_hex = Some (cr_public_key_hex old),
      cr_registration_txid = cr_registration_txid old, cr_latest_rotation_txid = Some txid\<rparr>"

definition revoked_record :: "revoke_tx \<Rightarrow> string \<Rightarrow> curator_record \<Rightarrow> curator_record" where
  "revoked_record tx txid old =
     old\<lparr>cr_revocation_height := Some (rv_revocation_height tx), cr_latest_rotation_txid := Some txid\<rparr>"

lemma apply_register_Inr:
  "apply_register E s tx h txid ctx = Inr s' \<longleftrightarrow>
     verify_governance_signatures E ctx (drop_keys [''governance_signatures''] (register_to_dict tx))
       (rg_governance_signatures tx) = Inr ()
     \<and> h < rg_activation_height tx \<and> registry_root E s = Inr (rg_previous_registry_root tx)
     \<and> (\<forall>r \<in> set (rs_records s). cr_curator_id r \<noteq> rg_curator_id tx \<and> cr_public_key_hex r \<noteq> rg_public_key_hex tx)
     \<and> utf8_valid (rg_curator_id tx)
     \<and> s' = with_records s (sort_key cr_curator_id (rs_records s @ [registered_record tx txid]))"
  using registry_root_encodable [of E s]
  by (auto simp: apply_register_def res_simps Let_def registered_record_def)

lemma apply_rotate_Inr:
  "apply_rotate E s tx h txid ctx = Inr s' \<longleftrightarrow>
     (let body = drop_keys [''governance_signatures'', ''curator_signature''] (rotate_to_dict tx) in
      verify_governance_signatures E ctx body (ro_governance_signatures tx) = Inr ()
      \<and> h < ro_activation_height tx \<and> registry_root E s = Inr (ro_previous_registry_root tx)
      \<and> (\<exists>old. by_id s (ro_curator_id tx) = Some old \<and> cr_public_key_hex old = ro_public_key_hex tx
          \<and> verify_curator_signature E old body (ro_curator_signature_hex tx) = Inr ()
          \<and> ro_new_public_key_hex tx \<noteq> cr_public_key_hex old
          \<and> (\<forall>r \<in> set (rs_records s). cr_public_key_hex r = ro_new_public_key_hex tx \<longrightarrow> cr_curator_id r = ro_curator_id tx)
          \<and> s' = with_records s (sort_key cr_curator_id
               (filter (\<lambda>r. cr_curator_id r \<noteq> ro_curator_id tx) (rs_records s)
                @ [replaced_record tx txid old, rotated_record tx txid old]))))"
proof -
  have ids: "ids_encodable (filter (\<lambda>r. cr_curator_id r \<noteq> ro_curator_id tx) (rs_records s) @ [replaced_record tx txid old, rotated_record tx txid old])"
    if "registry_root E s = Inr r" "by_id s (ro_curator_id tx) = Some old" for r old
    using registry_root_encodable [OF that(1)] by_id_Some [OF that(2)]
    by (auto simp: ids_encodable_filter replaced_record_def rotated_record_def dest: ids_encodableD)
  show ?thesis
    unfolding apply_rotate_def Let_def res_simps using ids by (auto simp: replaced_record_def rotated_record_def)
qed

lemma apply_revoke_Inr:
  "apply_revoke E s tx h txid ctx = Inr s' \<longleftrightarrow>
     (let body = drop_keys [''governance_signatures'', ''curator_signature''] (revoke_to_dict tx) in
      verify_governance_signatures E ctx body (rv_governance_signatures tx) = Inr ()
      \<and> h < rv_revocation_height tx \<and> registry_root E s = Inr (rv_previous_registry_root tx)
      \<and> (\<exists>old. by_id s (rv_curator_id tx) = Some old \<and> cr_public_key_hex old = rv_public_key_hex tx
          \<and> verify_curator_signature E old body (rv_curator_signature_hex tx) = Inr ()
          \<and> cr_revocation_height old = None
          \<and> cr_activation_height old \<le> rv_revocation_height tx
          \<and> s' = registry_default (sort_key cr_curator_id
               (filter (\<lambda>r. cr_curator_id r \<noteq> rv_curator_id tx) (rs_records s)
                @ [revoked_record tx txid old]))))"
proof -
  have ids: "ids_encodable (filter (\<lambda>r. cr_curator_id r \<noteq> rv_curator_id tx) (rs_records s) @ [revoked_record tx txid old])"
    if "registry_root E s = Inr r" "by_id s (rv_curator_id tx) = Some old" for r old
    using registry_root_encodable [OF that(1)] by_id_Some [OF that(2)]
    by (auto simp: ids_encodable_filter revoked_record_def dest: ids_encodableD)
  show ?thesis
    unfolding apply_revoke_def Let_def res_simps using ids by (auto simp: revoked_record_def)
qed

lemma record_ids [simp]:
  "cr_curator_id (registered_record g txid) = rg_curator_id g"
  "cr_curator_id (replaced_record t txid old) = cr_curator_id old"
  "cr_curator_id (rotated_record t txid old) = ro_curator_id t"
  "cr_curator_id (revoked_record v txid old) = cr_curator_id old"
  by (simp_all add: registered_record_def replaced_record_def rotated_record_def revoked_record_def)

text \<open>The records of a curator after each operation.\<close>

lemma records_after_register:
  assumes "apply_register E s tx h txid ctx = Inr s'"
  shows "records_of s' c = (if c = rg_curator_id tx then [registered_record tx txid] else records_of s c)"
proof -
  note a = assms [unfolded apply_register_Inr]
  then have "records_of s (rg_curator_id tx) = []" by (simp add: records_of_def filter_empty_conv)
  with a show ?thesis by (auto simp: records_of_def)
qed

lemma records_after_rotate:
  assumes "apply_rotate E s tx h txid ctx = Inr s'" and "by_id s (ro_curator_id tx) = Some old"
  shows "records_of s' c = (if c = ro_curator_id tx
           then [replaced_record tx txid old, rotated_record tx txid old] else records_of s c)"
  using assms by_id_Some [OF assms(2)] by (auto simp: apply_rotate_Inr Let_def records_of_def)

lemma records_after_revoke:
  assumes "apply_revoke E s tx h txid ctx = Inr s'" and "by_id s (rv_curator_id tx) = Some old"
  shows "records_of s' c = (if c = rv_curator_id tx then [revoked_record tx txid old] else records_of s c)"
  using assms by_id_Some [OF assms(2)] by (auto simp: apply_revoke_Inr Let_def records_of_def)

text \<open>A small history for the witnesses: one governance key, a curator who registers, and
  then rotates or is revoked.\<close>

definition demo_ctx :: gov_context where
  "demo_ctx = \<lparr>gc_public_keys_hex = [zero_hash], gc_threshold = 1, gc_network_id = GOV_NETWORK_ID\<rparr>"

definition demo_sig :: gov_sig where
  "demo_sig = \<lparr>key_index = 0, signature_hex = hex_of_bytes (replicate 64 0)\<rparr>"

definition demo_key :: "byte \<Rightarrow> string" where
  "demo_key b = hex_of_bytes (replicate 32 b)"

definition demo_state0 :: registry_state where
  "demo_state0 = \<lparr>rs_records = [], rs_governance_version = GOVERNANCE_SCHEMA_VERSION,
     rs_network_id = GOV_NETWORK_ID, rs_governance_keys = [zero_hash], rs_threshold = 1\<rparr>"

definition demo_register :: register_tx where
  "demo_register = \<lparr>rg_curator_id = ''alice'', rg_public_key_hex = demo_key 1, rg_activation_height = 5,
     rg_display_metadata_hash = None, rg_previous_registry_root = zero_hash,
     rg_governance_signatures = [demo_sig], rg_network_id = GOV_NETWORK_ID, rg_schema_version = 1\<rparr>"

definition demo_record :: curator_record where
  "demo_record = registered_record demo_register zero_hash"

definition demo_state1 :: registry_state where
  "demo_state1 = demo_state0\<lparr>rs_records := [demo_record]\<rparr>"

definition demo_rotate :: "int \<Rightarrow> rotate_tx" where
  "demo_rotate a = \<lparr>ro_curator_id = ''alice'', ro_public_key_hex = demo_key 1,
     ro_new_public_key_hex = demo_key 2, ro_activation_height = a,
     ro_display_metadata_hash = None, ro_previous_registry_root = zero_hash,
     ro_governance_signatures = [demo_sig], ro_curator_signature_hex = hex_of_bytes (replicate 64 0),
     ro_network_id = GOV_NETWORK_ID, ro_schema_version = 1\<rparr>"

definition demo_revoke :: revoke_tx where
  "demo_revoke = \<lparr>rv_curator_id = ''alice'', rv_public_key_hex = demo_key 1,
     rv_revocation_height = 9, rv_reason_code = ''left'', rv_previous_registry_root = zero_hash,
     rv_governance_signatures = [demo_sig], rv_curator_signature_hex = hex_of_bytes (replicate 64 0),
     rv_network_id = GOV_NETWORK_ID, rv_schema_version = 1\<rparr>"

lemma demo_root: "wf_registry s \<Longrightarrow> registry_root demo_env s = Inr zero_hash"
  using wf_registry_serialize [of s] by (auto simp: registry_root_def hash_single_hex_def zero_hash_hex)

lemma demo_key64 [simp]: "hex64 (demo_key b)"
  by (simp add: demo_key_def hex64_hex)

lemma utf8_zero_hash [simp]: "utf8_valid zero_hash" "utf8_valid (demo_key b)"
  by (simp_all add: zero_hash_hex demo_key_def)

lemma utf8_network [simp]: "utf8_valid GOV_NETWORK_ID"
  by (simp add: GOV_NETWORK_ID_def utf8_valid_ascii)

lemma wf_demo_states: "wf_registry demo_state0" "wf_registry demo_state1"
  by (simp_all add: wf_registry_def demo_state1_def demo_state0_def demo_record_def registered_record_def
      demo_register_def wf_record_def wf_opt_hash_def hex64_zero_hash GOVERNANCE_SCHEMA_VERSION_def
      utf8_valid_ascii) (simp add: GOV_NETWORK_ID_def)+

lemma demo_ctx_ok: "governance_context [zero_hash] 1 GOV_NETWORK_ID = Inr demo_ctx"
  by (simp add: governance_context_def check_gov_key_def demo_ctx_def) (simp add: GOV_NETWORK_ID_def)

lemma demo_verify:
  assumes "json_ok (JDict body)"
  shows "verify_governance_signatures demo_env demo_ctx body [demo_sig] = Inr ()"
proof -
  obtain m where "governance_message demo_env body GOV_NETWORK_ID = Inr m"
    using governance_message_Inr [OF assms utf8_network] by auto
  then show ?thesis
    unfolding verify_governance_signatures_iff
    by (intro exI [of _ m])
      (simp add: index_ok_def accepted_sig_def demo_signature_valid demo_ctx_def demo_sig_def)
qed

lemma demo_curator_verify:
  assumes "json_ok (JDict body)" and "cr_public_key_hex r = demo_key 1"
  shows "verify_curator_signature demo_env r body (hex_of_bytes (replicate 64 0)) = Inr ()"
proof -
  obtain m where "governance_message demo_env body GOV_NETWORK_ID = Inr m"
    using governance_message_Inr [OF assms(1) utf8_network] by auto
  with assms(2) show ?thesis
    by (simp add: verify_curator_signature_def decode_public_key_def demo_key_def verify_def checkE_def)
qed

lemma demo_bodies:
  "json_ok (JDict (drop_keys [''governance_signatures''] (register_to_dict demo_register)))"
  "json_ok (JDict (drop_keys [''governance_signatures'', ''curator_signature''] (rotate_to_dict (demo_rotate a))))"
  "json_ok (JDict (drop_keys [''governance_signatures'', ''curator_signature''] (revoke_to_dict demo_revoke)))"
  by (simp_all add: drop_keys_def register_to_dict_def rotate_to_dict_def revoke_to_dict_def
      demo_register_def demo_rotate_def demo_revoke_def opt_item_def utf8_valid_ascii)

lemma demo_by_id: "by_id demo_state1 ''alice'' = Some demo_record"
  by (simp add: by_id_def records_of_def demo_state1_def demo_record_def demo_register_def)

lemma demo_record_simps [simp]:
  "cr_public_key_hex demo_record = demo_key 1" "cr_activation_height demo_record = 5"
  "cr_revocation_height demo_record = None" "cr_curator_id demo_record = ''alice''"
  by (simp_all add: demo_record_def registered_record_def demo_register_def)

lemma demo_register_ok:
  "apply_register demo_env demo_state0 demo_register 1 zero_hash demo_ctx = Inr demo_state1"
  unfolding apply_register_Inr
  using demo_verify [OF demo_bodies(1)] demo_root [OF wf_demo_states(1)]
  by (simp add: demo_register_def demo_state1_def demo_state0_def demo_record_def with_records_def utf8_valid_ascii)

lemma demo_rotate_ok:
  assumes "1 < a"
  shows "\<exists>s'. apply_rotate demo_env demo_state1 (demo_rotate a) 1 zero_hash demo_ctx = Inr s'"
proof -
  have "demo_key 2 \<noteq> demo_key 1" by (simp add: demo_key_def replicate_eq_replicate)
  with assms demo_verify [OF demo_bodies(2)] demo_root [OF wf_demo_states(2)] demo_by_id
    demo_curator_verify [OF demo_bodies(2), of demo_record]
  show ?thesis
    unfolding apply_rotate_Inr Let_def
    by (simp add: demo_rotate_def demo_state1_def)
qed

lemma demo_revoke_ok:
  "\<exists>s'. apply_revoke demo_env demo_state1 demo_revoke 1 zero_hash demo_ctx = Inr s'"
  unfolding apply_revoke_Inr Let_def
  using demo_verify [OF demo_bodies(3)] demo_root [OF wf_demo_states(2)] demo_by_id
    demo_curator_verify [OF demo_bodies(3), of demo_record]
  by (simp add: demo_revoke_def)

section \<open>The lookups after each operation\<close>

text \<open>A registration: the curator was not registered before; from the activation height
  on, and not earlier, its key is the active one and the only valid one; every other
  curator, the network, the governance keys and the threshold stay as they are.\<close>

theorem register_effect:
  assumes "apply_register E s tx h txid ctx = Inr s'"
  shows "by_id s (rg_curator_id tx) = None \<and> h < rg_activation_height tx
    \<and> active_key_at s' c k =
        (if c = rg_curator_id tx
         then (if rg_activation_height tx \<le> k then Some (rg_public_key_hex tx) else None)
         else active_key_at s c k)
    \<and> key_was_valid_at s' c key k =
        (if c = rg_curator_id tx then key = rg_public_key_hex tx \<and> rg_activation_height tx \<le> k
         else key_was_valid_at s c key k)
    \<and> rs_network_id s' = rs_network_id s \<and> rs_governance_keys s' = rs_governance_keys s
    \<and> rs_threshold s' = rs_threshold s \<and> rs_governance_version s' = rs_governance_version s"
proof (intro conjI)
  note a = assms [unfolded apply_register_Inr] and r = records_after_register [OF assms]
  from a show "by_id s (rg_curator_id tx) = None"
    by (auto simp: by_id_def records_of_def filter_empty_conv)
  from a show "h < rg_activation_height tx" "rs_network_id s' = rs_network_id s"
    "rs_governance_keys s' = rs_governance_keys s" "rs_threshold s' = rs_threshold s"
    "rs_governance_version s' = rs_governance_version s" by auto
  show "active_key_at s' c k = (if c = rg_curator_id tx
         then (if rg_activation_height tx \<le> k then Some (rg_public_key_hex tx) else None)
         else active_key_at s c k)"
    using r [of c] by (simp add: active_key_at_def by_id_def registered_record_def is_active_at_def)
  show "key_was_valid_at s' c key k =
        (if c = rg_curator_id tx then key = rg_public_key_hex tx \<and> rg_activation_height tx \<le> k
         else key_was_valid_at s c key k)"
    using r [of c] by (auto simp: key_was_valid_at_def registered_record_def is_active_at_def)
qed

theorem register_effect_witness:
  "by_id demo_state0 ''alice'' = None \<and> active_key_at demo_state1 ''alice'' 5 = Some (demo_key 1)
   \<and> active_key_at demo_state1 ''alice'' 4 = None \<and> \<not> key_was_valid_at demo_state1 ''alice'' (demo_key 1) 4"
  using register_effect [OF demo_register_ok, of "''alice''" 5 "demo_key 1"]
    register_effect [OF demo_register_ok, of "''alice''" 4 "demo_key 1"]
  by (simp add: demo_register_def)

text \<open>A rotation to a later activation height: the new key is active from that height on
  and nothing is active before; a key was valid at a height when it is the new key and the
  height is not below the activation, when it is the old key and the height is below it, or
  when it is the old key's predecessor and the height is below the old activation.  Every
  other curator and the configuration stay as they are.\<close>

theorem rotate_effect:
  assumes "apply_rotate E s tx h txid ctx = Inr s'" and "by_id s (ro_curator_id tx) = Some old"
    and "cr_activation_height old < ro_activation_height tx"
  shows "active_key_at s' c k =
        (if c = ro_curator_id tx
         then (if ro_activation_height tx \<le> k then Some (ro_new_public_key_hex tx) else None)
         else active_key_at s c k)
    \<and> (key_was_valid_at s' c key k \<longleftrightarrow>
        (if c = ro_curator_id tx
         then (key = ro_new_public_key_hex tx \<and> ro_activation_height tx \<le> k)
            \<or> (key = cr_public_key_hex old \<and> k < ro_activation_height tx)
            \<or> (cr_previous_key_hex old = Some key \<and> k < cr_activation_height old)
         else key_was_valid_at s c key k))
    \<and> rs_network_id s' = rs_network_id s \<and> rs_governance_keys s' = rs_governance_keys s
    \<and> rs_threshold s' = rs_threshold s"
proof (intro conjI)
  note r = records_after_rotate [OF assms(1,2)]
  show "active_key_at s' c k =
        (if c = ro_curator_id tx
         then (if ro_activation_height tx \<le> k then Some (ro_new_public_key_hex tx) else None)
         else active_key_at s c k)"
    using r [of c] assms(3)
    by (simp add: active_key_at_def by_id_def replaced_record_def rotated_record_def is_active_at_def)
  show "key_was_valid_at s' c key k \<longleftrightarrow>
        (if c = ro_curator_id tx
         then (key = ro_new_public_key_hex tx \<and> ro_activation_height tx \<le> k)
            \<or> (key = cr_public_key_hex old \<and> k < ro_activation_height tx)
            \<or> (cr_previous_key_hex old = Some key \<and> k < cr_activation_height old)
         else key_was_valid_at s c key k)"
    using r [of c] assms(3)
    by (auto simp: key_was_valid_at_def replaced_record_def rotated_record_def is_active_at_def)
  show "rs_network_id s' = rs_network_id s" "rs_governance_keys s' = rs_governance_keys s"
    "rs_threshold s' = rs_threshold s"
    using assms(1) by (auto simp: apply_rotate_Inr Let_def)
qed

theorem rotate_effect_witness:
  "\<exists>s'. apply_rotate demo_env demo_state1 (demo_rotate 8) 1 zero_hash demo_ctx = Inr s'
     \<and> active_key_at s' ''alice'' 8 = Some (demo_key 2) \<and> key_was_valid_at s' ''alice'' (demo_key 1) 7"
proof -
  obtain s' where s': "apply_rotate demo_env demo_state1 (demo_rotate 8) 1 zero_hash demo_ctx = Inr s'"
    using demo_rotate_ok [of 8] by auto
  have old: "by_id demo_state1 (ro_curator_id (demo_rotate 8)) = Some demo_record"
    using demo_by_id by (simp add: demo_rotate_def)
  from rotate_effect [OF s' old, of "''alice''" 8] rotate_effect [OF s' old, of "''alice''" 7 "demo_key 1"] s'
  show ?thesis by (simp add: demo_rotate_def)
qed

text \<open>A rotation whose activation height is not above that of the current record (which
  the reducer accepts, as long as both are above the block's height) locks the curator out:
  the old record stays the current one, it is revoked before it becomes active, and neither
  the old nor the new key is active at any height.\<close>

theorem rotate_early_activation_locks:
  assumes "apply_rotate E s tx h txid ctx = Inr s'" and "by_id s (ro_curator_id tx) = Some old"
    and "ro_activation_height tx \<le> cr_activation_height old"
  shows "active_key_at s' (ro_curator_id tx) k = None
    \<and> map_option cr_public_key_hex (by_id s' (ro_curator_id tx)) = Some (cr_public_key_hex old)"
  using records_after_rotate [OF assms(1,2), of "ro_curator_id tx"] assms(3)
  by (simp add: active_key_at_def by_id_def replaced_record_def rotated_record_def is_active_at_def)

theorem rotate_early_activation_locks_witness:
  "\<exists>s'. apply_rotate demo_env demo_state1 (demo_rotate 3) 1 zero_hash demo_ctx = Inr s'
     \<and> active_key_at s' ''alice'' 100 = None"
proof -
  obtain s' where s': "apply_rotate demo_env demo_state1 (demo_rotate 3) 1 zero_hash demo_ctx = Inr s'"
    using demo_rotate_ok [of 3] by auto
  have old: "by_id demo_state1 (ro_curator_id (demo_rotate 3)) = Some demo_record"
    using demo_by_id by (simp add: demo_rotate_def)
  from rotate_early_activation_locks [OF s' old, of 100] s' show ?thesis
    by (simp add: demo_rotate_def)
qed

text \<open>A revocation ends the curator's activity at the revocation height and touches no
  other curator's lookups, but it drops the configuration: the state it returns has the
  default network, no governance keys and threshold zero.\<close>

theorem revoke_effect:
  assumes "apply_revoke E s tx h txid ctx = Inr s'" and "by_id s (rv_curator_id tx) = Some old"
  shows "active_key_at s' c k =
        (if c = rv_curator_id tx
         then (if cr_activation_height old \<le> k \<and> k < rv_revocation_height tx
               then Some (cr_public_key_hex old) else None)
         else active_key_at s c k)
    \<and> h < rv_revocation_height tx
    \<and> rs_network_id s' = GOV_NETWORK_ID \<and> rs_governance_keys s' = [] \<and> rs_threshold s' = 0"
proof (intro conjI)
  show "active_key_at s' c k =
        (if c = rv_curator_id tx
         then (if cr_activation_height old \<le> k \<and> k < rv_revocation_height tx
               then Some (cr_public_key_hex old) else None)
         else active_key_at s c k)"
    using records_after_revoke [OF assms, of c]
    by (simp add: active_key_at_def by_id_def revoked_record_def is_active_at_def)
  from assms(1) show "h < rv_revocation_height tx" "rs_network_id s' = GOV_NETWORK_ID"
    "rs_governance_keys s' = []" "rs_threshold s' = 0"
    by (auto simp: apply_revoke_Inr Let_def registry_default_def)
qed

theorem revoke_effect_witness:
  "\<exists>s'. apply_revoke demo_env demo_state1 demo_revoke 1 zero_hash demo_ctx = Inr s'
     \<and> active_key_at s' ''alice'' 8 = Some (demo_key 1) \<and> rs_governance_keys s' = []"
proof -
  obtain s' where s': "apply_revoke demo_env demo_state1 demo_revoke 1 zero_hash demo_ctx = Inr s'"
    using demo_revoke_ok by auto
  have old: "by_id demo_state1 (rv_curator_id demo_revoke) = Some demo_record"
    using demo_by_id by (simp add: demo_revoke_def)
  from revoke_effect [OF s' old, of "''alice''" 8] s' show ?thesis
    by (simp add: demo_revoke_def)
qed

section \<open>Authorisation\<close>

text \<open>The body the governance keys sign, the list of their signatures, the registry root the
  transaction builds on and the height it takes effect at.\<close>

fun gov_signed_body :: "governance_tx \<Rightarrow> (string \<times> json) list" where
  "gov_signed_body (RegisterTx t) = drop_keys [''governance_signatures''] (register_to_dict t)"
| "gov_signed_body (RotateTx t) = drop_keys [''governance_signatures'', ''curator_signature''] (rotate_to_dict t)"
| "gov_signed_body (RevokeTx t) = drop_keys [''governance_signatures'', ''curator_signature''] (revoke_to_dict t)"

fun gov_signatures :: "governance_tx \<Rightarrow> gov_sig list" where
  "gov_signatures (RegisterTx t) = rg_governance_signatures t"
| "gov_signatures (RotateTx t) = ro_governance_signatures t"
| "gov_signatures (RevokeTx t) = rv_governance_signatures t"

fun gov_previous_root :: "governance_tx \<Rightarrow> string" where
  "gov_previous_root (RegisterTx t) = rg_previous_registry_root t"
| "gov_previous_root (RotateTx t) = ro_previous_registry_root t"
| "gov_previous_root (RevokeTx t) = rv_previous_registry_root t"

fun gov_effective_height :: "governance_tx \<Rightarrow> int" where
  "gov_effective_height (RegisterTx t) = rg_activation_height t"
| "gov_effective_height (RotateTx t) = ro_activation_height t"
| "gov_effective_height (RevokeTx t) = rv_revocation_height t"

fun gov_curator_signature :: "governance_tx \<Rightarrow> string option" where
  "gov_curator_signature (RegisterTx t) = None"
| "gov_curator_signature (RotateTx t) = Some (ro_curator_signature_hex t)"
| "gov_curator_signature (RevokeTx t) = Some (rv_curator_signature_hex t)"

fun gov_curator_id :: "governance_tx \<Rightarrow> string" where
  "gov_curator_id (RegisterTx t) = rg_curator_id t"
| "gov_curator_id (RotateTx t) = ro_curator_id t"
| "gov_curator_id (RevokeTx t) = rv_curator_id t"

lemma apply_registry_authorised:
  assumes "apply_registry_transaction E s tx h txid ctx = Inr s'"
  shows "verify_governance_signatures E ctx (gov_signed_body tx) (gov_signatures tx) = Inr ()"
    and "registry_root E s = Inr (gov_previous_root tx)" and "h < gov_effective_height tx"
    and "pred_option (\<lambda>sig. \<exists>old m pk. by_id s (gov_curator_id tx) = Some old
           \<and> governance_message E (gov_signed_body tx) GOV_NETWORK_ID = Inr m
           \<and> decode_public_key E (cr_public_key_hex old) = Inr pk
           \<and> verify E pk m sig) (gov_curator_signature tx)"
  using assms
  by (cases tx; auto simp: apply_register_Inr apply_rotate_Inr apply_revoke_Inr Let_def
      verify_curator_signature_def res_simps)+

text \<open>C1: no change of the registry without authority: a transaction that is applied carries
  valid signatures of at least \<open>threshold\<close> different governance key strings over its body
  for this network, builds on the root of exactly the state it is applied to, takes effect
  above the block's height, and, where it rotates or revokes, is signed with the current
  key of the curator.\<close>

theorem registry_change_authorised:
  assumes "governance_context keys t n = Inr ctx"
    and "apply_registry_transaction E s tx h txid ctx = Inr s'"
  shows "(\<exists>m. governance_message E (gov_signed_body tx) n = Inr m \<and>
        t \<le> int (card {k \<in> set keys. \<exists>sg \<in> set (gov_signatures tx). signature_valid E k m (signature_hex sg)}))
    \<and> registry_root E s = Inr (gov_previous_root tx)
    \<and> h < gov_effective_height tx
    \<and> pred_option (\<lambda>sig. \<exists>old m pk. by_id s (gov_curator_id tx) = Some old
           \<and> governance_message E (gov_signed_body tx) GOV_NETWORK_ID = Inr m
           \<and> decode_public_key E (cr_public_key_hex old) = Inr pk
           \<and> verify E pk m sig) (gov_curator_signature tx)"
  using signers_of_context [OF assms(1) apply_registry_authorised(1) [OF assms(2)]]
    apply_registry_authorised(2-4) [OF assms(2)] by blast

theorem registry_change_authorised_witness:
  "registry_root demo_env demo_state0 = Inr zero_hash \<and> (1 :: int) < 5"
  using registry_change_authorised [OF demo_ctx_ok, of demo_env demo_state0 "RegisterTx demo_register" 1 zero_hash]
  by (simp add: demo_register_ok) (simp add: demo_register_def)

section \<open>The invariant of the states the reducer builds\<close>

text \<open>The states reached from a genesis state by any sequence of applied transactions, at
  any heights and with any transaction ids.\<close>

inductive registry_reachable :: "env \<Rightarrow> gov_context \<Rightarrow> registry_state \<Rightarrow> bool"
  for E :: env and ctx :: gov_context where
  init: "registry_genesis keys t = Inr s \<Longrightarrow> registry_reachable E ctx (with_network_id s n)"
| step: "registry_reachable E ctx s \<Longrightarrow> apply_registry_transaction E s tx h txid ctx = Inr s'
         \<Longrightarrow> registry_reachable E ctx s'"

definition same_owner :: "curator_record \<Rightarrow> curator_record \<Rightarrow> bool" where
  "same_owner r r' = (cr_public_key_hex r = cr_public_key_hex r' \<longrightarrow> cr_curator_id r = cr_curator_id r')"

definition registry_inv :: "registry_state \<Rightarrow> bool" where
  "registry_inv s =
     (sorted (map cr_curator_id (rs_records s))
      \<and> list_all (\<lambda>r. list_all (same_owner r) (rs_records s)) (rs_records s)
      \<and> list_all (\<lambda>r. length (records_of s (cr_curator_id r)) \<le> 2) (rs_records s))"

lemma registry_invI:
  assumes "rs_records s = sort_key cr_curator_id rs"
    and "\<And>r r'. r \<in> set rs \<Longrightarrow> r' \<in> set rs \<Longrightarrow> same_owner r r'"
    and "\<And>c. length (records_of s c) \<le> 2"
  shows "registry_inv s"
  using assms by (simp add: registry_inv_def list_all_iff)

lemma registry_invD:
  assumes "registry_inv s"
  shows "r \<in> set (rs_records s) \<Longrightarrow> r' \<in> set (rs_records s) \<Longrightarrow> same_owner r r'"
    and "length (records_of s c) \<le> 2"
proof -
  show "r \<in> set (rs_records s) \<Longrightarrow> r' \<in> set (rs_records s) \<Longrightarrow> same_owner r r'"
    using assms by (simp add: registry_inv_def list_all_iff)
  show "length (records_of s c) \<le> 2"
  proof (cases "records_of s c")
    case (Cons r rs)
    then have "r \<in> set (records_of s c)" by simp
    then have "r \<in> set (rs_records s)" "cr_curator_id r = c" by (simp_all add: records_of_def)
    with assms show ?thesis by (auto simp: registry_inv_def list_all_iff)
  qed simp
qed

text \<open>The record of \<open>old\<close> under a new state of its heights and transaction ids has the same
  owner and key.\<close>

lemma same_owner_update [simp]:
  "same_owner (replaced_record t txid old) r = same_owner old r"
  "same_owner r (replaced_record t txid old) = same_owner r old"
  "same_owner (revoked_record v txid old) r = same_owner old r"
  "same_owner r (revoked_record v txid old) = same_owner r old"
  by (simp_all add: same_owner_def replaced_record_def revoked_record_def)

lemma same_owner_new:
  "(cr_public_key_hex r = cr_public_key_hex n \<Longrightarrow> cr_curator_id r = cr_curator_id n) \<Longrightarrow> same_owner r n \<and> same_owner n r"
  by (auto simp: same_owner_def)

lemma register_inv:
  assumes "registry_inv s" and "apply_register E s tx h txid ctx = Inr s'"
  shows "registry_inv s'"
proof (rule registry_invI)
  note a = assms(2) [unfolded apply_register_Inr]
  let ?new = "registered_record tx txid"
  show "rs_records s' = sort_key cr_curator_id (rs_records s @ [?new])"
    using a by simp
  show "length (records_of s' c) \<le> 2" for c
    using records_after_register [OF assms(2), of c] registry_invD(2) [OF assms(1), of c] by simp
  have new: "same_owner r ?new \<and> same_owner ?new r" if "r \<in> set (rs_records s)" for r
    using a that by (intro same_owner_new) (simp add: registered_record_def)
  have self: "same_owner ?new ?new" by (simp add: same_owner_def)
  show "same_owner r r'"
    if "r \<in> set (rs_records s @ [?new])" "r' \<in> set (rs_records s @ [?new])" for r r'
    using that new self registry_invD(1) [OF assms(1)] by auto
qed

lemma rotate_inv:
  assumes "registry_inv s" and "apply_rotate E s tx h txid ctx = Inr s'"
  shows "registry_inv s'"
proof -
  from assms(2) obtain old where old: "by_id s (ro_curator_id tx) = Some old"
    by (auto simp: apply_rotate_Inr Let_def)
  note mem = by_id_Some [OF old]
  let ?new = "rotated_record tx txid old"
  let ?rs = "filter (\<lambda>r. cr_curator_id r \<noteq> ro_curator_id tx) (rs_records s)
                @ [replaced_record tx txid old, ?new]"
  have rec: "rs_records s' = sort_key cr_curator_id ?rs"
    and fresh: "\<forall>r \<in> set (rs_records s). cr_public_key_hex r = ro_new_public_key_hex tx \<longrightarrow> cr_curator_id r = ro_curator_id tx"
    using assms(2) old by (auto simp: apply_rotate_Inr Let_def)
  have new: "same_owner r ?new \<and> same_owner ?new r" if "r \<in> set (rs_records s)" for r
    using fresh that by (intro same_owner_new) (simp add: rotated_record_def)
  have self: "same_owner ?new ?new" by (simp add: same_owner_def)
  show ?thesis
  proof (rule registry_invI [OF rec])
    show "length (records_of s' c) \<le> 2" for c
      using records_after_rotate [OF assms(2) old, of c] registry_invD(2) [OF assms(1), of c] by simp
    show "same_owner r r'" if "r \<in> set ?rs" "r' \<in> set ?rs" for r r'
      using that mem new self registry_invD(1) [OF assms(1)] by auto
  qed
qed

lemma revoke_inv:
  assumes "registry_inv s" and "apply_revoke E s tx h txid ctx = Inr s'"
  shows "registry_inv s'"
proof -
  from assms(2) obtain old where old: "by_id s (rv_curator_id tx) = Some old"
    by (auto simp: apply_revoke_Inr Let_def)
  note mem = by_id_Some [OF old]
  let ?rs = "filter (\<lambda>r. cr_curator_id r \<noteq> rv_curator_id tx) (rs_records s) @ [revoked_record tx txid old]"
  have rec: "rs_records s' = sort_key cr_curator_id ?rs"
    using assms(2) old by (auto simp: apply_revoke_Inr Let_def)
  show ?thesis
  proof (rule registry_invI [OF rec])
    show "length (records_of s' c) \<le> 2" for c
      using records_after_revoke [OF assms(2) old, of c] registry_invD(2) [OF assms(1), of c] by simp
    show "same_owner r r'" if "r \<in> set ?rs" "r' \<in> set ?rs" for r r'
      using that mem registry_invD(1) [OF assms(1)] by auto
  qed
qed

lemma registry_reachable_inv: "registry_reachable E ctx s \<Longrightarrow> registry_inv s"
proof (induction rule: registry_reachable.induct)
  case (init keys t s n)
  then have "rs_records s = []" by (auto simp: registry_genesis_def res_simps split: if_splits)
  then show ?case by (simp add: registry_inv_def with_network_id_def)
next
  case (step s tx h txid s')
  then show ?case
    by (cases tx) (auto intro: register_inv rotate_inv revoke_inv)
qed

text \<open>Keys in their canonical spelling, 64 lower-case digits, are told apart by their texts.\<close>

lemma registry_inv_keys:
  assumes "registry_inv s" and "r \<in> set (rs_records s)" and "r' \<in> set (rs_records s)"
    and "hex64 (cr_public_key_hex r)" and "hex64 (cr_public_key_hex r')"
    and "decode_public_key E (cr_public_key_hex r) = Inr pk" and "decode_public_key E (cr_public_key_hex r') = Inr pk"
  shows "cr_curator_id r = cr_curator_id r'"
proof -
  have "fromhex (cr_public_key_hex r) = Some pk" "fromhex (cr_public_key_hex r') = Some pk"
    using assms(6,7) by (auto simp: decode_public_key_def res_simps split: if_split_asm)
  then have "cr_public_key_hex r = cr_public_key_hex r'"
    using hex64_fromhex [OF assms(4)] hex64_fromhex [OF assms(5)] by auto
  then show ?thesis using registry_invD(1) [OF assms(1-3)] by (simp add: same_owner_def)
qed

text \<open>C29: in every state reachable from a genesis state the records are sorted by curator, no curator
  has more than two of them, and no public key text belongs to two curators.  The texts are what the code
  compares: so no Ed25519 key belongs to two curators as long as both records spell it in its
  canonical form, 64 lower-case digits.\<close>

theorem registry_invariant:
  assumes "registry_reachable E ctx s"
  shows "registry_inv s
    \<and> (\<forall>r \<in> set (rs_records s). \<forall>r' \<in> set (rs_records s). \<forall>pk.
          hex64 (cr_public_key_hex r) \<and> hex64 (cr_public_key_hex r')
          \<and> decode_public_key E (cr_public_key_hex r) = Inr pk \<and> decode_public_key E (cr_public_key_hex r') = Inr pk
          \<longrightarrow> cr_curator_id r = cr_curator_id r')"
  using registry_reachable_inv [OF assms] registry_inv_keys by blast

lemma demo_reachable: "registry_reachable demo_env demo_ctx demo_state1"
proof -
  have "registry_genesis [zero_hash] 1 = Inr demo_state0"
    by (simp add: registry_genesis_def checkE_def demo_state0_def)
  from registry_reachable.init [OF this, of demo_env demo_ctx GOV_NETWORK_ID]
  have "registry_reachable demo_env demo_ctx demo_state0"
    by (simp add: with_network_id_def demo_state0_def)
  from registry_reachable.step [OF this, of "RegisterTx demo_register" 1 zero_hash demo_state1] demo_register_ok
  show ?thesis by simp
qed

theorem registry_invariant_witness: "registry_inv demo_state1 \<and> rs_records demo_state1 \<noteq> []"
  using registry_invariant [OF demo_reachable] by (simp add: demo_state1_def)

text \<open>Without the canonical form one key has two owners.  The reader of a governance transaction and
  \<open>HASH_RE\<close>, whose \<open>$\<close> also matches before a final newline, both accept a key followed by a newline;
  \<open>fromhex\<close> skips it, so it is the same key, but as a text it is new: a second curator can be
  registered with the key of the first.\<close>

definition demo_spelling :: register_tx where
  "demo_spelling = demo_register\<lparr>rg_curator_id := ''bob'', rg_public_key_hex := demo_key 1 @ [newline]\<rparr>"

theorem registry_key_two_spellings:
  "hash_re_match (rg_public_key_hex demo_spelling) \<and> require_hex_hash 64 (JStr (rg_public_key_hex demo_spelling)) = Inr (rg_public_key_hex demo_spelling)
   \<and> decode_public_key E (rg_public_key_hex demo_spelling) = decode_public_key E (rg_public_key_hex demo_register)
   \<and> (\<exists>s. apply_register demo_env demo_state1 demo_spelling 1 zero_hash demo_ctx = Inr s
        \<and> {''alice'', ''bob''} \<subseteq> cr_curator_id ` set (rs_records s))"
proof -
  have k: "fromhex (demo_key 1 @ [newline]) = Some (replicate 32 1)" "fromhex (demo_key 1) = Some (replicate 32 1)"
    by (simp_all add: demo_key_def fromhex_newline)
  have low: "lower (demo_key 1 @ [newline]) = demo_key 1 @ [newline]"
    using hex64_lower [OF demo_key64 [of 1]] by (simp add: lower_def lower_char_def newline_def of_char_of Let_def)
  have h: "require_hex_hash 64 (JStr (demo_key 1 @ [newline])) = Inr (demo_key 1 @ [newline])"
    by (simp add: require_hex_hash.simps k low)
  have "list_all (\<lambda>c. (of_char c :: nat) < 128) (hex_of_bytes bs)" for bs
    by (induction bs) (simp_all add: hex_digit_ascii)
  then have "utf8_valid (demo_key 1 @ [newline])"
    by (intro utf8_valid_ascii) (simp add: demo_key_def newline_def of_char_of)
  then have body: "json_ok (JDict (drop_keys [''governance_signatures''] (register_to_dict demo_spelling)))"
    by (simp add: register_to_dict_def demo_spelling_def demo_register_def drop_keys_def opt_item_def utf8_valid_ascii)
  have "\<exists>s. apply_register demo_env demo_state1 demo_spelling 1 zero_hash demo_ctx = Inr s
      \<and> {''alice'', ''bob''} \<subseteq> cr_curator_id ` set (rs_records s)"
    unfolding apply_register_Inr
    using demo_verify [OF body] demo_root [OF wf_demo_states(2)]
    by (simp add: demo_spelling_def demo_register_def demo_state1_def demo_state0_def demo_record_def with_records_def
        registered_record_def utf8_valid_ascii)
  with k h show ?thesis
    by (simp add: demo_spelling_def hash_re_match_newline) (simp add: demo_register_def decode_public_key_def k)
qed

end
