(* ===== verification/Block.thy ===== *)
theory Block
  imports Reducer
begin

text \<open>
  \<open>chainbreaker/block.py\<close>: headers, blocks, proof of work, block verification and the
  genesis constants.  The two header classes are a record and its extension by the
  registry root; a block is generic in its header.  A header dictionary is the typed one
  of the codec, so \<open>int(\<dots>)\<close> and \<open>str(\<dots>)\<close> in \<open>from_dict\<close> are the identity.
  Properties that recompute the hash may raise what the encoder raises, so the checks
  return \<open>bool res\<close>.
\<close>

section \<open>Headers\<close>

record block_header =
  bh_version :: int
  bh_prev_hash :: string
  bh_merkle_root :: string
  bh_timestamp :: int
  bh_target :: int
  bh_nonce :: int

record block_header_v2 = block_header +
  bh_registry_root :: string

definition header_to_dict :: "'a block_header_scheme \<Rightarrow> hdr_dict res" where
  "header_to_dict h =
     bindE (target_to_hex (bh_target h)) (\<lambda>t.
       Inr \<lparr>hd_version = bh_version h, hd_prev_hash = bh_prev_hash h,
            hd_merkle_root = bh_merkle_root h, hd_timestamp = bh_timestamp h,
            hd_target = t, hd_nonce = bh_nonce h\<rparr>)"

definition header_from_dict :: "hdr_dict \<Rightarrow> block_header res" where
  "header_from_dict d =
     bindE (hex_to_target (hd_target d)) (\<lambda>t.
       Inr \<lparr>bh_version = hd_version d, bh_prev_hash = hd_prev_hash d,
            bh_merkle_root = hd_merkle_root d, bh_timestamp = hd_timestamp d,
            bh_target = t, bh_nonce = hd_nonce d\<rparr>)"

definition header_v2_to_dict :: "block_header_v2 \<Rightarrow> hdr_dict_v2 res" where
  "header_v2_to_dict h =
     bindE (target_to_hex (bh_target h)) (\<lambda>t.
       Inr \<lparr>hd_version = bh_version h, hd_prev_hash = bh_prev_hash h,
            hd_merkle_root = bh_merkle_root h, hd_timestamp = bh_timestamp h,
            hd_target = t, hd_nonce = bh_nonce h, hd_registry_root = bh_registry_root h\<rparr>)"

definition header_v2_from_dict :: "hdr_dict_v2 \<Rightarrow> block_header_v2 res" where
  "header_v2_from_dict d =
     bindE (hex_to_target (hd_target d)) (\<lambda>t.
       Inr \<lparr>bh_version = hd_version d, bh_prev_hash = hd_prev_hash d,
            bh_merkle_root = hd_merkle_root d, bh_timestamp = hd_timestamp d,
            bh_target = t, bh_nonce = hd_nonce d, bh_registry_root = hd_registry_root d\<rparr>)"

definition header_hash :: "env \<Rightarrow> 'a block_header_scheme \<Rightarrow> string res" where
  "header_hash E h =
     bindE (header_to_dict h) (\<lambda>d. bindE (encode_header d) (\<lambda>b. Inr (hash_double_hex E b)))"

definition dict_hash_v2 :: "env \<Rightarrow> hdr_dict_v2 \<Rightarrow> string res" where
  "dict_hash_v2 E d = bindE (encode_header_v2 d) (\<lambda>b. Inr (hash_double_hex E b))"

definition header_v2_hash :: "env \<Rightarrow> block_header_v2 \<Rightarrow> string res" where
  "header_v2_hash E h = bindE (header_v2_to_dict h) (dict_hash_v2 E)"

text \<open>\<open>int(block_hash, 16)\<close> on a string of hexadecimal digits.\<close>

definition int16 :: "string \<Rightarrow> int res" where
  "int16 s =
     (if s = [] then Inl ValueError
      else case those (map hex_val s) of
          None \<Rightarrow> Inl ValueError
        | Some ds \<Rightarrow> Inr (foldl (\<lambda>a d. 16 * a + int d) 0 ds))"

definition satisfies_pow :: "string \<Rightarrow> int \<Rightarrow> bool res" where
  "satisfies_pow block_hash target = bindE (int16 block_hash) (\<lambda>n. Inr (n \<le> target))"

section \<open>Genesis constants\<close>

definition GENESIS_TIMESTAMP :: int where
  "GENESIS_TIMESTAMP = 1704067200"

definition GENESIS_TARGET :: int where
  "GENESIS_TARGET = MAX_TARGET"

definition GENESIS_TARGET_HEX :: string where
  "GENESIS_TARGET_HEX = ''0000ffff00000000000000000000000000000000000000000000000000000000''"

definition GENESIS_GOVERNANCE_KEYS :: "string list" where
  "GENESIS_GOVERNANCE_KEYS =
     [''0000000000000000000000000000000000000000000000000000000000000000'',
      ''1111111111111111111111111111111111111111111111111111111111111111'',
      ''2222222222222222222222222222222222222222222222222222222222222222'']"

definition GENESIS_THRESHOLD :: int where
  "GENESIS_THRESHOLD = 2"

definition GENESIS_HASH :: string where
  "GENESIS_HASH = ''0000a6fd1e57aafd19da552440faa94803dbf1a1773bcd9af8ce3e0ae9fd13db''"

definition GENESIS_REGISTRY_ROOT :: string where
  "GENESIS_REGISTRY_ROOT = ''5814321ad489e630fef0350b1bff591d5cee8a821c00fa40a2cb2c99bd5b3186''"

definition GENESIS_HEADER_BYTES :: bytes where
  "GENESIS_HEADER_BYTES = the (fromhex
     ''0202000000000000000000000000000000000000000000000000000000000000000000000000000000000000000000000000000000000000000000000000000000000000005814321ad489e630fef0350b1bff591d5cee8a821c00fa40a2cb2c99bd5b318680009265000000000000ffff0000000000000000000000000000000000000000000000000000000091a4000000000000'')"

section \<open>Mining\<close>

definition bump_nonce :: "block_header_v2 \<Rightarrow> block_header_v2" where
  "bump_nonce h = h\<lparr>bh_nonce := (bh_nonce h + 1) mod 2 ^ 64\<rparr>"

text \<open>The loop of \<open>mine_header_v2\<close>: the header it leaves behind and its result.\<close>

fun mine_loop_v2 :: "env \<Rightarrow> nat \<Rightarrow> block_header_v2 \<Rightarrow> (block_header_v2 \<times> bool) res" where
  "mine_loop_v2 E 0 h = Inr (h, False)"
| "mine_loop_v2 E (Suc n) h =
     bindE (header_v2_hash E h) (\<lambda>hash.
     bindE (satisfies_pow hash (bh_target h)) (\<lambda>ok.
       if ok then Inr (h, True) else mine_loop_v2 E n (bump_nonce h)))"

definition mine_header_v2 :: "env \<Rightarrow> nat \<Rightarrow> block_header_v2 \<Rightarrow> (block_header_v2 \<times> bool) res" where
  "mine_header_v2 E max_iterations h =
     (if bh_prev_hash h = zero_hash \<and> bh_version h = PROTOCOL_VERSION then
        bindE (bindE (header_v2_to_dict h) encode_header_v2) (\<lambda>candidate.
          if candidate = GENESIS_HEADER_BYTES then Inr (h, False)
          else mine_loop_v2 E max_iterations h)
      else mine_loop_v2 E max_iterations h)"

section \<open>Blocks\<close>

record 'h block =
  bk_header :: 'h
  bk_transactions :: "json list"

type_synonym block_v1 = "block_header block"
type_synonym block_v2 = "block_header_v2 block"

definition transactions_merkle_root :: "env \<Rightarrow> json list \<Rightarrow> string res" where
  "transactions_merkle_root E txs =
     (if txs = [] then Inr zero_hash
      else bindE (mapE (hash_object E) txs) (\<lambda>tx_hashes.
        Inr (case merkle_tree_root E tx_hashes of
               None \<Rightarrow> zero_hash
             | Some root \<Rightarrow> if root = [] then zero_hash else hex_of_bytes root)))"

definition block_hash_v2 :: "env \<Rightarrow> block_v2 \<Rightarrow> string res" where
  "block_hash_v2 E b = header_v2_hash E (bk_header b)"

definition is_genesis_v2 :: "env \<Rightarrow> block_v2 \<Rightarrow> bool res" where
  "is_genesis_v2 E b =
     (if bh_prev_hash (bk_header b) = zero_hash
      then bindE (block_hash_v2 E b) (\<lambda>h. Inr (h = GENESIS_HASH)) else Inr False)"

text \<open>\<open>for tx in transactions: if not transaction_validator(tx): return False\<close>; a
  validator is code of the caller and may raise.\<close>

fun validate_all :: "(json \<Rightarrow> bool res) \<Rightarrow> json list \<Rightarrow> bool res" where
  "validate_all v [] = Inr True"
| "validate_all v (tx # txs) = bindE (v tx) (\<lambda>ok. if ok then validate_all v txs else Inr False)"

definition validate_with :: "(json \<Rightarrow> bool res) option \<Rightarrow> json list \<Rightarrow> bool res" where
  "validate_with v txs = (case v of None \<Rightarrow> Inr True | Some f \<Rightarrow> validate_all f txs)"

definition schema_ok :: "json \<Rightarrow> bool" where
  "schema_ok tx = (validate_v2_transaction tx = Inr ())"

text \<open>\<open>if not c: return False\<close> in a function that returns a truth value.\<close>

definition guardE :: "bool \<Rightarrow> bool res \<Rightarrow> bool res" where
  "guardE c m = (if c then m else Inr False)"

definition verify_block_v2 :: "env \<Rightarrow> block_v2 \<Rightarrow> int option \<Rightarrow> bool \<Rightarrow> int option \<Rightarrow> int option
    \<Rightarrow> (json \<Rightarrow> bool res) option \<Rightarrow> bool res" where
  "verify_block_v2 E b reference_time allow_genesis median_past expected_target validator =
     (let h = bk_header b in
      guardE (bh_version h = PROTOCOL_VERSION)
     (bindE (if allow_genesis then is_genesis_v2 E b else Inr False) (\<lambda>gen.
      if gen then Inr True
      else
      guardE (MIN_TARGET \<le> bh_target h \<and> bh_target h \<le> MAX_TARGET)
     (bindE (transactions_merkle_root E (bk_transactions b)) (\<lambda>mr.
      guardE (mr = bh_merkle_root h)
     (bindE (block_hash_v2 E b) (\<lambda>hash.
      bindE (satisfies_pow hash (bh_target h)) (\<lambda>pow.
      guardE pow
     (guardE (case expected_target of None \<Rightarrow> True | Some t \<Rightarrow> bh_target h = t)
     (guardE (\<not> bh_timestamp h \<le> 0)
     (guardE (case reference_time of None \<Rightarrow> True | Some r \<Rightarrow> \<not> bh_timestamp h > r + 2 * 60 * 60)
     (guardE (case median_past of None \<Rightarrow> True | Some m \<Rightarrow> \<not> bh_timestamp h \<le> m)
     (guardE (list_all schema_ok (bk_transactions b))
       (validate_with validator (bk_transactions b)))))))))))))))"

text \<open>\<open>verify_genesis\<close>; \<open>except Exception\<close> catches whatever the decoder raises.\<close>

definition verify_genesis :: "env \<Rightarrow> bytes option \<Rightarrow> string option \<Rightarrow> string option \<Rightarrow> bool res" where
  "verify_genesis E header_bytes expected_hash expected_registry_root =
     (let data = (case header_bytes of None \<Rightarrow> GENESIS_HEADER_BYTES | Some b \<Rightarrow> b) in
      if length data \<noteq> 149 then Inr False
      else case decode_header_v2 data 0 False of
        Inl _ \<Rightarrow> Inr False
      | Inr (d, _) \<Rightarrow>
          guardE (hd_version d = 2)
         (guardE (hd_prev_hash d = zero_hash)
         (guardE (hd_merkle_root d = zero_hash)
         (guardE (hd_timestamp d = GENESIS_TIMESTAMP)
         (guardE (hd_target d = GENESIS_TARGET_HEX)
         (bindE (dict_hash_v2 E d) (\<lambda>computed_hash.
          guardE (computed_hash = (case expected_hash of None \<Rightarrow> GENESIS_HASH | Some h \<Rightarrow> h))
         (bindE (satisfies_pow computed_hash GENESIS_TARGET) (\<lambda>pow.
          guardE pow
            (Inr (hd_registry_root d =
              (case expected_registry_root of None \<Rightarrow> GENESIS_REGISTRY_ROOT | Some r \<Rightarrow> r))))))))))))"

definition create_genesis_block :: "block_v2 res" where
  "create_genesis_block =
     bindE (decode_header_v2 GENESIS_HEADER_BYTES 0 False) (\<lambda>(d, _).
     bindE (header_v2_from_dict d) (\<lambda>h. Inr \<lparr>bk_header = h, bk_transactions = []\<rparr>))"

section \<open>Blocks of version 1\<close>

definition block_hash_v1 :: "env \<Rightarrow> block_v1 \<Rightarrow> string res" where
  "block_hash_v1 E b = header_hash E (bk_header b)"

text \<open>\<open>Block._verify_genesis\<close> compares with the v2 genesis block; the last test compares
  the hashes.\<close>

definition verify_genesis_v1 :: "env \<Rightarrow> block_v1 \<Rightarrow> bool res" where
  "verify_genesis_v1 E b =
     bindE create_genesis_block (\<lambda>g.
       let h = bk_header b; e = bk_header g in
       guardE (bh_version h = bh_version e \<and> bh_prev_hash h = bh_prev_hash e
               \<and> bh_timestamp h = bh_timestamp e \<and> bh_target h = bh_target e
               \<and> bh_nonce h = bh_nonce e \<and> bh_merkle_root h = bh_merkle_root e
               \<and> bk_transactions b = bk_transactions g)
         (bindE (block_hash_v1 E b) (\<lambda>x. bindE (block_hash_v2 E g) (\<lambda>y. Inr (x = y)))))"

definition verify_block_v1 :: "env \<Rightarrow> int \<Rightarrow> block_v1 \<Rightarrow> int option \<Rightarrow> bool \<Rightarrow> int option \<Rightarrow> int option
    \<Rightarrow> (json \<Rightarrow> bool res) option \<Rightarrow> bool res" where
  "verify_block_v1 E clock b reference_time allow_genesis median_past expected_target validator =
     (let h = bk_header b in
      guardE (MIN_TARGET \<le> bh_target h \<and> bh_target h \<le> MAX_TARGET)
     (bindE (transactions_merkle_root E (bk_transactions b)) (\<lambda>mr.
      guardE (mr = bh_merkle_root h)
     (bindE (block_hash_v1 E b) (\<lambda>hash.
      bindE (satisfies_pow hash (bh_target h)) (\<lambda>pow.
      guardE pow
     (guardE (case expected_target of None \<Rightarrow> True | Some t \<Rightarrow> bh_target h = t)
     (if allow_genesis \<and> bh_prev_hash h = zero_hash then verify_genesis_v1 E b
      else
        let now = (case reference_time of Some r \<Rightarrow> if r = 0 then clock else r | None \<Rightarrow> clock) in
        guardE (\<not> bh_timestamp h > now + 7200)
       (guardE (case median_past of None \<Rightarrow> True | Some m \<Rightarrow> \<not> bh_timestamp h \<le> m)
       (guardE (list_all schema_ok (bk_transactions b))
         (validate_with validator (bk_transactions b))))))))))))"

text \<open>\<open>Block.mine\<close>: the nonce is not wrapped, so a nonce past 64 bits raises.\<close>

fun mine_block_loop_v1 :: "env \<Rightarrow> nat \<Rightarrow> block_v1 \<Rightarrow> (block_v1 \<times> bool) res" where
  "mine_block_loop_v1 E 0 b = Inr (b, False)"
| "mine_block_loop_v1 E (Suc n) b =
     bindE (block_hash_v1 E b) (\<lambda>hash.
     bindE (satisfies_pow hash (bh_target (bk_header b))) (\<lambda>ok.
       if ok then Inr (b, True)
       else mine_block_loop_v1 E n
              (b\<lparr>bk_header := (bk_header b)\<lparr>bh_nonce := bh_nonce (bk_header b) + 1\<rparr>\<rparr>)))"

section \<open>Hashes as numbers\<close>

lemma le_val_append: "le_val (xs @ ys) = le_val xs + 256 ^ length xs * le_val ys"
  by (induction xs) (simp_all add: algebra_simps)

lemma be_val_snoc: "be_val (bs @ [b]) = 256 * be_val bs + unat b"
  by (simp add: be_val_def le_val_append)

lemma hex_vals: "those (map hex_val (hex_of_bytes bs)) = Some (concat (map (\<lambda>b. [unat b div 16, unat b mod 16]) bs))"
  by (induction bs) simp_all

lemma int16_hex [simp]:
  assumes "bs \<noteq> []"
  shows "int16 (hex_of_bytes bs) = Inr (int (be_val bs))"
proof -
  have "foldl (\<lambda>a d. 16 * a + int d) 0 (concat (map (\<lambda>b. [unat b div 16, unat b mod 16]) bs)) = int (be_val bs)"
  proof (induction bs rule: rev_induct)
    case Nil
    then show ?case by (simp add: be_val_def)
  next
    case (snoc b bs)
    have "16 * int (unat b div 16) + int (unat b mod 16) = int (unat b)"
      by (metis mult_div_mod_eq of_nat_add of_nat_mult of_nat_numeral)
    with snoc show ?case by (simp add: be_val_snoc)
  qed
  moreover have "hex_of_bytes bs \<noteq> []" using assms by (cases bs) simp_all
  ultimately show ?thesis by (simp add: int16_def hex_vals)
qed

section \<open>The bytes of a header\<close>

definition header_v2_bytes :: "block_header_v2 \<Rightarrow> bytes res" where
  "header_v2_bytes h = bindE (header_v2_to_dict h) encode_header_v2"

definition wf_header_v2 :: "block_header_v2 \<Rightarrow> bool" where
  "wf_header_v2 h =
     (0 \<le> bh_version h \<and> bh_version h < 2 ^ 32 \<and> hex64 (bh_prev_hash h) \<and> hex64 (bh_merkle_root h)
      \<and> hex64 (bh_registry_root h) \<and> 0 \<le> bh_timestamp h \<and> bh_timestamp h < 2 ^ 64
      \<and> 0 \<le> bh_target h \<and> bh_target h < 2 ^ 256 \<and> 0 \<le> bh_nonce h \<and> bh_nonce h < 2 ^ 64)"

lemma header_v2_hash_bytes:
  "header_v2_hash E h = bindE (header_v2_bytes h) (\<lambda>b. Inr (hash_double_hex E b))"
  by (cases "header_v2_to_dict h") (simp_all add: header_v2_hash_def header_v2_bytes_def dict_hash_v2_def)

lemma encode_hash_total: "hex64 h \<Longrightarrow> \<exists>b. encode_hash h = Inr b"
  by (elim hex64E) auto

lemma struct_pack_total: "0 \<le> n \<Longrightarrow> n < 256 ^ k \<Longrightarrow> \<exists>b. struct_pack k n = Inr b"
  by (simp add: struct_pack_def)

lemma encode_header_v2_total:
  assumes "wf_hdr_dict_v2 d" and "0 \<le> hd_version d" "hd_version d < 2 ^ 32"
    and "0 \<le> hd_timestamp d" "hd_timestamp d < 2 ^ 64" "0 \<le> hd_nonce d" "hd_nonce d < 2 ^ 64"
  shows "\<exists>b. encode_header_v2 d = Inr b"
proof -
  have "\<exists>b. struct_pack 4 (hd_version d) = Inr b" "\<exists>b. struct_pack 8 (hd_timestamp d) = Inr b"
    "\<exists>b. struct_pack 8 (hd_nonce d) = Inr b"
    using assms(2-) by (auto intro: struct_pack_total)
  moreover have "\<exists>b. encode_hash (hd_prev_hash d) = Inr b" "\<exists>b. encode_hash (hd_merkle_root d) = Inr b"
    "\<exists>b. encode_hash (hd_registry_root d) = Inr b" "\<exists>b. encode_hash (hd_target d) = Inr b"
    using assms(1) by (auto simp: wf_hdr_dict_v2_def wf_hdr_dict_def intro: encode_hash_total)
  ultimately show ?thesis unfolding encode_header_v2_Inr by blast
qed

lemma target_to_hex_total: "0 \<le> t \<Longrightarrow> t < 2 ^ 256 \<Longrightarrow> \<exists>s. target_to_hex t = Inr s \<and> hex64 s"
  using target_to_hex64 by (auto simp: target_to_hex_Inr)

lemma header_v2_roundtrip_aux:
  assumes "wf_header_v2 h"
  shows "\<exists>b d. header_v2_bytes h = Inr b \<and> length b = 149
           \<and> decode_header_v2 b 0 True = Inr (d, 149) \<and> header_v2_from_dict d = Inr h"
proof -
  note wf = assms [unfolded wf_header_v2_def]
  from wf obtain t where t: "target_to_hex (bh_target h) = Inr t" "hex64 t"
    using target_to_hex_total by blast
  define d where "d = \<lparr>hd_version = bh_version h, hd_prev_hash = bh_prev_hash h,
            hd_merkle_root = bh_merkle_root h, hd_timestamp = bh_timestamp h,
            hd_target = t, hd_nonce = bh_nonce h, hd_registry_root = bh_registry_root h\<rparr>"
  have to: "header_v2_to_dict h = Inr d" using t by (simp add: header_v2_to_dict_def d_def)
  have wfd: "wf_hdr_dict_v2 d" using wf t by (simp add: wf_hdr_dict_v2_def wf_hdr_dict_def d_def)
  then obtain b where b: "encode_header_v2 d = Inr b"
    using encode_header_v2_total [of d] wf by (auto simp: d_def)
  have "decode_header_v2 b 0 True = Inr (d, 149)"
    using decode_encode_header_v2 [OF wfd b, of 0 b "[]" True] by simp
  moreover have "header_v2_from_dict d = Inr h"
    using hex_to_target_to_hex [OF t(1)] by (simp add: header_v2_from_dict_def d_def)
  ultimately show ?thesis
    using to b encode_header_v2_length [OF b] by (auto simp: header_v2_bytes_def)
qed

text \<open>The 149 header bytes and the header object determine each other: a well-formed
  header encodes, and the strict decoder followed by \<open>from_dict\<close> returns it.\<close>

theorem block_header_v2_roundtrip:
  assumes "wf_header_v2 h"
  shows "\<exists>b d. header_v2_bytes h = Inr b \<and> length b = 149
           \<and> decode_header_v2 b 0 True = Inr (d, 149) \<and> header_v2_from_dict d = Inr h"
  by (rule header_v2_roundtrip_aux [OF assms])

definition demo_header :: block_header_v2 where
  "demo_header = \<lparr>bh_version = 2, bh_prev_hash = demo_key 1, bh_merkle_root = zero_hash,
     bh_timestamp = 10, bh_target = 5, bh_nonce = 0, bh_registry_root = zero_hash\<rparr>"

lemma wf_demo_header: "wf_header_v2 demo_header"
  by (simp add: wf_header_v2_def demo_header_def hex64_zero_hash)

theorem block_header_v2_roundtrip_witness:
  "\<exists>b d. header_v2_bytes demo_header = Inr b \<and> length b = 149
     \<and> decode_header_v2 b 0 True = Inr (d, 149) \<and> header_v2_from_dict d = Inr demo_header"
  by (rule block_header_v2_roundtrip [OF wf_demo_header])

lemma header_v2_bytes_inj:
  "wf_header_v2 h \<Longrightarrow> wf_header_v2 h' \<Longrightarrow> header_v2_bytes h = header_v2_bytes h' \<Longrightarrow> h = h'"
  using header_v2_roundtrip_aux [of h] header_v2_roundtrip_aux [of h'] by auto

text \<open>A block hash identifies the header: two well-formed headers with one hash are equal
  in every field, or their bytes are a collision of the double SHA-256.\<close>

theorem block_hash_binding:
  assumes "wf_header_v2 h" and "wf_header_v2 h'"
    and "header_v2_hash E h = Inr x" and "header_v2_hash E h' = Inr x"
  shows "h = h' \<or> (\<exists>b b'. header_v2_bytes h = Inr b \<and> header_v2_bytes h' = Inr b'
      \<and> b \<noteq> b' \<and> double_sha256 E b = double_sha256 E b')"
proof -
  from assms(3,4) obtain b b' where b: "header_v2_bytes h = Inr b" "header_v2_bytes h' = Inr b'"
      "double_sha256 E b = double_sha256 E b'"
    by (auto simp: header_v2_hash_bytes res_simps hash_double_hex_def)
  then show ?thesis using header_v2_bytes_inj [OF assms(1,2)] by auto
qed

theorem block_hash_binding_witness:
  "demo_header = demo_header \<or> (\<exists>b b'. header_v2_bytes demo_header = Inr b \<and> header_v2_bytes demo_header = Inr b'
      \<and> b \<noteq> b' \<and> double_sha256 demo_env b = double_sha256 demo_env b')"
proof -
  obtain x where "header_v2_hash demo_env demo_header = Inr x"
    using header_v2_roundtrip_aux [OF wf_demo_header] by (auto simp: header_v2_hash_bytes)
  from block_hash_binding [OF wf_demo_header wf_demo_header this this] show ?thesis .
qed

section \<open>Mining\<close>

definition nonce_plus :: "block_header_v2 \<Rightarrow> nat \<Rightarrow> block_header_v2" where
  "nonce_plus h k = h\<lparr>bh_nonce := (bh_nonce h + int k) mod 2 ^ 64\<rparr>"

text \<open>A header meets its target in the sense of \<open>check_pow_v2\<close>.\<close>

definition meets_target :: "env \<Rightarrow> block_header_v2 \<Rightarrow> bool" where
  "meets_target E h = (case header_v2_bytes h of Inl _ \<Rightarrow> False | Inr b \<Rightarrow> check_pow_v2 E b (bh_target h))"

lemma bump_nonce_plus: "bump_nonce h = nonce_plus h 1" "bump_nonce (nonce_plus h k) = nonce_plus h (Suc k)"
  by (simp_all add: bump_nonce_def nonce_plus_def mod_simps algebra_simps)

lemma nonce_plus_add: "nonce_plus (nonce_plus h j) k = nonce_plus h (j + k)"
  by (simp add: nonce_plus_def mod_simps algebra_simps)

lemma nonce_plus_0: "wf_header_v2 h \<Longrightarrow> nonce_plus h 0 = h"
  by (simp add: nonce_plus_def wf_header_v2_def)

lemma wf_nonce_plus: "wf_header_v2 h \<Longrightarrow> wf_header_v2 (nonce_plus h k)"
  by (simp add: wf_header_v2_def nonce_plus_def)

lemma target_nonce_plus [simp]: "bh_target (nonce_plus h k) = bh_target h"
  by (simp add: nonce_plus_def)

context hash_length
begin

lemma double_sha_not_Nil [simp]: "double_sha256 E b \<noteq> []"
  using double_sha_length [of b] by (metis list.size(3) zero_neq_numeral)

lemma satisfies_pow_hash:
  "satisfies_pow (hash_double_hex E b) t = Inr (int (be_val (double_sha256 E b)) \<le> t)"
  by (simp add: satisfies_pow_def hash_double_hex_def)

lemma pow_step:
  assumes "wf_header_v2 h" and "0 < bh_target h"
  shows "bindE (header_v2_hash E h) (\<lambda>x. satisfies_pow x (bh_target h)) = Inr (meets_target E h)"
  using header_v2_roundtrip_aux [OF assms(1)] assms(2)
  by (auto simp: header_v2_hash_bytes meets_target_def check_pow_v2_def satisfies_pow_hash)

lemma mine_loop_step:
  assumes "wf_header_v2 h" and "0 < bh_target h"
  shows "mine_loop_v2 E (Suc n) h =
    (if meets_target E h then Inr (h, True) else mine_loop_v2 E n (bump_nonce h))"
proof -
  obtain x where "header_v2_hash E h = Inr x"
    using header_v2_roundtrip_aux [OF assms(1)] by (auto simp: header_v2_hash_bytes)
  with pow_step [OF assms] show ?thesis by simp
qed

lemma mine_loop_result:
  assumes "wf_header_v2 h" and "0 < bh_target h"
  shows "(\<exists>k < n. meets_target E (nonce_plus h k) \<and> (\<forall>j < k. \<not> meets_target E (nonce_plus h j))
            \<and> mine_loop_v2 E n h = Inr (nonce_plus h k, True))
       \<or> (\<forall>j < n. \<not> meets_target E (nonce_plus h j)) \<and> mine_loop_v2 E n h = Inr (nonce_plus h n, False)"
  using assms
proof (induction n arbitrary: h)
  case 0
  then show ?case by (simp add: nonce_plus_0)
next
  case (Suc n)
  note step = mine_loop_step [OF Suc.prems, of n] and zero = nonce_plus_0 [OF Suc.prems(1)]
  show ?case
  proof (cases "meets_target E h")
    case True
    with step zero show ?thesis by (intro disjI1 exI [of _ 0]) simp
  next
    case False
    let ?h = "nonce_plus h 1"
    have shift: "nonce_plus ?h k = nonce_plus h (Suc k)" for k by (simp add: nonce_plus_add)
    have step': "mine_loop_v2 E (Suc n) h = mine_loop_v2 E n ?h"
      using step False by (simp add: bump_nonce_plus)
    have less: "(\<forall>j < Suc k. \<not> meets_target E (nonce_plus h j)) \<longleftrightarrow> (\<forall>j < k. \<not> meets_target E (nonce_plus h (Suc j)))" for k
      using False zero by (auto simp: less_Suc_eq_0_disj)
    from Suc.IH [of ?h] Suc.prems
    have "(\<exists>k < n. meets_target E (nonce_plus ?h k) \<and> (\<forall>j < k. \<not> meets_target E (nonce_plus ?h j))
            \<and> mine_loop_v2 E n ?h = Inr (nonce_plus ?h k, True))
       \<or> (\<forall>j < n. \<not> meets_target E (nonce_plus ?h j)) \<and> mine_loop_v2 E n ?h = Inr (nonce_plus ?h n, False)"
      by (simp add: wf_nonce_plus)
    then show ?thesis unfolding shift step' less by (metis Suc_mono less)
  qed
qed

end

text \<open>C32: mining is a complete search: on a well-formed header other than the frozen genesis
  header it returns the first of the next \<open>max_iterations\<close> nonces (wrapping at 2^64) whose
  149 header bytes pass the proof-of-work check, and gives up exactly when none of them
  does; no field but the nonce changes.\<close>

theorem mining_complete:
  assumes "wf_header_v2 h" and "0 < bh_target h" and "header_v2_bytes h \<noteq> Inr GENESIS_HEADER_BYTES"
  shows "(\<exists>k < n. meets_target (std_env ld ck) (nonce_plus h k)
            \<and> (\<forall>j < k. \<not> meets_target (std_env ld ck) (nonce_plus h j))
            \<and> mine_header_v2 (std_env ld ck) n h = Inr (nonce_plus h k, True))
       \<or> (\<forall>j < n. \<not> meets_target (std_env ld ck) (nonce_plus h j))
            \<and> mine_header_v2 (std_env ld ck) n h = Inr (nonce_plus h n, False)"
proof -
  obtain b where "header_v2_bytes h = Inr b" using header_v2_roundtrip_aux [OF assms(1)] by blast
  with assms(3) have "mine_header_v2 (std_env ld ck) n h = mine_loop_v2 (std_env ld ck) n h"
    by (simp add: mine_header_v2_def header_v2_bytes_def)
  then show ?thesis using std.mine_loop_result [OF assms(1,2)] by simp
qed

lemma genesis_prefix: "\<exists>r. GENESIS_HEADER_BYTES = 2 # 2 # 0 # 0 # 0 # 0 # r"
  by (simp add: GENESIS_HEADER_BYTES_def hex_val_def is_space_def)

lemma header_v2_bytes_prefix:
  assumes "header_v2_bytes h = Inr b"
  shows "\<exists>r. b = TYPE_HEADER # le_bytes 4 (nat (bh_version h)) @ r"
proof -
  from assms obtain d where d: "header_v2_to_dict h = Inr d" "encode_header_v2 d = Inr b"
    by (auto simp: header_v2_bytes_def bindE_Inr_iff)
  from d(2) obtain v r where "struct_pack 4 (hd_version d) = Inr v" "b = TYPE_HEADER # v @ r"
    unfolding encode_header_v2_Inr by blast
  moreover have "hd_version d = bh_version h"
    using d(1) by (auto simp: header_v2_to_dict_def bindE_Inr_iff)
  ultimately show ?thesis by (simp add: struct_pack_Inr)
qed

theorem mining_complete_witness:
  "(\<exists>k < 3. mine_header_v2 (std_env (\<lambda>_. True) (\<lambda>_ _ _. True)) 3 (demo_header\<lparr>bh_version := 1\<rparr>)
       = Inr (nonce_plus (demo_header\<lparr>bh_version := 1\<rparr>) k, True))
   \<or> mine_header_v2 (std_env (\<lambda>_. True) (\<lambda>_ _ _. True)) 3 (demo_header\<lparr>bh_version := 1\<rparr>)
       = Inr (nonce_plus (demo_header\<lparr>bh_version := 1\<rparr>) 3, False)"
proof -
  let ?h = "demo_header\<lparr>bh_version := 1\<rparr>"
  have wf: "wf_header_v2 ?h" "0 < bh_target ?h"
    by (simp_all add: wf_header_v2_def demo_header_def hex64_zero_hash)
  obtain r where "GENESIS_HEADER_BYTES = 2 # 2 # 0 # 0 # 0 # 0 # r" using genesis_prefix by blast
  then have second: "GENESIS_HEADER_BYTES ! 1 = 2" by (metis One_nat_def nth_Cons_Suc nth_Cons_0)
  have "header_v2_bytes ?h \<noteq> Inr GENESIS_HEADER_BYTES"
  proof
    assume "header_v2_bytes ?h = Inr GENESIS_HEADER_BYTES"
    from header_v2_bytes_prefix [OF this] obtain r where
      "GENESIS_HEADER_BYTES = TYPE_HEADER # le_bytes 4 1 @ r" by auto
    moreover have four: "(4 :: nat) = Suc 3" by simp
    have "le_bytes 4 1 = 1 # le_bytes 3 0" unfolding four le_bytes.simps by simp
    ultimately have "GENESIS_HEADER_BYTES = TYPE_HEADER # 1 # le_bytes 3 0 @ r" by (metis append_Cons)
    then have "GENESIS_HEADER_BYTES ! 1 = 1" by (metis One_nat_def nth_Cons_Suc nth_Cons_0)
    with second show False by simp
  qed
  from mining_complete [OF wf this, of 3 "\<lambda>_. True" "\<lambda>_ _ _. True"] show ?thesis by blast
qed

section \<open>Verification\<close>

lemma guardE_True [res_simps]: "guardE c m = Inr True \<longleftrightarrow> c \<and> m = Inr True"
  by (simp add: guardE_def)

text \<open>What an accepted block that is not taken for the genesis block satisfies.\<close>

lemma verify_block_v2_True:
  "verify_block_v2 E b rt False mp et v = Inr True \<longleftrightarrow>
     (let h = bk_header b; txs = bk_transactions b in
      bh_version h = PROTOCOL_VERSION \<and> MIN_TARGET \<le> bh_target h \<and> bh_target h \<le> MAX_TARGET
      \<and> transactions_merkle_root E txs = Inr (bh_merkle_root h)
      \<and> bindE (block_hash_v2 E b) (\<lambda>x. satisfies_pow x (bh_target h)) = Inr True
      \<and> pred_option (\<lambda>t. bh_target h = t) et \<and> 0 < bh_timestamp h
      \<and> pred_option (\<lambda>r. bh_timestamp h \<le> r + 7200) rt \<and> pred_option (\<lambda>m. m < bh_timestamp h) mp
      \<and> list_all schema_ok txs \<and> validate_with v txs = Inr True)"
  by (cases rt; cases mp; cases et)
    (auto simp: verify_block_v2_def Let_def res_simps not_le not_less)

lemma validate_all_True: "validate_all f txs = Inr True \<longleftrightarrow> list_all (\<lambda>tx. f tx = Inr True) txs"
  by (induction txs) (auto simp: res_simps split: if_splits)

lemma validate_with_True: "validate_with v txs = Inr True \<longleftrightarrow> pred_option (\<lambda>f. list_all (\<lambda>tx. f tx = Inr True) txs) v"
  by (cases v) (simp_all add: validate_with_def validate_all_True)

lemma mapE_snoc_last:
  assumes "mapE f xs = Inr ys" and "xs \<noteq> []"
  shows "mapE f (xs @ [last xs]) = Inr (ys @ [last ys])"
proof -
  have append: "mapE f (us @ vs) = bindE (mapE f us) (\<lambda>a. bindE (mapE f vs) (\<lambda>b. Inr (a @ b)))" for us vs
    by (induction us) (auto simp: bindE_def split: sum.splits)
  have "ys \<noteq> []" using assms by (auto simp: mapE_Inr_iff)
  then have "f (last xs) = Inr (last ys)"
    using assms by (auto simp: mapE_Inr_iff list_all2_conv_all_nth last_conv_nth)
  then show ?thesis by (simp add: append assms(1))
qed

lemma transactions_merkle_root_dup:
  assumes "odd (length txs)" and "1 < length txs"
    and "transactions_merkle_root E txs = Inr r"
  shows "transactions_merkle_root E (txs @ [last txs]) = Inr r"
proof -
  from assms(2) have ne: "txs \<noteq> []" by auto
  from assms(3) ne obtain hs where hs: "mapE (hash_object E) txs = Inr hs"
    by (auto simp: transactions_merkle_root_def res_simps)
  then have len: "length hs = length txs" by (simp add: mapE_Inr_iff list_all2_lengthD)
  from mapE_snoc_last [OF hs ne] merkle_dup_aux [of hs E] assms hs len ne show ?thesis
    by (simp add: transactions_merkle_root_def)
qed

text \<open>Block malleability: a valid block with an odd number (at least three) of transactions
  stays valid, with the same header and therefore the same hash, when its last transaction is
  listed twice; the verification does not look for duplicates.\<close>

theorem verify_duplicate_transaction:
  assumes "verify_block_v2 E b rt False mp et v = Inr True"
    and "odd (length (bk_transactions b))" and "1 < length (bk_transactions b)"
  shows "verify_block_v2 E (b\<lparr>bk_transactions := bk_transactions b @ [last (bk_transactions b)]\<rparr>)
           rt False mp et v = Inr True
    \<and> block_hash_v2 E (b\<lparr>bk_transactions := bk_transactions b @ [last (bk_transactions b)]\<rparr>) = block_hash_v2 E b"
proof -
  from assms(3) have "bk_transactions b \<noteq> []" by auto
  then have last: "last (bk_transactions b) \<in> set (bk_transactions b)" by simp
  have hash: "block_hash_v2 E (b\<lparr>bk_transactions := txs\<rparr>) = block_hash_v2 E b" for txs
    by (simp add: block_hash_v2_def)
  show ?thesis
    using assms(1) transactions_merkle_root_dup [OF assms(2,3)] last
    by (cases v) (auto simp: verify_block_v2_True Let_def hash validate_with_True list_all_iff)
qed

text \<open>A genesis-type transaction and a block of three of them, for the witness.\<close>

definition demo_tx :: json where
  "demo_tx = JDict [(''type'', JStr ''genesis''), (''body'', JDict [(''network_id'', JStr ''n''),
     (''message'', JStr ''m''), (''timestamp'', JInt 1)])]"

definition demo_block :: block_v2 where
  "demo_block = \<lparr>bk_header = demo_header, bk_transactions = [demo_tx, demo_tx, demo_tx]\<rparr>"

lemma demo_tx_ok: "schema_ok demo_tx" "\<exists>h. hash_object demo_env demo_tx = Inr h"
  by (simp add: schema_ok_def demo_tx_def validate_v2_transaction_def require_member_def checkE_def
      dget_def dkeys_def require_field_def dindex_def insert_commute)
    (simp add: hash_object_Inr demo_tx_def utf8_valid_ascii)

interpretation demo: hash_length demo_env
  by unfold_locales simp

lemma demo_double: "double_sha256 demo_env x = replicate 32 0"
  by (simp add: double_sha256_def)

lemma demo_block_ok: "verify_block_v2 demo_env demo_block None False None None None = Inr True"
proof -
  obtain h where h: "hash_object demo_env demo_tx = Inr h" using demo_tx_ok by blast
  have "be_val (replicate 32 0) = 0" by (simp add: be_val_def numeral_eq_Suc)
  moreover obtain b where "header_v2_bytes demo_header = Inr b"
    using header_v2_roundtrip_aux [OF wf_demo_header] by blast
  ultimately have pow: "bindE (block_hash_v2 demo_env demo_block) (\<lambda>x. satisfies_pow x 5) = Inr True"
    using demo.satisfies_pow_hash [of b 5]
    by (simp add: block_hash_v2_def demo_block_def header_v2_hash_bytes demo_double)
  have root: "transactions_merkle_root demo_env [demo_tx, demo_tx, demo_tx] = Inr zero_hash"
    by (simp add: transactions_merkle_root_def h merkle_tree_root_def merkle_levels_def
        merkle_build.simps demo_double zero_hash_hex)
  show ?thesis
    using pow root demo_tx_ok(1) unfolding verify_block_v2_True
    by (simp add: demo_block_def demo_header_def PROTOCOL_VERSION_def MIN_TARGET_def MAX_TARGET_def
        validate_with_True)
qed

theorem verify_duplicate_transaction_witness:
  "verify_block_v2 demo_env (demo_block\<lparr>bk_transactions := [demo_tx, demo_tx, demo_tx, demo_tx]\<rparr>)
     None False None None None = Inr True"
  using verify_duplicate_transaction [OF demo_block_ok] by (simp add: demo_block_def)

end
