(* ===== verification/Genesis_Digests.thy ===== *)
theory Genesis_Digests
  imports Sha256
begin

text \<open>
  The SHA-256 computations behind the genesis constants, inside the kernel: one lemma for
  each compression of the hash.  \<open>genesis_bytes\<close> are the frozen 149 header bytes,
  \<open>genesis_registry_bytes\<close> the canonical bytes of the genesis registry.
\<close>

definition genesis_bytes :: bytes where
  "genesis_bytes = [2, 2, 0, 0, 0, 0, 0, 0, 0, 0, 0, 0, 0, 0, 0, 0, 0, 0, 0, 0, 0, 0, 0, 0, 0, 0, 0, 0, 0, 0, 0,
   0, 0, 0, 0, 0, 0, 0, 0, 0, 0, 0, 0, 0, 0, 0, 0, 0, 0, 0, 0, 0, 0, 0, 0, 0, 0, 0, 0, 0, 0, 0,
   0, 0, 0, 0, 0, 0, 0, 88, 20, 50, 26, 212, 137, 230, 48, 254, 240, 53, 11, 27, 255, 89, 29,
   92, 238, 138, 130, 28, 0, 250, 64, 162, 203, 44, 153, 189, 91, 49, 134, 128, 0, 146, 101, 0,
   0, 0, 0, 0, 0, 255, 255, 0, 0, 0, 0, 0, 0, 0, 0, 0, 0, 0, 0, 0, 0, 0, 0, 0, 0, 0, 0, 0, 0,
   0, 0, 0, 0, 0, 0, 145, 164, 0, 0, 0, 0, 0, 0]"

definition genesis_inner_bytes :: bytes where
  "genesis_inner_bytes = [177, 195, 243, 252, 90, 90, 154, 18, 158, 133, 255, 15, 5, 90, 167, 201, 51, 124, 157, 110,
   170, 104, 2, 244, 97, 81, 192, 129, 247, 178, 115, 24]"

definition genesis_registry_bytes :: bytes where
  "genesis_registry_bytes = [1, 0, 0, 0, 25, 99, 104, 97, 105, 110, 98, 114, 101, 97, 107, 101, 114, 45, 115, 99, 114, 105,
   112, 116, 117, 114, 101, 45, 118, 50, 3, 0, 0, 0, 0, 0, 0, 0, 0, 0, 0, 0, 0, 0, 0, 0, 0, 0,
   0, 0, 0, 0, 0, 0, 0, 0, 0, 0, 0, 0, 0, 0, 0, 17, 17, 17, 17, 17, 17, 17, 17, 17, 17, 17, 17,
   17, 17, 17, 17, 17, 17, 17, 17, 17, 17, 17, 17, 17, 17, 17, 17, 17, 17, 17, 17, 34, 34, 34,
   34, 34, 34, 34, 34, 34, 34, 34, 34, 34, 34, 34, 34, 34, 34, 34, 34, 34, 34, 34, 34, 34, 34,
   34, 34, 34, 34, 34, 34, 2, 0]"

section \<open>The hash of the header\<close>

lemma genesis_inner_block1:
  "sha_compress sha_h0
     [33685504, 0, 0, 0, 0, 0, 0, 0, 0, 0, 0, 0, 0, 0, 0, 0]
   = (4001124586, 1357250814, 3200391348, 1073347415, 2180108326, 7122405, 1423320303, 563468757)"
  by (simp add: sha_compress_def sha_h0_def sha_k_def upt16_64 sha_round_eval)

lemma genesis_inner_block2:
  "sha_compress (4001124586, 1357250814, 3200391348, 1073347415, 2180108326, 7122405, 1423320303, 563468757)
     [0, 5772338, 450136550, 822014005, 186384217, 492629642, 2182873338, 1084410668, 2579323697,
   2256535698, 1694498816, 255, 4278190080, 0, 0, 0]
   = (2883868474, 2195471193, 2591099978, 2726688646, 3434697534, 1647613588, 3225428764,
   2238932401)"
  by (simp add: sha_compress_def sha_k_def upt16_64 sha_round_eval)

lemma genesis_inner_block3:
  "sha_compress (2883868474, 2195471193, 2591099978, 2726688646, 3434697534, 1647613588, 3225428764,
   2238932401)
     [0, 0, 0, 9544704, 0, 8388608, 0, 0, 0, 0, 0, 0, 0, 0, 0, 1192]
   = (2982409212, 1515887122, 2659581711, 89827273, 863804782, 2858943220, 1632747649, 4155667224)"
  by (simp add: sha_compress_def sha_k_def upt16_64 sha_round_eval)

lemma genesis_inner_words:
  "words_of (sha_pad genesis_bytes) =
   [33685504, 0, 0, 0, 0, 0, 0, 0, 0, 0, 0, 0, 0, 0, 0, 0, 0, 5772338, 450136550, 822014005,
   186384217, 492629642, 2182873338, 1084410668, 2579323697, 2256535698, 1694498816, 255,
   4278190080, 0, 0, 0, 0, 0, 0, 9544704, 0, 8388608, 0, 0, 0, 0, 0, 0, 0, 0, 0, 1192]"
  by (simp add: sha_pad_def be_bytes8_eval be32_def replicate_numeral_eval genesis_bytes_def)

lemma genesis_inner_digest:
  "sha256 genesis_bytes =
   [177, 195, 243, 252, 90, 90, 154, 18, 158, 133, 255, 15, 5, 90, 167, 201, 51, 124, 157, 110,
   170, 104, 2, 244, 97, 81, 192, 129, 247, 178, 115, 24]"
  unfolding sha256_def genesis_inner_words sha_blocks_16 sha_blocks_Nil genesis_inner_block1 genesis_inner_block2 genesis_inner_block3
  by (simp add: bytes_of32_eval)

lemma genesis_outer_block1:
  "sha_compress sha_h0
     [2982409212, 1515887122, 2659581711, 89827273, 863804782, 2858943220, 1632747649, 4155667224,
   2147483648, 0, 0, 0, 0, 0, 0, 256]
   = (42749, 509061885, 433739044, 1090169160, 64745889, 2000407962, 4174265866, 3925677019)"
  by (simp add: sha_compress_def sha_h0_def sha_k_def upt16_64 sha_round_eval)

lemma genesis_outer_words:
  "words_of (sha_pad genesis_inner_bytes) =
   [2982409212, 1515887122, 2659581711, 89827273, 863804782, 2858943220, 1632747649, 4155667224,
   2147483648, 0, 0, 0, 0, 0, 0, 256]"
  by (simp add: sha_pad_def be_bytes8_eval be32_def replicate_numeral_eval genesis_inner_bytes_def)

lemma genesis_outer_digest:
  "sha256 genesis_inner_bytes =
   [0, 0, 166, 253, 30, 87, 170, 253, 25, 218, 85, 36, 64, 250, 169, 72, 3, 219, 241, 161, 119,
   59, 205, 154, 248, 206, 62, 10, 233, 253, 19, 219]"
  unfolding sha256_def genesis_outer_words sha_blocks_16 sha_blocks_Nil genesis_outer_block1
  by (simp add: bytes_of32_eval)

section \<open>The hash of the registry state\<close>

lemma genesis_registry_block1:
  "sha_compress sha_h0
     [16777216, 425945185, 1768841842, 1700883301, 1915581283, 1919512692, 1970431277, 1982989056,
   0, 0, 0, 0, 0, 0, 0, 17]
   = (2381103386, 3814647000, 120474319, 3451036976, 3172659973, 3832453802, 706230481, 2667359957)"
  by (simp add: sha_compress_def sha_h0_def sha_k_def upt16_64 sha_round_eval)

lemma genesis_registry_block2:
  "sha_compress (2381103386, 3814647000, 120474319, 3451036976, 3172659973, 3832453802, 706230481, 2667359957)
     [286331153, 286331153, 286331153, 286331153, 286331153, 286331153, 286331153, 286331170,
   572662306, 572662306, 572662306, 572662306, 572662306, 572662306, 572662306, 572662274]
   = (1556888067, 3722498490, 2612189891, 3398589780, 2517414194, 274604214, 1419916236,
   2157147473)"
  by (simp add: sha_compress_def sha_k_def upt16_64 sha_round_eval)

lemma genesis_registry_block3:
  "sha_compress (1556888067, 3722498490, 2612189891, 3398589780, 2517414194, 274604214, 1419916236,
   2157147473)
     [8388608, 0, 0, 0, 0, 0, 0, 0, 0, 0, 0, 0, 0, 0, 0, 1032]
   = (1477718554, 3565807152, 4277155083, 469719325, 1559136898, 469826112, 2731224217, 3176870278)"
  by (simp add: sha_compress_def sha_k_def upt16_64 sha_round_eval)

lemma genesis_registry_words:
  "words_of (sha_pad genesis_registry_bytes) =
   [16777216, 425945185, 1768841842, 1700883301, 1915581283, 1919512692, 1970431277, 1982989056,
   0, 0, 0, 0, 0, 0, 0, 17, 286331153, 286331153, 286331153, 286331153, 286331153, 286331153,
   286331153, 286331170, 572662306, 572662306, 572662306, 572662306, 572662306, 572662306,
   572662306, 572662274, 8388608, 0, 0, 0, 0, 0, 0, 0, 0, 0, 0, 0, 0, 0, 0, 1032]"
  by (simp add: sha_pad_def be_bytes8_eval be32_def replicate_numeral_eval genesis_registry_bytes_def)

lemma genesis_registry_digest:
  "sha256 genesis_registry_bytes =
   [88, 20, 50, 26, 212, 137, 230, 48, 254, 240, 53, 11, 27, 255, 89, 29, 92, 238, 138, 130, 28,
   0, 250, 64, 162, 203, 44, 153, 189, 91, 49, 134]"
  unfolding sha256_def genesis_registry_words sha_blocks_16 sha_blocks_Nil genesis_registry_block1 genesis_registry_block2 genesis_registry_block3
  by (simp add: bytes_of32_eval)

end
