(* ===== verification/Genesis.thy ===== *)
theory Genesis
  imports Block Genesis_Digests
begin

text \<open>
  The genesis constants of \<open>block.py\<close> checked inside the kernel with the concrete SHA-256:
  the frozen 149 header bytes hash to \<open>GENESIS_HASH\<close>, the hash meets the genesis target,
  and the registry state of the three placeholder keys has the root
  \<open>GENESIS_REGISTRY_ROOT\<close> that the header commits to.
\<close>

section \<open>The constants as bytes\<close>

lemma genesis_header_bytes: "GENESIS_HEADER_BYTES = genesis_bytes"
  by (simp add: GENESIS_HEADER_BYTES_def genesis_bytes_def hex_val_def is_space_def)

text \<open>A lower-case hexadecimal string is the \<open>hex\<close> of its bytes.\<close>

lemma hex64_of_fromhex: "hex64 s \<Longrightarrow> fromhex s = Some b \<Longrightarrow> s = hex_of_bytes b"
  by (elim hex64E) simp

lemma genesis_hash_hex: "GENESIS_HASH = hex_of_bytes [0, 0, 166, 253, 30, 87, 170, 253, 25, 218, 85, 36, 64, 250, 169, 72, 3, 219, 241, 161, 119,
   59, 205, 154, 248, 206, 62, 10, 233, 253, 19, 219]"
  by (rule hex64_of_fromhex) (simp_all add: GENESIS_HASH_def hex64_def is_lower_hex_def hex_val_def is_space_def)

lemma genesis_root_hex: "GENESIS_REGISTRY_ROOT = hex_of_bytes [88, 20, 50, 26, 212, 137, 230, 48, 254, 240, 53, 11, 27, 255, 89, 29, 92, 238, 138, 130, 28,
   0, 250, 64, 162, 203, 44, 153, 189, 91, 49, 134]"
  by (rule hex64_of_fromhex) (simp_all add: GENESIS_REGISTRY_ROOT_def hex64_def is_lower_hex_def hex_val_def is_space_def)

lemma genesis_double:
  "hash_double_hex (std_env ld ck) GENESIS_HEADER_BYTES = GENESIS_HASH"
proof -
  have "sha256 genesis_bytes = genesis_inner_bytes"
    unfolding genesis_inner_digest genesis_inner_bytes_def ..
  then show ?thesis
    by (simp add: hash_double_hex_def double_sha256_def std_env_def genesis_header_bytes
        genesis_outer_digest genesis_hash_hex)
qed

lemma genesis_registry_state:
  "registry_genesis GENESIS_GOVERNANCE_KEYS GENESIS_THRESHOLD =
     Inr \<lparr>rs_records = [], rs_governance_version = 1, rs_network_id = GOV_NETWORK_ID,
          rs_governance_keys = GENESIS_GOVERNANCE_KEYS, rs_threshold = 2\<rparr>"
proof -
  have "sort GENESIS_GOVERNANCE_KEYS = GENESIS_GOVERNANCE_KEYS"
    by (rule sort_key_id_if_sorted) (simp add: GENESIS_GOVERNANCE_KEYS_def less_eq_char_def)
  moreover have "\<forall>k \<in> set GENESIS_GOVERNANCE_KEYS. \<exists>raw. fromhex k = Some raw \<and> length raw = 32"
    by (simp add: GENESIS_GOVERNANCE_KEYS_def hex_val_def is_space_def)
  then have "forE (\<lambda>key. bindE (of_option ValueError (fromhex key)) (\<lambda>raw.
                 checkE (length raw = 32) RegistryError)) GENESIS_GOVERNANCE_KEYS = Inr ()"
    by (auto simp: forE_Inr res_simps)
  moreover have "length GENESIS_GOVERNANCE_KEYS = 3" by (simp add: GENESIS_GOVERNANCE_KEYS_def)
  ultimately show ?thesis
    by (auto simp: registry_genesis_def GENESIS_THRESHOLD_def GOVERNANCE_SCHEMA_VERSION_def)
qed

lemma genesis_registry_serialize:
  "serialize_registry_state \<lparr>rs_records = [], rs_governance_version = 1, rs_network_id = GOV_NETWORK_ID,
     rs_governance_keys = GENESIS_GOVERNANCE_KEYS, rs_threshold = 2\<rparr> = Inr genesis_registry_bytes"
proof -
  have net: "str_bytes GOV_NETWORK_ID = [99, 104, 97, 105, 110, 98, 114, 101, 97, 107, 101, 114, 45, 115,
      99, 114, 105, 112, 116, 117, 114, 101, 45, 118, 50]"
    by (simp add: str_bytes_def GOV_NETWORK_ID_def)
  have keys: "mapE from_hex GENESIS_GOVERNANCE_KEYS = Inr [replicate 32 0, replicate 32 0x11, replicate 32 0x22]"
    by (simp add: GENESIS_GOVERNANCE_KEYS_def from_hex_def hex_val_def is_space_def replicate_numeral_eval)
  have utf8: "utf8_valid GOV_NETWORK_ID" by (simp add: GOV_NETWORK_ID_def utf8_valid_ascii)
  have len: "length GENESIS_GOVERNANCE_KEYS = 3" by (simp add: GENESIS_GOVERNANCE_KEYS_def)
  show ?thesis
    by (simp add: serialize_registry_state_def sort_records_def reg_encode_str_def encode_utf8_def utf8 reg_encode_bytes_def
        reg_encode_varint_def int_to_le_def le_bytes_numeral net keys len genesis_registry_bytes_def replicate_numeral_eval)
qed

lemma genesis_registry_root:
  "bindE (registry_genesis GENESIS_GOVERNANCE_KEYS GENESIS_THRESHOLD) (registry_root (std_env ld ck))
     = Inr GENESIS_REGISTRY_ROOT"
  by (simp add: genesis_registry_state registry_root_def genesis_registry_serialize hash_single_hex_def
      std_env_def genesis_registry_digest genesis_root_hex)

lemma genesis_target_hex: "GENESIS_TARGET_HEX = hex_of_bytes ([0, 0, 255, 255] @ replicate 28 0)"
  by (rule hex64_of_fromhex)
    (simp_all add: GENESIS_TARGET_HEX_def hex64_def is_lower_hex_def hex_val_def is_space_def replicate_numeral_eval)

lemma genesis_target:
  "target_to_hex MAX_TARGET = Inr GENESIS_TARGET_HEX" "hex_to_target GENESIS_TARGET_HEX = Inr MAX_TARGET"
proof -
  let ?b = "[0, 0, 255, 255] @ replicate 28 0 :: bytes"
  have v: "be_val ?b = nat MAX_TARGET"
    by (simp add: be_val_def MAX_TARGET_def replicate_numeral_eval)
  then have "be_bytes 32 (nat MAX_TARGET) = ?b"
    using be_bytes_be_val [of ?b 32] by simp
  then show t: "target_to_hex MAX_TARGET = Inr GENESIS_TARGET_HEX"
    unfolding target_to_hex_Inr genesis_target_hex by (simp add: MAX_TARGET_def)
  then show "hex_to_target GENESIS_TARGET_HEX = Inr MAX_TARGET" by (rule hex_to_target_to_hex)
qed

definition genesis_dict :: hdr_dict_v2 where
  "genesis_dict = \<lparr>hd_version = 2, hd_prev_hash = zero_hash, hd_merkle_root = zero_hash,
     hd_timestamp = GENESIS_TIMESTAMP, hd_target = GENESIS_TARGET_HEX, hd_nonce = 42129,
     hd_registry_root = GENESIS_REGISTRY_ROOT\<rparr>"

lemma genesis_encode: "encode_header_v2 genesis_dict = Inr GENESIS_HEADER_BYTES"
proof -
  have le: "le_bytes 4 2 = [2, 0, 0, 0]" "le_bytes 8 42129 = [145, 164, 0, 0, 0, 0, 0, 0]"
    "le_bytes 8 1704067200 = [128, 0, 146, 101, 0, 0, 0, 0]"
    by (simp_all add: le_bytes_numeral)
  show ?thesis
    by (simp add: encode_header_v2_def genesis_dict_def struct_pack_def le zero_hash_hex genesis_target_hex
        genesis_root_hex GENESIS_TIMESTAMP_def encode_hash_hex genesis_header_bytes genesis_bytes_def
        TYPE_HEADER_def replicate_numeral_eval del: hex_of_bytes.simps)
qed

lemma wf_genesis_dict: "wf_hdr_dict_v2 genesis_dict"
  by (simp add: wf_hdr_dict_v2_def wf_hdr_dict_def genesis_dict_def hex64_zero_hash
      genesis_target_hex genesis_root_hex hex64_hex del: hex_of_bytes.simps)

lemma genesis_decode: "decode_header_v2 GENESIS_HEADER_BYTES 0 False = Inr (genesis_dict, 149)"
  using decode_encode_header_v2 [OF wf_genesis_dict genesis_encode, of 0 _ "[]" False] by simp

lemma genesis_hash: "dict_hash_v2 (std_env ld ck) genesis_dict = Inr GENESIS_HASH"
  by (simp add: dict_hash_v2_def genesis_encode genesis_double)

lemma genesis_pow: "satisfies_pow GENESIS_HASH GENESIS_TARGET = Inr True"
proof -
  have "be_val [0, 0, 166, 253, 30, 87, 170, 253, 25, 218, 85, 36, 64, 250, 169, 72, 3, 219, 241, 161, 119,
   59, 205, 154, 248, 206, 62, 10, 233, 253, 19, 219] \<le> nat MAX_TARGET"
    by (simp add: be_val_def MAX_TARGET_def)
  then show ?thesis
    by (simp add: satisfies_pow_def genesis_hash_hex GENESIS_TARGET_def MAX_TARGET_def del: hex_of_bytes.simps)
qed

text \<open>The genesis constants fit together: the frozen header bytes decode, hash to
  \<open>GENESIS_HASH\<close>, meet the genesis target and pass \<open>verify_genesis\<close>, and the registry of
  the three placeholder keys with threshold two has exactly the root they commit to.\<close>

theorem genesis_constants:
  "verify_genesis (std_env ld ck) None None None = Inr True
   \<and> bindE (registry_genesis GENESIS_GOVERNANCE_KEYS GENESIS_THRESHOLD) (registry_root (std_env ld ck))
       = Inr GENESIS_REGISTRY_ROOT
   \<and> (\<exists>g. create_genesis_block = Inr g \<and> block_hash_v2 (std_env ld ck) g = Inr GENESIS_HASH)"
proof (intro conjI)
  have len: "length GENESIS_HEADER_BYTES = 149"
    using encode_header_v2_length [OF genesis_encode] .
  show "verify_genesis (std_env ld ck) None None None = Inr True"
    by (simp add: verify_genesis_def len genesis_decode genesis_hash genesis_pow guardE_def)
      (simp add: genesis_dict_def)
  show "bindE (registry_genesis GENESIS_GOVERNANCE_KEYS GENESIS_THRESHOLD) (registry_root (std_env ld ck))
       = Inr GENESIS_REGISTRY_ROOT"
    by (rule genesis_registry_root)
  show "\<exists>g. create_genesis_block = Inr g \<and> block_hash_v2 (std_env ld ck) g = Inr GENESIS_HASH"
    using genesis_hash genesis_target
    by (simp add: create_genesis_block_def genesis_decode header_v2_from_dict_def block_hash_v2_def
        header_v2_hash_def header_v2_to_dict_def) (simp add: genesis_dict_def)
qed

end
