(* ===== verification/Network_Identity.thy ===== *)
theory Network_Identity
  imports Genesis
begin

text \<open>
  \<open>chainbreaker/network_identity.py\<close>: the frozen alpha identity, the derivation of a new
  network from a set of governance keys (which mines a genesis header), and the test
  whether a block is the genesis block of an identity.  Keys are ASCII text here, where a
  Python string has as many characters as bytes.
\<close>

record network_identity =
  ni_network_id :: string
  ni_kind :: string
  ni_genesis_hash :: string
  ni_genesis_registry_root :: string
  ni_governance_keys :: "string list"
  ni_governance_threshold :: int
  ni_genesis_header_bytes :: bytes
  ni_genesis_timestamp :: int

definition VALID_NETWORK_KINDS :: "string list" where
  "VALID_NETWORK_KINDS = [''alpha'', ''dev'', ''test'', ''production'']"

definition ALPHA_NETWORK_KINDS :: "string list" where
  "ALPHA_NETWORK_KINDS = [''alpha'', ''dev'', ''test'']"

definition identity_to_dict :: "network_identity \<Rightarrow> json" where
  "identity_to_dict i = JDict
     [(''network_id'', JStr (ni_network_id i)), (''kind'', JStr (ni_kind i)),
      (''genesis_hash'', JStr (ni_genesis_hash i)),
      (''genesis_registry_root'', JStr (ni_genesis_registry_root i)),
      (''governance_keys'', JList (map JStr (ni_governance_keys i))),
      (''governance_threshold'', JInt (ni_governance_threshold i)),
      (''genesis_header_bytes_hex'', JStr (hex_of_bytes (ni_genesis_header_bytes i))),
      (''genesis_timestamp'', JInt (ni_genesis_timestamp i))]"

definition is_alpha :: "network_identity \<Rightarrow> bool" where
  "is_alpha i = (ni_kind i = ''alpha'')"

definition alpha_network_identity :: network_identity where
  "alpha_network_identity =
     \<lparr>ni_network_id = GOV_NETWORK_ID, ni_kind = ''alpha'', ni_genesis_hash = GENESIS_HASH,
      ni_genesis_registry_root = GENESIS_REGISTRY_ROOT, ni_governance_keys = GENESIS_GOVERNANCE_KEYS,
      ni_governance_threshold = 2, ni_genesis_header_bytes = GENESIS_HEADER_BYTES,
      ni_genesis_timestamp = 1704067200\<rparr>"

text \<open>Whether \<open>int(s, 16)\<close> accepts a text: surrounding white space, a sign, the prefix
  \<open>0x\<close> and single underscores between digits are allowed.\<close>

fun hex_digits_ok :: "bool \<Rightarrow> string \<Rightarrow> bool" where
  "hex_digits_ok after_digit [] = after_digit"
| "hex_digits_ok after_digit (c # cs) =
     (if c = CHR 0x5F then after_digit \<and> hex_digits_ok False cs
      else hex_val c \<noteq> None \<and> hex_digits_ok True cs)"

definition strip_space :: "string \<Rightarrow> string" where
  "strip_space s = rev (dropWhile is_space (rev (dropWhile is_space s)))"

fun drop_sign :: "string \<Rightarrow> string" where
  "drop_sign (c # cs) = (if c = CHR ''+'' \<or> c = CHR ''-'' then cs else c # cs)"
| "drop_sign [] = []"

definition int16_ok :: "string \<Rightarrow> bool" where
  "int16_ok s =
     (case drop_sign (strip_space s) of
        c # d # cs \<Rightarrow>
          if c = CHR ''0'' \<and> (d = CHR ''x'' \<or> d = CHR ''X'')
          then (case cs of [] \<Rightarrow> False | e # es \<Rightarrow> if e = CHR 0x5F then hex_digits_ok False es else hex_digits_ok False cs)
          else hex_digits_ok False (c # d # cs)
      | cs \<Rightarrow> hex_digits_ok False cs)"

definition check_identity_key :: "string \<Rightarrow> unit res" where
  "check_identity_key key =
     thenE (checkE (length key = 64) NetworkIdentityError)
    (thenE (checkE (int16_ok key) NetworkIdentityError)
       (checkE (key = lower key) NetworkIdentityError))"

definition validate_identity_keys ::
    "env \<Rightarrow> string list \<Rightarrow> int \<Rightarrow> bool \<Rightarrow> (string list \<times> string) res" where
  "validate_identity_keys E governance_keys threshold allow_placeholder_keys =
     (if governance_keys = [] then Inl NetworkIdentityError
      else if \<not> (1 \<le> threshold \<and> threshold \<le> int (length governance_keys)) then Inl NetworkIdentityError
      else
        thenE (forE check_identity_key governance_keys)
       (let sorted_keys = sort governance_keys in
        if \<not> allow_placeholder_keys \<and> sorted_keys = sort GENESIS_GOVERNANCE_KEYS
        then Inl NetworkIdentityError
        else bindE (bindE (registry_genesis sorted_keys threshold) (registry_root E))
               (\<lambda>root. Inr (sorted_keys, root))))"

definition identity_state :: "string \<Rightarrow> string list \<Rightarrow> int \<Rightarrow> registry_state" where
  "identity_state network_id sorted_keys threshold =
     \<lparr>rs_records = [], rs_governance_version = 1, rs_network_id = network_id,
      rs_governance_keys = sorted_keys, rs_threshold = threshold\<rparr>"

definition derive_network_identity ::
    "env \<Rightarrow> string \<Rightarrow> string list \<Rightarrow> int \<Rightarrow> string \<Rightarrow> int \<Rightarrow> nat \<Rightarrow> network_identity res" where
  "derive_network_identity E network_id governance_keys governance_threshold kind genesis_timestamp max_mining_iterations =
     (if kind \<notin> set VALID_NETWORK_KINDS then Inl NetworkIdentityError
      else
        bindE (validate_identity_keys E governance_keys governance_threshold (kind \<in> set ALPHA_NETWORK_KINDS))
          (\<lambda>(sorted_keys, _).
        bindE (registry_root E (identity_state network_id sorted_keys governance_threshold)) (\<lambda>root.
        bindE (mine_header_v2 E max_mining_iterations
                 \<lparr>bh_version = PROTOCOL_VERSION, bh_prev_hash = zero_hash, bh_merkle_root = zero_hash,
                  bh_timestamp = genesis_timestamp, bh_target = MAX_TARGET, bh_nonce = 0,
                  bh_registry_root = root\<rparr>) (\<lambda>(header, mined).
          if \<not> mined then Inl NetworkIdentityError
          else
            bindE (header_v2_hash E header) (\<lambda>hash.
            bindE (bindE (header_v2_to_dict header) encode_header_v2) (\<lambda>hb.
              Inr \<lparr>ni_network_id = network_id, ni_kind = kind, ni_genesis_hash = hash,
                   ni_genesis_registry_root = root, ni_governance_keys = sorted_keys,
                   ni_governance_threshold = governance_threshold, ni_genesis_header_bytes = hb,
                   ni_genesis_timestamp = genesis_timestamp\<rparr>))))))"

definition derive_test_network_identity ::
    "env \<Rightarrow> string list \<Rightarrow> int \<Rightarrow> int \<Rightarrow> nat \<Rightarrow> network_identity res" where
  "derive_test_network_identity E governance_keys governance_threshold genesis_timestamp max_mining_iterations =
     bindE (validate_identity_keys E governance_keys governance_threshold False) (\<lambda>(sorted_keys, _).
     bindE (registry_root E (identity_state ''__temp__'' sorted_keys governance_threshold)) (\<lambda>root.
       derive_network_identity E (''chainbreaker-scripture-v2-test-'' @ take 16 root)
         governance_keys governance_threshold ''test'' genesis_timestamp max_mining_iterations))"

definition genesis_block_for :: "network_identity \<Rightarrow> block_v2 res" where
  "genesis_block_for identity =
     bindE (decode_header_v2 (ni_genesis_header_bytes identity) 0 False) (\<lambda>(d, _).
     bindE (header_v2_from_dict d) (\<lambda>h. Inr \<lparr>bk_header = h, bk_transactions = []\<rparr>))"

text \<open>\<open>identity_matches_genesis\<close>; \<open>None\<close> stands for a block that is not a v2 block.\<close>

definition identity_matches_genesis :: "env \<Rightarrow> network_identity \<Rightarrow> block_v2 option \<Rightarrow> bool res" where
  "identity_matches_genesis E identity block =
     (case block of
        None \<Rightarrow> Inr False
      | Some b \<Rightarrow>
          guardE (bh_prev_hash (bk_header b) = zero_hash)
         (guardE (bh_version (bk_header b) = PROTOCOL_VERSION)
         (bindE (block_hash_v2 E b) (\<lambda>hash.
          guardE (hash = ni_genesis_hash identity)
            (case header_v2_bytes (bk_header b) of
               Inl _ \<Rightarrow> Inr False
             | Inr actual \<Rightarrow> Inr (actual = ni_genesis_header_bytes identity))))))"

section \<open>A derived identity and its genesis block\<close>

lemma wf_header_of_bytes:
  assumes "header_v2_bytes h = Inr b"
    and "hex64 (bh_prev_hash h)" "hex64 (bh_merkle_root h)" "hex64 (bh_registry_root h)"
  shows "wf_header_v2 h"
proof -
  from assms(1) obtain d where d: "header_v2_to_dict h = Inr d" "encode_header_v2 d = Inr b"
    by (auto simp: header_v2_bytes_def bindE_Inr_iff)
  from d(1) have f: "hd_version d = bh_version h" "hd_timestamp d = bh_timestamp h" "hd_nonce d = bh_nonce h"
    and t: "0 \<le> bh_target h" "bh_target h < 2 ^ 256"
    by (auto simp: header_v2_to_dict_def bindE_Inr_iff target_to_hex_Inr)
  from d(2) obtain v ts n where "struct_pack 4 (hd_version d) = Inr v" "struct_pack 8 (hd_timestamp d) = Inr ts"
      "struct_pack 8 (hd_nonce d) = Inr n"
    unfolding encode_header_v2_Inr by blast
  with f t assms(2-4) show ?thesis by (simp add: wf_header_v2_def struct_pack_Inr)
qed

lemma mine_loop_nonce:
  "mine_loop_v2 E n h = Inr (h', r) \<Longrightarrow> \<exists>m. h' = h\<lparr>bh_nonce := m\<rparr>"
proof (induction n arbitrary: h)
  case 0
  then show ?case by (intro exI [of _ "bh_nonce h"]) simp
next
  case (Suc n)
  then obtain x ok where x: "header_v2_hash E h = Inr x" "satisfies_pow x (bh_target h) = Inr ok"
    by (auto simp: bindE_Inr_iff)
  show ?case
  proof (cases ok)
    case True
    with Suc.prems x show ?thesis by (intro exI [of _ "bh_nonce h"]) simp
  next
    case False
    with Suc.prems x have "mine_loop_v2 E n (bump_nonce h) = Inr (h', r)" by simp
    from Suc.IH [OF this] show ?thesis by (auto simp: bump_nonce_def)
  qed
qed

lemma mine_header_nonce: "mine_header_v2 E n h = Inr (h', r) \<Longrightarrow> \<exists>m. h' = h\<lparr>bh_nonce := m\<rparr>"
proof -
  assume "mine_header_v2 E n h = Inr (h', r)"
  then have "h' = h \<or> mine_loop_v2 E n h = Inr (h', r)"
    by (auto simp: mine_header_v2_def bindE_Inr_iff split: if_splits)
  then show ?thesis
  proof
    assume "h' = h"
    then show ?thesis by (intro exI [of _ "bh_nonce h"]) simp
  qed (rule mine_loop_nonce)
qed

lemma genesis_block_of_bytes:
  assumes "wf_header_v2 h" and "header_v2_bytes h = Inr b" and "ni_genesis_header_bytes i = b"
  shows "genesis_block_for i = Inr \<lparr>bk_header = h, bk_transactions = []\<rparr>"
proof -
  from header_v2_roundtrip_aux [OF assms(1)] assms(2) obtain d where
    d: "decode_header_v2 b 0 True = Inr (d, 149)" "header_v2_from_dict d = Inr h" "length b = 149"
    by auto
  from d(1) have "decode_header_v2 b 0 False = Inr (d, 149)"
    by (auto simp: decode_header_v2_def bindE_Inr_iff split: if_splits)
  with d(2) assms(3) show ?thesis by (simp add: genesis_block_for_def)
qed

lemma registry_root_hex64: "hash_length E \<Longrightarrow> registry_root E s = Inr r \<Longrightarrow> hex64 r"
  by (auto simp: registry_root_def bindE_Inr_iff hash_length.hash_single_hex64)

text \<open>A derived network identity is consistent: from its stored header bytes the genesis
  block is rebuilt, that block matches the identity, and its header commits to the registry
  of the sorted governance keys, the threshold and the chosen network name.  (The hash
  function is any with 32-byte digests.)\<close>

theorem derived_identity_consistent:
  assumes "hash_length E"
    and "derive_network_identity E nid keys threshold kind ts n = Inr i"
  shows "\<exists>g. genesis_block_for i = Inr g \<and> identity_matches_genesis E i (Some g) = Inr True
    \<and> registry_root E (identity_state nid (sort keys) threshold) = Inr (bh_registry_root (bk_header g))
    \<and> ni_genesis_registry_root i = bh_registry_root (bk_header g)
    \<and> ni_network_id i = nid \<and> ni_governance_keys i = sort keys"
proof -
  from assms(2) obtain sk rt root header hash hb where
    v: "validate_identity_keys E keys threshold (kind \<in> set ALPHA_NETWORK_KINDS) = Inr (sk, rt)"
    and root: "registry_root E (identity_state nid sk threshold) = Inr root"
    and mined: "mine_header_v2 E n \<lparr>bh_version = PROTOCOL_VERSION, bh_prev_hash = zero_hash,
        bh_merkle_root = zero_hash, bh_timestamp = ts, bh_target = MAX_TARGET, bh_nonce = 0,
        bh_registry_root = root\<rparr> = Inr (header, True)"
    and hash: "header_v2_hash E header = Inr hash" and hb: "header_v2_bytes header = Inr hb"
    and i: "i = \<lparr>ni_network_id = nid, ni_kind = kind, ni_genesis_hash = hash,
        ni_genesis_registry_root = root, ni_governance_keys = sk, ni_governance_threshold = threshold,
        ni_genesis_header_bytes = hb, ni_genesis_timestamp = ts\<rparr>"
    by (auto simp: derive_network_identity_def bindE_Inr_iff header_v2_bytes_def split: if_splits)
  have sk: "sk = sort keys"
    using v by (auto simp: validate_identity_keys_def bindE_Inr_iff Let_def split: if_splits)
  from mine_header_nonce [OF mined] have h: "bh_version header = PROTOCOL_VERSION" "bh_prev_hash header = zero_hash"
    "bh_merkle_root header = zero_hash" "bh_registry_root header = root" by auto
  have wf: "wf_header_v2 header"
    by (rule wf_header_of_bytes [OF hb])
      (simp_all add: h hex64_zero_hash registry_root_hex64 [OF assms(1) root])
  let ?g = "\<lparr>bk_header = header, bk_transactions = []\<rparr> :: block_v2"
  have "genesis_block_for i = Inr ?g" by (rule genesis_block_of_bytes [OF wf hb]) (simp add: i)
  moreover have "identity_matches_genesis E i (Some ?g) = Inr True"
    by (simp add: identity_matches_genesis_def h block_hash_v2_def hash hb i guardE_def)
  ultimately show ?thesis using root h sk by (simp add: i)
qed

lemma be_val_zeros: "be_val (replicate n 0) = 0"
proof -
  have "le_val (replicate n 0) = 0" by (induction n) simp_all
  then show ?thesis by (simp add: be_val_def)
qed

lemma demo_registry_root: "wf_registry (identity_state GOV_NETWORK_ID [zero_hash] 1)"
  by (simp add: wf_registry_def identity_state_def hex64_zero_hash GOVERNANCE_SCHEMA_VERSION_def)
    (simp add: GOV_NETWORK_ID_def)

lemma zero_hash_int16: "int16_ok zero_hash"
proof -
  have 1: "hex_digits_ok b (replicate (Suc n) (CHR ''0''))" for b n
    by (induction n arbitrary: b) (simp_all add: hex_val_def)
  have 2: "\<not> is_space (CHR ''0'')" by (simp add: is_space_def)
  then have strip: "strip_space zero_hash = zero_hash" by (simp add: strip_space_def zero_hash_def)
  obtain zs where z: "zero_hash = CHR ''0'' # CHR ''0'' # zs"
    by (simp add: zero_hash_def replicate_numeral_eval)
  have "hex_digits_ok False zero_hash" using 1 [of False 63] by (simp add: zero_hash_def)
  then show ?thesis unfolding int16_ok_def strip unfolding z by simp
qed

theorem derived_identity_consistent_witness:
  "\<exists>i g. derive_network_identity demo_env GOV_NETWORK_ID [zero_hash] 1 ''test'' 7 1 = Inr i
     \<and> genesis_block_for i = Inr g \<and> identity_matches_genesis demo_env i (Some g) = Inr True"
proof -
  let ?h = "\<lparr>bh_version = PROTOCOL_VERSION, bh_prev_hash = zero_hash, bh_merkle_root = zero_hash,
     bh_timestamp = 7, bh_target = MAX_TARGET, bh_nonce = 0, bh_registry_root = zero_hash\<rparr>"
  have wf: "wf_header_v2 ?h"
    by (simp add: wf_header_v2_def hex64_zero_hash PROTOCOL_VERSION_def MAX_TARGET_def)
  then obtain b d where b: "header_v2_bytes ?h = Inr b" "decode_header_v2 b 0 True = Inr (d, 149)"
      "header_v2_from_dict d = Inr ?h" "length b = 149"
    using header_v2_roundtrip_aux by blast
  have "b \<noteq> GENESIS_HEADER_BYTES"
  proof
    assume eq: "b = GENESIS_HEADER_BYTES"
    from b(2) have "decode_header_v2 b 0 False = Inr (d, 149)"
      by (auto simp: decode_header_v2_def bindE_Inr_iff split: if_splits)
    then have "d = genesis_dict" using genesis_decode eq by simp
    with b(3) genesis_target show False
      by (simp add: header_v2_from_dict_def genesis_dict_def GENESIS_TIMESTAMP_def)
  qed
  moreover have "meets_target demo_env ?h"
    using b by (simp add: meets_target_def check_pow_v2_def demo_double be_val_zeros MAX_TARGET_def)
  then have "mine_loop_v2 demo_env 1 ?h = Inr (?h, True)"
    using demo.mine_loop_step [OF wf, of 0] by (simp add: MAX_TARGET_def)
  ultimately have mined: "mine_header_v2 demo_env 1 ?h = Inr (?h, True)"
    using b(1) by (simp add: mine_header_v2_def header_v2_bytes_def)
  have genesis: "registry_genesis [zero_hash] 1 = Inr (identity_state GOV_NETWORK_ID [zero_hash] 1)"
    by (simp add: registry_genesis_def checkE_def identity_state_def GOVERNANCE_SCHEMA_VERSION_def)
  have root: "registry_root demo_env (identity_state GOV_NETWORK_ID [zero_hash] 1) = Inr zero_hash"
    by (rule demo_root [OF demo_registry_root])
  have "check_identity_key zero_hash = Inr ()"
    by (simp add: check_identity_key_def checkE_def zero_hash_int16 hex64_lower hex64_zero_hash)
      (simp add: zero_hash_def)
  then have keys: "validate_identity_keys demo_env [zero_hash] 1 True = Inr ([zero_hash], zero_hash)"
    by (simp add: validate_identity_keys_def genesis root)
  obtain x where x: "header_v2_hash demo_env ?h = Inr x" using b(1) by (auto simp: header_v2_hash_bytes)
  from b(1) have "\<exists>i. derive_network_identity demo_env GOV_NETWORK_ID [zero_hash] 1 ''test'' 7 1 = Inr i"
    by (simp add: derive_network_identity_def VALID_NETWORK_KINDS_def ALPHA_NETWORK_KINDS_def keys root
        mined [unfolded One_nat_def] x header_v2_bytes_def)
  then obtain i where "derive_network_identity demo_env GOV_NETWORK_ID [zero_hash] 1 ''test'' 7 1 = Inr i" ..
  with derived_identity_consistent [OF demo.hash_length_axioms this] show ?thesis by blast
qed

end
