(* ===== verification/Chain.thy ===== *)
theory Chain
  imports Network_Identity
begin

text \<open>
  \<open>chainbreaker/chain.py\<close>: the ledger.  Its state is a record; a method that changes it
  returns the changed ledger with its result.  Heights are natural numbers (list
  positions); the heights the registry compares are their integers.  The wall clock is an
  argument, and so is the floating-point work of the deprecated v1 blocks.  The limits
  \<open>max_block_size\<close> and \<open>max_transactions\<close> are stored by the constructor and read
  nowhere, so the record leaves them out.
\<close>

section \<open>Blocks of either version\<close>

datatype any_block = AnyV1 block_v1 | AnyV2 block_v2

fun ab_header :: "any_block \<Rightarrow> block_header" where
  "ab_header (AnyV1 b) = bk_header b"
| "ab_header (AnyV2 b) = block_header.truncate (bk_header b)"

fun ab_transactions :: "any_block \<Rightarrow> json list" where
  "ab_transactions (AnyV1 b) = bk_transactions b"
| "ab_transactions (AnyV2 b) = bk_transactions b"

fun ab_hash :: "env \<Rightarrow> any_block \<Rightarrow> string res" where
  "ab_hash E (AnyV1 b) = block_hash_v1 E b"
| "ab_hash E (AnyV2 b) = block_hash_v2 E b"

fun as_v2 :: "any_block \<Rightarrow> block_v2 option" where
  "as_v2 (AnyV1 b) = None"
| "as_v2 (AnyV2 b) = Some b"

definition ab_timestamp :: "any_block \<Rightarrow> int" where
  "ab_timestamp b = bh_timestamp (ab_header b)"

definition ab_target :: "any_block \<Rightarrow> int" where
  "ab_target b = bh_target (ab_header b)"

text \<open>\<open>xs[i]\<close> of a list.\<close>

definition at_res :: "'a list \<Rightarrow> nat \<Rightarrow> 'a res" where
  "at_res xs i = (if i < length xs then Inr (xs ! i) else Inl IndexError)"

section \<open>Difficulty and time\<close>

definition TARGET_BLOCK_TIME :: int where
  "TARGET_BLOCK_TIME = 600"

definition DIFFICULTY_RETARGET_INTERVAL :: nat where
  "DIFFICULTY_RETARGET_INTERVAL = 10"

definition MAX_RETARGET_FACTOR :: int where
  "MAX_RETARGET_FACTOR = 4"

definition median_past_time :: "any_block list \<Rightarrow> nat \<Rightarrow> int" where
  "median_past_time chain end0 =
     (let end = min end0 (length chain); start = end - 11 in
      if start \<ge> end then 0
      else let timestamps = sort (map ab_timestamp (slice start (end - start) chain))
           in timestamps ! ((length timestamps - 1) div 2))"

text \<open>The arithmetic of \<open>retarget\<close> on the previous target and the time the window took.\<close>

definition retarget_value :: "int \<Rightarrow> int \<Rightarrow> int" where
  "retarget_value prev_target elapsed =
     (let actual_time = (if elapsed \<le> 0 then 1 else elapsed);
          expected_time = TARGET_BLOCK_TIME * int DIFFICULTY_RETARGET_INTERVAL;
          scaled = (prev_target * actual_time) div expected_time;
          bounded = max MIN_TARGET (min MAX_TARGET scaled);
          max_allowed = prev_target * MAX_RETARGET_FACTOR;
          min_allowed = prev_target div MAX_RETARGET_FACTOR
      in max min_allowed (min max_allowed bounded))"

definition retarget :: "any_block list \<Rightarrow> nat \<Rightarrow> int res" where
  "retarget chain height =
     (if height < DIFFICULTY_RETARGET_INTERVAL then Inr GENESIS_TARGET
      else
        bindE (at_res chain (height - DIFFICULTY_RETARGET_INTERVAL)) (\<lambda>first_block.
        bindE (at_res chain (height - 1)) (\<lambda>last_block.
          Inr (retarget_value (ab_target last_block)
                 (ab_timestamp last_block - ab_timestamp first_block)))))"

definition expected_target_at :: "any_block list \<Rightarrow> nat \<Rightarrow> int res" where
  "expected_target_at chain height =
     (if height = 0 then Inr GENESIS_TARGET
      else if height < DIFFICULTY_RETARGET_INTERVAL
      then bindE (at_res chain 0) (\<lambda>b. Inr (ab_target b))
      else if height mod DIFFICULTY_RETARGET_INTERVAL \<noteq> 0
      then bindE (at_res chain (height - 1)) (\<lambda>b. Inr (ab_target b))
      else retarget chain height)"

section \<open>Replay of the registry\<close>

text \<open>\<open>_canonical_txid\<close>: the id of a transaction whose signatures are sorted by key index;
  the bodies are the dictionaries \<open>to_dict\<close> builds.\<close>

fun sig_index :: "json \<Rightarrow> int" where
  "sig_index (JDict d) = int_of (dget d ''key_index'' (JInt 0))"
| "sig_index _ = 0"

fun sort_signatures :: "json \<Rightarrow> json" where
  "sort_signatures (JList xs) = JList (sort_key sig_index xs)"
| "sort_signatures v = v"

definition canonical_txid :: "env \<Rightarrow> (string \<times> json) list \<Rightarrow> string res" where
  "canonical_txid E body = hash_object_hex E (JDict
     (map (\<lambda>(k, v). (k, if k = ''governance_signatures'' then sort_signatures v else v)) body))"

definition apply_transaction ::
    "env \<Rightarrow> string \<Rightarrow> gov_context \<Rightarrow> nat \<Rightarrow> registry_state \<Rightarrow> json \<Rightarrow> registry_state res" where
  "apply_transaction E network_id ctx height state tx =
     bindE (parse_governance_transaction network_id tx) (\<lambda>parsed.
       case parsed of
         None \<Rightarrow> Inr state
       | Some t \<Rightarrow> bindE (canonical_txid E (gov_to_dict t)) (\<lambda>txid.
           apply_registry_transaction E state t (int height) txid ctx))"

definition apply_transactions ::
    "env \<Rightarrow> string \<Rightarrow> gov_context \<Rightarrow> registry_state \<Rightarrow> json list \<Rightarrow> nat \<Rightarrow> registry_state res" where
  "apply_transactions E network_id ctx state txs height =
     foldE (apply_transaction E network_id ctx height) state txs"

record ledger =
  ld_chain :: "any_block list"
  ld_identity :: network_identity
  ld_validator :: "(json \<Rightarrow> bool res) option"
  ld_governance_keys :: "string list"
  ld_governance_threshold :: int
  ld_context :: gov_context
  ld_registry_states :: "nat \<rightharpoonup> registry_state"

definition ld_network_id :: "ledger \<Rightarrow> string" where
  "ld_network_id L = ni_network_id (ld_identity L)"

text \<open>The genesis state with the ledger's network name.\<close>

definition initial_state :: "ledger \<Rightarrow> registry_state res" where
  "initial_state L =
     bindE (registry_genesis (ld_governance_keys L) (ld_governance_threshold L)) (\<lambda>s.
       Inr (if ld_network_id L \<noteq> GOV_NETWORK_ID then with_network_id s (ld_network_id L) else s))"

definition apply_block :: "env \<Rightarrow> ledger \<Rightarrow> registry_state \<Rightarrow> any_block \<Rightarrow> nat \<Rightarrow> registry_state res" where
  "apply_block E L state b height =
     apply_transactions E (ld_network_id L) (ld_context L) state (ab_transactions b) height"

text \<open>\<open>_state_at\<close>: the replay from genesis.\<close>

definition state_at :: "env \<Rightarrow> ledger \<Rightarrow> nat \<Rightarrow> registry_state res" where
  "state_at E L height =
     (if height \<ge> length (ld_chain L) then Inl LedgerError
      else bindE (initial_state L) (\<lambda>s.
        foldE (\<lambda>st h. apply_block E L st (ld_chain L ! h) h) s [1..<Suc height]))"

text \<open>\<open>_replay_registry_states\<close>: one state per height, each from the one before.\<close>

definition replay_step :: "env \<Rightarrow> ledger \<Rightarrow> (nat \<rightharpoonup> registry_state) \<Rightarrow> nat \<Rightarrow> (nat \<rightharpoonup> registry_state) res" where
  "replay_step E L states h =
     bindE (of_option KeyError (states (h - 1))) (\<lambda>prev.
     bindE (apply_block E L prev (ld_chain L ! h) h) (\<lambda>s. Inr (states(h \<mapsto> s))))"

definition replay_registry_states :: "env \<Rightarrow> ledger \<Rightarrow> ledger res" where
  "replay_registry_states E L =
     bindE (initial_state L) (\<lambda>s.
     bindE (foldE (replay_step E L) [0 \<mapsto> s] [1..<length (ld_chain L)]) (\<lambda>states.
       Inr (L\<lparr>ld_registry_states := states\<rparr>)))"

definition registry_state_at :: "ledger \<Rightarrow> nat \<Rightarrow> registry_state res" where
  "registry_state_at L height = of_option LedgerError (ld_registry_states L height)"

section \<open>Construction\<close>

definition validate_genesis_identity :: "env \<Rightarrow> ledger \<Rightarrow> unit res" where
  "validate_genesis_identity E L =
     (case ld_chain L of
        [] \<Rightarrow> Inl NetworkIdentityError
      | genesis # _ \<Rightarrow>
          bindE (identity_matches_genesis E (ld_identity L) (as_v2 genesis)) (\<lambda>ok.
          if \<not> ok then Inl NetworkIdentityError
          else
            thenE
              (if as_v2 genesis = None then Inr ()
               else bindE (initial_state L) (\<lambda>genesis_state.
                 bindE (registry_root E genesis_state) (\<lambda>actual_root.
                   checkE (actual_root = ni_genesis_registry_root (ld_identity L)) NetworkIdentityError)))
              (checkE (is_alpha (ld_identity L)
                  \<or> sort (ld_governance_keys L) \<noteq> sort GENESIS_GOVERNANCE_KEYS) NetworkIdentityError)))"

text \<open>\<open>Ledger.__init__\<close>; the default number of mining iterations is that of
  \<open>derive_test_network_identity\<close>.\<close>

definition choose_identity ::
    "env \<Rightarrow> network_identity option \<Rightarrow> string list option \<Rightarrow> int option \<Rightarrow> network_identity res" where
  "choose_identity E identity governance_keys governance_threshold =
     (case identity of
        Some i \<Rightarrow> Inr i
      | None \<Rightarrow>
          (case governance_keys of
             None \<Rightarrow> Inr alpha_network_identity
           | Some ks \<Rightarrow>
               if sort ks = sort GENESIS_GOVERNANCE_KEYS then Inr alpha_network_identity
               else derive_test_network_identity E ks
                 (case governance_threshold of Some t \<Rightarrow> t | None \<Rightarrow> GENESIS_THRESHOLD)
                 1704067200 10000000))"

definition new_ledger :: "env \<Rightarrow> any_block list option \<Rightarrow> (json \<Rightarrow> bool res) option \<Rightarrow> string list option
    \<Rightarrow> int option \<Rightarrow> network_identity option \<Rightarrow> bool \<Rightarrow> ledger res" where
  "new_ledger E chain validator governance_keys governance_threshold identity strict =
     bindE (choose_identity E identity governance_keys governance_threshold) (\<lambda>ident.
     bindE (case chain of
              Some c \<Rightarrow> Inr c
            | None \<Rightarrow> bindE (genesis_block_for ident) (\<lambda>b. Inr [AnyV2 b])) (\<lambda>c.
     let keys = (case governance_keys of
                   Some (k # ks) \<Rightarrow> k # ks
                 | _ \<Rightarrow> ni_governance_keys ident);
         threshold = (case governance_threshold of Some t \<Rightarrow> t | None \<Rightarrow> ni_governance_threshold ident)
     in bindE (governance_context keys threshold (ni_network_id ident)) (\<lambda>ctx.
        let L = \<lparr>ld_chain = c, ld_identity = ident, ld_validator = validator,
                 ld_governance_keys = keys, ld_governance_threshold = threshold,
                 ld_context = ctx, ld_registry_states = Map.empty\<rparr>
        in thenE (if strict then validate_genesis_identity E L else Inr ())
             (if c = [] then Inl IndexError else replay_registry_states E L))))"

section \<open>Queries\<close>

definition ledger_height :: "ledger \<Rightarrow> int" where
  "ledger_height L = int (length (ld_chain L)) - 1"

definition last_block :: "ledger \<Rightarrow> any_block res" where
  "last_block L = (if ld_chain L = [] then Inl IndexError else Inr (last (ld_chain L)))"

definition next_block_timestamp :: "ledger \<Rightarrow> int \<Rightarrow> int res" where
  "next_block_timestamp L now =
     bindE (last_block L) (\<lambda>b.
       Inr (max (max now (ab_timestamp b + 1)) (median_past_time (ld_chain L) (length (ld_chain L)) + 1)))"

fun block_work :: "(int \<Rightarrow> int res) \<Rightarrow> any_block \<Rightarrow> int res" where
  "block_work v1_work (AnyV2 b) = work_for_target_v2 (bh_target (bk_header b))"
| "block_work v1_work (AnyV1 b) = v1_work (bh_target (bk_header b))"

definition chain_work :: "(int \<Rightarrow> int res) \<Rightarrow> ledger \<Rightarrow> int res" where
  "chain_work v1_work L =
     foldE (\<lambda>total b. bindE (block_work v1_work b) (\<lambda>w. Inr (total + w))) 0 (ld_chain L)"

section \<open>Mining and adding blocks\<close>

text \<open>The Merkle root that \<open>mine_block_v2\<close> writes: \<open>MerkleTree(hashes).root or bytes(32)\<close>.\<close>

definition mined_merkle_root :: "env \<Rightarrow> json list \<Rightarrow> string res" where
  "mined_merkle_root E txs =
     bindE (mapE (hash_object E) txs) (\<lambda>tx_hashes.
       Inr (hex_of_bytes (case merkle_tree_root E tx_hashes of
              None \<Rightarrow> replicate 32 0
            | Some r \<Rightarrow> if r = [] then replicate 32 0 else r)))"

definition mine_block_v2 :: "env \<Rightarrow> ledger \<Rightarrow> json list \<Rightarrow> nat \<Rightarrow> int \<Rightarrow> int option \<Rightarrow> block_v2 res" where
  "mine_block_v2 E L txs max_iterations now timestamp =
     thenE (forE validate_v2_transaction txs)
    (bindE (last_block L) (\<lambda>lb.
     bindE (ab_hash E lb) (\<lambda>prev_hash.
     let height = length (ld_chain L) in
     bindE (expected_target_at (ld_chain L) height) (\<lambda>target.
     bindE (case timestamp of Some t \<Rightarrow> Inr t | None \<Rightarrow> next_block_timestamp L now) (\<lambda>ts.
     bindE (state_at E L (height - 1)) (\<lambda>previous_state.
     bindE (registry_root E previous_state) (\<lambda>registry_root_hex.
     bindE (mined_merkle_root E txs) (\<lambda>merkle_root_hex.
     bindE (mine_header_v2 E max_iterations
              \<lparr>bh_version = 2, bh_prev_hash = prev_hash, bh_merkle_root = merkle_root_hex,
               bh_timestamp = ts, bh_target = target, bh_nonce = 0,
               bh_registry_root = registry_root_hex\<rparr>) (\<lambda>(header, mined).
       if \<not> mined then Inl LedgerError
       else Inr \<lparr>bk_header = header, bk_transactions = txs\<rparr>)))))))))"

definition mine_block_v1 :: "env \<Rightarrow> ledger \<Rightarrow> json list \<Rightarrow> nat \<Rightarrow> json option \<Rightarrow> int \<Rightarrow> int option \<Rightarrow> block_v1 res" where
  "mine_block_v1 E L transactions max_iterations coinbase now timestamp =
     (let txs = (case coinbase of None \<Rightarrow> transactions | Some c \<Rightarrow> c # transactions) in
      thenE (forE validate_v2_transaction txs)
     (bindE (last_block L) (\<lambda>lb.
      bindE (ab_hash E lb) (\<lambda>prev_hash.
      bindE (expected_target_at (ld_chain L) (length (ld_chain L))) (\<lambda>target.
      bindE (case timestamp of Some t \<Rightarrow> Inr t | None \<Rightarrow> next_block_timestamp L now) (\<lambda>ts.
      bindE (mined_merkle_root E txs) (\<lambda>merkle_root_hex.
      bindE (mine_block_loop_v1 E max_iterations
              \<lparr>bk_header = \<lparr>bh_version = 1, bh_prev_hash = prev_hash, bh_merkle_root = merkle_root_hex,
                 bh_timestamp = ts, bh_target = target, bh_nonce = 0\<rparr>, bk_transactions = txs\<rparr>) (\<lambda>(b, mined).
        if \<not> mined then Inl LedgerError else Inr b))))))))"

text \<open>\<open>try: \<dots> except (RegistryError, GovernanceError): return False\<close>.\<close>

definition registry_failure :: "py_error \<Rightarrow> bool" where
  "registry_failure e = (e = RegistryError \<or> e = GovernanceError)"

definition reject :: "ledger \<Rightarrow> (ledger \<times> bool) res" where
  "reject L = Inr (L, False)"

definition add_block_v2 :: "env \<Rightarrow> int \<Rightarrow> ledger \<Rightarrow> block_v2 \<Rightarrow> (ledger \<times> bool) res" where
  "add_block_v2 E now L b =
     (let expected_height = length (ld_chain L); h = bk_header b in
      bindE (expected_target_at (ld_chain L) expected_height) (\<lambda>expected_target.
      bindE (last_block L) (\<lambda>lb.
      bindE (ab_hash E lb) (\<lambda>expected_prev_hash.
      if bh_prev_hash h \<noteq> expected_prev_hash then reject L
      else if bh_target h \<noteq> expected_target then reject L
      else if bh_version h \<noteq> PROTOCOL_VERSION then reject L
      else
      bindE (state_at E L (expected_height - 1)) (\<lambda>previous_state.
      bindE (registry_root E previous_state) (\<lambda>expected_registry_root.
      if bh_registry_root h \<noteq> expected_registry_root then reject L
      else
      bindE (verify_block_v2 E b (Some now) False
               (Some (median_past_time (ld_chain L) expected_height)) (Some expected_target)
               (ld_validator L)) (\<lambda>ok.
      if \<not> ok then reject L
      else
        (case apply_block E L previous_state (AnyV2 b) expected_height of
           Inl e \<Rightarrow> if registry_failure e then reject L else Inl e
         | Inr new_state \<Rightarrow>
             Inr (L\<lparr>ld_chain := ld_chain L @ [AnyV2 b],
                    ld_registry_states := (ld_registry_states L)(expected_height \<mapsto> new_state)\<rparr>, True)))))))))"

definition add_block_v1 :: "env \<Rightarrow> int \<Rightarrow> ledger \<Rightarrow> block_v1 \<Rightarrow> (ledger \<times> bool) res" where
  "add_block_v1 E now L b =
     (let expected_height = length (ld_chain L); h = bk_header b in
      bindE (expected_target_at (ld_chain L) expected_height) (\<lambda>expected_target.
      bindE (last_block L) (\<lambda>lb.
      bindE (ab_hash E lb) (\<lambda>expected_prev_hash.
      if bh_prev_hash h \<noteq> expected_prev_hash then reject L
      else if bh_target h \<noteq> expected_target then reject L
      else
      bindE (verify_block_v1 E now b (Some now) False
               (Some (median_past_time (ld_chain L) expected_height)) (Some expected_target)
               (ld_validator L)) (\<lambda>ok.
      if \<not> ok then reject L
      else Inr (L\<lparr>ld_chain := ld_chain L @ [AnyV1 b]\<rparr>, True))))))"

fun add_block :: "env \<Rightarrow> int \<Rightarrow> ledger \<Rightarrow> any_block \<Rightarrow> (ledger \<times> bool) res" where
  "add_block E now L (AnyV2 b) = add_block_v2 E now L b"
| "add_block E now L (AnyV1 b) = add_block_v1 E now L b"

section \<open>Validation of the whole chain\<close>

fun verify_any :: "env \<Rightarrow> int \<Rightarrow> any_block \<Rightarrow> bool \<Rightarrow> int option \<Rightarrow> int option
    \<Rightarrow> (json \<Rightarrow> bool res) option \<Rightarrow> bool res" where
  "verify_any E clock (AnyV1 b) gen mp et v = verify_block_v1 E clock b None gen mp et v"
| "verify_any E clock (AnyV2 b) gen mp et v = verify_block_v2 E b None gen mp et v"

text \<open>The registry part of one iteration for a v2 block: the commitment, the replay of the
  block, the comparison with the cached state, and the cache update.\<close>

definition check_registry_step :: "env \<Rightarrow> ledger \<Rightarrow> nat \<Rightarrow> block_v2 \<Rightarrow> (ledger \<times> bool) res" where
  "check_registry_step E L i b =
     bindE (state_at E L (i - 1)) (\<lambda>previous_state.
     bindE (registry_root E previous_state) (\<lambda>expected_root.
     if bh_registry_root (bk_header b) \<noteq> expected_root then reject L
     else
       (case apply_block E L previous_state (AnyV2 b) i of
          Inl e \<Rightarrow> if registry_failure e then reject L else Inl e
        | Inr recomputed \<Rightarrow>
            if ld_registry_states L i \<noteq> None \<and> ld_registry_states L i \<noteq> Some recomputed then reject L
            else Inr (L\<lparr>ld_registry_states := (ld_registry_states L)(i \<mapsto> recomputed)\<rparr>, True))))"

definition validate_step :: "env \<Rightarrow> int \<Rightarrow> ledger \<Rightarrow> nat \<Rightarrow> (ledger \<times> bool) res" where
  "validate_step E clock L i =
     (let chain = ld_chain L; current = chain ! i; previous = chain ! (i - 1) in
      bindE (ab_hash E previous) (\<lambda>prev_hash.
      if bh_prev_hash (ab_header current) \<noteq> prev_hash then reject L
      else
      bindE (expected_target_at chain i) (\<lambda>expected_target.
      if ab_target current \<noteq> expected_target then reject L
      else
      let median = median_past_time chain i in
      if ab_timestamp current \<le> median then reject L
      else
      bindE (verify_any E clock current False (Some median) (Some expected_target) (ld_validator L)) (\<lambda>ok.
      if \<not> ok then reject L
      else
        (case current of
           AnyV2 b \<Rightarrow> check_registry_step E L i b
         | AnyV1 _ \<Rightarrow> Inr (L, True))))))"

fun validate_loop :: "env \<Rightarrow> int \<Rightarrow> ledger \<Rightarrow> nat list \<Rightarrow> (ledger \<times> bool) res" where
  "validate_loop E clock L [] = Inr (L, True)"
| "validate_loop E clock L (i # is) =
     bindE (validate_step E clock L i) (\<lambda>(L', ok). if ok then validate_loop E clock L' is else reject L')"

definition validate_chain :: "env \<Rightarrow> int \<Rightarrow> ledger \<Rightarrow> (ledger \<times> bool) res" where
  "validate_chain E clock L =
     (case ld_chain L of
        [] \<Rightarrow> reject L
      | genesis # _ \<Rightarrow>
          bindE (identity_matches_genesis E (ld_identity L) (as_v2 genesis)) (\<lambda>ok.
          if \<not> ok then reject L
          else
          bindE (verify_any E clock genesis True None None None) (\<lambda>ok.
          if \<not> ok then reject L
          else validate_loop E clock L [1..<length (ld_chain L)])))"

end
