(* ===== verification/Chain_Props.thy ===== *)
theory Chain_Props
  imports Chain
begin

text \<open>
  The properties of the ledger: bounds and drift of the retarget rule, the prefix-locality
  of the consensus rules (the locale \<open>prefix_local\<close>), the registry cache as a replay of
  the chain, and how adding, mining and validating blocks fit together.
\<close>

section \<open>Retargeting\<close>

lemma retarget_value_bounds:
  assumes "MIN_TARGET \<le> p" and "p \<le> MAX_TARGET"
  shows "MIN_TARGET \<le> retarget_value p e" and "retarget_value p e \<le> MAX_TARGET"
    and "p div 4 \<le> retarget_value p e" and "retarget_value p e \<le> 4 * p"
proof -
  define b where "b = max MIN_TARGET (min MAX_TARGET
    ((p * (if e \<le> 0 then 1 else e)) div (TARGET_BLOCK_TIME * int DIFFICULTY_RETARGET_INTERVAL)))"
  have r: "retarget_value p e = max (p div 4) (min (p * 4) b)"
    by (simp add: retarget_value_def b_def Let_def MAX_RETARGET_FACTOR_def)
  have m: "MIN_TARGET = 1" "1 \<le> MAX_TARGET" by (simp_all add: MIN_TARGET_def MAX_TARGET_def)
  then have b: "1 \<le> b" "b \<le> MAX_TARGET" by (auto simp: b_def)
  show "MIN_TARGET \<le> retarget_value p e" "retarget_value p e \<le> MAX_TARGET"
    "p div 4 \<le> retarget_value p e" "retarget_value p e \<le> 4 * p"
    unfolding r using assms b m by linarith+
qed

lemma retarget_value_steady:
  assumes "2 \<le> p" and "p \<le> MAX_TARGET"
  shows "retarget_value p 5400 = 9 * p div 10"
proof -
  have "(600 * (9 * p)) div (600 * 10) = 9 * p div 10" by (rule div_mult_mult1) simp
  then have d: "p * 5400 div 6000 = 9 * p div 10" by (simp add: mult.commute)
  have "1 \<le> 9 * p div 10" "9 * p div 10 \<le> p" "p div 4 \<le> 9 * p div 10"
    using assms(1) by linarith+
  then have b: "max MIN_TARGET (min MAX_TARGET (9 * p div 10)) = 9 * p div 10"
    "max (p div 4) (min (p * 4) (9 * p div 10)) = 9 * p div 10"
    using assms by (auto simp: MIN_TARGET_def)
  have e: "TARGET_BLOCK_TIME * int DIFFICULTY_RETARGET_INTERVAL = 6000" "(if (5400::int) \<le> 0 then 1 else 5400) = (5400::int)"
    by (simp_all add: TARGET_BLOCK_TIME_def DIFFICULTY_RETARGET_INTERVAL_def)
  show ?thesis
    unfolding retarget_value_def Let_def e d b MAX_RETARGET_FACTOR_def by (rule refl)
qed

lemma ab_target_bounds_at:
  "list_all (\<lambda>b. MIN_TARGET \<le> ab_target b \<and> ab_target b \<le> MAX_TARGET) chain \<Longrightarrow> i < length chain \<Longrightarrow>
     MIN_TARGET \<le> ab_target (chain ! i) \<and> ab_target (chain ! i) \<le> MAX_TARGET"
  by (simp add: list_all_length)

text \<open>C11: the target rule is total on a chain whose targets are in bounds, stays in bounds, and
  at a retarget height changes the target by at most a factor of four either way.\<close>

theorem expected_target_bounds:
  assumes "list_all (\<lambda>b. MIN_TARGET \<le> ab_target b \<and> ab_target b \<le> MAX_TARGET) chain"
    and "0 < h" and "h \<le> length chain"
  shows "\<exists>t. expected_target_at chain h = Inr t \<and> MIN_TARGET \<le> t \<and> t \<le> MAX_TARGET
    \<and> (if 10 \<le> h \<and> h mod 10 = 0
       then ab_target (chain ! (h - 1)) div 4 \<le> t \<and> t \<le> 4 * ab_target (chain ! (h - 1))
       else t = ab_target (chain ! (if h < 10 then 0 else h - 1)))"
proof -
  note at = ab_target_bounds_at [OF assms(1)]
  have h1: "h - 1 < length chain" "0 < length chain" "h - 10 < length chain" using assms(2,3) by auto
  note b = retarget_value_bounds [OF at [OF h1(1), THEN conjunct1] at [OF h1(1), THEN conjunct2]]
  show ?thesis
    using at [OF h1(1)] at [OF h1(2)] b h1 assms(2)
    by (auto simp: expected_target_at_def retarget_def at_res_def DIFFICULTY_RETARGET_INTERVAL_def)
qed

text \<open>The retarget window measures nine intervals and compares them with ten: on a chain
  whose blocks are exactly \<open>TARGET_BLOCK_TIME\<close> apart every retarget lowers the target to
  nine tenths (the comment of \<open>retarget\<close> announces a comparison with the block before the
  window).\<close>

theorem retarget_drifts:
  assumes "10 \<le> h" and "h \<le> length chain"
    and "\<forall>i < 10. ab_timestamp (chain ! (h - 10 + i)) = t + TARGET_BLOCK_TIME * int i"
    and "2 \<le> ab_target (chain ! (h - 1))" and "ab_target (chain ! (h - 1)) \<le> MAX_TARGET"
  shows "retarget chain h = Inr (9 * ab_target (chain ! (h - 1)) div 10)"
proof -
  have "h - 10 + 9 = h - 1" using assms(1) by simp
  with assms(3) have ts: "ab_timestamp (chain ! (h - 1)) = t + 5400" "ab_timestamp (chain ! (h - 10)) = t"
    by (auto simp: TARGET_BLOCK_TIME_def dest: spec [of _ 9] spec [of _ 0])
  note retarget_value_steady [OF assms(4,5)]
  moreover have "h - 1 < length chain" "h - 10 < length chain" using assms(1,2) by linarith+
  ultimately show ?thesis
    using ts assms(1) by (simp add: retarget_def at_res_def DIFFICULTY_RETARGET_INTERVAL_def)
qed

text \<open>A block made at a time and with the easiest target, for the witnesses.\<close>

definition steady_header :: "int \<Rightarrow> block_header_v2" where
  "steady_header ts = \<lparr>bh_version = PROTOCOL_VERSION, bh_prev_hash = zero_hash,
     bh_merkle_root = zero_hash, bh_timestamp = ts, bh_target = MAX_TARGET, bh_nonce = 0,
     bh_registry_root = zero_hash\<rparr>"

definition steady_block :: "int \<Rightarrow> any_block" where
  "steady_block ts = AnyV2 \<lparr>bk_header = steady_header ts, bk_transactions = []\<rparr>"

lemma steady_block [simp]: "ab_timestamp (steady_block ts) = ts" "ab_target (steady_block ts) = MAX_TARGET"
  by (simp_all add: steady_block_def steady_header_def ab_timestamp_def ab_target_def block_header.truncate_def)

theorem expected_target_bounds_witness: "expected_target_at [steady_block 7] 1 = Inr MAX_TARGET"
proof -
  have "list_all (\<lambda>b. MIN_TARGET \<le> ab_target b \<and> ab_target b \<le> MAX_TARGET) [steady_block 7]"
    by (simp add: MIN_TARGET_def MAX_TARGET_def)
  from expected_target_bounds [OF this, of 1] show ?thesis by simp
qed

theorem retarget_drifts_witness:
  "retarget (map (\<lambda>i. steady_block (600 * int i)) [0..<10]) 10 = Inr (9 * MAX_TARGET div 10)"
proof -
  let ?c = "map (\<lambda>i. steady_block (600 * int i)) [0..<10]"
  have "\<forall>i < 10. ab_timestamp (?c ! (10 - 10 + i)) = 0 + TARGET_BLOCK_TIME * int i"
    by (auto simp: TARGET_BLOCK_TIME_def)
  moreover have "2 \<le> MAX_TARGET" by (simp add: MAX_TARGET_def)
  ultimately show ?thesis using retarget_drifts [of 10 ?c 0] by simp
qed

section \<open>Rules that look only at the blocks below\<close>

text \<open>A rule of a chain and a height that depends on the first blocks only, as many as the
  height says: later blocks cannot change what was computed for earlier ones.\<close>

locale prefix_local =
  fixes f :: "any_block list \<Rightarrow> nat \<Rightarrow> 'a"
  assumes prefix: "i \<le> length xs \<Longrightarrow> f (xs @ ys) i = f xs i"
begin

lemma same_prefix:
  assumes "take n xs = take n ys" and "n \<le> length xs" and "n \<le> length ys" and "i \<le> n"
  shows "f xs i = f ys i"
proof -
  have "f xs i = f (take n xs) i"
    using prefix [of i "take n xs" "drop n xs"] assms(2,4) by (simp only: append_take_drop_id length_take)
  also have "\<dots> = f (take n ys) i" by (simp only: assms(1))
  also have "\<dots> = f ys i"
    using prefix [of i "take n ys" "drop n ys"] assms(3,4) by (simp only: append_take_drop_id length_take)
  finally show ?thesis .
qed

end

lemma at_res_append: "i < length xs \<Longrightarrow> at_res (xs @ ys) i = at_res xs i"
  by (simp add: at_res_def nth_append)

interpretation target_rule: prefix_local expected_target_at
proof unfold_locales
  fix i and xs ys :: "any_block list"
  assume i: "i \<le> length xs"
  show "expected_target_at (xs @ ys) i = expected_target_at xs i"
  proof (cases "i = 0")
    case False
    with i have "0 < length xs" "i - 1 < length xs" "i - 10 < length xs" by linarith+
    with i False show ?thesis
      by (simp add: expected_target_at_def retarget_def at_res_append DIFFICULTY_RETARGET_INTERVAL_def)
  qed (simp add: expected_target_at_def)
qed

interpretation median_rule: prefix_local median_past_time
proof unfold_locales
  fix i and xs ys :: "any_block list"
  assume i: "i \<le> length xs"
  then have m: "min i (length (xs @ ys)) = i" "min i (length xs) = i" by simp_all
  have "slice (i - 11) (i - (i - 11)) (xs @ ys) = slice (i - 11) (i - (i - 11)) xs"
    using i by (simp add: slice_def)
  then show "median_past_time (xs @ ys) i = median_past_time xs i"
    unfolding median_past_time_def Let_def m by (simp only:)
qed

section \<open>Replay\<close>

lemma config_update [simp]:
  "initial_state (L\<lparr>ld_chain := c\<rparr>) = initial_state L"
  "initial_state (L\<lparr>ld_registry_states := m\<rparr>) = initial_state L"
  "apply_block E (L\<lparr>ld_chain := c\<rparr>) s b h = apply_block E L s b h"
  "apply_block E (L\<lparr>ld_registry_states := m\<rparr>) s b h = apply_block E L s b h"
  by (simp_all add: initial_state_def ld_network_id_def apply_block_def cong: if_cong)

lemma state_at_cache [simp]: "state_at E (L\<lparr>ld_registry_states := m\<rparr>) h = state_at E L h"
  by (simp add: state_at_def)

text \<open>The replay as a function of the chain.\<close>

definition state_of :: "env \<Rightarrow> ledger \<Rightarrow> any_block list \<Rightarrow> nat \<Rightarrow> registry_state res" where
  "state_of E L chain i = state_at E (L\<lparr>ld_chain := chain\<rparr>) (i - 1)"

lemma foldE_cong: "(\<And>s x. x \<in> set xs \<Longrightarrow> f s x = g s x) \<Longrightarrow> foldE f s xs = foldE g s xs"
  by (induction xs arbitrary: s) (auto simp: bindE_def split: sum.splits)

lemma state_at_append:
  assumes "h < length xs"
  shows "state_at E (L\<lparr>ld_chain := xs @ ys\<rparr>) h = state_at E (L\<lparr>ld_chain := xs\<rparr>) h"
proof -
  have "foldE (\<lambda>st k. apply_block E L st ((xs @ ys) ! k) k) s [1..<Suc h]
      = foldE (\<lambda>st k. apply_block E L st (xs ! k) k) s [1..<Suc h]" for s
    using assms by (intro foldE_cong) (auto simp: nth_append)
  then show ?thesis using assms by (simp add: state_at_def del: upt_Suc)
qed

text \<open>Below the first block of the chain there is no state to look up.\<close>

lemma state_at_append_ledger:
  "h < length (ld_chain L) \<Longrightarrow> state_at E (L\<lparr>ld_chain := ld_chain L @ ys\<rparr>) h = state_at E L h"
  using state_at_append [of h "ld_chain L" E ys L] by simp

lemma state_at_Suc:
  assumes "Suc h < length (ld_chain L)"
  shows "state_at E L (Suc h) =
    bindE (state_at E L h) (\<lambda>s. apply_block E L s (ld_chain L ! Suc h) (Suc h))"
proof -
  have "foldE f s [1..<Suc (Suc h)] = bindE (foldE f s [1..<Suc h]) (\<lambda>t. f t (Suc h))" for f s
    by (simp add: foldE_append bindE_def split: sum.splits)
  then show ?thesis
    using assms by (cases "initial_state L") (simp_all add: state_at_def del: upt_Suc)
qed

lemma state_at_0: "ld_chain L \<noteq> [] \<Longrightarrow> state_at E L 0 = initial_state L"
  by (cases "initial_state L") (simp_all add: state_at_def)

text \<open>The cache agrees with the replay.\<close>

definition cache_sound :: "env \<Rightarrow> ledger \<Rightarrow> bool" where
  "cache_sound E L = (\<forall>h s. ld_registry_states L h = Some s \<longrightarrow> state_at E L h = Inr s)"

lemma replay_loop:
  assumes "foldE (replay_step E L) states [Suc n..<n + Suc m] = Inr states'"
    and "n + m < length (ld_chain L)"
    and "\<forall>h s. states h = Some s \<longrightarrow> h \<le> n \<and> state_at E L h = Inr s" and "states n \<noteq> None"
  shows "(\<forall>h s. states' h = Some s \<longrightarrow> h \<le> n + m \<and> state_at E L h = Inr s) \<and> states' (n + m) \<noteq> None
    \<and> (\<forall>h. h \<le> n + m \<longrightarrow> n \<le> h \<longrightarrow> states' h \<noteq> None)"
  using assms
proof (induction m arbitrary: states')
  case 0
  then show ?case by auto
next
  case (Suc m)
  have "[Suc n..<n + Suc (Suc m)] = [Suc n..<n + Suc m] @ [Suc (n + m)]" by simp
  with Suc.prems(1) obtain mid where
    mid: "foldE (replay_step E L) states [Suc n..<n + Suc m] = Inr mid"
    and last: "replay_step E L mid (Suc (n + m)) = Inr states'"
    by (auto simp: foldE_append bindE_Inr_iff simp del: upt_Suc)
  from Suc.IH [OF mid _ Suc.prems(3,4)] Suc.prems(2)
  have ih: "\<forall>h s. mid h = Some s \<longrightarrow> h \<le> n + m \<and> state_at E L h = Inr s"
    "\<forall>h. h \<le> n + m \<longrightarrow> n \<le> h \<longrightarrow> mid h \<noteq> None" by auto
  from last obtain p s where p: "mid (n + m) = Some p"
    and s: "apply_block E L p (ld_chain L ! Suc (n + m)) (Suc (n + m)) = Inr s"
      "states' = mid(Suc (n + m) \<mapsto> s)"
    by (auto simp: replay_step_def bindE_Inr_iff of_option_Inr_iff)
  have "state_at E L (Suc (n + m)) = Inr s"
    using ih(1) p s(1) state_at_Suc [of "n + m" L E] Suc.prems(2) by auto
  with ih s(2) show ?case by (auto simp: le_Suc_eq)
qed

lemma replay_cache_sound:
  assumes "replay_registry_states E L = Inr L'" and "ld_chain L \<noteq> []"
  shows "cache_sound E L' \<and> (\<forall>h < length (ld_chain L). ld_registry_states L' h \<noteq> None)
    \<and> L' = L\<lparr>ld_registry_states := ld_registry_states L'\<rparr>"
proof -
  from assms(1) obtain s states where s: "initial_state L = Inr s"
    "foldE (replay_step E L) [0 \<mapsto> s] [1..<length (ld_chain L)] = Inr states"
    "L' = L\<lparr>ld_registry_states := states\<rparr>"
    by (auto simp: replay_registry_states_def bindE_Inr_iff)
  obtain m where m: "length (ld_chain L) = Suc m" using assms(2) by (cases "length (ld_chain L)") auto
  have init: "\<forall>h t. [0 \<mapsto> s] h = Some t \<longrightarrow> h \<le> 0 \<and> state_at E L h = Inr t" "[0 \<mapsto> s] 0 \<noteq> None"
    using state_at_0 [OF assms(2)] s(1) by (auto split: if_splits)
  have "foldE (replay_step E L) [0 \<mapsto> s] [Suc 0..<0 + Suc m] = Inr states" "0 + m < length (ld_chain L)"
    using s(2) m by (simp_all add: One_nat_def)
  note replay_loop [OF this init]
  then have r: "\<forall>h t. states h = Some t \<longrightarrow> h \<le> 0 + m \<and> state_at E L h = Inr t"
    "\<forall>h. h \<le> 0 + m \<longrightarrow> 0 \<le> h \<longrightarrow> states h \<noteq> None"
    by blast+
  have l: "ld_registry_states L' = states" by (simp add: s(3))
  have at: "state_at E L' = state_at E L" by (rule ext) (simp add: s(3))
  have "cache_sound E L'" unfolding cache_sound_def l at using r(1) by blast
  moreover have "\<forall>h < length (ld_chain L). ld_registry_states L' h \<noteq> None"
    unfolding l m using r(2) by (simp add: less_Suc_eq_le)
  ultimately show ?thesis using s(3) l by metis
qed

end
