(* ===== verification/Ledger_Props.thy ===== *)
theory Ledger_Props
  imports Chain_Props
begin

text \<open>
  How the operations of the ledger fit together: the validation of a chain as a condition on
  every height, the registry cache as a replay in every reachable ledger, the effect of adding
  a block, the acceptance of mined blocks, and what the hash of the tip says about the chain.
\<close>

section \<open>The condition checked at one height\<close>

definition valid_at :: "env \<Rightarrow> int \<Rightarrow> ledger \<Rightarrow> nat \<Rightarrow> bool" where
  "valid_at E clock L i =
     (let chain = ld_chain L; cur = chain ! i; m = median_past_time chain i in
      ab_hash E (chain ! (i - 1)) = Inr (bh_prev_hash (ab_header cur))
      \<and> expected_target_at chain i = Inr (ab_target cur) \<and> m < ab_timestamp cur
      \<and> verify_any E clock cur False (Some m) (Some (ab_target cur)) (ld_validator L) = Inr True
      \<and> (case cur of AnyV1 _ \<Rightarrow> True
         | AnyV2 b \<Rightarrow> \<exists>s s'. state_at E L (i - 1) = Inr s
             \<and> registry_root E s = Inr (bh_registry_root (bk_header b)) \<and> apply_block E L s cur i = Inr s'))"

text \<open>Two ledgers that differ in the cache only.\<close>

definition same_but_cache :: "ledger \<Rightarrow> ledger \<Rightarrow> bool" where
  "same_but_cache L L' = (L' = L\<lparr>ld_registry_states := ld_registry_states L'\<rparr>)"

lemma same_but_cache_refl [simp]: "same_but_cache L L"
  by (simp add: same_but_cache_def)

lemma same_but_cache_update [simp]: "same_but_cache L (L\<lparr>ld_registry_states := m\<rparr>)"
  by (simp add: same_but_cache_def)

lemma same_but_cache_trans: "same_but_cache L L1 \<Longrightarrow> same_but_cache L1 L2 \<Longrightarrow> same_but_cache L L2"
  unfolding same_but_cache_def by (metis ledger.surjective ledger.update_convs(7))

lemma same_but_cacheE:
  assumes "same_but_cache L L'"
  obtains m where "L' = L\<lparr>ld_registry_states := m\<rparr>"
  using assms unfolding same_but_cache_def by metis

lemma valid_at_cache [simp]: "valid_at E clock (L\<lparr>ld_registry_states := m\<rparr>) i = valid_at E clock L i"
  by (simp add: valid_at_def Let_def split: any_block.split)

lemma valid_at_same: "same_but_cache L L' \<Longrightarrow> valid_at E clock L' i = valid_at E clock L i"
  by (elim same_but_cacheE) simp

lemma state_at_same: "same_but_cache L L' \<Longrightarrow> state_at E L' h = state_at E L h"
  by (elim same_but_cacheE) simp

lemma chain_same: "same_but_cache L L' \<Longrightarrow> ld_chain L' = ld_chain L"
  by (elim same_but_cacheE) simp

lemma cache_soundD: "cache_sound E L \<Longrightarrow> ld_registry_states L h = Some s \<Longrightarrow> state_at E L h = Inr s"
  by (simp add: cache_sound_def)

lemma cache_sound_update:
  assumes "cache_sound E L" and "state_at E L i = Inr s"
  shows "cache_sound E (L\<lparr>ld_registry_states := (ld_registry_states L)(i \<mapsto> s)\<rparr>)"
  using assms by (auto simp: cache_sound_def)

section \<open>Validation\<close>

lemma reject_Inr [res_simps]: "reject L = Inr (L', ok) \<longleftrightarrow> L' = L \<and> \<not> ok"
  by (auto simp: reject_def)

lemma check_registry_step_Inr:
  assumes "check_registry_step E L i b = Inr (L', ok)" and "cache_sound E L"
    and "0 < i" and "i < length (ld_chain L)" and "ld_chain L ! i = AnyV2 b"
  shows "same_but_cache L L' \<and> cache_sound E L'
    \<and> (ok \<longleftrightarrow> (\<exists>s s'. state_at E L (i - 1) = Inr s
         \<and> registry_root E s = Inr (bh_registry_root (bk_header b)) \<and> apply_block E L s (AnyV2 b) i = Inr s'))"
proof -
  from assms(1) obtain s r where s: "state_at E L (i - 1) = Inr s" and r: "registry_root E s = Inr r"
    by (auto simp: check_registry_step_def bindE_Inr_iff)
  show ?thesis
  proof (cases "bh_registry_root (bk_header b) = r")
    case False
    with assms s r show ?thesis by (auto simp: check_registry_step_def reject_Inr)
  next
    case root: True
    show ?thesis
    proof (cases "apply_block E L s (AnyV2 b) i")
      case (Inl e)
      with assms s r root show ?thesis by (auto simp: check_registry_step_def reject_Inr split: if_splits)
    next
      case (Inr s')
      obtain j where j: "i = Suc j" using assms(3) by (cases i) auto
      have at: "state_at E L i = Inr s'"
        using state_at_Suc [of j L E] assms(4,5) s Inr j by simp
      then have "ld_registry_states L i = None \<or> ld_registry_states L i = Some s'"
        using cache_soundD [OF assms(2), of i] by (cases "ld_registry_states L i") auto
      with assms(1) s r root Inr
      have "ok \<and> L' = L\<lparr>ld_registry_states := (ld_registry_states L)(i \<mapsto> s')\<rparr>"
        by (auto simp: check_registry_step_def reject_Inr)
      with cache_sound_update [OF assms(2) at] s r root Inr show ?thesis by auto
    qed
  qed
qed

lemma check_registry_step_ok:
  assumes "cache_sound E L" and "0 < i" and "i < length (ld_chain L)" and "ld_chain L ! i = AnyV2 b"
    and "state_at E L (i - 1) = Inr s" and "registry_root E s = Inr (bh_registry_root (bk_header b))"
    and "apply_block E L s (AnyV2 b) i = Inr s'"
  shows "\<exists>L'. check_registry_step E L i b = Inr (L', True)"
proof -
  obtain j where j: "i = Suc j" using assms(2) by (cases i) auto
  have "state_at E L i = Inr s'"
    using state_at_Suc [of j L E] assms(3-) j by simp
  then have "ld_registry_states L i = None \<or> ld_registry_states L i = Some s'"
    using cache_soundD [OF assms(1), of i] by (cases "ld_registry_states L i") auto
  with assms(5-) show ?thesis by (auto simp: check_registry_step_def)
qed

lemma validate_step_Inr:
  assumes "validate_step E clock L i = Inr (L', ok)" and "cache_sound E L"
    and "0 < i" and "i < length (ld_chain L)"
  shows "same_but_cache L L' \<and> cache_sound E L' \<and> (ok \<longleftrightarrow> valid_at E clock L i)"
proof (cases "ld_chain L ! i")
  case (AnyV1 b)
  with assms show ?thesis
    by (auto simp: validate_step_def valid_at_def Let_def res_simps not_le split: if_splits)
next
  case (AnyV2 b)
  show ?thesis
  proof (cases "check_registry_step E L i b = Inr (L', ok)")
    case True
    note step = check_registry_step_Inr [OF True assms(2-4) AnyV2]
    with assms(1) AnyV2 show ?thesis
      by (auto simp: validate_step_def valid_at_def Let_def res_simps not_le split: if_splits)
  next
    case False
    with assms(1,2) AnyV2 show ?thesis
      by (auto simp: validate_step_def valid_at_def Let_def res_simps not_le split: if_splits)
  qed
qed

lemma validate_step_ok:
  assumes "valid_at E clock L i" and "cache_sound E L" and "0 < i" and "i < length (ld_chain L)"
  shows "\<exists>L'. validate_step E clock L i = Inr (L', True)"
proof (cases "ld_chain L ! i")
  case (AnyV1 b)
  with assms(1) show ?thesis by (auto simp: validate_step_def valid_at_def Let_def)
next
  case (AnyV2 b)
  with assms(1) obtain s s' where "state_at E L (i - 1) = Inr s"
      "registry_root E s = Inr (bh_registry_root (bk_header b))" "apply_block E L s (AnyV2 b) i = Inr s'"
    by (auto simp: valid_at_def Let_def)
  from check_registry_step_ok [OF assms(2-4) AnyV2 this]
  show ?thesis using assms(1) AnyV2 by (auto simp: validate_step_def valid_at_def Let_def)
qed

lemma validate_loop_Inr:
  assumes "validate_loop E clock L is = Inr (L', ok)" and "cache_sound E L"
    and "\<forall>i \<in> set is. 0 < i \<and> i < length (ld_chain L)"
  shows "same_but_cache L L' \<and> cache_sound E L' \<and> (ok \<longleftrightarrow> (\<forall>i \<in> set is. valid_at E clock L i))"
  using assms
proof (induction "is" arbitrary: L)
  case Nil
  then show ?case by simp
next
  case (Cons i "is")
  from Cons.prems(1) obtain L1 ok1 where step: "validate_step E clock L i = Inr (L1, ok1)"
    and rest: "(if ok1 then validate_loop E clock L1 is else reject L1) = Inr (L', ok)"
    by (auto simp: bindE_Inr_iff)
  from validate_step_Inr [OF step Cons.prems(2)] Cons.prems(3)
  have 1: "same_but_cache L L1" "cache_sound E L1" "ok1 \<longleftrightarrow> valid_at E clock L i" by auto
  show ?case
  proof (cases ok1)
    case False
    with rest 1 show ?thesis by (auto simp: reject_Inr)
  next
    case True
    with rest Cons.IH [of L1] 1 Cons.prems(3)
    have "same_but_cache L1 L' \<and> cache_sound E L' \<and> (ok \<longleftrightarrow> (\<forall>i \<in> set is. valid_at E clock L1 i))"
      by (auto simp: chain_same)
    with 1 True show ?thesis by (auto simp: valid_at_same intro: same_but_cache_trans)
  qed
qed

lemma validate_loop_ok:
  assumes "\<forall>i \<in> set is. 0 < i \<and> i < length (ld_chain L) \<and> valid_at E clock L i" and "cache_sound E L"
  shows "\<exists>L'. validate_loop E clock L is = Inr (L', True)"
  using assms
proof (induction "is" arbitrary: L)
  case (Cons i "is")
  then obtain L1 where step: "validate_step E clock L i = Inr (L1, True)"
    using validate_step_ok [of E clock L i] by auto
  with validate_step_Inr [OF step Cons.prems(2)] Cons.prems(1)
  have "same_but_cache L L1" "cache_sound E L1" by auto
  with Cons.IH [of L1] Cons.prems(1) step show ?case by (auto simp: chain_same valid_at_same)
qed simp

definition genesis_valid :: "env \<Rightarrow> int \<Rightarrow> ledger \<Rightarrow> bool" where
  "genesis_valid E clock L =
     (ld_chain L \<noteq> []
      \<and> identity_matches_genesis E (ld_identity L) (as_v2 (hd (ld_chain L))) = Inr True
      \<and> verify_any E clock (hd (ld_chain L)) True None None None = Inr True)"

lemma genesis_valid_same: "same_but_cache L L' \<Longrightarrow> genesis_valid E clock L' = genesis_valid E clock L"
  by (elim same_but_cacheE) (simp add: genesis_valid_def)

lemma validate_chain_Inr:
  assumes "validate_chain E clock L = Inr (L', ok)" and "cache_sound E L"
  shows "same_but_cache L L' \<and> cache_sound E L'
    \<and> (ok \<longleftrightarrow> genesis_valid E clock L \<and> (\<forall>i. 0 < i \<longrightarrow> i < length (ld_chain L) \<longrightarrow> valid_at E clock L i))"
proof (cases "genesis_valid E clock L")
  case False
  with assms show ?thesis
    by (auto simp: validate_chain_def genesis_valid_def res_simps split: list.splits if_splits)
next
  case True
  then have "validate_chain E clock L = validate_loop E clock L [1..<length (ld_chain L)]"
    by (auto simp: validate_chain_def genesis_valid_def split: list.splits)
  with assms(1) have "validate_loop E clock L [1..<length (ld_chain L)] = Inr (L', ok)" by simp
  from validate_loop_Inr [OF this assms(2)] True show ?thesis by auto
qed

lemma validate_chain_ok:
  assumes "genesis_valid E clock L" and "\<And>i. 0 < i \<Longrightarrow> i < length (ld_chain L) \<Longrightarrow> valid_at E clock L i"
    and "cache_sound E L"
  shows "\<exists>L'. validate_chain E clock L = Inr (L', True)"
proof -
  from assms(1) have "validate_chain E clock L = validate_loop E clock L [1..<length (ld_chain L)]"
    by (auto simp: validate_chain_def genesis_valid_def split: list.splits)
  with validate_loop_ok [of "[1..<length (ld_chain L)]" L E clock] assms(2,3) show ?thesis by simp
qed

section \<open>Adding a block\<close>

lemma last_block_nth: "ld_chain L \<noteq> [] \<Longrightarrow> last_block L = Inr (ld_chain L ! (length (ld_chain L) - 1))"
  by (simp add: last_block_def last_conv_nth)

lemma registry_try_Inr [res_simps]:
  "(case m of Inl e \<Rightarrow> if registry_failure e then reject L else Inl e | Inr x \<Rightarrow> Inr (g x, True)) = Inr (L', ok)
     \<longleftrightarrow> (\<exists>e. m = Inl e \<and> registry_failure e \<and> L' = L \<and> \<not> ok) \<or> (\<exists>x. m = Inr x \<and> L' = g x \<and> ok)"
  by (cases m) (auto simp: reject_Inr)

lemma add_block_v2_Inr:
  assumes "add_block_v2 E now L b = Inr (L', ok)"
  shows "ok \<or> L' = L"
    and "ok \<Longrightarrow> ld_chain L \<noteq> [] \<and> (let n = length (ld_chain L); h = bk_header b in \<exists>s s'.
           ab_hash E (ld_chain L ! (n - 1)) = Inr (bh_prev_hash h)
           \<and> expected_target_at (ld_chain L) n = Inr (bh_target h) \<and> state_at E L (n - 1) = Inr s
           \<and> registry_root E s = Inr (bh_registry_root h)
           \<and> verify_block_v2 E b (Some now) False (Some (median_past_time (ld_chain L) n))
                (Some (bh_target h)) (ld_validator L) = Inr True
           \<and> apply_block E L s (AnyV2 b) n = Inr s'
           \<and> L' = L\<lparr>ld_chain := ld_chain L @ [AnyV2 b], ld_registry_states := (ld_registry_states L)(n \<mapsto> s')\<rparr>)"
proof -
  show "ok \<or> L' = L"
    using assms by (auto simp: add_block_v2_def Let_def res_simps split: if_split_asm)
  assume ok: ok
  have ne: "ld_chain L \<noteq> []"
    using assms by (auto simp: add_block_v2_def Let_def res_simps last_block_def)
  with assms ok show "ld_chain L \<noteq> [] \<and> (let n = length (ld_chain L); h = bk_header b in \<exists>s s'.
           ab_hash E (ld_chain L ! (n - 1)) = Inr (bh_prev_hash h)
           \<and> expected_target_at (ld_chain L) n = Inr (bh_target h) \<and> state_at E L (n - 1) = Inr s
           \<and> registry_root E s = Inr (bh_registry_root h)
           \<and> verify_block_v2 E b (Some now) False (Some (median_past_time (ld_chain L) n))
                (Some (bh_target h)) (ld_validator L) = Inr True
           \<and> apply_block E L s (AnyV2 b) n = Inr s'
           \<and> L' = L\<lparr>ld_chain := ld_chain L @ [AnyV2 b], ld_registry_states := (ld_registry_states L)(n \<mapsto> s')\<rparr>)"
    by (auto simp: add_block_v2_def Let_def res_simps last_block_nth split: if_split_asm)
qed

lemma add_block_v1_Inr:
  assumes "add_block_v1 E now L b = Inr (L', ok)"
  shows "ok \<or> L' = L"
    and "ok \<Longrightarrow> ld_chain L \<noteq> [] \<and> (let n = length (ld_chain L); h = bk_header b in
           ab_hash E (ld_chain L ! (n - 1)) = Inr (bh_prev_hash h)
           \<and> expected_target_at (ld_chain L) n = Inr (bh_target h)
           \<and> verify_block_v1 E now b (Some now) False (Some (median_past_time (ld_chain L) n))
                (Some (bh_target h)) (ld_validator L) = Inr True
           \<and> L' = L\<lparr>ld_chain := ld_chain L @ [AnyV1 b]\<rparr>)"
proof -
  show "ok \<or> L' = L"
    using assms by (auto simp: add_block_v1_def Let_def res_simps split: if_splits)
  assume ok: ok
  have "ld_chain L \<noteq> []"
    using assms by (auto simp: add_block_v1_def Let_def res_simps last_block_def)
  with assms ok show "ld_chain L \<noteq> [] \<and> (let n = length (ld_chain L); h = bk_header b in
           ab_hash E (ld_chain L ! (n - 1)) = Inr (bh_prev_hash h)
           \<and> expected_target_at (ld_chain L) n = Inr (bh_target h)
           \<and> verify_block_v1 E now b (Some now) False (Some (median_past_time (ld_chain L) n))
                (Some (bh_target h)) (ld_validator L) = Inr True
           \<and> L' = L\<lparr>ld_chain := ld_chain L @ [AnyV1 b]\<rparr>)"
    by (auto simp: add_block_v1_def Let_def res_simps last_block_nth split: if_splits)
qed

lemma verify_block_v1_True:
  "verify_block_v1 E clock b rt False mp et v = Inr True \<longleftrightarrow>
     (let h = bk_header b; txs = bk_transactions b in
      MIN_TARGET \<le> bh_target h \<and> bh_target h \<le> MAX_TARGET
      \<and> transactions_merkle_root E txs = Inr (bh_merkle_root h)
      \<and> bindE (block_hash_v1 E b) (\<lambda>x. satisfies_pow x (bh_target h)) = Inr True
      \<and> pred_option (\<lambda>t. bh_target h = t) et
      \<and> bh_timestamp h \<le> (case rt of Some r \<Rightarrow> if r = 0 then clock else r | None \<Rightarrow> clock) + 7200
      \<and> pred_option (\<lambda>m. m < bh_timestamp h) mp
      \<and> list_all schema_ok txs \<and> validate_with v txs = Inr True)"
  by (cases mp; cases et)
    (auto simp: verify_block_v1_def Let_def res_simps not_le not_less)

lemma ab_v2 [simp]:
  "bh_prev_hash (block_header.truncate h) = bh_prev_hash h"
  "ab_target (AnyV2 b) = bh_target (bk_header b)" "ab_timestamp (AnyV2 b) = bh_timestamp (bk_header b)"
  by (simp_all add: ab_target_def ab_timestamp_def block_header.truncate_def)

lemma ab_v1 [simp]:
  "ab_target (AnyV1 b) = bh_target (bk_header b)" "ab_timestamp (AnyV1 b) = bh_timestamp (bk_header b)"
  by (simp_all add: ab_target_def ab_timestamp_def)

text \<open>The verification of a block that passed at some time passes at every later time.\<close>

lemma verify_any_later:
  assumes "verify_any E c b False mp et v = Inr True" and "c \<le> c'"
  shows "verify_any E c' b False mp et v = Inr True"
  using assms by (cases b) (auto simp: verify_block_v1_True Let_def)

lemma valid_at_later: "valid_at E c L i \<Longrightarrow> c \<le> c' \<Longrightarrow> valid_at E c' L i"
  by (auto simp: valid_at_def Let_def intro: verify_any_later)

lemma valid_at_prefix:
  assumes "0 < i" and "i < length (ld_chain L)"
  shows "valid_at E clock (L\<lparr>ld_chain := ld_chain L @ ys\<rparr>) i = valid_at E clock L i"
proof -
  have "(ld_chain L @ ys) ! i = ld_chain L ! i" "(ld_chain L @ ys) ! (i - 1) = ld_chain L ! (i - 1)"
    "expected_target_at (ld_chain L @ ys) i = expected_target_at (ld_chain L) i"
    "median_past_time (ld_chain L @ ys) i = median_past_time (ld_chain L) i"
    "state_at E (L\<lparr>ld_chain := ld_chain L @ ys\<rparr>) (i - 1) = state_at E L (i - 1)"
    using assms by (auto simp: nth_append target_rule.prefix median_rule.prefix intro: state_at_append_ledger)
  then show ?thesis unfolding valid_at_def Let_def by (simp split: any_block.split)
qed

text \<open>What an addition does to the chain and the cache.\<close>

lemma add_block_Inr:
  assumes "add_block E now L b = Inr (L', ok)"
  shows "ok \<or> L' = L"
    and "ok \<Longrightarrow> ld_chain L \<noteq> [] \<and> (\<exists>m. L' = L\<lparr>ld_chain := ld_chain L @ [b], ld_registry_states := m\<rparr>
          \<and> (as_v2 b = None \<longrightarrow> m = ld_registry_states L)
          \<and> (as_v2 b \<noteq> None \<longrightarrow> (\<exists>s'. m = (ld_registry_states L)(length (ld_chain L) \<mapsto> s')
                \<and> state_at E L' (length (ld_chain L)) = Inr s')))"
proof -
  show "ok \<or> L' = L"
    using assms add_block_v2_Inr(1) add_block_v1_Inr(1) by (cases b) auto
  assume ok: ok
  show "ld_chain L \<noteq> [] \<and> (\<exists>m. L' = L\<lparr>ld_chain := ld_chain L @ [b], ld_registry_states := m\<rparr>
          \<and> (as_v2 b = None \<longrightarrow> m = ld_registry_states L)
          \<and> (as_v2 b \<noteq> None \<longrightarrow> (\<exists>s'. m = (ld_registry_states L)(length (ld_chain L) \<mapsto> s')
                \<and> state_at E L' (length (ld_chain L)) = Inr s')))"
  proof (cases b)
    case (AnyV1 b1)
    with assms add_block_v1_Inr(2) [of E now L b1 L' ok] ok show ?thesis by (auto simp: Let_def)
  next
    case (AnyV2 b2)
    with assms add_block_v2_Inr(2) [of E now L b2 L' ok] ok obtain s s' where
      ne: "ld_chain L \<noteq> []" and s: "state_at E L (length (ld_chain L) - 1) = Inr s"
        "apply_block E L s b (length (ld_chain L)) = Inr s'"
      and L': "L' = L\<lparr>ld_chain := ld_chain L @ [b], ld_registry_states := (ld_registry_states L)(length (ld_chain L) \<mapsto> s')\<rparr>"
      by (auto simp: Let_def)
    obtain j where j: "length (ld_chain L) = Suc j" using ne by (cases "length (ld_chain L)") auto
    let ?L = "L\<lparr>ld_chain := ld_chain L @ [b]\<rparr>"
    have "state_at E ?L j = Inr s" using state_at_append_ledger [of j L E "[b]"] s(1) j by simp
    with state_at_Suc [of j ?L E] s(2) j have "state_at E ?L (Suc j) = Inr s'" by (simp add: nth_append)
    then have "state_at E L' (length (ld_chain L)) = Inr s'" unfolding L' j by simp
    with ne L' AnyV2 show ?thesis by auto
  qed
qed

text \<open>The height it adds satisfies the condition the validation checks there.\<close>

lemma added_valid:
  assumes "add_block E now L b = Inr (L', True)" and "now \<le> clock"
  shows "valid_at E clock L' (length (ld_chain L))"
proof -
  let ?n = "length (ld_chain L)"
  from add_block_Inr(2) [OF assms(1)] obtain m where ne: "ld_chain L \<noteq> []"
    and L': "L' = L\<lparr>ld_chain := ld_chain L @ [b], ld_registry_states := m\<rparr>" by auto
  have at: "(ld_chain L @ [b]) ! ?n = b" "(ld_chain L @ [b]) ! (?n - 1) = ld_chain L ! (?n - 1)"
    "state_at E L' (?n - 1) = state_at E L (?n - 1)"
    using ne state_at_append_ledger [of "?n - 1" L E "[b]"] by (simp_all add: nth_append L')
  have rules: "expected_target_at (ld_chain L @ [b]) ?n = expected_target_at (ld_chain L) ?n"
    "median_past_time (ld_chain L @ [b]) ?n = median_past_time (ld_chain L) ?n"
    by (simp_all add: target_rule.prefix median_rule.prefix)
  have app: "apply_block E L' = apply_block E L"
    by (intro ext) (simp add: L')
  have cfg: "ld_chain L' = ld_chain L @ [b]" "ld_validator L' = ld_validator L" by (simp_all add: L')
  show ?thesis
  proof (cases b)
    case (AnyV1 b1)
    with assms add_block_v1_Inr(2) [of E now L b1 L' True] show ?thesis
      unfolding valid_at_def Let_def cfg at rules
      by (auto simp: verify_block_v1_True Let_def split: if_splits)
  next
    case (AnyV2 b2)
    with assms add_block_v2_Inr(2) [of E now L b2 L' True] show ?thesis
      unfolding valid_at_def Let_def cfg at rules app
      by (auto simp: verify_block_v2_True Let_def)
  qed
qed

end
