(* ===== verification/Ledger_Reach.thy ===== *)
theory Ledger_Reach
  imports Ledger_Props
begin

text \<open>
  The theorems of the ledger: what holds in every ledger that construction, additions and
  validations can build; that additions keep a chain valid; that a mined block is accepted;
  and that the hash of the tip fixes the headers of a valid chain.
\<close>

section \<open>Reachable ledgers\<close>

text \<open>The ledgers that \<open>Ledger()\<close>, \<open>add_block\<close> and \<open>validate_chain\<close> build,
  whatever the blocks, the clock and the results.\<close>

inductive ledger_reachable :: "env \<Rightarrow> ledger \<Rightarrow> bool" for E :: env where
  init: "new_ledger E chain v keys t ident strict = Inr L \<Longrightarrow> ledger_reachable E L"
| add: "ledger_reachable E L \<Longrightarrow> add_block E now L b = Inr (L', ok) \<Longrightarrow> ledger_reachable E L'"
| validate: "ledger_reachable E L \<Longrightarrow> validate_chain E clock L = Inr (L', ok) \<Longrightarrow> ledger_reachable E L'"

definition ledger_inv :: "env \<Rightarrow> ledger \<Rightarrow> bool" where
  "ledger_inv E L =
     (ld_chain L \<noteq> [] \<and> cache_sound E L
      \<and> (\<forall>h < length (ld_chain L). h = 0 \<or> as_v2 (ld_chain L ! h) \<noteq> None \<longrightarrow> ld_registry_states L h \<noteq> None))"

lemma replay_inv:
  assumes "replay_registry_states E L0 = Inr L" and "ld_chain L0 \<noteq> []"
  shows "ledger_inv E L"
proof -
  note r = replay_cache_sound [OF assms]
  then have "ld_chain L = ld_chain L0" by (metis ledger.select_convs(1) ledger.surjective ledger.update_convs(7))
  with r assms(2) show ?thesis by (simp add: ledger_inv_def)
qed

lemma new_ledger_inv: "new_ledger E chain v keys t ident strict = Inr L \<Longrightarrow> ledger_inv E L"
  by (auto simp: new_ledger_def Let_def bindE_Inr_iff split: if_split_asm intro: replay_inv)

lemma add_block_inv:
  assumes "ledger_inv E L" and "add_block E now L b = Inr (L', ok)"
  shows "ledger_inv E L'"
proof (cases ok)
  case False
  with assms add_block_Inr(1) [OF assms(2)] show ?thesis by simp
next
  case True
  note inv = assms(1) [unfolded ledger_inv_def]
  from add_block_Inr(2) [OF assms(2) True, THEN conjunct2] obtain m where
    L': "L' = L\<lparr>ld_chain := ld_chain L @ [b], ld_registry_states := m\<rparr>"
    and m: "as_v2 b = None \<longrightarrow> m = ld_registry_states L"
      "as_v2 b \<noteq> None \<longrightarrow> (\<exists>s'. m = (ld_registry_states L)(length (ld_chain L) \<mapsto> s')
          \<and> state_at E L' (length (ld_chain L)) = Inr s')" by (elim exE conjE)
  have old: "state_at E L' h = Inr s" if "ld_registry_states L h = Some s" for h s
  proof -
    from that inv have s: "state_at E L h = Inr s" by (simp add: cache_sound_def)
    then have "h < length (ld_chain L)" by (simp add: state_at_def split: if_splits)
    with s state_at_append_ledger [of h L E "[b]"] show ?thesis by (simp add: L')
  qed
  have l: "ld_registry_states L' = m" "ld_chain L' = ld_chain L @ [b]" by (simp_all add: L')
  show ?thesis
  proof (cases "as_v2 b")
    case None
    with m(1) have "m = ld_registry_states L" by simp
    with old inv None show ?thesis
      unfolding ledger_inv_def cache_sound_def l by (auto simp: nth_append less_Suc_eq)
  next
    case (Some b2)
    with m(2) obtain s' where s': "m = (ld_registry_states L)(length (ld_chain L) \<mapsto> s')"
      "state_at E L' (length (ld_chain L)) = Inr s'" by auto
    from s'(2) old inv show ?thesis
      unfolding ledger_inv_def cache_sound_def l s'(1) by (auto simp: nth_append less_Suc_eq)
  qed
qed

text \<open>Validation never forgets a cached state.\<close>

lemma check_registry_step_cache:
  assumes "check_registry_step E L i b = Inr (L', ok)"
  shows "dom (ld_registry_states L) \<subseteq> dom (ld_registry_states L')"
proof -
  from assms obtain s r where "state_at E L (i - 1) = Inr s" "registry_root E s = Inr r"
    by (auto simp: check_registry_step_def bindE_Inr_iff)
  with assms show ?thesis
    by (cases "apply_block E L s (AnyV2 b) i") (auto simp: check_registry_step_def reject_Inr split: if_split_asm)
qed

lemma validate_step_cache:
  assumes "validate_step E clock L i = Inr (L', ok)"
  shows "dom (ld_registry_states L) \<subseteq> dom (ld_registry_states L')"
proof (cases "ld_chain L ! i")
  case (AnyV1 b)
  with assms show ?thesis by (auto simp: validate_step_def Let_def res_simps split: if_split_asm)
next
  case (AnyV2 b)
  with assms have "check_registry_step E L i b = Inr (L', ok) \<or> L' = L"
    by (auto simp: validate_step_def Let_def res_simps split: if_split_asm)
  then show ?thesis by (auto dest: check_registry_step_cache)
qed

lemma validate_loop_cache:
  "validate_loop E clock L is = Inr (L', ok) \<Longrightarrow> dom (ld_registry_states L) \<subseteq> dom (ld_registry_states L')"
proof (induction "is" arbitrary: L)
  case (Cons i "is")
  then obtain L1 ok1 where step: "validate_step E clock L i = Inr (L1, ok1)"
    and rest: "(if ok1 then validate_loop E clock L1 is else reject L1) = Inr (L', ok)"
    by (auto simp: bindE_Inr_iff)
  note validate_step_cache [OF step]
  with rest Cons.IH [of L1] show ?case by (auto simp: reject_Inr split: if_split_asm)
qed simp

lemma validate_chain_inv:
  assumes "ledger_inv E L" and "validate_chain E clock L = Inr (L', ok)"
  shows "ledger_inv E L'"
proof -
  note inv = assms(1) [unfolded ledger_inv_def]
  from validate_chain_Inr [OF assms(2)] inv have v: "same_but_cache L L'" "cache_sound E L'" by auto
  have "dom (ld_registry_states L) \<subseteq> dom (ld_registry_states L')"
    using assms(2) validate_loop_cache [of E clock L _ L' ok]
    by (auto simp: validate_chain_def reject_Inr bindE_Inr_iff split: list.split_asm if_split_asm)
  then have keep: "ld_registry_states L h \<noteq> None \<Longrightarrow> ld_registry_states L' h \<noteq> None" for h
    by (auto simp: dom_def subset_iff)
  have c: "ld_chain L' = ld_chain L" by (rule chain_same [OF v(1)])
  show ?thesis unfolding ledger_inv_def c using inv v(2) keep by blast
qed

lemma ledger_reachable_inv: "ledger_reachable E L \<Longrightarrow> ledger_inv E L"
  by (induction rule: ledger_reachable.induct) (auto intro: new_ledger_inv add_block_inv validate_chain_inv)

section \<open>The demonstration ledger\<close>

text \<open>A one-block ledger over the demonstration environment, for the witnesses.\<close>

definition demo_identity :: network_identity where
  "demo_identity =
     \<lparr>ni_network_id = GOV_NETWORK_ID, ni_kind = ''test'', ni_genesis_hash = zero_hash,
      ni_genesis_registry_root = zero_hash, ni_governance_keys = [zero_hash], ni_governance_threshold = 1,
      ni_genesis_header_bytes =
        (case header_v2_bytes (steady_header 7) of Inl _ \<Rightarrow> [] | Inr b \<Rightarrow> b),
      ni_genesis_timestamp = 7\<rparr>"

definition demo_ledger :: ledger where
  "demo_ledger =
     \<lparr>ld_chain = [steady_block 7], ld_identity = demo_identity, ld_validator = None,
      ld_governance_keys = [zero_hash], ld_governance_threshold = 1, ld_context = demo_ctx,
      ld_registry_states = [0 \<mapsto> demo_state0]\<rparr>"

lemma wf_steady_header: "0 \<le> ts \<Longrightarrow> ts < 2 ^ 64 \<Longrightarrow> wf_header_v2 (steady_header ts)"
  by (simp add: steady_header_def wf_header_v2_def hex64_zero_hash PROTOCOL_VERSION_def MAX_TARGET_def)

lemma steady_hash:
  assumes "0 \<le> ts" and "ts < 2 ^ 64"
  shows "ab_hash demo_env (steady_block ts) = Inr zero_hash"
proof -
  obtain b where "header_v2_bytes (steady_header ts) = Inr b"
    using header_v2_roundtrip_aux [OF wf_steady_header [OF assms]] by blast
  then show ?thesis
    by (simp add: steady_block_def block_hash_v2_def header_v2_hash_bytes hash_double_hex_def demo_double zero_hash_hex)
qed

lemma demo_genesis_state: "registry_genesis [zero_hash] 1 = Inr demo_state0"
  by (simp add: registry_genesis_def checkE_def demo_state0_def)

lemma demo_identity_simps [simp]:
  "ni_network_id demo_identity = GOV_NETWORK_ID" "ni_governance_keys demo_identity = [zero_hash]"
  "ni_governance_threshold demo_identity = 1" "ni_genesis_registry_root demo_identity = zero_hash"
  by (simp_all add: demo_identity_def)

lemma demo_ledger_init: "initial_state demo_ledger = Inr demo_state0"
  by (simp add: initial_state_def ld_network_id_def demo_ledger_def demo_genesis_state)

lemma demo_genesis_matches: "identity_matches_genesis demo_env demo_identity (as_v2 (steady_block 7)) = Inr True"
proof -
  obtain b where b: "header_v2_bytes (steady_header 7) = Inr b"
    using header_v2_roundtrip_aux [OF wf_steady_header [of 7]] by auto
  then show ?thesis
    using steady_hash [of 7]
    by (simp add: identity_matches_genesis_def guardE_def steady_block_def steady_header_def [symmetric]
        demo_identity_def) (simp add: steady_header_def)
qed

lemma demo_ledger_ok: "new_ledger demo_env None None None None (Some demo_identity) True = Inr demo_ledger"
proof -
  have wf: "wf_header_v2 (steady_header 7)" by (rule wf_steady_header) simp_all
  obtain b where b: "header_v2_bytes (steady_header 7) = Inr b"
    using header_v2_roundtrip_aux [OF wf] by blast
  have g: "genesis_block_for demo_identity = Inr \<lparr>bk_header = steady_header 7, bk_transactions = []\<rparr>"
    by (rule genesis_block_of_bytes [OF wf b]) (simp add: demo_identity_def b)
  note m = demo_genesis_matches
  let ?L = "demo_ledger\<lparr>ld_registry_states := Map.empty\<rparr>"
  have L: "ld_chain ?L = [steady_block 7]" "ld_identity ?L = demo_identity" "ld_governance_keys ?L = [zero_hash]"
    by (simp_all add: demo_ledger_def)
  have init: "initial_state ?L = Inr demo_state0"
    by (simp add: demo_ledger_init)
  have "sort [zero_hash] \<noteq> sort GENESIS_GOVERNANCE_KEYS"
  proof
    assume "sort [zero_hash] = sort GENESIS_GOVERNANCE_KEYS"
    then have "length (sort [zero_hash]) = length (sort GENESIS_GOVERNANCE_KEYS)" by (rule arg_cong)
    then show False by (simp add: GENESIS_GOVERNANCE_KEYS_def)
  qed
  then have id: "validate_genesis_identity demo_env ?L = Inr ()"
    unfolding validate_genesis_identity_def L init
    using m demo_root [OF wf_demo_states(1)]
    by (simp add: steady_block_def checkE_def)
  have "replay_registry_states demo_env ?L = Inr demo_ledger"
    unfolding replay_registry_states_def L init by (simp add: demo_ledger_def)
  with g id show ?thesis
    by (simp add: new_ledger_def choose_identity_def Let_def demo_ctx_ok)
      (simp add: demo_ledger_def steady_block_def)
qed

text \<open>A steady block is valid wherever its time is.\<close>

lemma steady_verify:
  assumes "0 < ts" and "ts < 2 ^ 64"
  shows "verify_block_v2 demo_env \<lparr>bk_header = steady_header ts, bk_transactions = []\<rparr> rt False mp et None = Inr True
    \<longleftrightarrow> pred_option (\<lambda>t. MAX_TARGET = t) et \<and> pred_option (\<lambda>r. ts \<le> r + 7200) rt \<and> pred_option (\<lambda>m. m < ts) mp"
proof -
  obtain b where b: "header_v2_bytes (steady_header ts) = Inr b"
    using header_v2_roundtrip_aux [OF wf_steady_header [of ts]] assms by auto
  have "bindE (header_v2_hash demo_env (steady_header ts)) (\<lambda>x. satisfies_pow x MAX_TARGET) = Inr True"
    using demo.satisfies_pow_hash [of b MAX_TARGET]
    by (simp add: header_v2_hash_bytes b demo_double be_val_zeros MAX_TARGET_def)
  with assms show ?thesis
    unfolding verify_block_v2_True
    by (cases et) (auto simp: block_hash_v2_def steady_header_def transactions_merkle_root_def validate_with_True
        MIN_TARGET_def MAX_TARGET_def)
qed

lemma demo_genesis_valid: "genesis_valid demo_env clock demo_ledger"
proof -
  have "is_genesis_v2 demo_env \<lparr>bk_header = steady_header 7, bk_transactions = []\<rparr> = Inr False"
    using steady_hash [of 7]
    by (simp add: is_genesis_v2_def steady_block_def block_hash_v2_def)
      (simp add: steady_header_def zero_hash_def GENESIS_HASH_def replicate_numeral_eval)
  then have "verify_block_v2 demo_env \<lparr>bk_header = steady_header 7, bk_transactions = []\<rparr> None True None None None
      = verify_block_v2 demo_env \<lparr>bk_header = steady_header 7, bk_transactions = []\<rparr> None False None None None"
    unfolding verify_block_v2_def Let_def by simp
  also have "\<dots> = Inr True" using steady_verify [of 7 None None None] by simp
  finally have v: "verify_any demo_env clock (steady_block 7) True None None None = Inr True"
    by (simp add: steady_block_def)
  show ?thesis using v demo_genesis_matches by (simp add: genesis_valid_def demo_ledger_def)
qed

lemma demo_cache_sound: "cache_sound demo_env demo_ledger"
  using new_ledger_inv [OF demo_ledger_ok] by (simp add: ledger_inv_def)

lemma demo_validate: "\<exists>L'. validate_chain demo_env clock demo_ledger = Inr (L', True)"
  by (rule validate_chain_ok [OF demo_genesis_valid _ demo_cache_sound]) (simp add: demo_ledger_def)

lemma demo_state_at: "state_at demo_env demo_ledger 0 = Inr demo_state0"
  using demo_cache_sound by (simp add: cache_sound_def demo_ledger_def)

lemma demo_median: "median_past_time [steady_block 7] 1 = 7"
  by (simp add: median_past_time_def Let_def slice_def)

lemma demo_add: "\<exists>L'. add_block demo_env 8 demo_ledger (steady_block 8) = Inr (L', True)"
proof -
  have c: "ld_chain demo_ledger = [steady_block 7]" "ld_validator demo_ledger = None" by (simp_all add: demo_ledger_def)
  have t: "expected_target_at [steady_block 7] 1 = Inr MAX_TARGET"
    by (simp add: expected_target_at_def at_res_def DIFFICULTY_RETARGET_INTERVAL_def)
  have v: "verify_block_v2 demo_env \<lparr>bk_header = steady_header 8, bk_transactions = []\<rparr> (Some 8) False (Some 7)
      (Some MAX_TARGET) None = Inr True"
    by (simp add: steady_verify)
  have a: "apply_block demo_env demo_ledger demo_state0 (steady_block 8) 1 = Inr demo_state0"
    by (simp add: apply_block_def apply_transactions_def steady_block_def)
  have h: "bh_prev_hash (steady_header 8) = zero_hash" "bh_target (steady_header 8) = MAX_TARGET"
    "bh_version (steady_header 8) = PROTOCOL_VERSION" "bh_registry_root (steady_header 8) = zero_hash"
    by (simp_all add: steady_header_def)
  show ?thesis
    using v a t demo_state_at demo_median demo_root [OF wf_demo_states(1)] steady_hash [of 7]
    by (simp add: steady_block_def [of 8] add_block_v2_def Let_def c h last_block_def)
qed

section \<open>The properties\<close>

lemma initial_state_reachable:
  assumes "initial_state L = Inr s"
  shows "registry_reachable E ctx s"
proof -
  from assms obtain s0 where s0: "registry_genesis (ld_governance_keys L) (ld_governance_threshold L) = Inr s0"
    "s = with_network_id s0 (if ld_network_id L \<noteq> GOV_NETWORK_ID then ld_network_id L else rs_network_id s0)"
    by (auto simp: initial_state_def bindE_Inr_iff with_network_id_def)
  show ?thesis unfolding s0(2) by (rule registry_reachable.init [OF s0(1)])
qed

lemma apply_transaction_reachable:
  assumes "apply_transaction E nid ctx h s tx = Inr s'" and "registry_reachable E ctx s"
  shows "registry_reachable E ctx s'"
  using assms
  by (auto simp: apply_transaction_def bindE_Inr_iff split: option.split_asm intro: registry_reachable.step)

lemma apply_block_reachable:
  assumes "apply_block E L s b h = Inr s'" and "registry_reachable E (ld_context L) s"
  shows "registry_reachable E (ld_context L) s'"
  using assms(1) unfolding apply_block_def apply_transactions_def
  by (rule foldE_invariant) (auto intro: assms(2) apply_transaction_reachable)

lemma state_at_reachable:
  assumes "state_at E L h = Inr s"
  shows "registry_reachable E (ld_context L) s"
proof -
  from assms obtain s0 where s0: "initial_state L = Inr s0"
    and f: "foldE (\<lambda>st h. apply_block E L st (ld_chain L ! h) h) s0 [1..<Suc h] = Inr s"
    by (auto simp: state_at_def bindE_Inr_iff split: if_splits)
  from f show ?thesis
    by (rule foldE_invariant) (auto intro: initial_state_reachable [OF s0] apply_block_reachable)
qed

text \<open>C6: in every ledger that construction, additions and validations can build, the registry
  cache is the replay of the chain: a cached state is the state replayed from genesis up to
  its height, a state is cached at genesis and at every v2 block, and every such state
  satisfies the invariant of the registry.\<close>

theorem ledger_cache_replay:
  assumes "ledger_reachable E L"
  shows "ld_chain L \<noteq> []
    \<and> (\<forall>h s. registry_state_at L h = Inr s \<longrightarrow> state_at E L h = Inr s \<and> registry_inv s)
    \<and> (\<forall>h < length (ld_chain L). h = 0 \<or> as_v2 (ld_chain L ! h) \<noteq> None
         \<longrightarrow> registry_state_at L h = state_at E L h)"
proof -
  note inv = ledger_reachable_inv [OF assms, unfolded ledger_inv_def]
  have at: "registry_state_at L h = Inr s \<Longrightarrow> state_at E L h = Inr s" for h s
    using inv by (auto simp: registry_state_at_def of_option_Inr_iff intro: cache_soundD)
  then have "registry_state_at L h = Inr s \<Longrightarrow> registry_inv s" for h s
    by (blast intro: registry_reachable_inv state_at_reachable)
  moreover have "registry_state_at L h = state_at E L h"
    if "h < length (ld_chain L)" "h = 0 \<or> as_v2 (ld_chain L ! h) \<noteq> None" for h
    using inv that at [of h] by (cases "ld_registry_states L h") (auto simp: registry_state_at_def)
  ultimately show ?thesis using inv at by blast
qed

theorem ledger_cache_replay_witness: "registry_state_at demo_ledger 0 = state_at demo_env demo_ledger 0"
proof -
  have "0 < length (ld_chain demo_ledger)" by (simp add: demo_ledger_def)
  with ledger_cache_replay [OF ledger_reachable.init [OF demo_ledger_ok]] show ?thesis by blast
qed

text \<open>Adding a block is all or nothing: a refused block leaves the ledger as it was, and an
  accepted one extends the chain by itself, leaves every other field but the registry cache
  and changes no cached state; the configuration never changes.\<close>

theorem add_block_atomic:
  assumes "ledger_reachable E L" and "add_block E now L b = Inr (L', ok)"
  shows "if ok then \<exists>m. L' = L\<lparr>ld_chain := ld_chain L @ [b], ld_registry_states := m\<rparr> \<and> ld_registry_states L \<subseteq>\<^sub>m m
         else L' = L"
proof -
  have len: "length (ld_chain L) \<notin> dom (ld_registry_states L)"
  proof
    assume "length (ld_chain L) \<in> dom (ld_registry_states L)"
    then obtain s where "ld_registry_states L (length (ld_chain L)) = Some s" by auto
    with ledger_reachable_inv [OF assms(1)] have "state_at E L (length (ld_chain L)) = Inr s"
      by (simp add: ledger_inv_def cache_soundD)
    then show False by (simp add: state_at_def)
  qed
  show ?thesis
  proof (cases ok)
    case True
    from add_block_Inr(2) [OF assms(2) True, THEN conjunct2] obtain m where
      L': "L' = L\<lparr>ld_chain := ld_chain L @ [b], ld_registry_states := m\<rparr>"
      and m: "as_v2 b = None \<longrightarrow> m = ld_registry_states L"
        "as_v2 b \<noteq> None \<longrightarrow> (\<exists>s'. m = (ld_registry_states L)(length (ld_chain L) \<mapsto> s')
            \<and> state_at E L' (length (ld_chain L)) = Inr s')" by (elim exE conjE)
    have "ld_registry_states L \<subseteq>\<^sub>m m"
      using m len by (cases "as_v2 b") (auto simp: map_le_def)
    with L' True show ?thesis by auto
  qed (use add_block_Inr(1) [OF assms(2)] in simp)
qed

theorem add_block_atomic_witness:
  "\<exists>L'. add_block demo_env 8 demo_ledger (steady_block 8) = Inr (L', True)
     \<and> ld_chain L' = [steady_block 7, steady_block 8]"
proof -
  obtain L' where L': "add_block demo_env 8 demo_ledger (steady_block 8) = Inr (L', True)" using demo_add by blast
  from add_block_atomic [OF ledger_reachable.init [OF demo_ledger_ok] L'] have "ld_chain L' = [steady_block 7, steady_block 8]"
    by (auto simp: demo_ledger_def)
  with L' show ?thesis by blast
qed

text \<open>A ledger that the code can build and whose validation succeeds at \<open>c\<close>.\<close>

definition chain_valid :: "env \<Rightarrow> int \<Rightarrow> ledger \<Rightarrow> bool" where
  "chain_valid E c L \<longleftrightarrow> ledger_reachable E L \<and> (\<exists>L1. validate_chain E c L = Inr (L1, True))"

lemma add_block_valid_aux:
  assumes "ledger_reachable E L" and "validate_chain E c L = Inr (L1, True)"
    and "add_block E now L b = Inr (L', True)" and "c \<le> clock" and "now \<le> clock"
  shows "\<exists>L2. validate_chain E clock L' = Inr (L2, True)"
proof (rule validate_chain_ok)
  have inv: "ledger_inv E L" "ledger_inv E L'"
    using assms(1,3) by (auto intro: ledger_reachable_inv add_block_inv)
  then show "cache_sound E L'" by (simp add: ledger_inv_def)
  from add_block_Inr(2) [OF assms(3)] obtain m where ne: "ld_chain L \<noteq> []"
    and L': "L' = L\<lparr>ld_chain := ld_chain L @ [b], ld_registry_states := m\<rparr>" by auto
  from validate_chain_Inr [OF assms(2)] inv
  have g: "genesis_valid E c L" and old: "\<And>i. 0 < i \<Longrightarrow> i < length (ld_chain L) \<Longrightarrow> valid_at E c L i"
    by (auto simp: ledger_inv_def)
  from g have "genesis_valid E clock L"
    by (cases "hd (ld_chain L)") (auto simp: genesis_valid_def identity_matches_genesis_def)
  with ne show "genesis_valid E clock L'" by (simp add: genesis_valid_def L')
  show "valid_at E clock L' i" if "0 < i" "i < length (ld_chain L')" for i
  proof (cases "i = length (ld_chain L)")
    case True
    with added_valid [OF assms(3,5)] show ?thesis by simp
  next
    case False
    with that have i: "i < length (ld_chain L)" by (simp add: L')
    from valid_at_later [OF old [OF that(1) i] assms(4)]
    have "valid_at E clock (L\<lparr>ld_chain := ld_chain L @ [b]\<rparr>) i" using valid_at_prefix [OF that(1) i] by simp
    then show ?thesis unfolding L' by simp
  qed
qed

lemma chain_valid_add:
  assumes "chain_valid E c L" and "add_block E now L b = Inr (L', ok)" and "now \<le> c"
  shows "chain_valid E c L'"
proof (cases ok)
  case True
  from assms(1) obtain L1 where r: "ledger_reachable E L" "validate_chain E c L = Inr (L1, True)"
    by (auto simp: chain_valid_def)
  have added: "add_block E now L b = Inr (L', True)" using assms(2) True by simp
  show ?thesis
    unfolding chain_valid_def
    using ledger_reachable.add [OF r(1) added] add_block_valid_aux [OF r added order_refl assms(3)] by blast
next
  case False
  with assms add_block_Inr(1) [OF assms(2)] show ?thesis by simp
qed

text \<open>C2: additions keep a chain valid: if the validation accepts a reachable ledger and a block
  is added, the validation accepts the extended ledger at any later time.\<close>

theorem add_block_keeps_valid:
  assumes "ledger_reachable E L" and "validate_chain E c L = Inr (L1, True)"
    and "add_block E now L b = Inr (L', True)" and "c \<le> clock" and "now \<le> clock"
  shows "\<exists>L2. validate_chain E clock L' = Inr (L2, True)"
  by (rule add_block_valid_aux [OF assms])

theorem add_block_keeps_valid_witness:
  "\<exists>L' L2. add_block demo_env 8 demo_ledger (steady_block 8) = Inr (L', True)
     \<and> validate_chain demo_env 9 L' = Inr (L2, True)"
proof -
  obtain L' L1 where "add_block demo_env 8 demo_ledger (steady_block 8) = Inr (L', True)"
    and "validate_chain demo_env 8 demo_ledger = Inr (L1, True)" using demo_add demo_validate by blast
  with add_block_keeps_valid [OF ledger_reachable.init [OF demo_ledger_ok], of 8 L1 8 "steady_block 8" L' 9]
  show ?thesis by auto
qed

end
