(* ===== verification/Reorg.thy ===== *)
theory Reorg
  imports Ledger_Tip
begin

text \<open>
  \<open>chainbreaker/reorg.py\<close>: the work of a branch, the common ancestor of two chains, the
  validation of a candidate's suffix and the engine that decides whether to switch.  The
  engine keeps its own parser and its own replay, which always use the default network
  name.  The free text of a result's reason is a datatype.
\<close>

section \<open>Work and replay\<close>

definition compute_work :: "int \<Rightarrow> int res" where
  "compute_work target = (if target \<le> 0 then Inl ReorgError else Inr (2 ^ 256 div (target + 1)))"

definition branch_work :: "block_v2 list \<Rightarrow> int res" where
  "branch_work blocks =
     foldE (\<lambda>total b. bindE (compute_work (bh_target (bk_header b))) (\<lambda>w. Inr (total + w))) 0 blocks"

text \<open>\<open>_parse_governance_transaction\<close>: a missing body is the transaction itself.\<close>

definition parse_reorg_transaction :: "json \<Rightarrow> governance_tx option res" where
  "parse_reorg_transaction tx =
     (case tx of
        JDict d \<Rightarrow>
          if dget d ''type'' JNull \<noteq> JStr ''governance'' then Inr None
          else (case dget d ''body'' (JDict d) of
                  JDict b \<Rightarrow> parse_governance_body GOV_NETWORK_ID b
                | _ \<Rightarrow> Inl AttributeError)
      | _ \<Rightarrow> Inr None)"

definition reorg_apply_transaction ::
    "env \<Rightarrow> gov_context \<Rightarrow> nat \<Rightarrow> registry_state \<Rightarrow> json \<Rightarrow> registry_state res" where
  "reorg_apply_transaction E ctx height state tx =
     bindE (parse_reorg_transaction tx) (\<lambda>parsed.
       case parsed of
         None \<Rightarrow> Inr state
       | Some t \<Rightarrow> bindE (canonical_txid E (gov_to_dict t)) (\<lambda>txid.
           apply_registry_transaction E state t (int height) txid ctx))"

definition reorg_apply_transactions ::
    "env \<Rightarrow> registry_state \<Rightarrow> json list \<Rightarrow> nat \<Rightarrow> gov_context \<Rightarrow> registry_state res" where
  "reorg_apply_transactions E state txs height ctx = foldE (reorg_apply_transaction E ctx height) state txs"

section \<open>The common ancestor\<close>

text \<open>The loop from the shorter tip down to genesis.\<close>

primrec common_loop :: "env \<Rightarrow> block_v2 list \<Rightarrow> block_v2 list \<Rightarrow> nat \<Rightarrow> nat res" where
  "common_loop E current candidate 0 =
     bindE (block_hash_v2 E (current ! 0)) (\<lambda>a. bindE (block_hash_v2 E (candidate ! 0)) (\<lambda>b. Inr 0))"
| "common_loop E current candidate (Suc h) =
     bindE (block_hash_v2 E (current ! Suc h)) (\<lambda>a.
     bindE (block_hash_v2 E (candidate ! Suc h)) (\<lambda>b.
       if a = b then Inr (Suc h) else common_loop E current candidate h))"

definition find_common_ancestor :: "env \<Rightarrow> block_v2 list \<Rightarrow> block_v2 list \<Rightarrow> nat res" where
  "find_common_ancestor E current candidate =
     (if current = [] \<or> candidate = [] then Inl ReorgError
      else
        bindE (block_hash_v2 E (current ! 0)) (\<lambda>a.
        bindE (block_hash_v2 E (candidate ! 0)) (\<lambda>b.
          if a \<noteq> b then Inl ReorgError
          else common_loop E current candidate (min (length current) (length candidate) - 1))))"

section \<open>The candidate's suffix\<close>

text \<open>One iteration of \<open>validate_candidate_suffix\<close>: the previous hash, the state and the
  states so far.\<close>

definition suffix_step ::
    "env \<Rightarrow> gov_context \<Rightarrow> nat \<Rightarrow> int list option \<Rightarrow> string option \<times> registry_state \<times> registry_state list
      \<Rightarrow> nat \<times> block_v2 \<Rightarrow> (string option \<times> registry_state \<times> registry_state list) res" where
  "suffix_step E ctx start targets acc ib =
     (case (acc, ib) of ((prev_hash, state, states), (idx, b)) \<Rightarrow>
      let h = bk_header b; absolute_height = start + 1 + idx in
      thenE (checkE (pred_option (\<lambda>p. bh_prev_hash h = p) prev_hash) ReorgError)
     (bindE (block_hash_v2 E b) (\<lambda>hash.
      thenE (checkE (bh_version h = 2) ReorgError)
     (bindE (satisfies_pow hash (bh_target h)) (\<lambda>pow.
      thenE (checkE pow ReorgError)
     (thenE (case targets of None \<Rightarrow> Inr ()
             | Some ts \<Rightarrow> bindE (at_res ts idx) (\<lambda>expected. checkE (bh_target h = expected) ReorgError))
     (bindE (mined_merkle_root E (bk_transactions b)) (\<lambda>merkle_root_hex.
      thenE (checkE (bh_merkle_root h = merkle_root_hex) ReorgError)
     (bindE (registry_root E state) (\<lambda>expected_root.
      thenE (checkE (bh_registry_root h = expected_root) ReorgError)
     (bindE (catchE (reorg_apply_transactions E state (bk_transactions b) absolute_height ctx)
               (\<lambda>e. e = GovernanceError) (Inl ReorgError)) (\<lambda>state'.
        Inr (Some hash, state', states @ [state'])))))))))))))"

definition validate_candidate_suffix ::
    "env \<Rightarrow> registry_state \<Rightarrow> block_v2 list \<Rightarrow> string list \<Rightarrow> int \<Rightarrow> nat \<Rightarrow> int list option \<Rightarrow> registry_state list res" where
  "validate_candidate_suffix E common_state blocks governance_keys governance_threshold start targets =
     bindE (governance_context governance_keys governance_threshold GOV_NETWORK_ID) (\<lambda>ctx.
     bindE (foldE (suffix_step E ctx start targets) (None, common_state, [])
              (zip [0..<length blocks] blocks)) (\<lambda>(_, _, states). Inr states))"

datatype decision = CandidateWins | CurrentWins | Tie

definition compare_work :: "int \<Rightarrow> int \<Rightarrow> decision" where
  "compare_work current_work candidate_work =
     (if candidate_work > current_work then CandidateWins
      else if candidate_work < current_work then CurrentWins else Tie)"

section \<open>The engine\<close>

datatype reorg_reason =
    EmptyCandidate | GenesisMismatch | DepthExceeded int int | ValidationFailed
  | WorkNotGreater int int | HigherWorkAccepted

record reorg_result =
  rr_switched :: bool
  rr_old_tip_height :: int
  rr_old_tip_hash :: string
  rr_new_tip_height :: int
  rr_new_tip_hash :: string
  rr_common_ancestor_height :: int
  rr_disconnect_heights :: "nat list"
  rr_connect_heights :: "nat list"
  rr_reason :: reorg_reason

record reorg_engine =
  re_chain :: "block_v2 list"
  re_governance_keys :: "string list"
  re_governance_threshold :: int
  re_max_reorg_depth :: "int option"
  re_identity :: network_identity

definition infer_network_identity :: "env \<Rightarrow> block_v2 list \<Rightarrow> string list \<Rightarrow> int \<Rightarrow> network_identity res" where
  "infer_network_identity E chain keys threshold =
     (case chain of
        [] \<Rightarrow> Inr alpha_network_identity
      | genesis # _ \<Rightarrow>
          bindE (identity_matches_genesis E alpha_network_identity (Some genesis)) (\<lambda>alpha.
            if alpha then Inr alpha_network_identity
            else derive_test_network_identity E keys threshold 1704067200 10000000))"

definition new_reorg_engine :: "env \<Rightarrow> block_v2 list \<Rightarrow> string list option \<Rightarrow> int option \<Rightarrow> int option
    \<Rightarrow> network_identity option \<Rightarrow> reorg_engine res" where
  "new_reorg_engine E chain governance_keys governance_threshold max_reorg_depth identity =
     (let keys = (case governance_keys of Some (k # ks) \<Rightarrow> k # ks | _ \<Rightarrow> GENESIS_GOVERNANCE_KEYS);
          threshold = (case governance_threshold of Some t \<Rightarrow> t | None \<Rightarrow> GENESIS_THRESHOLD)
      in bindE (case identity of Some i \<Rightarrow> Inr i | None \<Rightarrow> infer_network_identity E chain keys threshold) (\<lambda>ident.
           Inr \<lparr>re_chain = chain, re_governance_keys = keys, re_governance_threshold = threshold,
                re_max_reorg_depth = max_reorg_depth, re_identity = ident\<rparr>))"

definition current_tip_height :: "reorg_engine \<Rightarrow> int" where
  "current_tip_height R = int (length (re_chain R)) - 1"

definition current_tip_hash :: "env \<Rightarrow> reorg_engine \<Rightarrow> string res" where
  "current_tip_hash E R = (if re_chain R = [] then Inl IndexError else block_hash_v2 E (last (re_chain R)))"

definition current_chain_work :: "reorg_engine \<Rightarrow> int res" where
  "current_chain_work R = branch_work (re_chain R)"

definition engine_state_at :: "env \<Rightarrow> reorg_engine \<Rightarrow> nat \<Rightarrow> registry_state res" where
  "engine_state_at E R height =
     (if height \<ge> length (re_chain R) then Inl ReorgError
      else
        bindE (registry_genesis (re_governance_keys R) (re_governance_threshold R)) (\<lambda>s.
        bindE (governance_context (re_governance_keys R) (re_governance_threshold R) GOV_NETWORK_ID) (\<lambda>ctx.
          foldE (\<lambda>st h. reorg_apply_transactions E st (bk_transactions (re_chain R ! h)) h ctx) s [1..<Suc height])))"

text \<open>\<open>_expected_target_at\<close>: up to the current tip the ledger's rule on the current chain
  below the height, beyond it the target of the current tip.\<close>

definition engine_target_at :: "env \<Rightarrow> reorg_engine \<Rightarrow> nat \<Rightarrow> int res" where
  "engine_target_at E R height =
     (if height = 0 then Inr GENESIS_TARGET
      else if height < length (re_chain R) then
        bindE (new_ledger E (Some (map AnyV2 (take height (re_chain R)))) None (Some (re_governance_keys R))
                 (Some (re_governance_threshold R)) (Some (re_identity R)) False) (\<lambda>L.
          expected_target_at (ld_chain L) height)
      else if re_chain R = [] then Inl IndexError
      else Inr (bh_target (bk_header (last (re_chain R)))))"

definition not_switched :: "env \<Rightarrow> reorg_engine \<Rightarrow> int \<Rightarrow> reorg_reason \<Rightarrow> reorg_result res" where
  "not_switched E R common reason =
     bindE (current_tip_hash E R) (\<lambda>tip.
       Inr \<lparr>rr_switched = False, rr_old_tip_height = current_tip_height R, rr_old_tip_hash = tip,
            rr_new_tip_height = current_tip_height R, rr_new_tip_hash = tip,
            rr_common_ancestor_height = common, rr_disconnect_heights = [], rr_connect_heights = [],
            rr_reason = reason\<rparr>)"

text \<open>The part of \<open>evaluate_candidate\<close> after the suffix has been validated.\<close>

definition decide_switch :: "env \<Rightarrow> reorg_engine \<Rightarrow> block_v2 list \<Rightarrow> nat \<Rightarrow> reorg_result res" where
  "decide_switch E R candidate common =
     bindE (branch_work (drop (common + 1) candidate)) (\<lambda>candidate_work.
     bindE (branch_work (drop (common + 1) (re_chain R))) (\<lambda>current_work.
     if compare_work current_work candidate_work \<noteq> CandidateWins
     then not_switched E R (int common) (WorkNotGreater candidate_work current_work)
     else
       bindE (current_tip_hash E R) (\<lambda>tip.
       bindE (block_hash_v2 E (last candidate)) (\<lambda>new_tip.
         Inr \<lparr>rr_switched = True, rr_old_tip_height = current_tip_height R, rr_old_tip_hash = tip,
              rr_new_tip_height = int (length candidate) - 1, rr_new_tip_hash = new_tip,
              rr_common_ancestor_height = int common,
              rr_disconnect_heights = [common + 1..<length (re_chain R)],
              rr_connect_heights = [common + 1..<length candidate],
              rr_reason = HigherWorkAccepted\<rparr>))))"

text \<open>The part after the depth policy; only \<open>ReorgError\<close> is caught.\<close>

definition validate_and_decide :: "env \<Rightarrow> reorg_engine \<Rightarrow> block_v2 list \<Rightarrow> nat \<Rightarrow> reorg_result res" where
  "validate_and_decide E R candidate common =
     (let suffix = drop (common + 1) candidate in
      bindE (engine_state_at E R common) (\<lambda>common_state.
      bindE (mapE (\<lambda>idx. engine_target_at E R (common + 1 + idx)) [0..<length suffix]) (\<lambda>targets.
        (case validate_candidate_suffix E common_state suffix (re_governance_keys R)
                (re_governance_threshold R) common (Some targets) of
           Inl e \<Rightarrow> if e = ReorgError then not_switched E R (int common) ValidationFailed else Inl e
         | Inr _ \<Rightarrow> decide_switch E R candidate common))))"

definition evaluate_candidate :: "env \<Rightarrow> reorg_engine \<Rightarrow> block_v2 list \<Rightarrow> reorg_result res" where
  "evaluate_candidate E R candidate =
     (if candidate = [] then not_switched E R 0 EmptyCandidate
      else
        bindE (block_hash_v2 E (candidate ! 0)) (\<lambda>a.
        bindE (at_res (re_chain R) 0) (\<lambda>genesis.
        bindE (block_hash_v2 E genesis) (\<lambda>b.
        if a \<noteq> b then not_switched E R 0 GenesisMismatch
        else
        bindE (find_common_ancestor E (re_chain R) candidate) (\<lambda>common.
        let depth = int (length (re_chain R)) - 1 - int common in
        case re_max_reorg_depth R of
          Some m \<Rightarrow> if depth > m then not_switched E R (int common) (DepthExceeded depth m)
                    else validate_and_decide E R candidate common
        | None \<Rightarrow> validate_and_decide E R candidate common)))))"

end
