(* ===== verification/Reorg_Props.thy ===== *)
theory Reorg_Props
  imports Reorg
begin

text \<open>
  The fork choice: what the validation of a suffix accepts, block by block; when the engine
  switches; and the link it does not look at.
\<close>

section \<open>The common ancestor\<close>

lemma common_loop_Inr:
  assumes "common_loop E cur cand m = Inr c"
  shows "c \<le> m" and "\<And>h. c < h \<Longrightarrow> h \<le> m \<Longrightarrow> \<exists>x y. block_hash_v2 E (cur ! h) = Inr x \<and> block_hash_v2 E (cand ! h) = Inr y \<and> x \<noteq> y"
    and "0 < c \<Longrightarrow> \<exists>x. block_hash_v2 E (cur ! c) = Inr x \<and> block_hash_v2 E (cand ! c) = Inr x"
  using assms by (induction m) (auto simp: res_simps le_Suc_eq split: if_split_asm)

text \<open>The highest height at which both chains have a block with one hash.\<close>

definition highest_shared :: "env \<Rightarrow> block_v2 list \<Rightarrow> block_v2 list \<Rightarrow> nat \<Rightarrow> bool" where
  "highest_shared E cur cand c =
     (c < length cur \<and> c < length cand
      \<and> (\<exists>x. block_hash_v2 E (cur ! c) = Inr x \<and> block_hash_v2 E (cand ! c) = Inr x)
      \<and> (\<forall>h. c < h \<longrightarrow> h < length cur \<longrightarrow> h < length cand \<longrightarrow> block_hash_v2 E (cur ! h) \<noteq> block_hash_v2 E (cand ! h)))"

lemma find_common_ancestor_Inr:
  assumes "find_common_ancestor E cur cand = Inr c"
  shows "highest_shared E cur cand c"
proof -
  from assms obtain x where ne: "cur \<noteq> []" "cand \<noteq> []"
    and x: "block_hash_v2 E (cur ! 0) = Inr x" "block_hash_v2 E (cand ! 0) = Inr x"
    and loop: "common_loop E cur cand (min (length cur) (length cand) - 1) = Inr c"
    by (auto simp: find_common_ancestor_def res_simps split: if_split_asm)
  note c = common_loop_Inr [OF loop]
  from ne have "0 < length cur" "0 < length cand" by auto
  with c(1) have "c < length cur" "c < length cand" by linarith+
  moreover have "\<exists>x. block_hash_v2 E (cur ! c) = Inr x \<and> block_hash_v2 E (cand ! c) = Inr x"
    using c(3) x by (cases "c = 0") auto
  moreover have "block_hash_v2 E (cur ! h) \<noteq> block_hash_v2 E (cand ! h)"
    if "c < h" "h < length cur" "h < length cand" for h
    using c(2) [of h] that by force
  ultimately show ?thesis by (simp add: highest_shared_def)
qed

section \<open>The suffix\<close>

text \<open>What a suffix has to satisfy at one index, with the states before and after each block;
  the first block's link is not among it.\<close>

definition suffix_at :: "env \<Rightarrow> gov_context \<Rightarrow> nat \<Rightarrow> (nat \<Rightarrow> int) \<Rightarrow> registry_state list \<Rightarrow> block_v2 list \<Rightarrow> nat \<Rightarrow> bool" where
  "suffix_at E ctx start target states blocks j =
     (let b = blocks ! j; h = bk_header b in
      (0 < j \<longrightarrow> block_hash_v2 E (blocks ! (j - 1)) = Inr (bh_prev_hash h))
      \<and> bh_version h = 2 \<and> bindE (block_hash_v2 E b) (\<lambda>x. satisfies_pow x (bh_target h)) = Inr True
      \<and> bh_target h = target j \<and> mined_merkle_root E (bk_transactions b) = Inr (bh_merkle_root h)
      \<and> registry_root E (states ! j) = Inr (bh_registry_root h)
      \<and> reorg_apply_transactions E (states ! j) (bk_transactions b) (start + 1 + j) ctx = Inr (states ! Suc j))"

lemma suffix_step_Inr:
  "suffix_step E ctx start (Some ts) (p, s, ss) (idx, b) = Inr (p', s', ss') \<longleftrightarrow>
     (\<exists>hash. block_hash_v2 E b = Inr hash \<and> p' = Some hash \<and> ss' = ss @ [s']
      \<and> pred_option (\<lambda>q. bh_prev_hash (bk_header b) = q) p \<and> bh_version (bk_header b) = 2
      \<and> satisfies_pow hash (bh_target (bk_header b)) = Inr True
      \<and> idx < length ts \<and> bh_target (bk_header b) = ts ! idx
      \<and> mined_merkle_root E (bk_transactions b) = Inr (bh_merkle_root (bk_header b))
      \<and> registry_root E s = Inr (bh_registry_root (bk_header b))
      \<and> reorg_apply_transactions E s (bk_transactions b) (start + 1 + idx) ctx = Inr s')"
  by (auto simp: suffix_step_def Let_def res_simps at_res_def)

lemma suffix_at_snoc:
  assumes "j < length bs" and "length states = Suc (length bs)"
  shows "suffix_at E ctx start target (states @ [s]) (bs @ [b]) j = suffix_at E ctx start target states bs j"
proof -
  have "(bs @ [b]) ! (j - 1) = bs ! (j - 1)" "(bs @ [b]) ! j = bs ! j"
    "(states @ [s]) ! j = states ! j" "(states @ [s]) ! Suc j = states ! Suc j"
    using assms by (auto simp: nth_append)
  then show ?thesis by (simp only: suffix_at_def Let_def)
qed

text \<open>The hash the loop remembers.\<close>

definition last_hash :: "env \<Rightarrow> block_v2 list \<Rightarrow> string option \<Rightarrow> bool" where
  "last_hash E bs p = (if bs = [] then p = None else \<exists>x. block_hash_v2 E (last bs) = Inr x \<and> p = Some x)"

lemma last_hash_link:
  assumes "last_hash E bs p"
  shows "pred_option (\<lambda>q. r = q) p \<longleftrightarrow> (0 < length bs \<longrightarrow> block_hash_v2 E ((bs @ [b]) ! (length bs - 1)) = Inr r)"
  using assms by (cases "bs = []") (auto simp: last_hash_def nth_append last_conv_nth)

lemma suffix_at_last:
  assumes "length ss = length bs" and "last_hash E bs p"
  shows "suffix_step E ctx start (Some ts) (p, (s0 # ss) ! length bs, ss) (length bs, b) = Inr (p', s', ss') \<longleftrightarrow>
     length bs < length ts \<and> ss' = ss @ [s'] \<and> last_hash E (bs @ [b]) p'
     \<and> suffix_at E ctx start (\<lambda>j. ts ! j) (s0 # ss @ [s']) (bs @ [b]) (length bs)"
proof -
  have n: "(bs @ [b]) ! length bs = b" "(s0 # ss @ [s']) ! length bs = (s0 # ss) ! length bs"
    "(s0 # ss @ [s']) ! Suc (length bs) = s'"
    using assms(1) by (auto simp: nth_append nth_Cons' simp flip: assms(1))
  show ?thesis
    unfolding suffix_step_Inr suffix_at_def Let_def n last_hash_link [OF assms(2), of _ b]
    by (auto simp: bindE_Inr_iff last_hash_def)
qed

lemma suffix_loop_Inr:
  assumes "length bs \<le> length ts"
  shows "foldE (suffix_step E ctx start (Some ts)) (None, s0, []) (zip [0..<length bs] bs) = Inr (p, s, ss) \<longleftrightarrow>
     length ss = length bs \<and> s = (s0 # ss) ! length bs \<and> last_hash E bs p
     \<and> (\<forall>j < length bs. suffix_at E ctx start (\<lambda>j. ts ! j) (s0 # ss) bs j)"
  using assms
proof (induction bs arbitrary: p s ss rule: rev_induct)
  case Nil
  then show ?case by (auto simp: last_hash_def)
next
  case (snoc b bs)
  let ?F = "suffix_step E ctx start (Some ts)" and ?n = "length bs"
  have len: "?n \<le> length ts" using snoc.prems by simp
  have "zip [0..<length (bs @ [b])] (bs @ [b]) = zip [0..<?n] bs @ [(?n, b)]" by simp
  then have split: "foldE ?F (None, s0, []) (zip [0..<length (bs @ [b])] (bs @ [b])) = Inr (p, s, ss) \<longleftrightarrow>
     (\<exists>p1 s1 ss1. foldE ?F (None, s0, []) (zip [0..<?n] bs) = Inr (p1, s1, ss1)
        \<and> ?F (p1, s1, ss1) (?n, b) = Inr (p, s, ss))"
    by (auto simp: foldE_append bindE_Inr_iff)
  show ?case unfolding split snoc.IH [OF len]
  proof (intro iffI; elim exE conjE)
    fix p1 s1 ss1
    assume l: "length ss1 = ?n" and s1: "s1 = (s0 # ss1) ! ?n" and p1: "last_hash E bs p1"
      and old: "\<forall>j < ?n. suffix_at E ctx start (\<lambda>j. ts ! j) (s0 # ss1) bs j"
      and step: "?F (p1, s1, ss1) (?n, b) = Inr (p, s, ss)"
    from step [unfolded s1 suffix_at_last [OF l p1]]
    have new: "ss = ss1 @ [s]" "last_hash E (bs @ [b]) p"
      "suffix_at E ctx start (\<lambda>j. ts ! j) (s0 # ss) (bs @ [b]) ?n" by auto
    have "suffix_at E ctx start (\<lambda>j. ts ! j) (s0 # ss) (bs @ [b]) j" if "j < ?n" for j
      using old that suffix_at_snoc [OF that, of "s0 # ss1"] l by (simp add: new(1))
    with new l show "length ss = length (bs @ [b]) \<and> s = (s0 # ss) ! length (bs @ [b]) \<and> last_hash E (bs @ [b]) p
        \<and> (\<forall>j < length (bs @ [b]). suffix_at E ctx start (\<lambda>j. ts ! j) (s0 # ss) (bs @ [b]) j)"
      by (auto simp: less_Suc_eq nth_append)
  next
    assume l: "length ss = length (bs @ [b])" and s: "s = (s0 # ss) ! length (bs @ [b])"
      and p: "last_hash E (bs @ [b]) p"
      and all: "\<forall>j < length (bs @ [b]). suffix_at E ctx start (\<lambda>j. ts ! j) (s0 # ss) (bs @ [b]) j"
    obtain ss1 where ss: "ss = ss1 @ [s]" "length ss1 = ?n"
      using l s by (cases ss rule: rev_cases) (auto simp: nth_append)
    have "suffix_at E ctx start (\<lambda>j. ts ! j) (s0 # ss1) bs j" if "j < ?n" for j
    proof -
      have "suffix_at E ctx start (\<lambda>j. ts ! j) ((s0 # ss1) @ [s]) (bs @ [b]) j"
        using all that ss(1) by simp
      with suffix_at_snoc [OF that, of "s0 # ss1"] ss(2) show ?thesis by simp
    qed
    then have old: "\<forall>j < ?n. suffix_at E ctx start (\<lambda>j. ts ! j) (s0 # ss1) bs j" by blast
    have last: "suffix_at E ctx start (\<lambda>j. ts ! j) (s0 # ss1 @ [s]) (bs @ [b]) ?n" using all ss(1) by auto
    have "\<exists>p1. last_hash E bs p1"
    proof (cases "bs = []")
      case False
      then have "(bs @ [b]) ! (?n - 1) = last bs" by (simp add: nth_append last_conv_nth)
      with last False show ?thesis by (auto simp: suffix_at_def Let_def last_hash_def)
    qed (simp add: last_hash_def)
    then obtain p1 where p1: "last_hash E bs p1" ..
    have "?F (p1, (s0 # ss1) ! ?n, ss1) (?n, b) = Inr (p, s, ss)"
      unfolding suffix_at_last [OF ss(2) p1] using ss(1) p last snoc.prems by simp
    with old p1 ss(2) show "\<exists>p1 s1 ss1. (length ss1 = ?n \<and> s1 = (s0 # ss1) ! ?n \<and> last_hash E bs p1
        \<and> (\<forall>j < ?n. suffix_at E ctx start (\<lambda>j. ts ! j) (s0 # ss1) bs j)) \<and> ?F (p1, s1, ss1) (?n, b) = Inr (p, s, ss)"
      by blast
  qed
qed

lemma validate_candidate_suffix_Inr:
  assumes "length ts = length bs"
  shows "validate_candidate_suffix E s0 bs keys t start (Some ts) = Inr states \<longleftrightarrow>
    (\<exists>ctx. governance_context keys t GOV_NETWORK_ID = Inr ctx \<and> length states = length bs
      \<and> (\<forall>j < length bs. suffix_at E ctx start (\<lambda>j. ts ! j) (s0 # states) bs j))"
    (is "?l \<longleftrightarrow> ?r")
proof
  assume ?l
  then obtain ctx p s where "governance_context keys t GOV_NETWORK_ID = Inr ctx"
    and "foldE (suffix_step E ctx start (Some ts)) (None, s0, []) (zip [0..<length bs] bs) = Inr (p, s, states)"
    by (auto simp: validate_candidate_suffix_def bindE_Inr_iff)
  with suffix_loop_Inr [of bs ts] assms show ?r by simp
next
  assume ?r
  then obtain ctx where ctx: "governance_context keys t GOV_NETWORK_ID = Inr ctx"
    and l: "length states = length bs" and all: "\<forall>j < length bs. suffix_at E ctx start (\<lambda>j. ts ! j) (s0 # states) bs j"
    by blast
  have "\<exists>p. last_hash E bs p"
  proof (cases "bs = []")
    case False
    then have "suffix_at E ctx start (\<lambda>j. ts ! j) (s0 # states) bs (length bs - 1)" using all by simp
    with False show ?thesis by (auto simp: suffix_at_def Let_def last_hash_def bindE_Inr_iff last_conv_nth)
  qed (simp add: last_hash_def)
  then obtain p where "last_hash E bs p" ..
  with suffix_loop_Inr [of bs ts E ctx start s0 p "(s0 # states) ! length bs" states] l all assms
  have "foldE (suffix_step E ctx start (Some ts)) (None, s0, []) (zip [0..<length bs] bs)
      = Inr (p, (s0 # states) ! length bs, states)" by simp
  with ctx show ?l by (simp add: validate_candidate_suffix_def)
qed

section \<open>The switch\<close>

lemma not_switched_Inr: "not_switched E R c reason = Inr r \<Longrightarrow>
    \<not> rr_switched r \<and> rr_new_tip_hash r = rr_old_tip_hash r \<and> rr_new_tip_height r = rr_old_tip_height r
    \<and> rr_disconnect_heights r = [] \<and> rr_connect_heights r = []"
  by (auto simp: not_switched_def bindE_Inr_iff)

definition heavier :: "block_v2 list \<Rightarrow> block_v2 list \<Rightarrow> bool" where
  "heavier xs ys = (\<exists>u v. branch_work xs = Inr u \<and> branch_work ys = Inr v \<and> v < u)"

lemma decide_switch_Inr:
  assumes "decide_switch E R cand c = Inr r" and "rr_switched r"
  shows "heavier (drop (c + 1) cand) (drop (c + 1) (re_chain R))
    \<and> rr_common_ancestor_height r = int c \<and> rr_new_tip_height r = int (length cand) - 1
    \<and> rr_disconnect_heights r = [c + 1..<length (re_chain R)] \<and> rr_connect_heights r = [c + 1..<length cand]
    \<and> block_hash_v2 E (last cand) = Inr (rr_new_tip_hash r)"
  using assms
  by (auto simp: decide_switch_def heavier_def compare_work_def bindE_Inr_iff dest: not_switched_Inr split: if_split_asm)

lemma evaluate_candidate_switched:
  assumes "evaluate_candidate E R cand = Inr r" and "rr_switched r"
  obtains c where "find_common_ancestor E (re_chain R) cand = Inr c"
    and "pred_option (\<lambda>m. int (length (re_chain R)) - 1 - int c \<le> m) (re_max_reorg_depth R)"
    and "validate_and_decide E R cand c = Inr r"
proof -
  have no: "not_switched E R x y \<noteq> Inr r" for x y using assms(2) by (auto dest: not_switched_Inr)
  obtain c where c: "find_common_ancestor E (re_chain R) cand = Inr c"
    and e: "(case re_max_reorg_depth R of
          Some m \<Rightarrow> if int (length (re_chain R)) - 1 - int c > m
                      then not_switched E R (int c) (DepthExceeded (int (length (re_chain R)) - 1 - int c) m)
                    else validate_and_decide E R cand c
        | None \<Rightarrow> validate_and_decide E R cand c) = Inr r"
    using assms(1) no by (auto simp: evaluate_candidate_def Let_def bindE_Inr_iff split: if_split_asm)
  show thesis
  proof (cases "re_max_reorg_depth R")
    case None
    with that [OF c] e show thesis by simp
  next
    case (Some m)
    with that [OF c] e no show thesis by (simp split: if_split_asm)
  qed
qed

text \<open>C4: the fork choice is sound: when the engine switches, the ancestor is the highest height
  with a shared hash, the disconnected and connected heights are exactly those above it, the
  reorganisation is within the depth policy, the connected blocks carry strictly more work
  than the disconnected ones, and they pass every check of \<open>validate_candidate_suffix\<close>, replayed
  from the state at the ancestor with the expected targets.\<close>

theorem reorg_switch_sound:
  assumes "evaluate_candidate E R cand = Inr r" and "rr_switched r"
  shows "\<exists>c ctx s0 states target. rr_common_ancestor_height r = int c \<and> highest_shared E (re_chain R) cand c
    \<and> rr_disconnect_heights r = [c + 1..<length (re_chain R)] \<and> rr_connect_heights r = [c + 1..<length cand]
    \<and> pred_option (\<lambda>m. int (length (re_chain R)) - 1 - int c \<le> m) (re_max_reorg_depth R)
    \<and> heavier (drop (c + 1) cand) (drop (c + 1) (re_chain R))
    \<and> engine_state_at E R c = Inr s0
    \<and> (\<forall>j. c + 1 + j < length cand \<longrightarrow> engine_target_at E R (c + 1 + j) = Inr (target j)
          \<and> suffix_at E ctx c target (s0 # states) (drop (c + 1) cand) j)"
proof -
  from assms obtain c where c: "find_common_ancestor E (re_chain R) cand = Inr c"
    and depth: "pred_option (\<lambda>m. int (length (re_chain R)) - 1 - int c \<le> m) (re_max_reorg_depth R)"
    and v: "validate_and_decide E R cand c = Inr r"
    by (rule evaluate_candidate_switched)
  let ?suffix = "drop (c + 1) cand"
  from v obtain s0 ts where s0: "engine_state_at E R c = Inr s0"
    and ts: "mapE (\<lambda>idx. engine_target_at E R (c + 1 + idx)) [0..<length ?suffix] = Inr ts"
    and e: "(case validate_candidate_suffix E s0 ?suffix (re_governance_keys R) (re_governance_threshold R) c (Some ts) of
        Inl e \<Rightarrow> if e = ReorgError then not_switched E R (int c) ValidationFailed else Inl e
      | Inr _ \<Rightarrow> decide_switch E R cand c) = Inr r"
    unfolding validate_and_decide_def Let_def bindE_Inr_iff by blast
  obtain states where
    val: "validate_candidate_suffix E s0 ?suffix (re_governance_keys R) (re_governance_threshold R) c (Some ts) = Inr states"
    and d: "decide_switch E R cand c = Inr r"
    using e assms(2)
    by (cases "validate_candidate_suffix E s0 ?suffix (re_governance_keys R) (re_governance_threshold R) c (Some ts)")
      (auto dest: not_switched_Inr split: if_split_asm)
  from ts have len: "length ts = length ?suffix"
    and at: "\<And>j. j < length ?suffix \<Longrightarrow> engine_target_at E R (c + 1 + j) = Inr (ts ! j)"
    by (auto simp: mapE_Inr_iff list_all2_conv_all_nth)
  from val [unfolded validate_candidate_suffix_Inr [OF len]] obtain ctx where
    all: "\<forall>j < length ?suffix. suffix_at E ctx c (\<lambda>j. ts ! j) (s0 # states) ?suffix j" by blast
  have "engine_target_at E R (c + 1 + j) = Inr (ts ! j) \<and> suffix_at E ctx c (\<lambda>j. ts ! j) (s0 # states) ?suffix j"
    if "c + 1 + j < length cand" for j
  proof -
    have "j < length ?suffix" using that by simp
    with at [of j] all show ?thesis by simp
  qed
  with decide_switch_Inr [OF d assms(2)] find_common_ancestor_Inr [OF c] depth s0 show ?thesis by blast
qed

text \<open>A one-block engine over the demonstration environment, for the witnesses.\<close>

definition steady_v2 :: "int \<Rightarrow> string \<Rightarrow> block_v2" where
  "steady_v2 ts prev = \<lparr>bk_header = (steady_header ts)\<lparr>bh_prev_hash := prev\<rparr>, bk_transactions = []\<rparr>"

definition demo_engine :: reorg_engine where
  "demo_engine = \<lparr>re_chain = [steady_v2 7 zero_hash], re_governance_keys = [zero_hash],
     re_governance_threshold = 1, re_max_reorg_depth = None, re_identity = demo_identity\<rparr>"

lemma steady_v2_hash:
  assumes "0 \<le> ts" and "ts < 2 ^ 64" and "hex64 prev"
  shows "block_hash_v2 demo_env (steady_v2 ts prev) = Inr zero_hash"
proof -
  have "wf_header_v2 ((steady_header ts)\<lparr>bh_prev_hash := prev\<rparr>)"
    using wf_steady_header [OF assms(1,2)] assms(3) by (simp add: wf_header_v2_def)
  then obtain b where "header_v2_bytes ((steady_header ts)\<lparr>bh_prev_hash := prev\<rparr>) = Inr b"
    using header_v2_roundtrip_aux by blast
  then show ?thesis
    by (simp add: steady_v2_def block_hash_v2_def header_v2_hash_bytes hash_double_hex_def demo_double zero_hash_hex)
qed

lemma zero_hash_pow: "satisfies_pow zero_hash MAX_TARGET = Inr True"
  using demo.satisfies_pow_hash [of "[]" MAX_TARGET]
  by (simp add: hash_double_hex_def demo_double zero_hash_hex be_val_zeros MAX_TARGET_def)

text \<open>The engine on a chain and one more block: every check but the link to the tip.\<close>

lemma evaluate_extension:
  assumes "re_chain R = chain" and "chain \<noteq> []" and "block_hash_v2 E (last chain) = Inr tip"
    and "block_hash_v2 E (hd chain) = Inr g" and "pred_option (\<lambda>m. 0 \<le> m) (re_max_reorg_depth R)"
    and "governance_context (re_governance_keys R) (re_governance_threshold R) GOV_NETWORK_ID = Inr ctx"
    and "engine_state_at E R (length chain - 1) = Inr s"
    and "block_hash_v2 E b = Inr x" and "satisfies_pow x (bh_target (bk_header b)) = Inr True"
    and "bh_version (bk_header b) = 2" and "bh_target (bk_header b) = bh_target (bk_header (last chain))"
    and "0 < bh_target (bk_header b)" and "bh_target (bk_header b) \<le> MAX_TARGET"
    and "mined_merkle_root E (bk_transactions b) = Inr (bh_merkle_root (bk_header b))"
    and "registry_root E s = Inr (bh_registry_root (bk_header b))"
    and "reorg_apply_transactions E s (bk_transactions b) (length chain) ctx = Inr s'"
  shows "\<exists>r. evaluate_candidate E R (chain @ [b]) = Inr r \<and> rr_switched r \<and> rr_new_tip_hash r = x
    \<and> rr_connect_heights r = [length chain]"
proof -
  let ?c = "length chain - 1"
  have c: "?c + 1 = length chain" "drop (length chain) (chain @ [b]) = [b]" "drop (length chain) chain = []"
    "Suc ?c = length chain"
    using assms(2) by auto
  have at: "(chain @ [b]) ! 0 = chain ! 0" "(chain @ [b]) ! ?c = last chain" "chain ! ?c = last chain"
    "chain ! 0 = hd chain"
    using assms(2) by (auto simp: nth_append last_conv_nth hd_conv_nth)
  have "common_loop E chain (chain @ [b]) ?c = Inr ?c"
    using assms(3,4) at by (cases ?c) auto
  then have anc: "find_common_ancestor E chain (chain @ [b]) = Inr ?c"
    using assms(2,4) at by (simp add: find_common_ancestor_def min_def)
  have target: "engine_target_at E R (length chain) = Inr (bh_target (bk_header b))"
    using assms(1,2,11) by (simp add: engine_target_at_def)
  have suffix: "validate_candidate_suffix E s [b] (re_governance_keys R) (re_governance_threshold R) ?c
      (Some [bh_target (bk_header b)]) = Inr [s']"
    using assms(6-) c(4) by (subst validate_candidate_suffix_Inr) (auto simp: suffix_at_def Let_def)
  have work: "branch_work [b] = Inr (2 ^ 256 div (bh_target (bk_header b) + 1))" "branch_work [] = Inr 0"
    using assms(12) by (simp_all add: branch_work_def compute_work_def)
  have "bh_target (bk_header b) + 1 \<le> 2 ^ 256" using assms(13) by (simp add: MAX_TARGET_def)
  then have pos: "0 < (2 :: int) ^ 256 div (bh_target (bk_header b) + 1)"
    using assms(12) by (simp only: pos_imp_zdiv_pos_iff)
  have decide: "\<exists>r. decide_switch E R (chain @ [b]) ?c = Inr r \<and> rr_switched r \<and> rr_new_tip_hash r = x
    \<and> rr_connect_heights r = [length chain]"
    unfolding decide_switch_def assms(1) c(1-3) work
    using assms(1-3,8) pos by (simp add: compare_work_def current_tip_hash_def c(4))
  have vd: "validate_and_decide E R (chain @ [b]) ?c = decide_switch E R (chain @ [b]) ?c"
    unfolding validate_and_decide_def assms(1) c(1,2) Let_def assms(7)
    using target suffix by simp
  have depth: "int (length chain) - 1 - int ?c = 0" using assms(2) by (cases chain) auto
  have "evaluate_candidate E R (chain @ [b]) = decide_switch E R (chain @ [b]) ?c"
    unfolding evaluate_candidate_def assms(1) Let_def depth
    using assms(2,4,5) anc at vd by (auto simp: at_res_def split: option.split)
  with decide show ?thesis by simp
qed

lemma demo_engine_simps [simp]:
  "re_chain demo_engine = [steady_v2 7 zero_hash]" "re_max_reorg_depth demo_engine = None"
  "re_governance_keys demo_engine = [zero_hash]" "re_governance_threshold demo_engine = 1"
  by (simp_all add: demo_engine_def)

lemma steady_v2_simps [simp]:
  "bh_version (bk_header (steady_v2 ts prev)) = 2" "bh_target (bk_header (steady_v2 ts prev)) = MAX_TARGET"
  "bk_transactions (steady_v2 ts prev) = []" "bh_merkle_root (bk_header (steady_v2 ts prev)) = zero_hash"
  "bh_registry_root (bk_header (steady_v2 ts prev)) = zero_hash" "bh_prev_hash (bk_header (steady_v2 ts prev)) = prev"
  by (simp_all add: steady_v2_def steady_header_def PROTOCOL_VERSION_def)

lemma demo_engine_root: "mined_merkle_root demo_env [] = Inr zero_hash"
  by (simp add: mined_merkle_root_def merkle_tree_root_def merkle_levels_def zero_hash_hex)

lemma demo_engine_state: "engine_state_at demo_env demo_engine 0 = Inr demo_state0"
  by (simp add: engine_state_at_def demo_genesis_state demo_ctx_ok)

lemmas demo_engine_facts = demo_engine_root demo_engine_state demo_ctx_ok demo_root [OF wf_demo_states(1)]
  hex64_zero_hash zero_hash_pow

lemma demo_extension:
  assumes "hex64 prev"
  shows "\<exists>r. evaluate_candidate demo_env demo_engine [steady_v2 7 zero_hash, steady_v2 8 prev] = Inr r
    \<and> rr_switched r \<and> rr_new_tip_hash r = zero_hash \<and> rr_connect_heights r = [1]"
proof -
  let ?b = "steady_v2 8 prev"
  have "0 < MAX_TARGET" by (simp add: MAX_TARGET_def)
  then show ?thesis
    using evaluate_extension [OF demo_engine_simps(1), of demo_env zero_hash zero_hash demo_ctx demo_state0 ?b zero_hash demo_state0]
      steady_v2_hash [of 7 zero_hash] steady_v2_hash [of 8 prev] assms demo_engine_facts
    by (simp add: reorg_apply_transactions_def)
qed

theorem reorg_switch_sound_witness:
  "\<exists>r c. evaluate_candidate demo_env demo_engine [steady_v2 7 zero_hash, steady_v2 8 zero_hash] = Inr r
     \<and> highest_shared demo_env [steady_v2 7 zero_hash] [steady_v2 7 zero_hash, steady_v2 8 zero_hash] c
     \<and> heavier (drop (c + 1) [steady_v2 7 zero_hash, steady_v2 8 zero_hash]) (drop (c + 1) [steady_v2 7 zero_hash])"
proof -
  obtain r where r: "evaluate_candidate demo_env demo_engine [steady_v2 7 zero_hash, steady_v2 8 zero_hash] = Inr r"
    "rr_switched r" using demo_extension [OF hex64_zero_hash] by blast
  note demo_engine_simps(1)
  with reorg_switch_sound [OF r] r(1) show ?thesis by metis
qed

text \<open>The engine does not check the link of a candidate's first new block: a block that passes
  the other checks on top of the current tip makes the engine switch whatever its
  \<open>prev_hash\<close> is, while a ledger with the same chain never adds a block whose
  \<open>prev_hash\<close> is not the hash of the tip.\<close>

theorem reorg_accepts_unlinked:
  assumes "re_chain R \<noteq> []" and "block_hash_v2 E (last (re_chain R)) = Inr tip"
    and "block_hash_v2 E (hd (re_chain R)) = Inr g" and "pred_option (\<lambda>m. 0 \<le> m) (re_max_reorg_depth R)"
    and "governance_context (re_governance_keys R) (re_governance_threshold R) GOV_NETWORK_ID = Inr ctx"
    and "engine_state_at E R (length (re_chain R) - 1) = Inr s"
    and "block_hash_v2 E b = Inr x" and "satisfies_pow x (bh_target (bk_header b)) = Inr True"
    and "bh_version (bk_header b) = 2" and "bh_target (bk_header b) = bh_target (bk_header (last (re_chain R)))"
    and "0 < bh_target (bk_header b)" and "bh_target (bk_header b) \<le> MAX_TARGET"
    and "mined_merkle_root E (bk_transactions b) = Inr (bh_merkle_root (bk_header b))"
    and "registry_root E s = Inr (bh_registry_root (bk_header b))"
    and "reorg_apply_transactions E s (bk_transactions b) (length (re_chain R)) ctx = Inr s'"
    and "bh_prev_hash (bk_header b) \<noteq> tip" and "ld_chain L = map AnyV2 (re_chain R)"
  shows "(\<exists>r. evaluate_candidate E R (re_chain R @ [b]) = Inr r \<and> rr_switched r \<and> rr_new_tip_hash r = x)
    \<and> (\<forall>now L'. add_block_v2 E now L b \<noteq> Inr (L', True))"
proof
  show "\<exists>r. evaluate_candidate E R (re_chain R @ [b]) = Inr r \<and> rr_switched r \<and> rr_new_tip_hash r = x"
    using evaluate_extension [OF refl assms(1-15)] by blast
  show "\<forall>now L'. add_block_v2 E now L b \<noteq> Inr (L', True)"
  proof (intro allI notI)
    fix now L'
    assume "add_block_v2 E now L b = Inr (L', True)"
    from add_block_v2_Inr(2) [OF this] have "ab_hash E (ld_chain L ! (length (ld_chain L) - 1)) = Inr (bh_prev_hash (bk_header b))"
      by (auto simp: Let_def)
    moreover have "ld_chain L ! (length (ld_chain L) - 1) = AnyV2 (last (re_chain R))"
      using assms(1,17) by (simp add: last_conv_nth)
    ultimately show False using assms(2,16) by simp
  qed
qed

theorem reorg_accepts_unlinked_witness:
  "\<exists>r. evaluate_candidate demo_env demo_engine [steady_v2 7 zero_hash, steady_v2 8 (demo_key 9)] = Inr r \<and> rr_switched r
     \<and> (\<forall>now L'. add_block_v2 demo_env now demo_ledger (steady_v2 8 (demo_key 9)) \<noteq> Inr (L', True))"
proof -
  let ?b = "steady_v2 8 (demo_key 9)"
  have L: "ld_chain demo_ledger = map AnyV2 (re_chain demo_engine)"
    by (simp add: demo_ledger_def steady_block_def) (simp add: steady_v2_def steady_header_def)
  have pos: "0 < MAX_TARGET" by (simp add: MAX_TARGET_def)
  have "demo_key 9 \<noteq> zero_hash"
    by (simp add: demo_key_def zero_hash_hex replicate_eq_replicate)
  with reorg_accepts_unlinked [of demo_engine demo_env zero_hash zero_hash demo_ctx demo_state0 ?b zero_hash demo_state0 demo_ledger]
      steady_v2_hash [of 7 zero_hash] steady_v2_hash [of 8 "demo_key 9"] demo_engine_facts L pos
  show ?thesis by (auto simp: reorg_apply_transactions_def)
qed

end
