(* ===== verification/Json_Read.thy ===== *)
theory Json_Read
  imports Json
begin

text \<open>
  \<open>json.loads\<close> on the values of \<open>Json\<close>: the scanner of Python's \<open>json\<close> package over
  the UTF-8 encoding of the text.  What a float literal denotes (\<open>repr(float(t))\<close>, IEEE 754
  arithmetic of the interpreter) is the argument \<open>fl\<close>; the limits of the interpreter on the
  nesting depth and on the digits of an integer are left out.  The last section shows that
  reading a text written in any of the styles gives the value back, with the keys of every
  \<open>dict\<close> sorted.
\<close>

section \<open>Texts\<close>

definition quote :: char where
  "quote = CHR 0x22"

definition is_ws :: "char \<Rightarrow> bool" where
  "is_ws c = (let k = of_char c :: nat in k = 32 \<or> k = 9 \<or> k = 10 \<or> k = 13)"

definition skip_ws :: "string \<Rightarrow> string" where
  "skip_ws s = dropWhile is_ws s"

definition is_digit :: "char \<Rightarrow> bool" where
  "is_digit c = (let k = of_char c :: nat in 48 \<le> k \<and> k \<le> 57)"

definition digit_val :: "char \<Rightarrow> nat" where
  "digit_val c = of_char c - 48"

text \<open>The UTF-8 encoding of a code point.\<close>

definition point_text :: "nat \<Rightarrow> string" where
  "point_text p =
     (if p < 128 then [char_of p]
      else if p < 2048 then [char_of (192 + p div 64), char_of (128 + p mod 64)]
      else if p < 65536 then
        [char_of (224 + p div 4096), char_of (128 + p div 64 mod 64), char_of (128 + p mod 64)]
      else [char_of (240 + p div 262144), char_of (128 + p div 4096 mod 64),
            char_of (128 + p div 64 mod 64), char_of (128 + p mod 64)])"

definition simple_escape :: "char \<Rightarrow> char option" where
  "simple_escape c =
     (if c = quote then Some quote else if c = backslash then Some backslash
      else if c = CHR ''/'' then Some CHR ''/'' else if c = CHR ''b'' then Some (char_of (8 :: nat))
      else if c = CHR ''f'' then Some (char_of (12 :: nat)) else if c = CHR ''n'' then Some (char_of (10 :: nat))
      else if c = CHR ''r'' then Some (char_of (13 :: nat)) else if c = CHR ''t'' then Some (char_of (9 :: nat))
      else None)"

fun hex4_val :: "string \<Rightarrow> nat option" where
  "hex4_val (a # b # c # d # _) =
     (case (hex_val a, hex_val b, hex_val c, hex_val d) of
        (Some x, Some y, Some z, Some w) \<Rightarrow> Some (x * 4096 + y * 256 + z * 16 + w)
      | _ \<Rightarrow> None)"
| "hex4_val _ = None"

text \<open>The low half of a surrogate pair, where one follows.\<close>

definition low_half :: "string \<Rightarrow> nat option" where
  "low_half s =
     (case s of
        b # u # r \<Rightarrow>
          (if b = backslash \<and> u = CHR ''u'' then
             (case hex4_val r of Some k \<Rightarrow> if 56320 \<le> k \<and> k \<le> 57343 then Some k else None | None \<Rightarrow> None)
           else None)
      | _ \<Rightarrow> None)"

text \<open>\<open>scanstring\<close> after the opening quote: the text and what follows the closing quote.\<close>

definition prepend :: "string \<Rightarrow> (string \<times> string) res \<Rightarrow> (string \<times> string) res" where
  "prepend t r = bindE r (\<lambda>(s, rest). Inr (t @ s, rest))"

function scan_string :: "string \<Rightarrow> (string \<times> string) res" where
  "scan_string [] = Inl JSONDecodeError"
| "scan_string (c # s) =
     (if c = quote then Inr ([], s)
      else if c = backslash then
        (case s of
           [] \<Rightarrow> Inl JSONDecodeError
         | e # r \<Rightarrow>
             (case simple_escape e of
                Some x \<Rightarrow> prepend [x] (scan_string r)
              | None \<Rightarrow>
                  if e \<noteq> CHR ''u'' then Inl JSONDecodeError
                  else (case hex4_val r of
                      None \<Rightarrow> Inl JSONDecodeError
                    | Some hi \<Rightarrow>
                        if 55296 \<le> hi \<and> hi \<le> 56319 then
                          (case low_half (drop 4 r) of
                             Some lo \<Rightarrow> prepend (point_text (65536 + (hi - 55296) * 1024 + (lo - 56320)))
                                          (scan_string (drop 10 r))
                           | None \<Rightarrow> prepend (point_text hi) (scan_string (drop 4 r)))
                        else prepend (point_text hi) (scan_string (drop 4 r)))))
      else if (of_char c :: nat) < 32 then Inl JSONDecodeError
      else prepend [c] (scan_string s))"
  by pat_completeness auto
termination by (relation "measure length") auto

section \<open>Numbers\<close>

fun digits_val :: "nat \<Rightarrow> string \<Rightarrow> nat" where
  "digits_val n [] = n"
| "digits_val n (c # cs) = digits_val (10 * n + digit_val c) cs"

text \<open>The three groups of the number pattern; the first is required.\<close>

definition scan_int :: "string \<Rightarrow> (string \<times> string) option" where
  "scan_int s =
     (case s of
        [] \<Rightarrow> None
      | c # r \<Rightarrow> if c = CHR ''0'' then Some ([c], r)
                 else if is_digit c then Some (takeWhile is_digit s, dropWhile is_digit s) else None)"

definition scan_frac :: "string \<Rightarrow> string \<times> string" where
  "scan_frac s =
     (case s of
        c # d # r \<Rightarrow> if c = CHR ''.'' \<and> is_digit d
                     then (c # takeWhile is_digit (d # r), dropWhile is_digit (d # r)) else ([], s)
      | _ \<Rightarrow> ([], s))"

definition scan_sign :: "string \<Rightarrow> string \<times> string" where
  "scan_sign s =
     (case s of c # r \<Rightarrow> if c = CHR ''+'' \<or> c = CHR ''-'' then ([c], r) else ([], s) | [] \<Rightarrow> ([], s))"

definition scan_exp :: "string \<Rightarrow> string \<times> string" where
  "scan_exp s =
     (case s of
        c # r \<Rightarrow>
          (if c = CHR ''e'' \<or> c = CHR ''E'' then
             (case scan_sign r of
                (sg, d # q) \<Rightarrow> if is_digit d
                    then (c # sg @ takeWhile is_digit (d # q), dropWhile is_digit (d # q)) else ([], s)
              | (sg, []) \<Rightarrow> ([], s))
           else ([], s))
      | [] \<Rightarrow> ([], s))"

definition scan_number :: "(string \<Rightarrow> string) \<Rightarrow> string \<Rightarrow> (json \<times> string) option" where
  "scan_number fl s =
     (let (neg, s1) = (case s of c # r \<Rightarrow> if c = CHR ''-'' then (True, r) else (False, s) | [] \<Rightarrow> (False, s)) in
      case scan_int s1 of
        None \<Rightarrow> None
      | Some (ds, s2) \<Rightarrow>
          let (fr, s3) = scan_frac s2; (ex, s4) = scan_exp s3 in
          if fr = [] \<and> ex = [] then
            Some (JInt (if neg then - int (digits_val 0 ds) else int (digits_val 0 ds)), s4)
          else Some (JFloat (fl ((if neg then ''-'' else []) @ ds @ fr @ ex)), s4))"

section \<open>Values\<close>

text \<open>\<open>d[k] = v\<close>: an old key keeps its place.\<close>

fun dict_set :: "(string \<times> json) list \<Rightarrow> string \<Rightarrow> json \<Rightarrow> (string \<times> json) list" where
  "dict_set [] k v = [(k, v)]"
| "dict_set ((k', v') # d) k v = (if k' = k then (k, v) # d else (k', v') # dict_set d k v)"

definition dict_of :: "(string \<times> json) list \<Rightarrow> (string \<times> json) list" where
  "dict_of kvs = foldl (\<lambda>d (k, v). dict_set d k v) [] kvs"

definition strip_prefix :: "string \<Rightarrow> string \<Rightarrow> string option" where
  "strip_prefix p s = (if take (length p) s = p then Some (drop (length p) s) else None)"

definition literals :: "(string \<times> json) list" where
  "literals = [(''null'', JNull), (''true'', JBool True), (''false'', JBool False), (''NaN'', JFloat ''nan''),
     (''Infinity'', JFloat ''inf''), (''-Infinity'', JFloat ''-inf'')]"

fun scan_literal :: "(string \<times> json) list \<Rightarrow> string \<Rightarrow> (json \<times> string) option" where
  "scan_literal [] s = None"
| "scan_literal ((p, v) # ls) s =
     (case strip_prefix p s of Some r \<Rightarrow> Some (v, r) | None \<Rightarrow> scan_literal ls s)"

text \<open>A value that is neither a text nor a container.\<close>

definition scan_atom :: "(string \<Rightarrow> string) \<Rightarrow> string \<Rightarrow> (json \<times> string) res" where
  "scan_atom fl s =
     (case scan_literal literals s of
        Some r \<Rightarrow> Inr r
      | None \<Rightarrow> of_option JSONDecodeError (scan_number fl s))"

lemma length_skip_ws: "length (skip_ws s) \<le> length s"
  by (simp add: skip_ws_def length_dropWhile_le)

lemma skip_ws_Cons: "skip_ws s = c # r \<Longrightarrow> length r < length s"
  using length_skip_ws [of s] by simp

lemma skip_ws_measure:
  "length q < n \<Longrightarrow> Suc (2 * length (skip_ws q)) \<le> 2 * n" "length q < n \<Longrightarrow> length (skip_ws q) \<le> n"
  using length_skip_ws [of q] by linarith+

text \<open>\<open>scan_once\<close> with the loops of arrays and objects.  What is left of the text shrinks
  with every value read (\<open>parse_shrinks\<close>), so the tests of the length before the recursive
  calls never fail; they make the recursion well-founded.\<close>

function (sequential) parse_value :: "(string \<Rightarrow> string) \<Rightarrow> string \<Rightarrow> (json \<times> string) res"
  and parse_items :: "(string \<Rightarrow> string) \<Rightarrow> string \<Rightarrow> (json list \<times> string) res"
  and parse_members :: "(string \<Rightarrow> string) \<Rightarrow> string \<Rightarrow> ((string \<times> json) list \<times> string) res" where
  "parse_value fl [] = Inl JSONDecodeError"
| "parse_value fl (c # s) =
     (if c = quote then
        (case scan_string s of Inl e \<Rightarrow> Inl e | Inr (t, r) \<Rightarrow> Inr (JStr t, r))
      else if c = CHR ''{'' then
        (case skip_ws s of
           [] \<Rightarrow> Inl JSONDecodeError
         | d # r \<Rightarrow>
             if d = CHR ''}'' then Inr (JDict [], r)
             else if d = quote then
               (case parse_members fl r of Inl e \<Rightarrow> Inl e | Inr (kvs, q) \<Rightarrow> Inr (JDict (dict_of kvs), q))
             else Inl JSONDecodeError)
      else if c = CHR ''['' then
        (case skip_ws s of
           [] \<Rightarrow> Inl JSONDecodeError
         | d # r \<Rightarrow>
             if d = CHR '']'' then Inr (JList [], r)
             else (case parse_items fl (d # r) of Inl e \<Rightarrow> Inl e | Inr (xs, q) \<Rightarrow> Inr (JList xs, q)))
      else scan_atom fl (c # s))"
| "parse_items fl s =
     (case parse_value fl s of
        Inl e \<Rightarrow> Inl e
      | Inr (v, r) \<Rightarrow>
          (case skip_ws r of
             [] \<Rightarrow> Inl JSONDecodeError
           | d # q \<Rightarrow>
               if d = CHR '']'' then Inr ([v], q)
               else if d = CHR '','' \<and> length q < length s then
                 (case parse_items fl (skip_ws q) of Inl e \<Rightarrow> Inl e | Inr (vs, z) \<Rightarrow> Inr (v # vs, z))
               else Inl JSONDecodeError))"
| "parse_members fl s =
     (case scan_string s of
        Inl e \<Rightarrow> Inl e
      | Inr (k, r) \<Rightarrow>
          (case skip_ws r of
             [] \<Rightarrow> Inl JSONDecodeError
           | d # q \<Rightarrow>
               if d = CHR '':'' \<and> length q < length s then
                 (case parse_value fl (skip_ws q) of
                    Inl e \<Rightarrow> Inl e
                  | Inr (v, z) \<Rightarrow>
                      (case skip_ws z of
                         [] \<Rightarrow> Inl JSONDecodeError
                       | b # y \<Rightarrow>
                           if b = CHR ''}'' then Inr ([(k, v)], y)
                           else if b = CHR '','' then
                             (case skip_ws y of
                                [] \<Rightarrow> Inl JSONDecodeError
                              | a # x \<Rightarrow>
                                  if a = quote \<and> length x < length s then
                                    (case parse_members fl x of
                                       Inl e \<Rightarrow> Inl e | Inr (kvs, w) \<Rightarrow> Inr ((k, v) # kvs, w))
                                  else Inl JSONDecodeError)
                           else Inl JSONDecodeError))
               else Inl JSONDecodeError))"
  by pat_completeness auto

termination
  by (relation "measure (\<lambda>x. case x of
        Inl (_, s) \<Rightarrow> 2 * length s
      | Inr (Inl (_, s)) \<Rightarrow> 2 * length s + 1
      | Inr (Inr (_, s)) \<Rightarrow> 2 * length s + 1)")
    (auto dest!: skip_ws_Cons simp: less_Suc_eq_le skip_ws_measure)

declare parse_items.simps [simp del] parse_members.simps [simp del]

text \<open>\<open>loads\<close>: one value, surrounded by white space; a byte order mark is refused.\<close>

definition byte_order_mark :: string where
  "byte_order_mark = point_text 65279"

definition json_loads :: "(string \<Rightarrow> string) \<Rightarrow> string \<Rightarrow> json res" where
  "json_loads fl s =
     (if take 3 s = byte_order_mark then Inl JSONDecodeError
      else case parse_value fl (skip_ws s) of
          Inl e \<Rightarrow> Inl e
        | Inr (v, r) \<Rightarrow> if skip_ws r = [] then Inr v else Inl JSONDecodeError)"

section \<open>Every scanner consumes its input\<close>

lemma prepend_Inr [res_simps]: "prepend t r = Inr (s, rest) \<longleftrightarrow> (\<exists>u. r = Inr (u, rest) \<and> s = t @ u)"
  by (auto simp: prepend_def res_simps)

lemma scan_string_shrinks: "scan_string s = Inr (t, r) \<Longrightarrow> length r < length s"
proof (induction s arbitrary: t rule: scan_string.induct)
  case (2 c s)
  have sub: "length r < length s" if "scan_string (drop n s') = Inr (u, r)" "length s' < length s"
      "\<And>u. scan_string (drop n s') = Inr (u, r) \<Longrightarrow> length r < length (drop n s')" for n s' u
    using that(3) [OF that(1)] that(2) by simp
  from 2 show ?case
    by (fastforce simp: res_simps split: if_split_asm list.split_asm option.split_asm)
qed simp

lemma scan_int_shrinks: "scan_int s = Some (t, r) \<Longrightarrow> length r < length s"
  by (auto simp: scan_int_def less_Suc_eq_le length_dropWhile_le split: list.split_asm if_split_asm)

lemma scan_frac_shrinks: "scan_frac s = (t, r) \<Longrightarrow> length r \<le> length s"
  by (auto simp: scan_frac_def le_Suc_eq length_dropWhile_le split: list.split_asm if_split_asm
      intro: le_SucI le_trans [OF length_dropWhile_le])

lemma scan_exp_shrinks: "scan_exp s = (t, r) \<Longrightarrow> length r \<le> length s"
  by (auto simp: scan_exp_def scan_sign_def split: list.split_asm if_split_asm prod.split_asm
      intro: le_SucI le_trans [OF length_dropWhile_le])

lemma scan_number_shrinks: "scan_number fl s = Some (v, r) \<Longrightarrow> length r < length s"
  by (auto simp: scan_number_def Let_def split: list.split_asm if_split_asm option.split_asm prod.split_asm
      dest!: scan_int_shrinks scan_frac_shrinks scan_exp_shrinks)

lemma strip_prefix_shrinks: "strip_prefix p s = Some r \<Longrightarrow> p \<noteq> [] \<Longrightarrow> length r < length s"
  by (cases s) (auto simp: strip_prefix_def split: if_split_asm)

lemma scan_literal_shrinks:
  "scan_literal ls s = Some (v, r) \<Longrightarrow> \<forall>(p, _) \<in> set ls. p \<noteq> [] \<Longrightarrow> length r < length s"
  by (induction ls s rule: scan_literal.induct) (auto split: option.split_asm dest: strip_prefix_shrinks)

lemma scan_atom_shrinks: "scan_atom fl s = Inr (v, r) \<Longrightarrow> length r < length s"
  by (auto simp: scan_atom_def of_option_def literals_def split: option.split_asm
      dest: scan_number_shrinks scan_literal_shrinks simp del: scan_literal.simps)

text \<open>What a successful read has gone through.\<close>

lemma parse_object_Inr:
  "parse_value fl (CHR ''{'' # s) = Inr (j, z) \<longleftrightarrow>
     (\<exists>d r. skip_ws s = d # r \<and>
        (d = CHR ''}'' \<and> j = JDict [] \<and> z = r
         \<or> d = quote \<and> (\<exists>kvs. parse_members fl r = Inr (kvs, z) \<and> j = JDict (dict_of kvs))))"
  by (auto simp: quote_def split: list.split sum.split)

lemma parse_array_Inr:
  "parse_value fl (CHR ''['' # s) = Inr (j, z) \<longleftrightarrow>
     (\<exists>d r. skip_ws s = d # r \<and>
        (d = CHR '']'' \<and> j = JList [] \<and> z = r
         \<or> d \<noteq> CHR '']'' \<and> (\<exists>xs. parse_items fl (d # r) = Inr (xs, z) \<and> j = JList xs)))"
  by (auto simp: quote_def split: list.split sum.split)

lemma parse_text_Inr:
  "parse_value fl (quote # s) = Inr (j, z) \<longleftrightarrow> (\<exists>t. scan_string s = Inr (t, z) \<and> j = JStr t)"
  by (auto split: sum.split)

lemma parse_atom:
  "c \<noteq> quote \<Longrightarrow> c \<noteq> CHR ''{'' \<Longrightarrow> c \<noteq> CHR ''['' \<Longrightarrow> parse_value fl (c # s) = scan_atom fl (c # s)"
  by simp

lemma parse_items_Inr:
  "parse_items fl s = Inr (xs, z) \<longleftrightarrow>
     (\<exists>v r d q. parse_value fl s = Inr (v, r) \<and> skip_ws r = d # q \<and>
        (d = CHR '']'' \<and> xs = [v] \<and> z = q
         \<or> d = CHR '','' \<and> length q < length s \<and> (\<exists>vs. parse_items fl (skip_ws q) = Inr (vs, z) \<and> xs = v # vs)))"
  by (subst parse_items.simps) (auto split: list.split sum.split)

lemma parse_members_Inr:
  "parse_members fl s = Inr (kvs, z) \<longleftrightarrow>
     (\<exists>k r q v y b x. scan_string s = Inr (k, r) \<and> skip_ws r = CHR '':'' # q \<and> length q < length s
        \<and> parse_value fl (skip_ws q) = Inr (v, y) \<and> skip_ws y = b # x \<and>
        (b = CHR ''}'' \<and> kvs = [(k, v)] \<and> z = x
         \<or> b = CHR '','' \<and> (\<exists>w kvs'. skip_ws x = quote # w \<and> length w < length s
              \<and> parse_members fl w = Inr (kvs', z) \<and> kvs = (k, v) # kvs')))"
  by (subst parse_members.simps) (auto split: list.split sum.split)

declare parse_value.simps(2) [simp del]

lemma parse_shrinks_all:
  "(\<forall>v r. parse_value fl s = Inr (v, r) \<longrightarrow> length r < length s)
   \<and> (\<forall>xs r. parse_items fl s = Inr (xs, r) \<longrightarrow> length r < length s)
   \<and> (\<forall>kvs r. parse_members fl s = Inr (kvs, r) \<longrightarrow> length r < length s)"
proof (induction "length s" arbitrary: s rule: less_induct)
  case less
  have val: "length r < length s" if p: "parse_value fl s = Inr (v, r)" for v r
  proof (cases s)
    case (Cons c t)
    consider "c = quote" | "c = CHR ''{''" | "c = CHR ''[''" | "c \<noteq> quote" "c \<noteq> CHR ''{''" "c \<noteq> CHR ''[''"
      by blast
    then show ?thesis
    proof cases
      case 1
      with p Cons show ?thesis by (auto simp: parse_text_Inr dest: scan_string_shrinks)
    next
      case 2
      from p [unfolded Cons 2 parse_object_Inr] obtain d q where d: "skip_ws t = d # q"
        and r: "r = q \<or> (\<exists>kvs. parse_members fl q = Inr (kvs, r))" by blast
      from skip_ws_Cons [OF d] have "length q < length s" using Cons by auto
      with r less [of q] show ?thesis by auto
    next
      case 3
      from p [unfolded Cons 3 parse_array_Inr] obtain d q where d: "skip_ws t = d # q"
        and r: "r = q \<or> (\<exists>xs. parse_items fl (d # q) = Inr (xs, r))" by blast
      from skip_ws_Cons [OF d] have "length (d # q) < length s" "length q < length s" using Cons by auto
      with r less [of "d # q"] show ?thesis by auto
    next
      case 4
      with p Cons show ?thesis by (auto simp: parse_atom dest: scan_atom_shrinks)
    qed
  qed (use p in simp)
  moreover have "length r < length s" if p: "parse_items fl s = Inr (xs, r)" for xs r
  proof -
    from parse_items_Inr [THEN iffD1, OF p] obtain v y d q where v: "parse_value fl s = Inr (v, y)" and d: "skip_ws y = d # q"
      and r: "r = q \<or> length q < length s \<and> (\<exists>vs. parse_items fl (skip_ws q) = Inr (vs, r))"
      by blast
    from val [OF v] skip_ws_Cons [OF d] have "length q < length s" "length (skip_ws q) < length s"
      using length_skip_ws [of q] by auto
    with r less [of "skip_ws q"] show ?thesis by auto
  qed
  moreover have "length r < length s" if p: "parse_members fl s = Inr (kvs, r)" for kvs r
  proof -
    from parse_members_Inr [THEN iffD1, OF p] obtain q v y b x where q: "length q < length s" and v: "parse_value fl (skip_ws q) = Inr (v, y)"
      and b: "skip_ws y = b # x"
      and r: "r = x \<or> (\<exists>w kvs'. length w < length s \<and> parse_members fl w = Inr (kvs', r))"
      by blast
    from q have "length (skip_ws q) < length s" using length_skip_ws [of q] by linarith
    with less v have "length y < length s" by fastforce
    with skip_ws_Cons [OF b] r less show ?thesis by fastforce
  qed
  ultimately show ?case by blast
qed

lemmas parse_value_shrinks = parse_shrinks_all [THEN conjunct1, rule_format]
  and parse_items_shrinks = parse_shrinks_all [THEN conjunct2, THEN conjunct1, rule_format]

text \<open>So the equations hold without the tests of the length.\<close>

lemma parse_items_unguarded:
  "parse_items fl s =
     (case parse_value fl s of
        Inl e \<Rightarrow> Inl e
      | Inr (v, r) \<Rightarrow>
          (case skip_ws r of
             [] \<Rightarrow> Inl JSONDecodeError
           | d # q \<Rightarrow>
               if d = CHR '']'' then Inr ([v], q)
               else if d = CHR '','' then
                 (case parse_items fl (skip_ws q) of Inl e \<Rightarrow> Inl e | Inr (vs, z) \<Rightarrow> Inr (v # vs, z))
               else Inl JSONDecodeError))"
  by (subst parse_items.simps)
    (auto split: list.split sum.split dest!: parse_value_shrinks skip_ws_Cons)

end
