(* ===== verification/Json_Round.thy ===== *)
theory Json_Round
  imports Json_Read
begin

text \<open>
  Reading back what \<open>json.dumps\<close> wrote, in every style the code uses: texts (all escapes,
  surrogate pairs), integers of any size, floats whose text the interpreter reads as
  itself, lists and dictionaries.
\<close>

section \<open>Texts\<close>

lemma char_of_eq_iff: "(n :: nat) < 256 \<Longrightarrow> char_of n = c \<longleftrightarrow> n = of_char c"
  by (auto simp: of_char_of)

lemma backslash_char: "backslash = CHR 0x5C"
  by (simp add: backslash_def char_of_eq_iff)

lemma hex4_val_hex4 [simp]: "n < 65536 \<Longrightarrow> hex4_val (hex4 n @ r) = Some n"
proof -
  assume n: "n < 65536"
  have "n = 16 * (n div 16) + n mod 16" by simp
  moreover have "n div 16 = 16 * (n div 256) + n div 16 mod 16"
    using mult_div_mod_eq [of 16 "n div 16", symmetric] by (simp add: div_mult2_eq [symmetric])
  moreover have "n div 256 = 16 * (n div 4096) + n div 256 mod 16"
    using mult_div_mod_eq [of 16 "n div 256", symmetric] by (simp add: div_mult2_eq [symmetric])
  moreover have "n div 4096 mod 16 = n div 4096" using n by simp
  ultimately have "n div 4096 * 4096 + n div 256 mod 16 * 256 + n div 16 mod 16 * 16 + n mod 16 = n"
    by linarith
  then show ?thesis using n by (simp add: hex4_def)
qed

lemma length_hex4 [simp]: "length (hex4 n) = 4"
  by (simp add: hex4_def)

lemma drop_hex4 [simp]: "drop 4 (hex4 n @ r) = r"
  by simp

lemma backslash_neq [simp]: "backslash \<noteq> quote" "quote \<noteq> backslash" "backslash \<noteq> CHR ''u''"
  by (simp_all add: backslash_char quote_def)

lemma simple_escape_simps [simp]:
  "simple_escape quote = Some quote" "simple_escape backslash = Some backslash"
  "simple_escape CHR ''b'' = Some (char_of (8 :: nat))" "simple_escape CHR ''f'' = Some (char_of (12 :: nat))"
  "simple_escape CHR ''n'' = Some (char_of (10 :: nat))" "simple_escape CHR ''r'' = Some (char_of (13 :: nat))"
  "simple_escape CHR ''t'' = Some (char_of (9 :: nat))" "simple_escape CHR ''u'' = None"
  by (simp_all add: simple_escape_def quote_def backslash_char)

lemma char_of_quote: "char_of (34 :: nat) = quote" and char_of_backslash: "char_of (92 :: nat) = backslash"
  by (simp_all add: quote_def backslash_def char_of_eq_iff)

definition scalar :: "nat \<Rightarrow> bool" where
  "scalar p = (p < 1114112 \<and> \<not> (55296 \<le> p \<and> p \<le> 57343))"

declare scan_string.simps(2) [simp del]

lemma scan_escape_u:
  assumes "p < 65536" and "\<not> (55296 \<le> p \<and> p \<le> 57343)"
  shows "scan_string (backslash # CHR ''u'' # hex4 p @ r) = prepend (point_text p) (scan_string r)"
  using assms by (subst scan_string.simps) (auto simp: drop_hex4)

lemma scan_escape_pair:
  assumes "65536 \<le> p" and "p < 1114112"
  shows "scan_string (backslash # CHR ''u'' # hex4 (55296 + (p - 65536) div 1024)
      @ backslash # CHR ''u'' # hex4 (56320 + (p - 65536) mod 1024) @ r) = prepend (point_text p) (scan_string r)"
proof -
  let ?hi = "55296 + (p - 65536) div 1024" and ?lo = "56320 + (p - 65536) mod 1024"
  have hi: "55296 \<le> ?hi" "?hi \<le> 56319" using assms by auto
  have lo: "56320 \<le> ?lo" "?lo \<le> 57343"
    using mod_less_divisor [of 1024 "p - 65536"] by linarith+
  have "low_half (backslash # CHR ''u'' # hex4 ?lo @ r) = Some ?lo"
    using lo by (simp add: low_half_def)
  moreover have "65536 + (?hi - 55296) * 1024 + (?lo - 56320) = p"
    using assms by simp
  moreover have "drop 10 (hex4 ?hi @ backslash # CHR ''u'' # hex4 ?lo @ r) = r" by (simp add: hex4_def)
  ultimately show ?thesis
    using hi by (subst scan_string.simps) (simp add: hex4_val_hex4 [of ?hi])
qed

lemma scan_escape_point:
  assumes "scalar p"
  shows "scan_string (escape_point p @ r) = prepend (point_text p) (scan_string r)"
proof -
  have plain: "scan_string (char_of p # r) = prepend [char_of p] (scan_string r)" if "32 \<le> p" "p \<le> 126" "p \<noteq> 34" "p \<noteq> 92"
    using that by (subst scan_string.simps) (simp add: quote_def backslash_def char_of_eq_iff of_char_of)
  show ?thesis
    using assms scan_escape_u [of p r] scan_escape_pair [of p r] plain
    by (auto simp: escape_point_def scalar_def point_text_def scan_string.simps quote_def [symmetric]
        char_of_quote char_of_backslash)
qed

lemma scan_escapes:
  "list_all scalar ps \<Longrightarrow>
     scan_string (concat (map escape_point ps) @ quote # r) = Inr (concat (map point_text ps), r)"
  by (induction ps) (simp_all add: scan_escape_point scan_string.simps prepend_def)

lemma scan_escape_raw: "scan_string (escape_raw c @ r) = prepend [c] (scan_string r)"
proof -
  have "point_text (of_char c) = [c]" if "(of_char c :: nat) < 128"
    using that by (simp add: point_text_def)
  moreover have "scan_string (c # r) = prepend [c] (scan_string r)"
    if "(of_char c :: nat) \<noteq> 34" "(of_char c :: nat) \<noteq> 92" "\<not> (of_char c :: nat) < 32"
  proof -
    from that have "c \<noteq> quote" "c \<noteq> backslash" by (auto simp: quote_def backslash_def of_char_of)
    with that show ?thesis by (subst scan_string.simps) simp
  qed
  ultimately show ?thesis
    using scan_escape_point [of "of_char c" r] by (auto simp: escape_raw_def Let_def scalar_def)
qed

lemma scan_raw: "scan_string (concat (map escape_raw s) @ quote # r) = Inr (s, r)"
  by (induction s) (simp_all add: scan_escape_raw scan_string.simps prepend_def)

text \<open>The code points of a text encode to the text again, and without surrogates all of them
  are scalar values.\<close>

lemma utf8_cont_Some: "utf8_cont c = Some x \<longleftrightarrow> x < 64 \<and> c = char_of (128 + x)"
proof -
  have "(of_char c :: nat) < 256" by (rule of_char_less)
  then show ?thesis
    by (auto simp: utf8_cont_def Let_def of_char_of)
qed

lemma base64 [simp]: "(y :: nat) < 64 \<Longrightarrow> (a * 64 + y) div 64 = a" "(y :: nat) < 64 \<Longrightarrow> (a * 64 + y) mod 64 = y"
  by simp_all

lemma point_text2: "194 \<le> b \<Longrightarrow> b \<le> 223 \<Longrightarrow> x < 64 \<Longrightarrow>
    point_text ((b - 192) * 64 + x) = [char_of b, char_of (128 + x)]"
  by (subgoal_tac "128 \<le> (b - 192) * 64 + x \<and> (b - 192) * 64 + x < 2048") (simp add: point_text_def, linarith)

lemma point_text3:
  assumes "224 \<le> b" "b \<le> 239" "x < 64" "y < 64" "b = 224 \<longrightarrow> 32 \<le> x"
  shows "point_text ((b - 224) * 4096 + x * 64 + y) = [char_of b, char_of (128 + x), char_of (128 + y)]"
proof -
  let ?p = "(b - 224) * 4096 + x * 64 + y"
  have "2048 \<le> ?p" using assms by (cases "b = 224") auto
  moreover have "?p < 65536" using assms by auto
  moreover have p: "?p = ((b - 224) * 64 + x) * 64 + y" by simp
  have "?p div 64 = (b - 224) * 64 + x" "?p mod 64 = y" unfolding p using assms by (simp_all only: base64)
  moreover have "?p div 4096 = ?p div 64 div 64" by (simp add: div_mult2_eq [symmetric])
  ultimately have "2048 \<le> ?p" "?p < 65536" "?p div 4096 = b - 224" "?p div 64 mod 64 = x" "?p mod 64 = y"
    using assms(3) by simp_all
  then show ?thesis using assms(1) by (simp add: point_text_def)
qed

lemma point_text4:
  assumes "240 \<le> b" "b \<le> 244" "x < 64" "y < 64" "z < 64" "b = 240 \<longrightarrow> 16 \<le> x"
  shows "point_text ((b - 240) * 262144 + x * 4096 + y * 64 + z)
      = [char_of b, char_of (128 + x), char_of (128 + y), char_of (128 + z)]"
proof -
  let ?p = "(b - 240) * 262144 + x * 4096 + y * 64 + z"
  have "65536 \<le> ?p" using assms by (cases "b = 240") auto
  define m where "m = (b - 240) * 64 + x"
  define q where "q = m * 64 + y"
  have p: "?p = q * 64 + z" by (simp add: q_def m_def)
  have "?p div 64 = q" "?p mod 64 = z" unfolding p using assms(5) by simp_all
  moreover have "q div 64 = m" "q mod 64 = y" unfolding q_def using assms(4) by simp_all
  moreover have "m div 64 = b - 240" "m mod 64 = x" unfolding m_def using assms(3) by simp_all
  moreover have "?p div 4096 = ?p div 64 div 64" "?p div 262144 = ?p div 64 div 64 div 64"
    by (simp_all add: div_mult2_eq [symmetric])
  ultimately have "?p div 262144 = b - 240" "?p div 4096 mod 64 = x" "?p div 64 mod 64 = y" "?p mod 64 = z"
    by simp_all
  with \<open>65536 \<le> ?p\<close> show ?thesis using assms(1) by (simp add: point_text_def)
qed

lemma scalar2: "194 \<le> b \<Longrightarrow> b \<le> 223 \<Longrightarrow> x < 64 \<Longrightarrow> scalar ((b - 192) * 64 + x)"
  by (subgoal_tac "(b - 192) * 64 + x < 2048") (simp add: scalar_def, linarith)

lemma scalar3:
  "224 \<le> b \<Longrightarrow> b \<le> 239 \<Longrightarrow> x < 64 \<Longrightarrow> y < 64 \<Longrightarrow> b \<noteq> 237 \<or> x < 32 \<Longrightarrow> scalar ((b - 224) * 4096 + x * 64 + y)"
  by (cases "b < 237"; cases "b = 237") (auto simp: scalar_def)

lemma scalar4:
  "240 \<le> b \<Longrightarrow> b \<le> 244 \<Longrightarrow> x < 64 \<Longrightarrow> y < 64 \<Longrightarrow> z < 64 \<Longrightarrow> b = 240 \<longrightarrow> 16 \<le> x \<Longrightarrow> b = 244 \<longrightarrow> x < 16
     \<Longrightarrow> scalar ((b - 240) * 262144 + x * 4096 + y * 64 + z)"
  by (cases "b = 240"; cases "b = 244") (auto simp: scalar_def)

text \<open>The first code point of a text.\<close>

definition first_point :: "bool \<Rightarrow> string \<Rightarrow> nat list \<Rightarrow> nat \<Rightarrow> string \<Rightarrow> nat list \<Rightarrow> bool" where
  "first_point strict s ps p r qs =
     (s = point_text p @ r \<and> ps = p # qs \<and> text_points strict r = Some qs \<and> length r < length s
      \<and> (strict \<longrightarrow> scalar p))"

lemma text_points_first:
  assumes "text_points strict (c # cs) = Some ps"
  shows "\<exists>p r qs. first_point strict (c # cs) ps p r qs"
proof -
  let ?b = "of_char c :: nat"
  have c: "char_of ?b = c" by simp
  note a = assms [unfolded text_points.simps Let_def]
  consider (one) "?b < 128" | (two) "194 \<le> ?b" "?b \<le> 223" | (three) "224 \<le> ?b" "?b \<le> 239"
    | (four) "240 \<le> ?b" "?b \<le> 244"
    using a by (auto split: if_split_asm)
  then show ?thesis
  proof cases
    case one
    with a show ?thesis
      by (intro exI [of _ ?b] exI [of _ cs]) (auto simp: first_point_def point_text_def scalar_def)
  next
    case two
    with a obtain x r qs where "x < 64" "cs = char_of (128 + x) # r" "text_points strict r = Some qs"
      "ps = ((?b - 192) * 64 + x) # qs"
      by (auto simp: utf8_cont_Some split: list.split_asm option.split_asm)
    with two show ?thesis
      by (intro exI [of _ "(?b - 192) * 64 + x"] exI [of _ r])
        (simp add: first_point_def point_text2 scalar2)
  next
    case three
    with a obtain x y r qs where "x < 64" "y < 64" "cs = char_of (128 + x) # char_of (128 + y) # r"
      "text_points strict r = Some qs" "ps = ((?b - 224) * 4096 + x * 64 + y) # qs"
      "?b = 224 \<longrightarrow> 32 \<le> x" "strict \<longrightarrow> ?b \<noteq> 237 \<or> x < 32"
      by (auto simp: utf8_cont_Some split: list.split_asm option.split_asm if_split_asm)
    with three show ?thesis
      by (intro exI [of _ "(?b - 224) * 4096 + x * 64 + y"] exI [of _ r])
        (simp add: first_point_def point_text3 scalar3)
  next
    case four
    with a obtain x y z r qs where "x < 64" "y < 64" "z < 64"
      "cs = char_of (128 + x) # char_of (128 + y) # char_of (128 + z) # r"
      "text_points strict r = Some qs" "ps = ((?b - 240) * 262144 + x * 4096 + y * 64 + z) # qs"
      "?b = 240 \<longrightarrow> 16 \<le> x" "?b = 244 \<longrightarrow> x < 16"
      by (auto simp: utf8_cont_Some split: list.split_asm option.split_asm if_split_asm)
    with four show ?thesis
      by (intro exI [of _ "(?b - 240) * 262144 + x * 4096 + y * 64 + z"] exI [of _ r])
        (simp add: first_point_def point_text4 scalar4)
  qed
qed

lemma text_points_text:
  "text_points strict s = Some ps \<Longrightarrow> concat (map point_text ps) = s \<and> (strict \<longrightarrow> list_all scalar ps)"
proof (induction s arbitrary: ps rule: length_induct)
  case (1 s)
  show ?case
  proof (cases s)
    case (Cons c cs)
    with "1.prems" text_points_first obtain p r qs where "first_point strict s ps p r qs" by blast
    with "1.IH" [rule_format, of r qs] show ?thesis by (auto simp: first_point_def)
  qed (use "1.prems" in simp)
qed

lemma scan_style_text:
  assumes "utf8_valid s" and "style_text st s = Some t"
  shows "\<exists>u. t = quote # u \<and> scan_string (u @ r) = Inr (s, r)"
proof -
  from assms(1) obtain ps where ps: "text_points True s = Some ps" by (auto simp: utf8_valid_def)
  note pts = text_points_strict [OF ps] text_points_text [OF ps] scan_escapes [of ps r]
  from assms(2) pts show ?thesis
    by (auto simp: style_text_def text_json_def raw_text_def scan_raw quote_def [symmetric] split: if_split_asm)
qed

section \<open>Numbers\<close>

text \<open>What may follow a number.\<close>

definition number_end :: "string \<Rightarrow> bool" where
  "number_end s = (case s of [] \<Rightarrow> True | c # _ \<Rightarrow> \<not> is_digit c \<and> c \<notin> {CHR ''.'', CHR ''e'', CHR ''E''})"

lemma is_digit_char_of [simp]: "(n :: nat) < 10 \<Longrightarrow> is_digit (char_of (48 + n))"
  by (simp add: is_digit_def of_char_of)

lemma digit_val_char_of [simp]: "(n :: nat) < 10 \<Longrightarrow> digit_val (char_of (48 + n)) = n"
  by (simp add: digit_val_def of_char_of)

lemma nat_text_digits: "list_all is_digit (nat_text n)"
  by (induction n rule: nat_text.induct) (subst nat_text.simps, simp)

lemma nat_text_nonempty: "nat_text n \<noteq> []"
  by (subst nat_text.simps) simp

lemma digits_val_append: "digits_val m (xs @ ys) = digits_val (digits_val m xs) ys"
  by (induction m xs rule: digits_val.induct) simp_all

lemma digits_val_nat_text: "digits_val 0 (nat_text n) = n"
  by (induction n rule: nat_text.induct) (subst nat_text.simps, simp add: digits_val_append)

lemma nat_text_zero: "nat_text 0 = ''0''"
  by (subst nat_text.simps) (simp add: char_of_eq_iff)

lemma hd_nat_text: "0 < n \<Longrightarrow> hd (nat_text n) \<noteq> CHR ''0''"
proof (induction n rule: nat_text.induct)
  case (1 n)
  then show ?case
    by (subst nat_text.simps) (auto simp: nat_text_nonempty char_of_eq_iff)
qed

lemma scan_int_nat_text:
  assumes "number_end r"
  shows "scan_int (nat_text n @ r) = Some (nat_text n, r)"
proof (cases "n = 0")
  case True
  then show ?thesis by (simp add: nat_text_zero scan_int_def)
next
  case False
  obtain c t where c: "nat_text n = c # t" using nat_text_nonempty [of n] by (cases "nat_text n") auto
  have "takeWhile is_digit r = []" "dropWhile is_digit r = r"
    using assms by (auto simp: number_end_def split: list.splits)
  moreover have "\<forall>x \<in> set (nat_text n). is_digit x" using nat_text_digits [of n] by (simp add: list_all_iff)
  ultimately have "takeWhile is_digit (nat_text n @ r) = nat_text n" "dropWhile is_digit (nat_text n @ r) = r"
    by (simp_all add: takeWhile_append2 dropWhile_append2)
  moreover have "c \<noteq> CHR ''0''" "is_digit c" using hd_nat_text [of n] False nat_text_digits [of n] by (simp_all add: c)
  ultimately show ?thesis by (simp add: scan_int_def c)
qed

lemma scan_end: "number_end r \<Longrightarrow> scan_frac r = ([], r)" "number_end r \<Longrightarrow> scan_exp r = ([], r)"
  by (auto simp: number_end_def scan_frac_def scan_exp_def split: list.splits)

lemma scan_number_int:
  assumes "number_end r"
  shows "scan_number fl (int_text i @ r) = Some (JInt i, r)"
proof -
  obtain c t where c: "nat_text (nat i) = c # t" and d: "is_digit c"
    using nat_text_nonempty [of "nat i"] nat_text_digits [of "nat i"] by (cases "nat_text (nat i)") auto
  then have "c \<noteq> CHR ''-''" by (auto simp: is_digit_def)
  with c d show ?thesis
    using scan_int_nat_text [OF assms, of "nat i"] scan_int_nat_text [OF assms, of "nat (- i)"]
      scan_end [OF assms] digits_val_nat_text [of "nat i"] digits_val_nat_text [of "nat (- i)"]
    by (auto simp: scan_number_def int_text_def)
qed

text \<open>A number followed by something that cannot extend it.\<close>

lemma digits_more:
  assumes "number_end r"
  shows "takeWhile is_digit (s @ r) = takeWhile is_digit s" and "dropWhile is_digit (s @ r) = dropWhile is_digit s @ r"
proof -
  have "takeWhile is_digit r = []" "dropWhile is_digit r = r"
    using assms by (auto simp: number_end_def split: list.splits)
  then show "takeWhile is_digit (s @ r) = takeWhile is_digit s"
    and "dropWhile is_digit (s @ r) = dropWhile is_digit s @ r"
    by (induction s) auto
qed

lemma scan_int_more: "number_end r \<Longrightarrow> scan_int s = Some (t, u) \<Longrightarrow> scan_int (s @ r) = Some (t, u @ r)"
  by (auto simp: scan_int_def digits_more split: list.split_asm if_split_asm)

lemma number_end_not_digit: "number_end (c # r) \<Longrightarrow> \<not> is_digit c \<and> c \<noteq> CHR ''.'' \<and> c \<noteq> CHR ''e'' \<and> c \<noteq> CHR ''E''"
  by (simp add: number_end_def)

lemma scan_frac_more:
  assumes "number_end r" and "scan_frac s = (t, u)"
  shows "scan_frac (s @ r) = (t, u @ r)"
proof (cases s)
  case Nil
  with assms show ?thesis by (simp add: scan_end) (simp add: scan_frac_def)
next
  case (Cons c s')
  with assms show ?thesis
    by (cases s') (auto simp: scan_frac_def digits_more [OF assms(1)] split: list.split if_split_asm
        dest!: number_end_not_digit)
qed

lemma scan_exp_more:
  assumes "number_end r" and "scan_exp s = (t, u)" and "s = [] \<or> t \<noteq> []"
  shows "scan_exp (s @ r) = (t, u @ r)"
proof (cases s)
  case Nil
  with assms show ?thesis by (simp add: scan_end) (simp add: scan_exp_def)
next
  case (Cons c s')
  with assms show ?thesis
    by (cases s') (auto simp: scan_exp_def scan_sign_def digits_more [OF assms(1)]
        split: if_split_asm list.split_asm list.split)
qed

text \<open>A float whose text the interpreter reads as itself.\<close>

definition float_ok :: "(string \<Rightarrow> string) \<Rightarrow> string \<Rightarrow> bool" where
  "float_ok fl f = (f \<in> {''nan'', ''inf'', ''-inf''} \<or> scan_number fl f = Some (JFloat f, []))"

lemma scan_number_more:
  assumes "number_end r" and "scan_number fl s = Some (v, [])"
  shows "scan_number fl (s @ r) = Some (v, r)"
proof -
  have "s \<noteq> []" using assms(2) by (auto simp: scan_number_def scan_int_def)
  then obtain c s' where c: "s = c # s'" by (cases s) auto
  define s1 where "s1 = (if c = CHR ''-'' then s' else s)"
  from assms(2) obtain ds s2 fr s3 ex where i: "scan_int s1 = Some (ds, s2)" and f: "scan_frac s2 = (fr, s3)"
    and e: "scan_exp s3 = (ex, [])"
    by (auto simp: scan_number_def s1_def c Let_def split: if_split_asm option.split_asm prod.split_asm)
  have "s3 = [] \<or> ex \<noteq> []" using e by (auto simp: scan_exp_def split: list.split_asm if_split_asm prod.split_asm)
  note more = scan_int_more [OF assms(1) i] scan_frac_more [OF assms(1) f] scan_exp_more [OF assms(1) e this]
  with assms(2) i f e show ?thesis
    by (auto simp: scan_number_def s1_def c split: if_split_asm)
qed

text \<open>What a number can begin with.\<close>

definition number_start :: "string \<Rightarrow> bool" where
  "number_start s = (case s of [] \<Rightarrow> False
     | c # r \<Rightarrow> is_digit c \<or> c = CHR ''-'' \<and> (case r of [] \<Rightarrow> False | d # _ \<Rightarrow> is_digit d))"

lemma is_digit_zero: "is_digit CHR ''0''"
  by (simp add: is_digit_def)

lemma scan_number_start: "scan_number fl s = Some r \<Longrightarrow> number_start s"
  by (auto simp: scan_number_def number_start_def scan_int_def is_digit_zero
      split: list.split_asm if_split_asm option.split_asm list.split)

lemma number_start_literals: "number_start s \<Longrightarrow> scan_literal literals s = None"
proof -
  assume n: "number_start s"
  then obtain c r where s: "s = c # r" by (auto simp: number_start_def split: list.split_asm)
  have neq: "is_digit d \<Longrightarrow> d \<notin> {CHR ''n'', CHR ''t'', CHR ''f'', CHR ''N'', CHR ''I'', CHR ''-''}" for d
    by (auto simp: is_digit_def)
  show ?thesis
  proof (cases "is_digit c")
    case True
    then show ?thesis using neq [of c] by (simp add: s literals_def strip_prefix_def)
  next
    case False
    with n obtain d q where "c = CHR ''-''" "r = d # q" "is_digit d"
      by (auto simp: s number_start_def split: list.split_asm)
    then show ?thesis using neq [of d] by (simp add: s literals_def strip_prefix_def)
  qed
qed

lemma scan_atom_number: "scan_number fl s = Some r \<Longrightarrow> scan_atom fl s = Inr r"
  by (simp add: scan_atom_def number_start_literals [OF scan_number_start])

lemma parse_number:
  assumes "scan_number fl s = Some r"
  shows "parse_value fl s = Inr r"
proof -
  from scan_number_start [OF assms] obtain c t where s: "s = c # t" and "is_digit c \<or> c = CHR ''-''"
    by (auto simp: number_start_def split: list.split_asm)
  then have "c \<noteq> quote" "c \<noteq> CHR ''{''" "c \<noteq> CHR ''[''" by (auto simp: is_digit_def quote_def)
  with scan_atom_number [OF assms] show ?thesis by (simp add: s parse_atom)
qed

lemma parse_literal:
  "parse_value fl (''null'' @ r) = Inr (JNull, r)" "parse_value fl (''true'' @ r) = Inr (JBool True, r)"
  "parse_value fl (''false'' @ r) = Inr (JBool False, r)" "parse_value fl (''NaN'' @ r) = Inr (JFloat ''nan'', r)"
  "parse_value fl (''Infinity'' @ r) = Inr (JFloat ''inf'', r)"
  "parse_value fl (''-Infinity'' @ r) = Inr (JFloat ''-inf'', r)"
  by (simp_all add: parse_value.simps quote_def scan_atom_def literals_def strip_prefix_def)

lemma parse_float:
  assumes "style_float st f = Some t" and "float_ok fl f" and "number_end r"
  shows "parse_value fl (t @ r) = Inr (JFloat f, r)"
proof (cases "finite_float f")
  case True
  with assms have "t = f" "scan_number fl f = Some (JFloat f, [])"
    by (auto simp: style_float_def float_ok_def finite_float_def)
  with scan_number_more [OF assms(3)] show ?thesis by (auto intro: parse_number)
next
  case False
  with assms show ?thesis
    by (auto simp: style_float_def nan_text_def finite_float_def split: if_split_asm
        simp del: append_Cons intro: parse_literal)
qed

section \<open>Arrays and objects\<close>

text \<open>A value's text read in any context that does not extend a number.\<close>

definition reads :: "(string \<Rightarrow> string) \<Rightarrow> string \<Rightarrow> json \<Rightarrow> bool" where
  "reads fl t v = (t \<noteq> [] \<and> \<not> is_ws (hd t) \<and> hd t \<noteq> CHR '']''
     \<and> (\<forall>r. number_end r \<longrightarrow> parse_value fl (t @ r) = Inr (v, r)))"

definition ws_text :: "string \<Rightarrow> bool" where
  "ws_text w = list_all is_ws w"

lemma skip_ws_text: "ws_text w \<Longrightarrow> skip_ws (w @ s) = skip_ws s"
  by (simp add: skip_ws_def ws_text_def list_all_iff dropWhile_append2)

lemma skip_ws_id: "t \<noteq> [] \<Longrightarrow> \<not> is_ws (hd t) \<Longrightarrow> skip_ws (t @ s) = t @ s"
  by (cases t) (simp_all add: skip_ws_def)

lemma skip_ws_head: "\<not> is_ws c \<Longrightarrow> skip_ws (c # s) = c # s"
  by (simp add: skip_ws_def)

lemma not_ws [simp]: "\<not> is_ws quote" "\<not> is_ws CHR '']''" "\<not> is_ws CHR ''}''" "\<not> is_ws CHR '',''" "\<not> is_ws CHR '':''"
    "\<not> is_ws CHR ''{''" "\<not> is_ws CHR ''[''" "\<not> is_ws CHR ''-''"
  by (simp_all add: is_ws_def quote_def)

lemma number_end_ws: "ws_text w \<Longrightarrow> number_end (c # r) \<Longrightarrow> number_end (w @ c # r)"
  by (cases w) (auto simp: number_end_def ws_text_def is_ws_def is_digit_def Let_def)

lemma number_end_mark [simp]: "number_end (CHR '','' # r)" "number_end (CHR '']'' # r)" "number_end (CHR ''}'' # r)"
  by (simp_all add: number_end_def is_digit_def)

lemma join_Cons: "xs \<noteq> [] \<Longrightarrow> join sep (x # xs) = x @ sep @ join sep xs"
  by (cases xs) simp_all

lemma parse_items_step:
  assumes "parse_value fl s = Inr (v, r)" and "skip_ws r = CHR '','' # q" and "length q < length s"
    and "parse_items fl (skip_ws q) = Inr (vs, z)"
  shows "parse_items fl s = Inr (v # vs, z)"
  using assms by (subst parse_items.simps) simp

lemma parse_items_join:
  assumes "list_all (\<lambda>(t, v). reads fl t v) tvs" and "tvs \<noteq> []" and "ws_text w" and "ws_text w'"
  shows "parse_items fl (join (CHR '','' # w) (map fst tvs) @ w' @ CHR '']'' # r) = Inr (map snd tvs, r)"
  using assms(1,2)
proof (induction tvs)
  case (Cons tv tvs)
  obtain t v where tv: "tv = (t, v)" by fastforce
  with Cons.prems have t: "reads fl t v" by simp
  show ?case
  proof (cases "tvs = []")
    case True
    from t number_end_ws [OF assms(4), of "CHR '']''" r]
    have "parse_value fl (t @ w' @ CHR '']'' # r) = Inr (v, w' @ CHR '']'' # r)" by (simp add: reads_def)
    then show ?thesis
      using skip_ws_text [OF assms(4)] by (subst parse_items.simps) (simp add: True tv skip_ws_head)
  next
    case False
    let ?s = "join (CHR '','' # w) (map fst tvs) @ w' @ CHR '']'' # r"
    have "hd ?s = hd (fst (hd tvs))" "\<not> is_ws (hd (fst (hd tvs)))" "?s \<noteq> []"
      using False Cons.prems by (cases tvs; cases "tl tvs"; auto simp: reads_def)+
    then have s: "skip_ws (w @ ?s) = ?s" using skip_ws_id [of ?s "[]"] by (simp add: skip_ws_text [OF assms(3)])
    have "parse_value fl (t @ CHR '','' # w @ ?s) = Inr (v, CHR '','' # w @ ?s)" using t by (simp add: reads_def)
    from parse_items_step [OF this] skip_ws_head [of "CHR '',''"] s Cons.IH [OF _ False] Cons.prems False
    show ?thesis by (simp add: join_Cons tv)
  qed
qed simp

text \<open>The items of an object: the key's text without its opening quote, the colon, the value.\<close>

definition reads_key :: "string \<Rightarrow> string \<Rightarrow> bool" where
  "reads_key t k = (\<exists>u. t = quote # u \<and> (\<forall>r. scan_string (u @ r) = Inr (k, r)))"

lemma parse_members_step:
  assumes "scan_string s = Inr (k, r)" and "skip_ws r = CHR '':'' # q" and "length q < length s"
    and "parse_value fl (skip_ws q) = Inr (v, y)" and "skip_ws y = CHR '','' # x" and "skip_ws x = quote # w"
    and "length w < length s" and "parse_members fl w = Inr (kvs, z)"
  shows "parse_members fl s = Inr ((k, v) # kvs, z)"
  using assms by (subst parse_members.simps) simp

lemma parse_members_last:
  assumes "scan_string s = Inr (k, r)" and "skip_ws r = CHR '':'' # q" and "length q < length s"
    and "parse_value fl (skip_ws q) = Inr (v, y)" and "skip_ws y = CHR ''}'' # x"
  shows "parse_members fl s = Inr ([(k, v)], x)"
  using assms by (subst parse_members.simps) simp

lemma parse_members_join:
  assumes "list_all (\<lambda>(kt, vt, k, v). reads_key kt k \<and> reads fl vt v) items" and "items \<noteq> []"
    and "ws_text w" and "ws_text w'" and "ws_text w3"
    and "join (CHR '','' # w) (map (\<lambda>(kt, vt, _). kt @ CHR '':'' # w3 @ vt) items) = quote # u"
  shows "parse_members fl (u @ w' @ CHR ''}'' # r) = Inr (map (\<lambda>(_, _, kv). kv) items, r)"
  using assms(1,2,6)
proof (induction items arbitrary: u)
  case (Cons it items)
  obtain kt vt k v where it: "it = (kt, vt, k, v)" by (cases it) auto
  with Cons.prems(1) obtain ku where kt: "kt = quote # ku" and k: "\<And>r. scan_string (ku @ r) = Inr (k, r)"
    and v: "reads fl vt v" by (auto simp: reads_key_def)
  from v have skip: "skip_ws (w3 @ vt @ s) = vt @ s" for s
    by (simp add: skip_ws_text [OF assms(5)] skip_ws_id reads_def)
  show ?case
  proof (cases "items = []")
    case True
    with Cons.prems(3) it kt have u: "u = ku @ CHR '':'' # w3 @ vt" by simp
    have "parse_value fl (vt @ w' @ CHR ''}'' # r) = Inr (v, w' @ CHR ''}'' # r)"
      using v number_end_ws [OF assms(4), of "CHR ''}''" r] by (simp add: reads_def)
    then have "parse_members fl (ku @ CHR '':'' # w3 @ vt @ w' @ CHR ''}'' # r) = Inr ([(k, v)], r)"
      by (intro parse_members_last [where q = "w3 @ vt @ w' @ CHR ''}'' # r" and y = "w' @ CHR ''}'' # r", OF k])
        (simp_all add: skip_ws_head skip skip_ws_text [OF assms(4)])
    then show ?thesis by (simp add: u True it)
  next
    case False
    let ?J = "join (CHR '','' # w) (map (\<lambda>(kt, vt, _). kt @ CHR '':'' # w3 @ vt) items)"
    from False Cons.prems(1) have "\<exists>x. ?J = quote # x"
      by (cases items; cases "tl items"; auto simp: reads_key_def)
    then obtain x where x: "?J = quote # x" ..
    from Cons.prems(3) have "kt @ CHR '':'' # w3 @ vt @ CHR '','' # w @ ?J = quote # u"
      using False by (simp add: join_Cons it)
    then have u: "u = ku @ CHR '':'' # w3 @ vt @ CHR '','' # w @ quote # x" by (simp add: kt x)
    have "parse_value fl (vt @ CHR '','' # s) = Inr (v, CHR '','' # s)" for s using v by (simp add: reads_def)
    then have "parse_members fl (ku @ CHR '':'' # w3 @ vt @ CHR '','' # w @ quote # x @ w' @ CHR ''}'' # r)
        = Inr ((k, v) # map (\<lambda>(_, _, kv). kv) items, r)"
      using Cons.IH [OF _ False x] Cons.prems(1)
      by (intro parse_members_step [where q = "w3 @ vt @ CHR '','' # w @ quote # x @ w' @ CHR ''}'' # r"
            and y = "CHR '','' # w @ quote # x @ w' @ CHR ''}'' # r" and x = "w @ quote # x @ w' @ CHR ''}'' # r"
            and w = "x @ w' @ CHR ''}'' # r", OF k])
        (simp_all add: skip_ws_head skip skip_ws_text [OF assms(3)])
    then show ?thesis by (simp add: u it)
  qed
qed simp

section \<open>Values\<close>

definition style_ok :: "json_style \<Rightarrow> bool" where
  "style_ok st = (take 1 (js_item st) = '','' \<and> ws_text (drop 1 (js_item st))
     \<and> take 1 (js_key st) = '':'' \<and> ws_text (drop 1 (js_key st)))"

lemma styles_ok [simp]:
  "style_ok canonical_style" "style_ok compact_style" "style_ok record_style" "style_ok default_style" "style_ok indent_style"
  by (simp_all add: style_ok_def style_defs ws_text_def is_ws_def)

lemma style_okE:
  assumes "style_ok st"
  obtains w w3 where "js_item st = CHR '','' # w" "ws_text w" "js_key st = CHR '':'' # w3" "ws_text w3"
  using assms by (cases "js_item st"; cases "js_key st") (auto simp: style_ok_def)

lemma ws_line_break: "ws_text (line_break st d)"
  by (auto simp: line_break_def ws_text_def is_ws_def newline_def of_char_of Let_def list_all_iff split: option.split)

lemma ws_text_append: "ws_text (v @ w) \<longleftrightarrow> ws_text v \<and> ws_text w"
  by (simp add: ws_text_def)

text \<open>The values that survive: texts without surrogates, distinct keys, floats that read as
  themselves.\<close>

fun json_wf :: "(string \<Rightarrow> string) \<Rightarrow> json \<Rightarrow> bool" where
  "json_wf fl (JFloat f) = float_ok fl f"
| "json_wf fl (JStr s) = utf8_valid s"
| "json_wf fl (JList xs) = (\<forall>x \<in> set xs. json_wf fl x)"
| "json_wf fl (JDict d) = (distinct (map fst d) \<and> (\<forall>(k, v) \<in> set d. utf8_valid k \<and> json_wf fl v))"
| "json_wf fl _ = True"

fun norm_json :: "json \<Rightarrow> json" where
  "norm_json (JList xs) = JList (map norm_json xs)"
| "norm_json (JDict d) = JDict (map (\<lambda>(k, v). (k, norm_json v)) (sort_key fst d))"
| "norm_json j = j"

lemma set_dict_set: "set (dict_set d k v) \<subseteq> insert (k, v) (set d)"
  by (induction d k v rule: dict_set.induct) auto

lemma keys_dict_set: "fst ` set (dict_set d k v) = insert k (fst ` set d)"
  by (induction d k v rule: dict_set.induct) auto

lemma distinct_dict_set: "distinct (map fst d) \<Longrightarrow> distinct (map fst (dict_set d k v))"
  by (induction d k v rule: dict_set.induct) (auto simp: keys_dict_set)

lemma map_of_dict_set: "map_of (dict_set d k v) = (map_of d)(k \<mapsto> v)"
  by (induction d k v rule: dict_set.induct) auto

lemma dict_set_new: "k \<notin> fst ` set d \<Longrightarrow> dict_set d k v = d @ [(k, v)]"
  by (induction d k v rule: dict_set.induct) auto

lemma dict_of_append:
  "distinct (map fst (d @ kvs)) \<Longrightarrow> foldl (\<lambda>d (k, v). dict_set d k v) d kvs = d @ kvs"
proof (induction kvs arbitrary: d)
  case (Cons kv kvs)
  then show ?case by (cases kv) (simp add: dict_set_new Cons.IH [of "d @ [kv]"] image_iff)
qed simp

lemma dict_of_distinct: "distinct (map fst kvs) \<Longrightarrow> dict_of kvs = kvs"
  using dict_of_append [of "[]" kvs] by (simp add: dict_of_def)

lemma reads_literal:
  "reads fl ''null'' JNull" "reads fl ''true'' (JBool True)" "reads fl ''false'' (JBool False)"
  using parse_literal [simplified] by (simp_all add: reads_def is_ws_def)

lemma number_start_head: "number_start t \<Longrightarrow> t \<noteq> [] \<and> \<not> is_ws (hd t) \<and> hd t \<noteq> CHR '']''"
  by (auto simp: number_start_def is_ws_def is_digit_def Let_def split: list.split_asm)

lemma reads_int: "reads fl (int_text i) (JInt i)"
  using scan_number_int [of "[]" fl i] scan_number_int parse_number
  by (auto simp: reads_def number_end_def dest!: scan_number_start number_start_head intro!: parse_number)

lemma reads_float:
  assumes "style_float st f = Some t" and "float_ok fl f"
  shows "reads fl t (JFloat f)"
proof -
  have "t \<noteq> [] \<and> \<not> is_ws (hd t) \<and> hd t \<noteq> CHR '']''"
  proof (cases "finite_float f")
    case True
    with assms show ?thesis
      by (auto simp: style_float_def float_ok_def finite_float_def dest!: scan_number_start number_start_head)
  next
    case False
    with assms(1) show ?thesis
      by (auto simp: style_float_def nan_text_def is_ws_def split: if_split_asm)
  qed
  with parse_float [OF assms] show ?thesis by (simp add: reads_def)
qed

lemma reads_text:
  assumes "utf8_valid s" and "style_text st s = Some t"
  shows "reads_key t s" and "reads fl t (JStr s)"
proof -
  from scan_style_text [OF assms, of "[]"] obtain u where u: "t = quote # u" by blast
  moreover have "scan_string (u @ r) = Inr (s, r)" for r
    using scan_style_text [OF assms, of r] u by simp
  ultimately show "reads_key t s" and "reads fl t (JStr s)"
    by (auto simp: reads_key_def reads_def parse_text_Inr) (simp add: quote_def)
qed

lemma sort_key_map: "sort_key f (map g xs) = map g (sort_key (f \<circ> g) xs)"
proof -
  have "insort_key f (g x) (map g ys) = map g (insort_key (f \<circ> g) x ys)" for x ys by (induction ys) simp_all
  then show ?thesis by (induction xs) simp_all
qed

lemma jdump_reads:
  assumes "style_ok st"
  shows "json_wf fl j \<Longrightarrow> jdump st d j = Some t \<Longrightarrow> reads fl t (norm_json j)"
proof (induction j arbitrary: d t)
  case (JBool b)
  then show ?case using reads_literal by (cases b) auto
next
  case (JList xs)
  from assms obtain w where w: "js_item st = CHR '','' # w" "ws_text w" by (rule style_okE)
  from JList.prems obtain ts where ts: "jdump_list st (Suc d) xs = Some ts" and t: "t = bracket st d ''['' '']'' ts" by auto
  let ?f = "\<lambda>x. the (jdump st (Suc d) x)" and ?w = "line_break st (Suc d)" and ?w' = "line_break st d"
  note tsx = jdump_list_set [OF ts]
  have x: "reads fl (?f x) (norm_json x)" if "x \<in> set xs" for x
  proof -
    have "jdump st (Suc d) x \<noteq> None" using ts that jdump_None(1,2) [of st "Suc d"] by (metis option.distinct(1))
    then show ?thesis using JList.IH [OF that] JList.prems(1) that by auto
  qed
  show ?case
  proof (cases "xs = []")
    case True
    with t tsx show ?thesis by (auto simp: bracket_def reads_def parse_array_Inr skip_ws_head is_ws_def)
  next
    case False
    have "parse_items fl (join (CHR '','' # w @ ?w) (map ?f xs) @ ?w' @ CHR '']'' # r) = Inr (map norm_json xs, r)" for r
      using parse_items_join [of fl "map (\<lambda>x. (?f x, norm_json x)) xs" "w @ ?w" ?w' r] x False w(2)
      by (simp add: list_all_iff ws_line_break ws_text_append comp_def)
    moreover obtain c u where "join (CHR '','' # w @ ?w) (map ?f xs) = c # u" "\<not> is_ws c" "c \<noteq> CHR '']''"
    proof -
      obtain y ys where "xs = y # ys" using False by (cases xs) auto
      with x [of y] show thesis by (cases "?f y"; cases ys) (auto simp: reads_def intro: that)
    qed
    ultimately show ?thesis using False
      by (auto simp: t tsx bracket_def w(1) reads_def parse_array_Inr skip_ws_text [OF ws_line_break] skip_ws_head is_ws_def)
  qed
next
  case (JDict kvs)
  from assms obtain w w3 where w: "js_item st = CHR '','' # w" "ws_text w" and w3: "js_key st = CHR '':'' # w3" "ws_text w3"
    by (rule style_okE)
  let ?S = "sort_key fst kvs" and ?w = "line_break st (Suc d)" and ?w' = "line_break st d"
  from JDict.prems obtain its where its: "jdump_items st (Suc d) kvs = Some its"
    and t: "t = bracket st d ''{'' ''}'' (map snd (sort_key fst its))" by auto
  have texts: "map snd (sort_key fst its) = map (item_text st (Suc d)) ?S"
    by (simp add: jdump_items_set [OF its] sort_key_map comp_def)
  let ?q = "\<lambda>kv. (the (style_text st (fst kv)), the (jdump st (Suc d) (snd kv)), fst kv, norm_json (snd kv))"
  have kv: "reads_key (the (style_text st (fst kv))) (fst kv)" "reads fl (the (jdump st (Suc d) (snd kv))) (norm_json (snd kv))"
    if "kv \<in> set kvs" for kv
  proof -
    have "style_text st (fst kv) \<noteq> None" "jdump st (Suc d) (snd kv) \<noteq> None"
      using its that jdump_None(1,3) [of st "Suc d"] by (metis option.distinct(1) style_text_None case_prodE snd_conv fst_conv)+
    moreover have "utf8_valid (fst kv)" "json_wf fl (snd kv)" using JDict.prems(1) that by (cases kv; auto)+
    ultimately show "reads_key (the (style_text st (fst kv))) (fst kv)"
      "reads fl (the (jdump st (Suc d) (snd kv))) (norm_json (snd kv))"
      using JDict.IH [OF that, of "snd kv"] reads_text(1) by (auto simp: snds.simps)
  qed
  have dist: "distinct (map fst (map (\<lambda>(k, v). (k, norm_json v)) ?S))"
    using JDict.prems(1) by (simp add: comp_def case_prod_unfold distinct_map)
  show ?case
  proof (cases "kvs = []")
    case True
    with t texts show ?thesis by (auto simp: bracket_def reads_def parse_object_Inr skip_ws_head is_ws_def)
  next
    case False
    then have ne: "?S \<noteq> []" by (metis set_empty set_sort)
    let ?J = "join (CHR '','' # w @ ?w) (map (item_text st (Suc d)) ?S)"
    have item: "item_text st (Suc d) kv = (\<lambda>(kt, vt, _). kt @ CHR '':'' # w3 @ vt) (?q kv)" for kv
      by (simp add: item_text_def w3)
    have fun': "item_text st (Suc d) = (\<lambda>kv. the (style_text st (fst kv)) @ CHR '':'' # w3 @ the (jdump st (Suc d) (snd kv)))"
      by (simp add: fun_eq_iff item_text_def w3)
    obtain u where u: "?J = quote # u"
    proof -
      obtain y ys where y: "?S = y # ys" using ne by (cases ?S) auto
      then have "y \<in> set kvs" by (metis list.set_intros(1) set_sort)
      from kv(1) [OF this] show thesis by (cases ys) (auto simp: y reads_key_def item intro: that)
    qed
    have "parse_members fl (u @ ?w' @ CHR ''}'' # r) = Inr (map (\<lambda>(k, v). (k, norm_json v)) ?S, r)" for r
      using parse_members_join [of fl "map ?q ?S" "w @ ?w" ?w' w3 u r] kv ne w(2) w3(2) u [unfolded fun']
      by (simp add: list_all_iff ws_line_break ws_text_append comp_def case_prod_unfold)
    then show ?thesis
      using False ne dict_of_distinct [OF dist] u
      by (auto simp: t texts bracket_def w(1) reads_def parse_object_Inr skip_ws_text [OF ws_line_break] skip_ws_head)
  qed
qed (auto simp: reads_literal reads_int reads_float reads_text)

text \<open>Reading what was written gives the value back, its keys sorted.\<close>

lemma json_loads_dumps:
  assumes "style_ok st" and "json_wf fl j" and "json_dumps st j = Inr t"
  shows "json_loads fl t = Inr (norm_json j)"
proof -
  from assms(3) have "jdump st 0 j = Some t" by (simp add: json_dumps_def res_simps)
  from jdump_reads [OF assms(1,2) this] have r: "reads fl t (norm_json j)" .
  then have "skip_ws t = t" and p: "parse_value fl t = Inr (norm_json j, [])"
    using skip_ws_id [of t "[]"] by (auto simp: reads_def number_end_def dest: spec [of _ "[]"])
  moreover have "take 3 t \<noteq> byte_order_mark"
  proof
    assume "take 3 t = byte_order_mark"
    then have "hd t = char_of (239 :: nat)"
      by (cases t) (auto simp: byte_order_mark_def point_text_def)
    moreover have "parse_value fl (char_of (239 :: nat) # s) = Inl JSONDecodeError" for s
      by (simp add: parse_value.simps quote_def char_of_eq_iff scan_atom_def literals_def strip_prefix_def
          scan_number_def scan_int_def is_digit_def of_char_of)
    ultimately show False using p r by (cases t) (auto simp: reads_def)
  qed
  ultimately show ?thesis by (simp add: json_loads_def skip_ws_def)
qed

section \<open>Bytes\<close>

text \<open>\<open>json.dumps(\<dots>).encode("utf-8")\<close> and \<open>json.loads(data.decode("utf-8"))\<close>.\<close>

definition dumps_bytes :: "json_style \<Rightarrow> json \<Rightarrow> bytes res" where
  "dumps_bytes st j = bindE (json_dumps st j) encode_utf8"

definition loads_bytes :: "(string \<Rightarrow> string) \<Rightarrow> bytes \<Rightarrow> json res" where
  "loads_bytes fl b = bindE (decode_utf8 b) (json_loads fl)"

lemma loads_dumps_bytes:
  assumes "style_ok st" and "json_wf fl j" and "dumps_bytes st j = Inr b"
  shows "loads_bytes fl b = Inr (norm_json j)"
  using assms json_loads_dumps [OF assms(1,2)]
  by (auto simp: dumps_bytes_def loads_bytes_def res_simps encode_utf8_def decode_utf8_def split: if_split_asm)

definition ascii :: "string \<Rightarrow> bool" where
  "ascii s = list_all (\<lambda>c. (of_char c :: nat) < 128) s"

lemma ascii_valid: "ascii s \<Longrightarrow> utf8_valid s"
  by (simp add: ascii_def utf8_valid_ascii)

lemma ascii_simps [simp]:
  "ascii []" "ascii (c # s) \<longleftrightarrow> (of_char c :: nat) < 128 \<and> ascii s" "ascii (s @ t) \<longleftrightarrow> ascii s \<and> ascii t"
  by (simp_all add: ascii_def)

lemma ascii_hex4: "ascii (hex4 n)"
  by (simp add: hex4_def hex_digit_ascii)

lemma ascii_escape_point: "ascii (escape_point p)"
  by (simp add: escape_point_def backslash_char of_char_of ascii_hex4)

lemma ascii_concat: "(\<And>x. x \<in> set xs \<Longrightarrow> ascii x) \<Longrightarrow> ascii (concat xs)"
  by (induction xs) simp_all

lemma ascii_text_json: "text_json s = Some t \<Longrightarrow> ascii t"
  by (auto simp: text_json_def ascii_escape_point intro!: ascii_concat)

lemma ascii_digits: "list_all is_digit s \<Longrightarrow> ascii s"
  by (induction s) (auto simp: is_digit_def Let_def)

lemma ascii_int_text: "ascii (int_text i)"
  by (simp add: int_text_def ascii_digits nat_text_digits)

lemma ascii_join: "ascii sep \<Longrightarrow> (\<And>x. x \<in> set xs \<Longrightarrow> ascii x) \<Longrightarrow> ascii (join sep xs)"
  by (induction sep xs rule: join.induct) simp_all

lemma ascii_takeWhile_digits: "ascii (takeWhile is_digit s)"
  by (rule ascii_digits) (auto simp: list_all_iff dest: set_takeWhileD)

lemma is_digit_ascii: "is_digit c \<Longrightarrow> (of_char c :: nat) < 128"
  by (simp add: is_digit_def Let_def)

lemma ascii_scan_number: "scan_number fl s = Some (v, r) \<Longrightarrow> ascii r \<Longrightarrow> ascii s"
proof -
  have digits: "ascii (dropWhile is_digit u) \<Longrightarrow> ascii u" for u
    using ascii_takeWhile_digits [of u] takeWhile_dropWhile_id [of is_digit u] by (metis ascii_simps(3))
  have int: "scan_int s = Some (t, r) \<Longrightarrow> ascii r \<Longrightarrow> ascii s" for s t r
    by (auto simp: scan_int_def is_digit_ascii dest: digits split: list.split_asm if_split_asm)
  have frac: "scan_frac s = (t, r) \<Longrightarrow> ascii r \<Longrightarrow> ascii s" for s t r
    by (auto simp: scan_frac_def is_digit_ascii dest: digits split: list.split_asm if_split_asm)
  have exp: "scan_exp s = (t, r) \<Longrightarrow> ascii r \<Longrightarrow> ascii s" for s t r
    by (auto simp: scan_exp_def scan_sign_def is_digit_ascii dest: digits split: list.split_asm if_split_asm)
  show "scan_number fl s = Some (v, r) \<Longrightarrow> ascii r \<Longrightarrow> ascii s"
    by (auto simp: scan_number_def Let_def split: list.split_asm if_split_asm option.split_asm prod.split_asm
        dest!: int frac exp)
qed

lemma ascii_style_float:
  "style_float st f = Some t \<Longrightarrow> float_ok fl f \<Longrightarrow> ascii t"
  by (auto simp: style_float_def float_ok_def finite_float_def nan_text_def split: if_split_asm
      dest: ascii_scan_number)

lemma ascii_ws: "ws_text w \<Longrightarrow> ascii w"
  by (induction w) (auto simp: ws_text_def is_ws_def Let_def)

lemma ascii_bracket:
  assumes "style_ok st" and "ascii op" and "ascii cl" and "\<And>t. t \<in> set ts \<Longrightarrow> ascii t"
  shows "ascii (bracket st d op cl ts)"
  using assms(1)
  by (rule style_okE) (use assms(2-4) in \<open>auto simp: bracket_def ascii_ws ws_line_break intro!: ascii_join\<close>)

lemma ascii_jdump:
  assumes "style_ok st" and "js_ascii st"
  shows "json_wf fl j \<Longrightarrow> jdump st d j = Some t \<Longrightarrow> ascii t"
proof (induction j arbitrary: d t)
  case (JBool b)
  then show ?case by (cases b) auto
next
  case (JList xs)
  then obtain ts where ts: "jdump_list st (Suc d) xs = Some ts" and t: "t = bracket st d ''['' '']'' ts" by auto
  have "ascii (the (jdump st (Suc d) x))" if "x \<in> set xs" for x
  proof -
    have "jdump st (Suc d) x \<noteq> None" using ts that jdump_None(1,2) [of st "Suc d"] by (metis option.distinct(1))
    then show ?thesis using JList.IH [OF that] JList.prems(1) that by auto
  qed
  with jdump_list_set [OF ts] show ?case by (auto simp: t intro!: ascii_bracket [OF assms(1)])
next
  case (JDict kvs)
  then obtain its where its: "jdump_items st (Suc d) kvs = Some its"
    and t: "t = bracket st d ''{'' ''}'' (map snd (sort_key fst its))" by auto
  have colon: "ascii (js_key st)" using assms(1) by (rule style_okE) (simp add: ascii_ws)
  have "ascii (item_text st (Suc d) kv)" if "kv \<in> set kvs" for kv
  proof -
    have "style_text st (fst kv) \<noteq> None" "jdump st (Suc d) (snd kv) \<noteq> None"
      using its that jdump_None(1,3) [of st "Suc d"] by (metis option.distinct(1) style_text_None case_prodE snd_conv fst_conv)+
    moreover have "json_wf fl (snd kv)" using JDict.prems(1) that by (cases kv; auto)
    ultimately show ?thesis
      using JDict.IH [OF that, of "snd kv"] assms(2) colon
      by (auto simp: snds.simps item_text_def style_text_def ascii_text_json)
  qed
  with jdump_items_set [OF its] show ?case by (auto simp: t intro!: ascii_bracket [OF assms(1)])
qed (auto simp: ascii_int_text style_text_def assms(2) ascii_text_json ascii_style_float)

lemma loads_canonical_json:
  assumes "json_wf fl j" and "canonical_json j = Inr b"
  shows "loads_bytes fl b = Inr (norm_json j)"
proof -
  from assms(2) obtain t where t: "json_dumps canonical_style j = Inr t" and b: "b = str_bytes t"
    by (auto simp: canonical_json_def res_simps)
  then have "jdump canonical_style 0 j = Some t" by (simp add: json_dumps_def res_simps)
  moreover have "js_ascii canonical_style" by (simp add: canonical_style_def)
  ultimately have "ascii t" using ascii_jdump [OF styles_ok(1) _ assms(1)] by blast
  then have "utf8_valid t" by (simp add: utf8_valid_ascii ascii_def)
  with json_loads_dumps [OF _ assms(1) t] show ?thesis by (simp add: loads_bytes_def b)
qed

end
