(* ===== verification/Json_Access.thy ===== *)
theory Json_Access
  imports Json_Round Schema
begin

text \<open>
  Python's operations on a parsed JSON value of any shape, as \<open>messages.py\<close>, the storage and
  the witnesses use them: \<open>in\<close>, indexing, \<open>get\<close>, iteration, \<open>int\<close> and \<open>str\<close>.  What the
  interpreter knows and the model does not is the record \<open>runtime\<close>: the \<open>repr\<close> of the float
  a literal denotes, the truncation of a float, decimal digits outside ASCII in \<open>int(text)\<close>,
  and the \<open>repr\<close> of a list or a \<open>dict\<close>.
\<close>

record runtime =
  rt_float :: "string \<Rightarrow> string"
  rt_trunc :: "string \<Rightarrow> int res"
  rt_int :: "string \<Rightarrow> int option"
  rt_repr :: "json \<Rightarrow> string"

definition demo_runtime :: runtime where
  "demo_runtime = \<lparr>rt_float = id, rt_trunc = (\<lambda>_. Inl OverflowError), rt_int = (\<lambda>_. None), rt_repr = (\<lambda>_. [])\<rparr>"

section \<open>Access\<close>

fun substring :: "string \<Rightarrow> string \<Rightarrow> bool" where
  "substring p [] = (p = [])"
| "substring p (c # s) = (take (length p) (c # s) = p \<or> substring p s)"

fun has_key :: "json \<Rightarrow> string \<Rightarrow> bool res" where
  "has_key (JDict d) k = Inr (k \<in> dkeys d)"
| "has_key (JList xs) k = Inr (JStr k \<in> set xs)"
| "has_key (JStr s) k = Inr (substring k s)"
| "has_key _ k = Inl TypeError"

fun jindex :: "json \<Rightarrow> string \<Rightarrow> json res" where
  "jindex (JDict d) k = dindex d k"
| "jindex _ k = Inl TypeError"

fun jget :: "json \<Rightarrow> string \<Rightarrow> json \<Rightarrow> json res" where
  "jget (JDict d) k v = Inr (dget d k v)"
| "jget _ k v = Inl AttributeError"

fun jiter :: "json \<Rightarrow> json list res" where
  "jiter (JList xs) = Inr xs"
| "jiter (JDict d) = Inr (map (\<lambda>kv. JStr (fst kv)) d)"
| "jiter (JStr s) = of_option ValueError (map_option (map (\<lambda>p. JStr (point_text p))) (text_points False s))"
| "jiter _ = Inl TypeError"

fun jitems :: "json \<Rightarrow> (string \<times> json) list res" where
  "jitems (JDict d) = Inr d"
| "jitems _ = Inl AttributeError"

text \<open>\<open>if key not in obj: raise e\<close> for each key.\<close>

definition require_keys :: "py_error \<Rightarrow> json \<Rightarrow> string list \<Rightarrow> unit res" where
  "require_keys e obj ks = forE (\<lambda>k. bindE (has_key obj k) (\<lambda>b. checkE b e)) ks"

section \<open>Conversions\<close>

text \<open>\<open>int(text)\<close>: white space around, a sign, digits with single underscores between.\<close>

definition is_uni_space :: "char \<Rightarrow> bool" where
  "is_uni_space c = (let k = of_char c :: nat in k = 32 \<or> (9 \<le> k \<and> k \<le> 13) \<or> (28 \<le> k \<and> k \<le> 31))"

definition strip_text :: "string \<Rightarrow> string" where
  "strip_text s = rev (dropWhile is_uni_space (rev (dropWhile is_uni_space s)))"

fun plain_digits :: "string \<Rightarrow> string option" where
  "plain_digits [] = None"
| "plain_digits [c] = (if is_digit c then Some [c] else None)"
| "plain_digits (c # d # r) =
     (if \<not> is_digit c then None
      else if d = CHR ''_'' then map_option ((#) c) (plain_digits r)
      else map_option ((#) c) (plain_digits (d # r)))"

definition ascii_int :: "string \<Rightarrow> int option" where
  "ascii_int s =
     (case strip_text s of
        [] \<Rightarrow> None
      | c # r \<Rightarrow>
          if c = CHR ''-'' then map_option (\<lambda>ds. - int (digits_val 0 ds)) (plain_digits r)
          else map_option (\<lambda>ds. int (digits_val 0 ds)) (plain_digits (if c = CHR ''+'' then r else c # r)))"

definition int_of_text :: "runtime \<Rightarrow> string \<Rightarrow> int option" where
  "int_of_text R s = (if ascii s then ascii_int s else rt_int R s)"

fun py_int :: "runtime \<Rightarrow> json \<Rightarrow> int res" where
  "py_int R (JInt i) = Inr i"
| "py_int R (JBool b) = Inr (if b then 1 else 0)"
| "py_int R (JFloat f) = rt_trunc R f"
| "py_int R (JStr s) = of_option ValueError (int_of_text R s)"
| "py_int R _ = Inl TypeError"

fun py_str :: "runtime \<Rightarrow> json \<Rightarrow> string" where
  "py_str R JNull = ''None''"
| "py_str R (JBool b) = (if b then ''True'' else ''False'')"
| "py_str R (JInt i) = int_text i"
| "py_str R (JFloat f) = f"
| "py_str R (JStr s) = s"
| "py_str R j = rt_repr R j"

definition loads :: "runtime \<Rightarrow> bytes \<Rightarrow> json res" where
  "loads R b = loads_bytes (rt_float R) b"

section \<open>Facts\<close>

lemma jindex_Inr [res_simps]: "jindex j k = Inr v \<longleftrightarrow> (\<exists>d. j = JDict d \<and> map_of d k = Some v)"
  by (cases j) (auto simp: res_simps)

lemma jget_Inr [res_simps]: "jget j k v = Inr x \<longleftrightarrow> (\<exists>d. j = JDict d \<and> x = dget d k v)"
  by (cases j) auto

lemma plain_digits_digits: "s \<noteq> [] \<Longrightarrow> list_all is_digit s \<Longrightarrow> plain_digits s = Some s"
  by (induction s rule: plain_digits.induct) (auto simp: is_digit_def)

lemma strip_text_id: "s \<noteq> [] \<Longrightarrow> \<not> is_uni_space (hd s) \<Longrightarrow> \<not> is_uni_space (last s) \<Longrightarrow> strip_text s = s"
  by (simp add: strip_text_def hd_rev dropWhile_eq_self_iff [THEN iffD2])

lemma is_digit_not_space: "is_digit c \<Longrightarrow> \<not> is_uni_space c \<and> c \<noteq> CHR ''-'' \<and> c \<noteq> CHR ''+''"
  by (auto simp: is_digit_def is_uni_space_def Let_def)

text \<open>The decimal text of a non-negative integer, with any number of leading zeros.\<close>

lemma digits_val_zeros: "digits_val 0 (replicate n CHR ''0'' @ s) = digits_val 0 s"
  by (induction n) (simp_all add: digit_val_def)

lemma ascii_int_digits:
  assumes "list_all is_digit ds" and "ds \<noteq> []"
  shows "ascii_int ds = Some (int (digits_val 0 ds))"
proof -
  have "is_digit (hd ds)" "is_digit (last ds)" using assms by (auto simp: list_all_iff)
  then have "strip_text ds = ds" "hd ds \<noteq> CHR ''-''" "hd ds \<noteq> CHR ''+''"
    using strip_text_id [OF assms(2)] is_digit_not_space by blast+
  then show ?thesis
    using assms plain_digits_digits [of ds] by (cases ds) (auto simp: ascii_int_def)
qed

lemma int_of_text_nat: "int_of_text R (replicate n CHR ''0'' @ nat_text k) = Some (int k)"
proof -
  let ?s = "replicate n CHR ''0'' @ nat_text k"
  have "list_all is_digit ?s" "?s \<noteq> []"
    using nat_text_digits [of k] nat_text_nonempty by (auto simp: list_all_iff is_digit_zero)
  then show ?thesis
    using ascii_int_digits [of ?s] ascii_digits [of ?s]
    by (simp add: int_of_text_def digits_val_zeros digits_val_nat_text)
qed

section \<open>Canonical JSON\<close>

lemma canonical_json_inj:
  assumes "json_wf fl j" and "json_wf fl j'" and "canonical_json j = Inr b" and "canonical_json j' = Inr b"
  shows "norm_json j = norm_json j'"
  using loads_canonical_json [OF assms(1,3)] loads_canonical_json [OF assms(2,4)] by simp

text \<open>C39: a transaction id commits to the content: two JSON values with one object hash are equal
  up to the order of their keys, at every depth, or their canonical texts are a SHA-256 collision.
  Keys, strings, integers, booleans and nesting are never confused by \<open>canonical_json\<close>.\<close>

theorem hash_object_binding:
  assumes "json_wf fl j" and "json_wf fl j'" and "hash_object_hex E j = Inr h" and "hash_object_hex E j' = Inr h"
  shows "norm_json j = norm_json j'
    \<or> (\<exists>b b'. canonical_json j = Inr b \<and> canonical_json j' = Inr b' \<and> b \<noteq> b' \<and> sha E b = sha E b')"
proof -
  from assms(3,4) obtain b b' where b: "canonical_json j = Inr b" "canonical_json j' = Inr b'" "sha E b = sha E b'"
    by (auto simp: hash_object_hex_def hash_object_def res_simps)
  then show ?thesis using canonical_json_inj [OF assms(1,2)] by auto
qed

definition demo_sha :: env where
  "demo_sha = std_env (\<lambda>_. True) (\<lambda>_ _ _. True)"

theorem hash_object_binding_witness:
  "norm_json (JDict [(''b'', JInt 1), (''a'', JNull)]) = norm_json (JDict [(''a'', JNull), (''b'', JInt 1)])
    \<or> (\<exists>b b'. canonical_json (JDict [(''b'', JInt 1), (''a'', JNull)]) = Inr b
       \<and> canonical_json (JDict [(''a'', JNull), (''b'', JInt 1)]) = Inr b' \<and> b \<noteq> b' \<and> sha demo_sha b = sha demo_sha b')"
proof -
  let ?j = "JDict [(''b'', JInt 1), (''a'', JNull)]" and ?k = "JDict [(''a'', JNull), (''b'', JInt 1)]"
  have wf: "json_wf id ?j" "json_wf id ?k" by (simp_all add: utf8_valid_ascii)
  have same: "canonical_json ?j = canonical_json ?k"
    by (rule canonical_json_order) simp_all
  obtain b where "canonical_json ?j = Inr b" using canonical_json_Inr [of ?j] by (auto simp: utf8_valid_ascii)
  then have "\<exists>h. hash_object_hex demo_sha ?j = Inr h" "hash_object_hex demo_sha ?k = hash_object_hex demo_sha ?j"
    by (simp_all add: hash_object_hex_def hash_object_def same)
  then show ?thesis using hash_object_binding [OF wf] by metis
qed

end
