(* ===== verification/Envelope.thy ===== *)
theory Envelope
  imports Codec
begin

text \<open>
  \<open>chainbreaker/network/envelope.py\<close> and the numbers of \<open>network/constants.py\<close>:
  the frame of a network message.  The parser reads at fixed offsets, checks in the code's
  order and raises the code's exception at each check; the serialiser checks the same limits.
\<close>

section \<open>Constants\<close>

definition CBN1_MAGIC :: bytes where
  "CBN1_MAGIC = [0x43, 0x42, 0x4E, 0x31]"

definition NET_PROTOCOL_VERSION :: int where
  "NET_PROTOCOL_VERSION = 1"

definition NETWORK_ID_BYTES :: bytes where
  "NETWORK_ID_BYTES = str_bytes ''chainbreaker-scripture-v2''"

definition MAGIC_SIZE :: nat where "MAGIC_SIZE = 4"
definition PROTOCOL_VERSION_SIZE :: nat where "PROTOCOL_VERSION_SIZE = 2"
definition NETWORK_ID_LENGTH_SIZE :: nat where "NETWORK_ID_LENGTH_SIZE = 1"
definition MESSAGE_TYPE_SIZE :: nat where "MESSAGE_TYPE_SIZE = 1"
definition FLAGS_SIZE :: nat where "FLAGS_SIZE = 1"
definition PAYLOAD_LENGTH_SIZE :: nat where "PAYLOAD_LENGTH_SIZE = 4"
definition PAYLOAD_HASH_SIZE :: nat where "PAYLOAD_HASH_SIZE = 32"

lemmas size_defs = MAGIC_SIZE_def PROTOCOL_VERSION_SIZE_def NETWORK_ID_LENGTH_SIZE_def
  MESSAGE_TYPE_SIZE_def FLAGS_SIZE_def PAYLOAD_LENGTH_SIZE_def PAYLOAD_HASH_SIZE_def

text \<open>The size of everything but the payload for a network id of \<open>n\<close> bytes.\<close>

definition header_overhead :: "nat \<Rightarrow> nat" where
  "header_overhead n = MAGIC_SIZE + PROTOCOL_VERSION_SIZE + NETWORK_ID_LENGTH_SIZE + n
     + MESSAGE_TYPE_SIZE + FLAGS_SIZE + PAYLOAD_LENGTH_SIZE + PAYLOAD_HASH_SIZE"

definition MIN_ENVELOPE_SIZE :: nat where
  "MIN_ENVELOPE_SIZE = header_overhead (length NETWORK_ID_BYTES)"

definition MAX_PAYLOAD_BYTES :: nat where
  "MAX_PAYLOAD_BYTES = 2000000"

definition MAX_MESSAGE_SIZE :: nat where
  "MAX_MESSAGE_SIZE = MIN_ENVELOPE_SIZE + MAX_PAYLOAD_BYTES"

definition MAX_NETWORK_ID_LENGTH :: nat where
  "MAX_NETWORK_ID_LENGTH = 64"

definition FLAG_RESERVED_MASK :: int where
  "FLAG_RESERVED_MASK = 0xFC"

definition HELLO :: int where "HELLO = 0x01"
definition HELLO_ACK :: int where "HELLO_ACK = 0x02"
definition PING :: int where "PING = 0x03"
definition PONG :: int where "PONG = 0x04"
definition PEX :: int where "PEX = 0x0E"

text \<open>\<open>HELLO\<close> to \<open>REJECT\<close>; the gossip type \<open>PEX\<close> is not among them.\<close>

definition known_message_type :: "int \<Rightarrow> bool" where
  "known_message_type t = (0x01 \<le> t \<and> t \<le> 0x0D)"

section \<open>The envelope\<close>

record envelope =
  ev_message_type :: int
  ev_flags :: int
  ev_payload :: bytes

unbundle bit_operations_syntax

definition reserved_set :: "int \<Rightarrow> bool" where
  "reserved_set flags = (flags AND FLAG_RESERVED_MASK \<noteq> 0)"

definition parse_envelope :: "env \<Rightarrow> bytes \<Rightarrow> envelope res" where
  "parse_envelope E data =
     thenE (checkE (MIN_ENVELOPE_SIZE \<le> length data) NetworkValidationError)
    (thenE (checkE (length data \<le> MAX_MESSAGE_SIZE) NetworkValidationError)
    (thenE (checkE (slice 0 MAGIC_SIZE data = CBN1_MAGIC) NetworkValidationError)
    (thenE (checkE (int (be_val (slice MAGIC_SIZE PROTOCOL_VERSION_SIZE data)) = NET_PROTOCOL_VERSION) NetworkValidationError)
    (let offset = MAGIC_SIZE + PROTOCOL_VERSION_SIZE; network_id_len = unat (data ! offset);
         offset = offset + 1; overhead = header_overhead network_id_len in
     thenE (checkE (\<not> (network_id_len = 0 \<or> network_id_len > MAX_NETWORK_ID_LENGTH)) NetworkValidationError)
    (thenE (checkE (overhead \<le> length data) NetworkValidationError)
    (thenE (checkE (slice offset network_id_len data = NETWORK_ID_BYTES) NetworkValidationError)
    (let offset = offset + network_id_len; message_type = uint (data ! offset);
         offset = offset + MESSAGE_TYPE_SIZE; flags = uint (data ! offset); offset = offset + FLAGS_SIZE;
         payload_length = be_val (slice offset PAYLOAD_LENGTH_SIZE data); offset = offset + PAYLOAD_LENGTH_SIZE in
     thenE (checkE (known_message_type message_type) UnknownMessageTypeError)
    (thenE (checkE (\<not> reserved_set flags) NetworkValidationError)
    (thenE (checkE (payload_length \<le> MAX_PAYLOAD_BYTES) OversizedPayloadError)
    (thenE (checkE (length data = overhead + payload_length) NetworkValidationError)
    (let payload_hash = slice offset PAYLOAD_HASH_SIZE data;
         payload = slice (offset + PAYLOAD_HASH_SIZE) payload_length data in
     thenE (checkE (payload_hash = sha E payload) PayloadHashMismatchError)
       (Inr \<lparr>ev_message_type = message_type, ev_flags = flags, ev_payload = payload\<rparr>))))))))))))"

definition serialize_envelope :: "env \<Rightarrow> int \<Rightarrow> int \<Rightarrow> bytes \<Rightarrow> bytes res" where
  "serialize_envelope E message_type flags payload =
     thenE (checkE (known_message_type message_type) UnknownMessageTypeError)
    (thenE (checkE (\<not> reserved_set flags) NetworkValidationError)
    (thenE (checkE (length payload \<le> MAX_PAYLOAD_BYTES) OversizedPayloadError)
    (bindE (struct_pack_be 2 NET_PROTOCOL_VERSION) (\<lambda>v.
     bindE (struct_pack_be 1 (int (length NETWORK_ID_BYTES))) (\<lambda>n.
     bindE (struct_pack_be 1 message_type) (\<lambda>t.
     bindE (struct_pack_be 1 flags) (\<lambda>f.
     bindE (struct_pack_be 4 (int (length payload))) (\<lambda>l.
       Inr (CBN1_MAGIC @ v @ n @ NETWORK_ID_BYTES @ t @ f @ l @ sha E payload @ payload)))))))))"

definition requires_ack :: "envelope \<Rightarrow> bool" where
  "requires_ack e = (ev_flags e AND 0x01 \<noteq> 0)"

definition compressed :: "envelope \<Rightarrow> bool" where
  "compressed e = (ev_flags e AND 0x02 \<noteq> 0)"

section \<open>Layout\<close>

lemma length_network_id [simp]: "length NETWORK_ID_BYTES = 25"
  by (simp add: NETWORK_ID_BYTES_def)

lemma envelope_sizes: "header_overhead n = 45 + n" "MIN_ENVELOPE_SIZE = 70" "MAX_MESSAGE_SIZE = 2000070"
  by (simp_all add: header_overhead_def MIN_ENVELOPE_SIZE_def MAX_MESSAGE_SIZE_def MAX_PAYLOAD_BYTES_def size_defs)

definition envelope_bytes :: "env \<Rightarrow> byte \<Rightarrow> byte \<Rightarrow> bytes \<Rightarrow> bytes" where
  "envelope_bytes E t f payload =
     CBN1_MAGIC @ be_bytes 2 1 @ be_bytes 1 25 @ NETWORK_ID_BYTES @ [t] @ [f]
       @ be_bytes 4 (length payload) @ sha E payload @ payload"

lemma be_bytes_1 [simp]: "be_bytes (Suc 0) n = [word_of_nat n]"
  by (simp add: be_bytes_def)

lemma struct_pack_be_Inr [res_simps]:
  "struct_pack_be k n = Inr bs \<longleftrightarrow> 0 \<le> n \<and> n < 256 ^ k \<and> bs = be_bytes k (nat n)"
  by (auto simp: struct_pack_be_def)

lemma serialize_envelope_Inr:
  "serialize_envelope E t f payload = Inr data \<longleftrightarrow>
     known_message_type t \<and> \<not> reserved_set f \<and> 0 \<le> f \<and> f < 256 \<and> length payload \<le> MAX_PAYLOAD_BYTES
     \<and> data = envelope_bytes E (word_of_int t) (word_of_int f) payload"
proof -
  have w: "be_bytes 1 (nat i) = [word_of_int i]" if "0 \<le> i" "i < 256" for i
    using that by simp
  have t: "known_message_type t \<Longrightarrow> 0 \<le> t \<and> t < 256" by (simp add: known_message_type_def)
  have p: "length payload \<le> MAX_PAYLOAD_BYTES \<Longrightarrow> length payload < 256 ^ 4" by (simp add: MAX_PAYLOAD_BYTES_def)
  show ?thesis
    using t p by (auto simp: serialize_envelope_def res_simps NET_PROTOCOL_VERSION_def w envelope_bytes_def)
qed

lemma CBN1_length [simp]: "length CBN1_MAGIC = 4"
  by (simp add: CBN1_MAGIC_def)

text \<open>The fields of a byte string with the layout of an envelope.\<close>

lemma envelope_fields:
  assumes "length magic = 4" and "length v = 2" and "length nid = 25" and "length l = 4" and "length h = 32"
  shows "slice 0 4 (magic @ v @ [c] @ nid @ [t] @ [f] @ l @ h @ p) = magic"
    and "slice 4 2 (magic @ v @ [c] @ nid @ [t] @ [f] @ l @ h @ p) = v"
    and "(magic @ v @ [c] @ nid @ [t] @ [f] @ l @ h @ p) ! 6 = c"
    and "slice 7 25 (magic @ v @ [c] @ nid @ [t] @ [f] @ l @ h @ p) = nid"
    and "(magic @ v @ [c] @ nid @ [t] @ [f] @ l @ h @ p) ! 32 = t"
    and "(magic @ v @ [c] @ nid @ [t] @ [f] @ l @ h @ p) ! 33 = f"
    and "slice 34 4 (magic @ v @ [c] @ nid @ [t] @ [f] @ l @ h @ p) = l"
    and "slice 38 32 (magic @ v @ [c] @ nid @ [t] @ [f] @ l @ h @ p) = h"
    and "slice 70 (length p) (magic @ v @ [c] @ nid @ [t] @ [f] @ l @ h @ p) = p"
  using assms by (simp_all add: slice_def nth_append drop_Cons')

text \<open>What the parser accepts, by field.\<close>

lemma parse_envelope_Inr:
  "parse_envelope E data = Inr e \<longleftrightarrow>
     70 \<le> length data \<and> slice 0 4 data = CBN1_MAGIC \<and> be_val (slice 4 2 data) = 1 \<and> unat (data ! 6) = 25
     \<and> slice 7 25 data = NETWORK_ID_BYTES \<and> known_message_type (uint (data ! 32))
     \<and> \<not> reserved_set (uint (data ! 33)) \<and> be_val (slice 34 4 data) \<le> MAX_PAYLOAD_BYTES
     \<and> length data = 70 + be_val (slice 34 4 data)
     \<and> slice 38 32 data = sha E (slice 70 (be_val (slice 34 4 data)) data)
     \<and> e = \<lparr>ev_message_type = uint (data ! 32), ev_flags = uint (data ! 33),
             ev_payload = slice 70 (be_val (slice 34 4 data)) data\<rparr>"
    (is "?l \<longleftrightarrow> ?r")
proof
  assume ?l
  then have "slice 7 (unat (data ! 6)) data = NETWORK_ID_BYTES" "7 + unat (data ! 6) \<le> length data"
    by (auto simp: parse_envelope_def Let_def res_simps envelope_sizes size_defs)
  then have len: "unat (data ! 6) = 25" using length_slice [of 7 "unat (data ! 6)" data] by simp
  with \<open>?l\<close> show ?r
    by (auto simp: parse_envelope_def Let_def res_simps envelope_sizes size_defs NET_PROTOCOL_VERSION_def)
next
  assume ?r
  then show ?l
    by (auto simp: parse_envelope_def Let_def res_simps envelope_sizes size_defs NET_PROTOCOL_VERSION_def
        MAX_NETWORK_ID_LENGTH_def MAX_PAYLOAD_BYTES_def)
qed

lemma envelope_split:
  assumes "length data = 70 + k"
  shows "data = slice 0 4 data @ slice 4 2 data @ [data ! 6] @ slice 7 25 data @ [data ! 32] @ [data ! 33]
    @ slice 34 4 data @ slice 38 32 data @ slice 70 k data"
proof -
  have t: "take (off + len) data = take off data @ slice off len data" if "off + len \<le> 70 + k" for off len
    using take_slice [of off len data] that assms by simp
  have one: "slice off 1 data = [data ! off]" if "off < 70" for off
    using slice_Cons_nth [of off data] that assms by simp
  have "data = take (70 + k) data" using assms by simp
  also have "\<dots> = take 0 data @ slice 0 4 data @ slice 4 2 data @ [data ! 6] @ slice 7 25 data @ [data ! 32] @ [data ! 33]
    @ slice 34 4 data @ slice 38 32 data @ slice 70 k data"
    using t [of 0 4] t [of 4 2] t [of 6 1] t [of 7 25] t [of 32 1] t [of 33 1] t [of 34 4] t [of 38 32] t [of 70 k]
      one [of 6] one [of 32] one [of 33] by simp
  finally show ?thesis by simp
qed

lemma uint_byte_less: "0 \<le> uint (b :: byte)" "uint (b :: byte) < 256"
  using uint_lt2p [of b] by simp_all

lemma parse_envelope_iff:
  assumes "hash_length E"
  shows "parse_envelope E data = Inr e \<longleftrightarrow>
     serialize_envelope E (ev_message_type e) (ev_flags e) (ev_payload e) = Inr data"
proof
  assume "parse_envelope E data = Inr e"
  note p = this [unfolded parse_envelope_Inr]
  let ?k = "be_val (slice 34 4 data)"
  from p have len: "length data = 70 + ?k" and pay: "ev_payload e = slice 70 ?k data" by auto
  have l: "length (slice 4 2 data) = 2" "length (slice 34 4 data) = 4" "length (slice 70 ?k data) = ?k"
    using len by (simp_all add: length_slice)
  have "slice 4 2 data = be_bytes 2 1" using be_bytes_be_val [OF l(1)] p by simp
  moreover have "slice 34 4 data = be_bytes 4 (length (ev_payload e))"
    using be_bytes_be_val [OF l(2)] l(3) pay by simp
  moreover have "data ! 6 = word_of_nat 25" using p by (subst word_unat_eq_iff) simp
  ultimately have "data = envelope_bytes E (word_of_int (ev_message_type e)) (word_of_int (ev_flags e)) (ev_payload e)"
    using envelope_split [OF len] p unfolding envelope_bytes_def by simp
  then show "serialize_envelope E (ev_message_type e) (ev_flags e) (ev_payload e) = Inr data"
    unfolding serialize_envelope_Inr using p l(3) uint_byte_less by auto
next
  assume "serialize_envelope E (ev_message_type e) (ev_flags e) (ev_payload e) = Inr data"
  note s = this [unfolded serialize_envelope_Inr]
  have t: "0 \<le> ev_message_type e" "ev_message_type e < 256" using s by (auto simp: known_message_type_def)
  have u: "uint (word_of_int i :: byte) = i" if "0 \<le> i" "i < 256" for i
    using that by (simp add: uint_word_of_int)
  have p: "length (ev_payload e) < 256 ^ 4" using s by (simp add: MAX_PAYLOAD_BYTES_def)
  have data: "data = CBN1_MAGIC @ be_bytes 2 1 @ [word_of_nat 25] @ NETWORK_ID_BYTES @ [word_of_int (ev_message_type e)]
      @ [word_of_int (ev_flags e)] @ be_bytes 4 (length (ev_payload e)) @ sha E (ev_payload e) @ ev_payload e"
    using s by (simp add: envelope_bytes_def)
  have lens: "length CBN1_MAGIC = 4" "length (be_bytes 2 1) = 2" "length NETWORK_ID_BYTES = 25"
    "length (be_bytes 4 (length (ev_payload e))) = 4" "length (sha E (ev_payload e)) = 32"
    using hash_length.sha_length [OF assms] by simp_all
  note f = envelope_fields [OF lens, where c = "word_of_nat 25" and t = "word_of_int (ev_message_type e)"
      and f = "word_of_int (ev_flags e)" and p = "ev_payload e", folded data]
  have "length data = 70 + length (ev_payload e)" unfolding data using lens by simp
  then show "parse_envelope E data = Inr e"
    unfolding parse_envelope_Inr f using s t u p f(9) by simp
qed

text \<open>C12: the envelope codec is canonical: the parser accepts a byte string with a message exactly
  when the serialiser writes that byte string for that message, so every message has one
  encoding, every accepted byte string is one, and nothing is read that was not sent.\<close>

theorem envelope_canonical:
  "parse_envelope (std_env ld ck) data = Inr e \<longleftrightarrow>
     serialize_envelope (std_env ld ck) (ev_message_type e) (ev_flags e) (ev_payload e) = Inr data"
  by (rule parse_envelope_iff [OF std.hash_length_axioms])

end
