(* ===== verification/Framing.thy ===== *)
theory Framing
  imports Envelope
begin

text \<open>
  \<open>network/socket/framing.py\<close>: the accumulator that turns a byte stream back into
  envelopes, and the receiving loop of \<open>network/socket/tcp_transport.py\<close> on top of it.
  A method returns the buffer it leaves with its result, which may be an exception; the
  envelopes a call had already parsed when a later frame raises are lost, as in the code.
\<close>

record socket_limits =
  sl_max_frame_buffer_bytes :: nat
  sl_max_message_size :: nat
  sl_recv_buffer_size :: nat

definition default_socket_limits :: socket_limits where
  "default_socket_limits = \<lparr>sl_max_frame_buffer_bytes = 8388608, sl_max_message_size = 2097152,
     sl_recv_buffer_size = 65536\<rparr>"

text \<open>\<open>buf.find(CBN1_MAGIC)\<close>.\<close>

fun find_magic :: "bytes \<Rightarrow> nat option" where
  "find_magic [] = None"
| "find_magic (b # bs) =
     (if take MAGIC_SIZE (b # bs) = CBN1_MAGIC then Some 0 else map_option Suc (find_magic bs))"

definition try_parse_one :: "env \<Rightarrow> socket_limits \<Rightarrow> bytes \<Rightarrow> bytes \<times> envelope option res" where
  "try_parse_one E lim buf =
     (if length buf < MAGIC_SIZE then (buf, Inr None)
      else if take MAGIC_SIZE buf \<noteq> CBN1_MAGIC then
        (case find_magic buf of
           None \<Rightarrow> (let keep = min (length buf) (MAGIC_SIZE - 1) in
                    (if keep \<noteq> 0 then drop (length buf - keep) buf else [], Inr None))
         | Some magic_pos \<Rightarrow> (drop magic_pos buf, Inr None))
      else if length buf < MAGIC_SIZE + 2 + NETWORK_ID_LENGTH_SIZE then (buf, Inr None)
      else
        let network_id_len = unat (buf ! (MAGIC_SIZE + 2)) in
        if network_id_len = 0 \<or> network_id_len > 64 then (drop 1 buf, Inr None)
        else if length buf < header_overhead network_id_len then (buf, Inr None)
        else
          let payload_length_offset = MAGIC_SIZE + 2 + NETWORK_ID_LENGTH_SIZE + network_id_len
                + MESSAGE_TYPE_SIZE + FLAGS_SIZE;
              payload_length = be_val (slice payload_length_offset PAYLOAD_LENGTH_SIZE buf) in
          if payload_length > sl_max_message_size lim then (buf, Inl SocketTransportLimitError)
          else
            let total_size = header_overhead network_id_len + payload_length in
            if total_size > sl_max_message_size lim then (buf, Inl SocketTransportLimitError)
            else if length buf < total_size then (buf, Inr None)
            else (drop total_size buf, bindE (parse_envelope E (take total_size buf)) (\<lambda>e. Inr (Some e))))"

lemma find_magic_shrinks: "find_magic buf = Some p \<Longrightarrow> take MAGIC_SIZE buf \<noteq> CBN1_MAGIC \<Longrightarrow> 0 < p \<and> p < length buf"
proof (induction buf arbitrary: p)
  case (Cons b bs)
  then obtain q where q: "find_magic bs = Some q" "p = Suc q" by auto
  with Cons.IH [of q] show ?case
    by (cases "take MAGIC_SIZE bs = CBN1_MAGIC") (auto, cases bs, auto simp: MAGIC_SIZE_def)
qed simp

text \<open>A call that returns an envelope has taken bytes off the buffer; no call adds any.\<close>

lemma try_parse_shrinks:
  "try_parse_one E lim buf = (buf', Inr (Some e)) \<Longrightarrow> length buf' < length buf"
  "try_parse_one E lim buf = (buf', r) \<Longrightarrow> length buf' \<le> length buf"
  by (auto simp: try_parse_one_def Let_def envelope_sizes split: if_split_asm option.split_asm)

text \<open>The loop of \<open>consume\<close>.\<close>

function consume_loop :: "env \<Rightarrow> socket_limits \<Rightarrow> bytes \<Rightarrow> bytes \<times> envelope list res" where
  "consume_loop E lim buf =
     (case try_parse_one E lim buf of
        (buf', Inl e) \<Rightarrow> (buf', Inl e)
      | (buf', Inr (Some ev)) \<Rightarrow>
          (case consume_loop E lim buf' of (b, r) \<Rightarrow> (b, bindE r (\<lambda>evs. Inr (ev # evs))))
      | (buf', Inr None) \<Rightarrow>
          if length buf' < length buf then consume_loop E lim buf' else (buf', Inr []))"
  by pat_completeness auto
termination
  by (relation "measure (\<lambda>(E, lim, buf). length buf)") (auto dest!: sym [THEN try_parse_shrinks(1)])

declare consume_loop.simps [simp del]

definition consume :: "env \<Rightarrow> socket_limits \<Rightarrow> bytes \<Rightarrow> bytes \<Rightarrow> bytes \<times> envelope list res" where
  "consume E lim buf data =
     (if data = [] then (buf, Inr [])
      else if length buf + length data > sl_max_frame_buffer_bytes lim then (buf, Inl SocketTransportLimitError)
      else consume_loop E lim (buf @ data))"

text \<open>Feeding a sequence of chunks, until an exception.\<close>

fun consume_all :: "env \<Rightarrow> socket_limits \<Rightarrow> bytes \<Rightarrow> bytes list \<Rightarrow> bytes \<times> envelope list res" where
  "consume_all E lim buf [] = (buf, Inr [])"
| "consume_all E lim buf (c # cs) =
     (case consume E lim buf c of
        (buf', Inl e) \<Rightarrow> (buf', Inl e)
      | (buf', Inr evs) \<Rightarrow>
          (case consume_all E lim buf' cs of (b, r) \<Rightarrow> (b, bindE r (\<lambda>evs'. Inr (evs @ evs')))))"

text \<open>\<open>receive\<close> of the TCP transports: the reads are the chunks the socket delivers, an
  empty one stands for the end of the stream; \<open>None\<close> is a call that waits for more.  The
  result keeps the buffer and the reads not consumed.\<close>

fun tcp_receive :: "env \<Rightarrow> socket_limits \<Rightarrow> bytes \<Rightarrow> bytes list \<Rightarrow> bytes \<times> bytes list \<times> envelope option res" where
  "tcp_receive E lim buf [] = (buf, [], Inr None)"
| "tcp_receive E lim buf (data # reads) =
     (if data = [] then (buf, reads, Inl SocketClosedError)
      else case consume E lim buf data of
          (buf', Inl e) \<Rightarrow> (buf', reads, Inl e)
        | (buf', Inr (ev # _)) \<Rightarrow> (buf', reads, Inr (Some ev))
        | (buf', Inr []) \<Rightarrow> tcp_receive E lim buf' reads)"

section \<open>Frames in a stream\<close>

definition frame_of :: "env \<Rightarrow> socket_limits \<Rightarrow> envelope \<Rightarrow> bytes \<Rightarrow> bool" where
  "frame_of E lim e f =
     (serialize_envelope E (ev_message_type e) (ev_flags e) (ev_payload e) = Inr f \<and> length f \<le> sl_max_message_size lim)"

lemma frame_fields:
  assumes "hash_length E" and "frame_of E lim e f"
  shows "parse_envelope E f = Inr e" and "take 4 f = CBN1_MAGIC" and "unat (f ! 6) = 25"
    and "length f = 70 + be_val (slice 34 4 f)" and "length f \<le> sl_max_message_size lim"
proof -
  show p: "parse_envelope E f = Inr e"
    using assms by (simp add: parse_envelope_iff frame_of_def)
  note q = p [unfolded parse_envelope_Inr]
  have "slice 0 4 f = take 4 f" by (simp add: slice_def)
  with q show "take 4 f = CBN1_MAGIC" by argo
  show "unat (f ! 6) = 25" "length f = 70 + be_val (slice 34 4 f)" using q by argo+
  show "length f \<le> sl_max_message_size lim" using assms(2) by (simp add: frame_of_def)
qed

text \<open>A whole frame at the front of the buffer is taken off.\<close>

lemma try_parse_frame:
  assumes "hash_length E" and "frame_of E lim e f"
  shows "try_parse_one E lim (f @ r) = (r, Inr (Some e))"
proof -
  note f = frame_fields [OF assms]
  have "70 \<le> length f" using f(4) by simp
  then have "take 4 (f @ r) = CBN1_MAGIC" "(f @ r) ! 6 = f ! 6" "slice 34 4 (f @ r) = slice 34 4 f"
    using f(2) by (simp_all add: nth_append slice_def)
  with f show ?thesis
    by (simp add: try_parse_one_def Let_def size_defs envelope_sizes)
qed

text \<open>A proper prefix of a frame stays in the buffer.\<close>

lemma try_parse_prefix:
  assumes "hash_length E" and "frame_of E lim e f" and "m < length f"
  shows "try_parse_one E lim (take m f) = (take m f, Inr None)"
proof (cases "m < 7")
  case True
  have l: "length (take m f) = m" using assms(3) by simp
  show ?thesis
  proof (cases "m < 4")
    case True
    with l show ?thesis by (simp add: try_parse_one_def MAGIC_SIZE_def)
  next
    case False
    then have "take 4 (take m f) = CBN1_MAGIC"
      using frame_fields(2) [OF assms(1,2)] by (simp add: min_def)
    with l True False show ?thesis by (simp add: try_parse_one_def size_defs)
  qed
next
  case False
  note f = frame_fields [OF assms(1,2)]
  have hd: "take 4 (take m f) = CBN1_MAGIC" "take m f ! 6 = f ! 6" "length (take m f) = m"
    using False f(2) assms(3) by (auto simp: min_def)
  show ?thesis
  proof (cases "m < 70")
    case True
    with False hd f(3) show ?thesis by (simp add: try_parse_one_def Let_def size_defs envelope_sizes)
  next
    case big: False
    then have "slice 34 4 (take m f) = slice 34 4 f" by (simp add: slice_def drop_take min_def)
    with False big hd f assms(3) show ?thesis
      by (simp add: try_parse_one_def Let_def size_defs envelope_sizes)
  qed
qed

text \<open>A buffer that holds the beginning of what is still to come.\<close>

definition partial :: "bytes \<Rightarrow> bytes list \<Rightarrow> bool" where
  "partial buf fs = (case fs of [] \<Rightarrow> buf = [] | f # _ \<Rightarrow> length buf < length f \<and> buf = take (length buf) f)"

lemma partial_stuck:
  assumes "hash_length E" and "list_all2 (frame_of E lim) es fs" and "partial buf fs"
  shows "consume_loop E lim buf = (buf, Inr [])"
proof -
  have "try_parse_one E lim buf = (buf, Inr None)"
  proof (cases fs)
    case Nil
    with assms(3) show ?thesis by (simp add: partial_def try_parse_one_def MAGIC_SIZE_def)
  next
    case (Cons f fs')
    with assms(2) obtain e where "frame_of E lim e f" by (cases es) auto
    from try_parse_prefix [OF assms(1) this, of "length buf"] assms(3) Cons show ?thesis
      by (auto simp: partial_def)
  qed
  then show ?thesis by (subst consume_loop.simps) simp
qed

lemma consume_loop_frames:
  assumes "hash_length E" and "list_all2 (frame_of E lim) es fs" and "consume_loop E lim r = (r, Inr [])"
  shows "consume_loop E lim (concat fs @ r) = (r, Inr es)"
  using assms(2)
proof (induction rule: list_all2_induct)
  case Nil
  then show ?case using assms(3) by simp
next
  case (Cons e es f fs)
  then show ?case
    using try_parse_frame [OF assms(1) Cons(1), of "concat fs @ r"]
    by (subst consume_loop.simps) simp
qed

text \<open>A prefix of a stream of frames is some whole frames and the beginning of the next.\<close>

lemma prefix_frames:
  assumes "b @ rest = concat fs" and "\<forall>f \<in> set fs. f \<noteq> []"
  shows "\<exists>fs1 fs2 r. fs = fs1 @ fs2 \<and> b = concat fs1 @ r \<and> r @ rest = concat fs2 \<and> partial r fs2"
  using assms
proof (induction fs arbitrary: b)
  case Nil
  then show ?case by (auto simp: partial_def)
next
  case (Cons f fs)
  show ?case
  proof (cases "length b < length f")
    case True
    then have "b = take (length b) f" using Cons.prems(1) by (simp add: append_eq_append_conv_if)
    with True Cons.prems(1) have "f # fs = [] @ (f # fs) \<and> b = concat [] @ b \<and> b @ rest = concat (f # fs) \<and> partial b (f # fs)"
      by (simp add: partial_def)
    then show ?thesis by blast
  next
    case False
    then obtain b' where b: "b = f @ b'" using Cons.prems(1)
      by (metis append_eq_append_conv2 append_eq_append_conv_if concat.simps(2) linorder_not_less append_take_drop_id)
    with Cons.prems have "b' @ rest = concat fs" by simp
    from Cons.IH [OF this] Cons.prems(2) obtain fs1 fs2 r where
      "fs = fs1 @ fs2 \<and> b' = concat fs1 @ r \<and> r @ rest = concat fs2 \<and> partial r fs2" by auto
    with b have "f # fs = (f # fs1) @ fs2 \<and> b = concat (f # fs1) @ r \<and> r @ rest = concat fs2 \<and> partial r fs2" by simp
    then show ?thesis by blast
  qed
qed

lemma consume_all_frames:
  assumes "hash_length E" and "list_all2 (frame_of E lim) es fs" and "partial buf fs"
    and "buf @ concat chunks = concat fs"
    and "\<forall>c \<in> set chunks. length c + sl_max_message_size lim \<le> sl_max_frame_buffer_bytes lim"
  shows "consume_all E lim buf chunks = ([], Inr es)"
  using assms(2-)
proof (induction chunks arbitrary: buf es fs)
  case Nil
  then have "fs = []" by (cases fs) (auto simp: partial_def)
  with Nil show ?case by (simp add: partial_def)
next
  case (Cons c cs)
  show ?case
  proof (cases "c = []")
    case True
    with Cons.IH [OF Cons.prems(1,2)] Cons.prems(3,4) show ?thesis by (simp add: consume_def)
  next
    case False
    have ne: "\<forall>f \<in> set fs. f \<noteq> []"
    proof
      fix f assume "f \<in> set fs"
      with Cons.prems(1) obtain e where "frame_of E lim e f" by (auto simp: list_all2_conv_all_nth in_set_conv_nth)
      from frame_fields(4) [OF assms(1) this] show "f \<noteq> []" by auto
    qed
    have "(buf @ c) @ concat cs = concat fs" using Cons.prems(3) by simp
    from prefix_frames [OF this ne] obtain fs1 fs2 r where
      s: "fs = fs1 @ fs2" "buf @ c = concat fs1 @ r" "r @ concat cs = concat fs2" "partial r fs2" by blast
    obtain es1 es2 where es: "es = es1 @ es2" "list_all2 (frame_of E lim) es1 fs1" "list_all2 (frame_of E lim) es2 fs2"
      using Cons.prems(1) s(1) by (auto simp: list_all2_append2)
    have "consume_loop E lim (buf @ c) = (r, Inr es1)"
      unfolding s(2) by (rule consume_loop_frames [OF assms(1) es(2) partial_stuck [OF assms(1) es(3) s(4)]])
    moreover have "length buf \<le> sl_max_message_size lim"
    proof (cases fs)
      case Nil
      with Cons.prems(2) show ?thesis by (simp add: partial_def)
    next
      case (Cons f fs')
      with \<open>list_all2 (frame_of E lim) es fs\<close> obtain e where "frame_of E lim e f" by (cases es) auto
      with Cons \<open>partial buf fs\<close> show ?thesis by (simp add: partial_def frame_of_def)
    qed
    ultimately have "consume E lim buf c = (r, Inr es1)"
      using False Cons.prems(4) by (simp add: consume_def)
    with Cons.IH [OF es(3) s(4,3)] Cons.prems(4) es(1) show ?thesis by simp
  qed
qed

lemma default_frame:
  "serialize_envelope E (ev_message_type e) (ev_flags e) (ev_payload e) = Inr f \<Longrightarrow> hash_length E
     \<Longrightarrow> frame_of E default_socket_limits e f"
proof -
  assume s: "serialize_envelope E (ev_message_type e) (ev_flags e) (ev_payload e) = Inr f" and E: "hash_length E"
  then have "parse_envelope E f = Inr e" by (simp add: parse_envelope_iff)
  then have "length f = 70 + be_val (slice 34 4 f)" "be_val (slice 34 4 f) \<le> MAX_PAYLOAD_BYTES"
    by (auto simp: parse_envelope_Inr)
  with s show ?thesis by (simp add: frame_of_def default_socket_limits_def MAX_PAYLOAD_BYTES_def)
qed

text \<open>C13: framing does not depend on how TCP cuts the stream: whatever the reads are, of at most
  the receive buffer's size, feeding a stream of serialised messages to the accumulator
  returns exactly the messages, in order, and leaves the buffer empty.\<close>

theorem framing_stream:
  assumes "mapE (\<lambda>e. serialize_envelope (std_env ld ck) (ev_message_type e) (ev_flags e) (ev_payload e)) es = Inr fs"
    and "concat chunks = concat fs"
    and "\<forall>c \<in> set chunks. length c \<le> sl_recv_buffer_size default_socket_limits"
  shows "consume_all (std_env ld ck) default_socket_limits [] chunks = ([], Inr es)"
proof (rule consume_all_frames [OF std.hash_length_axioms])
  show "list_all2 (frame_of (std_env ld ck) default_socket_limits) es fs"
    using assms(1) by (auto simp: mapE_Inr_iff list_all2_conv_all_nth intro: default_frame std.hash_length_axioms)
  then show "partial [] fs"
    by (cases fs; cases es) (auto simp: partial_def dest!: frame_fields(4) [OF std.hash_length_axioms])
qed (use assms(2,3) in \<open>auto simp: default_socket_limits_def\<close>)

definition demo_ping :: envelope where
  "demo_ping = \<lparr>ev_message_type = PING, ev_flags = 0, ev_payload = [1]\<rparr>"

lemma demo_ping_frame:
  assumes "hash_length E"
  shows "\<exists>f. serialize_envelope E (ev_message_type demo_ping) (ev_flags demo_ping) (ev_payload demo_ping) = Inr f
    \<and> length f = 71"
proof -
  let ?f = "envelope_bytes E (word_of_int PING) (word_of_int 0) [1]"
  have "serialize_envelope E (ev_message_type demo_ping) (ev_flags demo_ping) (ev_payload demo_ping) = Inr ?f"
    unfolding serialize_envelope_Inr
    by (simp add: demo_ping_def known_message_type_def PING_def reserved_set_def MAX_PAYLOAD_BYTES_def)
  moreover have "length ?f = 71"
    using hash_length.sha_length [OF assms] by (simp add: envelope_bytes_def)
  ultimately show ?thesis by blast
qed

theorem framing_stream_witness:
  "\<exists>f. length f = 71 \<and> consume_all (std_env (\<lambda>_. True) (\<lambda>_ _ _. True)) default_socket_limits []
     [take 5 f, drop 5 f @ take 40 f, drop 40 f] = ([], Inr [demo_ping, demo_ping])"
proof -
  let ?E = "std_env (\<lambda>_. True) (\<lambda>_ _ _. True)"
  obtain f where f: "serialize_envelope ?E (ev_message_type demo_ping) (ev_flags demo_ping) (ev_payload demo_ping) = Inr f"
    "length f = 71" using demo_ping_frame [OF std.hash_length_axioms] by blast
  have "consume_all ?E default_socket_limits [] [take 5 f, drop 5 f @ take 40 f, drop 40 f] = ([], Inr [demo_ping, demo_ping])"
    by (rule framing_stream [where fs = "[f, f]"]) (use f in \<open>auto simp: default_socket_limits_def\<close>)
  with f(2) show ?thesis by blast
qed

text \<open>The TCP transports lose messages: when one read delivers two serialised messages,
  \<open>receive\<close> returns the first, and the second is neither returned nor left in the
  accumulator, so the next \<open>receive\<close> starts from an empty buffer and the later reads.\<close>

theorem tcp_receive_loses_message:
  assumes "serialize_envelope (std_env ld ck) (ev_message_type e) (ev_flags e) (ev_payload e) = Inr f"
    and "serialize_envelope (std_env ld ck) (ev_message_type (e' :: envelope)) (ev_flags e') (ev_payload e') = Inr f'"
  shows "tcp_receive (std_env ld ck) default_socket_limits [] ((f @ f') # reads) = ([], reads, Inr (Some e))"
proof -
  note E = std.hash_length_axioms [of ld ck]
  have fr: "frame_of (std_env ld ck) default_socket_limits e f" "frame_of (std_env ld ck) default_socket_limits e' f'"
    using assms by (auto intro: default_frame E)
  then have len: "length f \<le> 2097152" "length f' \<le> 2097152" "f \<noteq> []"
    using frame_fields(4) [OF E fr(1)] by (auto simp: frame_of_def default_socket_limits_def)
  have "consume_loop (std_env ld ck) default_socket_limits (concat [f, f'] @ []) = ([], Inr [e, e'])"
    using fr by (intro consume_loop_frames [OF E] partial_stuck [OF E, of _ "[]" "[]"]) (auto simp: partial_def)
  then have "consume (std_env ld ck) default_socket_limits [] (f @ f') = ([], Inr [e, e'])"
    using len by (simp add: consume_def default_socket_limits_def)
  with len(3) show ?thesis by simp
qed

theorem tcp_receive_loses_message_witness:
  "\<exists>f. tcp_receive (std_env (\<lambda>_. True) (\<lambda>_ _ _. True)) default_socket_limits [] [f @ f] = ([], [], Inr (Some demo_ping))"
proof -
  let ?E = "std_env (\<lambda>_. True) (\<lambda>_ _ _. True)"
  obtain f where f: "serialize_envelope ?E (ev_message_type demo_ping) (ev_flags demo_ping) (ev_payload demo_ping) = Inr f"
    using demo_ping_frame [OF std.hash_length_axioms] by blast
  from tcp_receive_loses_message [OF f f] show ?thesis by blast
qed

end
