(* ===== verification/Handshake.thy ===== *)
theory Handshake
  imports Framing "HOL-Library.AList"
begin

text \<open>
  \<open>network/transport/connection.py\<close>, \<open>handshake.py\<close> and \<open>manager.py\<close>: the state
  machines of a connection and of a handshake, and the manager that owns a bounded set of
  connections.  A method returns the object it leaves with its result.  What the transport
  delivers is an argument: the result of \<open>receive\<close> with the message already decoded by
  \<open>HelloMessage.from_payload\<close> (or the exception either raised), and the result of
  \<open>send\<close>.
\<close>

section \<open>Connections\<close>

datatype connection_state = Created | Opening | Active | Draining | ConnClosed

fun connection_transitions :: "connection_state \<Rightarrow> connection_state list" where
  "connection_transitions Created = [Opening, ConnClosed]"
| "connection_transitions Opening = [Active, ConnClosed]"
| "connection_transitions Active = [Draining, ConnClosed]"
| "connection_transitions Draining = [ConnClosed, Active]"
| "connection_transitions ConnClosed = []"

definition connection_to :: "connection_state \<Rightarrow> connection_state \<Rightarrow> connection_state res" where
  "connection_to s new =
     (if new = s then Inr s
      else if new \<notin> set (connection_transitions s) then Inl TransportStateError else Inr new)"

definition ensure_open :: "connection_state \<Rightarrow> unit res" where
  "ensure_open s =
     (if s \<notin> {Active, Opening} then
        if s = ConnClosed then Inl TransportClosedError else Inl TransportStateError
      else Inr ())"

section \<open>The handshake session\<close>

datatype handshake_state = HNew | SendHello | WaitHelloAck | Validating | Established | Rejected | HClosed

fun handshake_transitions :: "handshake_state \<Rightarrow> handshake_state list" where
  "handshake_transitions HNew = [SendHello, Validating, Rejected]"
| "handshake_transitions SendHello = [WaitHelloAck, Rejected, HClosed]"
| "handshake_transitions WaitHelloAck = [Established, Rejected, HClosed]"
| "handshake_transitions Validating = [Established, Rejected, HClosed]"
| "handshake_transitions Established = [HClosed, Rejected]"
| "handshake_transitions Rejected = [HClosed]"
| "handshake_transitions HClosed = []"

record hello =
  hl_protocol_version :: int
  hl_network_id :: string
  hl_genesis_hash :: string
  hl_best_height :: int
  hl_best_chain_work :: string
  hl_feature_bits :: "string list"
  hl_node_limits :: "(string \<times> int) list"

record handshake_context =
  hc_network_id :: string
  hc_genesis_hash :: string
  hc_local_features :: "string list"
  hc_protocol_version :: int

text \<open>The reasons the code writes as text; the reason in a peer's answer is kept as it came.\<close>

datatype reject_reason =
    ExpectedHello | UnexpectedHello | InvalidHello | UnsupportedVersion | WrongNetworkId | WrongGenesisHash
  | ExpectedHelloAck | UnexpectedHelloAck | InvalidHelloAck | PeerReason json

record session =
  hs_context :: handshake_context
  hs_state :: handshake_state
  hs_peer_info :: "hello option"
  hs_capabilities :: "string list option"
  hs_reject_reason :: "reject_reason option"

definition new_session :: "handshake_context \<Rightarrow> session" where
  "new_session ctx = \<lparr>hs_context = ctx, hs_state = HNew, hs_peer_info = None, hs_capabilities = None,
     hs_reject_reason = None\<rparr>"

definition validate_hello :: "handshake_context \<Rightarrow> hello \<Rightarrow> reject_reason option" where
  "validate_hello ctx msg =
     (if hl_protocol_version msg \<noteq> hc_protocol_version ctx then Some UnsupportedVersion
      else if hl_network_id msg \<noteq> hc_network_id ctx then Some WrongNetworkId
      else if hl_genesis_hash msg \<noteq> hc_genesis_hash ctx then Some WrongGenesisHash
      else None)"

definition transition_to :: "session \<Rightarrow> handshake_state \<Rightarrow> session \<times> unit res" where
  "transition_to s new =
     (if new \<notin> set (handshake_transitions (hs_state s)) then (s, Inl TransportStateError)
      else (s\<lparr>hs_state := new\<rparr>, Inr ()))"

definition reject_session :: "session \<Rightarrow> reject_reason \<Rightarrow> session \<times> unit res" where
  "reject_session s reason =
     (if hs_state s \<in> {Established, HClosed} then (s, Inl TransportStateError)
      else
        let s' = s\<lparr>hs_reject_reason := Some reason\<rparr> in
        if hs_state s' \<noteq> Rejected then transition_to s' Rejected else (s', Inr ()))"

definition send_hello :: "session \<Rightarrow> int \<Rightarrow> string \<Rightarrow> session \<times> hello res" where
  "send_hello s local_height local_chain_work =
     (if hs_state s \<noteq> HNew then (s, Inl TransportStateError)
      else case transition_to s SendHello of
          (s', Inl e) \<Rightarrow> (s', Inl e)
        | (s', Inr _) \<Rightarrow>
            (s', Inr \<lparr>hl_protocol_version = hc_protocol_version (hs_context s),
               hl_network_id = hc_network_id (hs_context s), hl_genesis_hash = hc_genesis_hash (hs_context s),
               hl_best_height = local_height, hl_best_chain_work = local_chain_work,
               hl_feature_bits = sort (hc_local_features (hs_context s)), hl_node_limits = []\<rparr>))"

text \<open>\<open>handle_hello\<close>; features are sets, here lists compared by membership.\<close>

definition handle_hello :: "session \<Rightarrow> int \<Rightarrow> hello res \<Rightarrow> session \<times> unit res" where
  "handle_hello s message_type decoded =
     (if message_type \<noteq> HELLO then reject_session s ExpectedHello
      else if hs_state s \<notin> {HNew, SendHello, WaitHelloAck} then reject_session s UnexpectedHello
      else case decoded of
          Inl _ \<Rightarrow> reject_session s InvalidHello
        | Inr msg \<Rightarrow>
            (case validate_hello (hs_context s) msg of
               Some reason \<Rightarrow> reject_session s reason
             | None \<Rightarrow>
                 let s' = s\<lparr>hs_peer_info := Some msg,
                            hs_capabilities := Some (filter (\<lambda>f. f \<in> set (hl_feature_bits msg)) (hc_local_features (hs_context s)))\<rparr> in
                 if hs_state s = SendHello then transition_to s' WaitHelloAck
                 else if hs_state s = HNew then transition_to s' Validating
                 else (s', Inr ())))"

text \<open>The truth value of a JSON value; a float is false when it is zero.\<close>

fun truthy :: "json \<Rightarrow> bool" where
  "truthy JNull = False"
| "truthy (JBool b) = b"
| "truthy (JInt i) = (i \<noteq> 0)"
| "truthy (JFloat r) = (r \<noteq> ''0.0'' \<and> r \<noteq> ''-0.0'')"
| "truthy (JStr s) = (s \<noteq> [])"
| "truthy (JList xs) = (xs \<noteq> [])"
| "truthy (JDict d) = (d \<noteq> [])"

definition handle_hello_ack :: "session \<Rightarrow> int \<Rightarrow> (string \<times> json) list res \<Rightarrow> session \<times> unit res" where
  "handle_hello_ack s message_type decoded =
     (if message_type \<noteq> HELLO_ACK then reject_session s ExpectedHelloAck
      else if hs_state s \<noteq> WaitHelloAck then reject_session s UnexpectedHelloAck
      else case decoded of
          Inl _ \<Rightarrow> reject_session s InvalidHelloAck
        | Inr payload \<Rightarrow>
            if \<not> truthy (dget payload ''ok'' JNull)
            then reject_session s (PeerReason (dget payload ''reason'' (JStr ''rejected'')))
            else transition_to s Established)"

definition build_hello_ack :: "session \<Rightarrow> bool \<Rightarrow> string \<Rightarrow> (string \<times> json) list res" where
  "build_hello_ack s ok reason =
     (if hs_state s \<notin> {Validating, WaitHelloAck, Rejected} then Inl TransportStateError
      else Inr [(''ok'', JBool ok), (''reason'', JStr reason)])"

definition close_session :: "session \<Rightarrow> session \<times> unit res" where
  "close_session s =
     (if hs_state s \<notin> {Rejected, HClosed} then transition_to s HClosed else (s, Inr ()))"

section \<open>The connection manager\<close>

record managed =
  mc_session :: session
  mc_connection :: connection_state
  mc_peer_key :: string

record manager =
  cm_context :: handshake_context
  cm_max_connections :: nat
  cm_connections :: "(string \<times> managed) list"
  cm_reject_counts :: "string \<Rightarrow> nat"
  cm_banned_peers :: "string list"

definition set_connection :: "manager \<Rightarrow> string \<Rightarrow> managed \<Rightarrow> manager" where
  "set_connection m cid c = m\<lparr>cm_connections := AList.update cid c (cm_connections m)\<rparr>"

definition drop_connection :: "manager \<Rightarrow> string \<Rightarrow> manager" where
  "drop_connection m cid = m\<lparr>cm_connections := AList.delete cid (cm_connections m)\<rparr>"

definition available_slots :: "manager \<Rightarrow> nat" where
  "available_slots m = cm_max_connections m - length (cm_connections m)"

text \<open>\<open>_prepare\<close>.\<close>

definition prepare_connection :: "manager \<Rightarrow> string \<Rightarrow> string \<Rightarrow> (manager \<times> managed) res" where
  "prepare_connection m cid peer_key =
     (if peer_key \<in> set (cm_banned_peers m) then Inl TransportLimitError
      else if length (cm_connections m) \<ge> cm_max_connections m then Inl TransportLimitError
      else if map_of (cm_connections m) cid \<noteq> None then Inl TransportStateError
      else bindE (connection_to Created Opening) (\<lambda>c.
        let managed = \<lparr>mc_session = new_session (cm_context m), mc_connection = c, mc_peer_key = peer_key\<rparr>
        in Inr (set_connection m cid managed, managed)))"

definition record_reject :: "manager \<Rightarrow> string \<Rightarrow> manager" where
  "record_reject m peer_key =
     (let n = cm_reject_counts m peer_key + 1;
          m' = m\<lparr>cm_reject_counts := (cm_reject_counts m)(peer_key := n)\<rparr> in
      if n \<ge> 3 then m'\<lparr>cm_banned_peers := List.insert peer_key (cm_banned_peers m')\<rparr> else m')"

text \<open>The \<open>finally\<close> block of \<open>accept\<close> and \<open>register_inbound\<close>: an exception of
  \<open>managed.close()\<close> replaces the result and skips the removal; \<open>transport.close\<close> is
  suppressed.\<close>

definition finish_connection :: "manager \<Rightarrow> string \<Rightarrow> managed \<Rightarrow> unit res \<Rightarrow> manager \<times> unit res" where
  "finish_connection m cid c result =
     (if hs_state (mc_session c) = Established then (set_connection m cid c, result)
      else case close_session (mc_session c) of
          (s, Inl e) \<Rightarrow> (set_connection m cid (c\<lparr>mc_session := s\<rparr>), Inl e)
        | (s, Inr _) \<Rightarrow> (drop_connection m cid, result))"

definition register_inbound ::
    "manager \<Rightarrow> string \<Rightarrow> string \<Rightarrow> (int \<times> hello res) res \<Rightarrow> unit res \<Rightarrow> manager \<times> unit res" where
  "register_inbound m cid peer_key received sent =
     (case prepare_connection m cid peer_key of
        Inl e \<Rightarrow> (m, Inl e)
      | Inr (m1, c) \<Rightarrow>
          (case received of
             Inl e \<Rightarrow> finish_connection m1 cid c (Inl e)
           | Inr (message_type, decoded) \<Rightarrow>
               (case handle_hello (mc_session c) message_type decoded of
                  (s, Inl e) \<Rightarrow> finish_connection m1 cid (c\<lparr>mc_session := s\<rparr>) (Inl e)
                | (s, Inr _) \<Rightarrow>
                    let c' = c\<lparr>mc_session := s\<rparr> in
                    if hs_state s = Rejected
                    then finish_connection (record_reject m1 peer_key) cid c' (Inl TransportValidationError)
                    else
                      (case thenE (bindE (build_hello_ack s True []) (\<lambda>_. Inr ())) sent of
                         Inl e \<Rightarrow> finish_connection m1 cid c' (Inl e)
                       | Inr _ \<Rightarrow>
                           (case transition_to s Established of
                              (s', Inl e) \<Rightarrow> finish_connection m1 cid (c\<lparr>mc_session := s'\<rparr>) (Inl e)
                            | (s', Inr _) \<Rightarrow>
                                (case connection_to (mc_connection c) Active of
                                   Inl e \<Rightarrow> finish_connection m1 cid (c\<lparr>mc_session := s'\<rparr>) (Inl e)
                                 | Inr a \<Rightarrow> finish_connection m1 cid
                                     (c\<lparr>mc_session := s', mc_connection := a\<rparr>) (Inr ())))))))"

text \<open>\<open>accept\<close>: the outbound side; \<open>sent\<close> and \<open>received\<close> are the results of the
  two sends and the two receives, in order.\<close>

definition accept_hello ::
    "manager \<Rightarrow> string \<Rightarrow> managed \<Rightarrow> unit res \<Rightarrow> (int \<times> (string \<times> json) list res) res \<Rightarrow> manager \<times> unit res" where
  "accept_hello m cid c sent_ack received_ack =
     (case thenE (bindE (build_hello_ack (mc_session c) True []) (\<lambda>_. Inr ())) sent_ack of
        Inl e \<Rightarrow> finish_connection m cid c (Inl e)
      | Inr _ \<Rightarrow>
          (case received_ack of
             Inl e \<Rightarrow> finish_connection m cid c (Inl e)
           | Inr (message_type, payload) \<Rightarrow>
               (case handle_hello_ack (mc_session c) message_type payload of
                  (s, Inl e) \<Rightarrow> finish_connection m cid (c\<lparr>mc_session := s\<rparr>) (Inl e)
                | (s, Inr _) \<Rightarrow>
                    let c' = c\<lparr>mc_session := s\<rparr> in
                    if hs_state s = Rejected
                    then finish_connection (record_reject m (mc_peer_key c)) cid c' (Inl TransportValidationError)
                    else if hs_state s \<noteq> Established
                    then finish_connection m cid c' (Inl TransportValidationError)
                    else (case connection_to (mc_connection c) Active of
                            Inl e \<Rightarrow> finish_connection m cid c' (Inl e)
                          | Inr a \<Rightarrow> finish_connection m cid (c'\<lparr>mc_connection := a\<rparr>) (Inr ())))))"

definition accept_connection ::
    "manager \<Rightarrow> string \<Rightarrow> string \<Rightarrow> unit res \<Rightarrow> (int \<times> hello res) res \<Rightarrow> unit res
      \<Rightarrow> (int \<times> (string \<times> json) list res) res \<Rightarrow> manager \<times> unit res" where
  "accept_connection m cid peer_key sent_hello received_hello sent_ack received_ack =
     (case prepare_connection m cid peer_key of
        Inl e \<Rightarrow> (m, Inl e)
      | Inr (m1, c) \<Rightarrow>
          (case send_hello (mc_session c) 0 (replicate 64 (CHR ''0'')) of
             (s, Inl e) \<Rightarrow> finish_connection m1 cid (c\<lparr>mc_session := s\<rparr>) (Inl e)
           | (s, Inr _) \<Rightarrow>
               let c1 = c\<lparr>mc_session := s\<rparr> in
               (case bindE sent_hello (\<lambda>_. received_hello) of
                  Inl e \<Rightarrow> finish_connection m1 cid c1 (Inl e)
                | Inr (message_type, decoded) \<Rightarrow>
                    (case handle_hello s message_type decoded of
                       (s', Inl e) \<Rightarrow> finish_connection m1 cid (c\<lparr>mc_session := s'\<rparr>) (Inl e)
                     | (s', Inr _) \<Rightarrow>
                         let c2 = c\<lparr>mc_session := s'\<rparr> in
                         if hs_state s' = Rejected
                         then finish_connection (record_reject m1 peer_key) cid c2 (Inl TransportValidationError)
                         else accept_hello m1 cid c2 sent_ack received_ack))))"

definition remove_connection :: "manager \<Rightarrow> string \<Rightarrow> manager \<times> unit res" where
  "remove_connection m cid =
     (case map_of (cm_connections m) cid of
        None \<Rightarrow> (m, Inr ())
      | Some c \<Rightarrow> (drop_connection m cid, snd (close_session (mc_session c))))"

section \<open>What an established session knows of its peer\<close>

text \<open>The sessions any sequence of calls can build; \<open>establish\<close> is the transition that
  \<open>register_inbound\<close> makes itself.\<close>

inductive session_reachable :: "handshake_context \<Rightarrow> session \<Rightarrow> bool" for ctx :: handshake_context where
  init: "session_reachable ctx (new_session ctx)"
| send: "session_reachable ctx s \<Longrightarrow> send_hello s h w = (s', r) \<Longrightarrow> session_reachable ctx s'"
| hello: "session_reachable ctx s \<Longrightarrow> handle_hello s t d = (s', r) \<Longrightarrow> session_reachable ctx s'"
| ack: "session_reachable ctx s \<Longrightarrow> handle_hello_ack s t a = (s', r) \<Longrightarrow> session_reachable ctx s'"
| reject: "session_reachable ctx s \<Longrightarrow> reject_session s reason = (s', r) \<Longrightarrow> session_reachable ctx s'"
| establish: "session_reachable ctx s \<Longrightarrow> transition_to s Established = (s', r) \<Longrightarrow> session_reachable ctx s'"
| close: "session_reachable ctx s \<Longrightarrow> close_session s = (s', r) \<Longrightarrow> session_reachable ctx s'"

definition peer_checked :: "handshake_context \<Rightarrow> session \<Rightarrow> bool" where
  "peer_checked ctx s =
     (case hs_peer_info s of None \<Rightarrow> False
      | Some msg \<Rightarrow> hl_protocol_version msg = hc_protocol_version ctx \<and> hl_network_id msg = hc_network_id ctx
          \<and> hl_genesis_hash msg = hc_genesis_hash ctx
          \<and> hs_capabilities s = Some (filter (\<lambda>f. f \<in> set (hl_feature_bits msg)) (hc_local_features ctx)))"

definition session_inv :: "handshake_context \<Rightarrow> session \<Rightarrow> bool" where
  "session_inv ctx s =
     (hs_context s = ctx \<and> (hs_state s \<in> {WaitHelloAck, Validating, Established} \<longrightarrow> peer_checked ctx s)
      \<and> (hs_state s \<in> {HNew, SendHello, WaitHelloAck, Validating, Established} \<longrightarrow> hs_reject_reason s = None))"

lemma transition_to_Pair:
  "transition_to s new = (s', r) \<longleftrightarrow>
     (if new \<in> set (handshake_transitions (hs_state s)) then s' = s\<lparr>hs_state := new\<rparr> \<and> r = Inr () else s' = s \<and> r = Inl TransportStateError)"
  by (auto simp: transition_to_def)

lemma peer_checked_update [simp]:
  "peer_checked ctx (s\<lparr>hs_state := x\<rparr>) = peer_checked ctx s" "peer_checked ctx (s\<lparr>hs_reject_reason := y\<rparr>) = peer_checked ctx s"
  by (simp_all add: peer_checked_def split: option.split)

lemma reject_inv:
  assumes "session_inv ctx s" and "reject_session s reason = (s', r)"
  shows "session_inv ctx s'"
  using assms by (cases "hs_state s") (auto simp: reject_session_def session_inv_def Let_def transition_to_Pair)

lemma transition_inv:
  assumes "session_inv ctx s" and "transition_to s new = (s', r)"
    and "new \<in> {WaitHelloAck, Validating, Established} \<longrightarrow> peer_checked ctx s"
    and "new \<in> set (handshake_transitions (hs_state s)) \<longrightarrow> new \<noteq> Rejected \<longrightarrow> new \<noteq> HClosed \<longrightarrow> hs_reject_reason s = None"
  shows "session_inv ctx s'"
  using assms by (auto simp: session_inv_def transition_to_Pair split: if_split_asm)

lemma handle_hello_inv:
  assumes "session_inv ctx s" and "handle_hello s t d = (s', r)"
  shows "session_inv ctx s'"
proof (cases "t = HELLO \<and> hs_state s \<in> {HNew, SendHello, WaitHelloAck} \<and> (\<exists>m. d = Inr m \<and> validate_hello (hs_context s) m = None)")
  case False
  then have "\<exists>reason. reject_session s reason = (s', r)"
    using assms(2) by (auto simp: handle_hello_def split: if_split_asm sum.split_asm option.split_asm)
  with assms(1) show ?thesis by (auto intro: reject_inv)
next
  case True
  then obtain m where m: "t = HELLO" "d = Inr m" "validate_hello (hs_context s) m = None"
    "hs_state s \<in> {HNew, SendHello, WaitHelloAck}" by blast
  have ctx: "hs_context s = ctx" and none: "hs_reject_reason s = None"
    using assms(1) m(4) by (auto simp: session_inv_def)
  let ?s = "s\<lparr>hs_peer_info := Some m,
      hs_capabilities := Some (filter (\<lambda>f. f \<in> set (hl_feature_bits m)) (hc_local_features (hs_context s)))\<rparr>"
  have checked: "peer_checked ctx ?s"
    using m(3) ctx by (auto simp: peer_checked_def validate_hello_def split: if_split_asm)
  then have inv: "session_inv ctx ?s" using ctx none by (simp add: session_inv_def)
  from assms(2) m have "(s' = ?s \<and> r = Inr ()) \<or> (\<exists>new. transition_to ?s new = (s', r))"
    by (auto simp: handle_hello_def Let_def split: if_split_asm)
  then show ?thesis
    using inv checked none by (auto intro: transition_inv)
qed

lemma ack_inv:
  assumes "session_inv ctx s" and "handle_hello_ack s t a = (s', r)"
  shows "session_inv ctx s'"
proof -
  have "(\<exists>reason. reject_session s reason = (s', r)) \<or> (transition_to s Established = (s', r) \<and> hs_state s = WaitHelloAck)"
    using assms(2) by (auto simp: handle_hello_ack_def split: if_split_asm sum.split_asm)
  then show ?thesis
  proof
    assume "\<exists>reason. reject_session s reason = (s', r)"
    with assms(1) show ?thesis by (auto intro: reject_inv)
  next
    assume "transition_to s Established = (s', r) \<and> hs_state s = WaitHelloAck"
    with assms(1) show ?thesis by (auto simp: session_inv_def transition_to_Pair)
  qed
qed

lemma session_reachable_inv: "session_reachable ctx s \<Longrightarrow> session_inv ctx s"
proof (induction rule: session_reachable.induct)
  case init
  then show ?case by (simp add: session_inv_def new_session_def)
next
  case (send s h w s' r)
  then show ?case
    by (auto simp: send_hello_def session_inv_def transition_to_def split: if_split_asm prod.split_asm sum.split_asm)
next
  case (establish s s' r)
  then show ?case
    by (cases "hs_state s") (auto simp: session_inv_def transition_to_Pair)
next
  case (close s s' r)
  then show ?case
    by (cases "hs_state s") (auto simp: session_inv_def close_session_def transition_to_Pair)
qed (auto intro: handle_hello_inv ack_inv reject_inv)

text \<open>C14: an established session has a checked peer: in every session any sequence of calls can
  build, being established (or one message away from it) means that a HELLO with the own
  protocol version, network name and genesis hash was received, that the capabilities are the
  common features, and that nothing was rejected.\<close>

theorem handshake_established_checked:
  assumes "session_reachable ctx s" and "hs_state s \<in> {WaitHelloAck, Validating, Established}"
  shows "peer_checked ctx s \<and> hs_reject_reason s = None \<and> hs_context s = ctx"
  using session_reachable_inv [OF assms(1)] assms(2) by (auto simp: session_inv_def)

definition demo_context :: handshake_context where
  "demo_context = \<lparr>hc_network_id = ''n'', hc_genesis_hash = zero_hash, hc_local_features = [''sync'', ''relay''],
     hc_protocol_version = 1\<rparr>"

definition demo_hello :: hello where
  "demo_hello = \<lparr>hl_protocol_version = 1, hl_network_id = ''n'', hl_genesis_hash = zero_hash, hl_best_height = 3,
     hl_best_chain_work = zero_hash, hl_feature_bits = [''relay'', ''x''], hl_node_limits = []\<rparr>"

theorem handshake_established_checked_witness:
  "\<exists>s. handle_hello (new_session demo_context) HELLO (Inr demo_hello) = (s, Inr ())
     \<and> hs_capabilities s = Some [''relay''] \<and> peer_checked demo_context s"
proof -
  obtain s where s: "handle_hello (new_session demo_context) HELLO (Inr demo_hello) = (s, Inr ())"
    "hs_state s = Validating" "hs_capabilities s = Some [''relay'']"
    by (simp add: handle_hello_def new_session_def demo_context_def demo_hello_def validate_hello_def transition_to_def)
  from handshake_established_checked [OF session_reachable.hello [OF session_reachable.init s(1)]] s
  show ?thesis by blast
qed

section \<open>A connection that says nothing\<close>

lemma prepare_connection_ok:
  assumes "peer \<notin> set (cm_banned_peers m)" and "length (cm_connections m) < cm_max_connections m"
    and "cid \<notin> set (map fst (cm_connections m))"
  shows "prepare_connection m cid peer =
    (let c = \<lparr>mc_session = new_session (cm_context m), mc_connection = Opening, mc_peer_key = peer\<rparr>
     in Inr (set_connection m cid c, c))"
proof -
  have "map_of (cm_connections m) cid = None" using assms(3) by (simp add: map_of_eq_None_iff)
  with assms(1,2) show ?thesis by (simp add: prepare_connection_def connection_to_def Let_def)
qed

lemma update_new: "k \<notin> set (map fst al) \<Longrightarrow> AList.update k v al = al @ [(k, v)]"
  by (induction al) auto

lemma update_last: "k \<notin> set (map fst al) \<Longrightarrow> AList.update k v (al @ [(k, w)]) = al @ [(k, v)]"
  by (induction al) auto

lemma silent_inbound:
  assumes "peer \<notin> set (cm_banned_peers m)" and "length (cm_connections m) < cm_max_connections m"
    and "cid \<notin> set (map fst (cm_connections m))"
  shows "register_inbound m cid peer (Inl e) sent =
    (m\<lparr>cm_connections := cm_connections m @ [(cid, \<lparr>mc_session = new_session (cm_context m), mc_connection = Opening,
        mc_peer_key = peer\<rparr>)]\<rparr>, Inl TransportStateError)"
proof -
  have close: "close_session (new_session x) = (new_session x, Inl TransportStateError)" for x
    by (simp add: close_session_def new_session_def transition_to_def)
  have new: "hs_state (new_session x) = HNew" for x by (simp add: new_session_def)
  show ?thesis
    using assms(3)
    by (simp add: register_inbound_def prepare_connection_ok [OF assms] Let_def finish_connection_def close new
        set_connection_def update_new update_last)
qed

text \<open>Inbound connections that end before their HELLO, one after the other.\<close>

definition silent_connections :: "manager \<Rightarrow> string \<Rightarrow> py_error \<Rightarrow> string list \<Rightarrow> manager" where
  "silent_connections m peer e cids = foldl (\<lambda>m cid. fst (register_inbound m cid peer (Inl e) (Inr ()))) m cids"

lemma silent_connections_fill:
  assumes "peer \<notin> set (cm_banned_peers m)" and "length (cm_connections m) + length cids \<le> cm_max_connections m"
    and "distinct (map fst (cm_connections m) @ cids)"
  shows "length (cm_connections (silent_connections m peer e cids)) = length (cm_connections m) + length cids
    \<and> cm_max_connections (silent_connections m peer e cids) = cm_max_connections m
    \<and> cm_banned_peers (silent_connections m peer e cids) = cm_banned_peers m"
  using assms
proof (induction cids arbitrary: m)
  case (Cons cid cids)
  then have fresh: "cid \<notin> set (map fst (cm_connections m))" "length (cm_connections m) < cm_max_connections m" by auto
  let ?m = "fst (register_inbound m cid peer (Inl e) (Inr ()))"
  have m: "?m = m\<lparr>cm_connections := cm_connections m @ [(cid, \<lparr>mc_session = new_session (cm_context m),
      mc_connection = Opening, mc_peer_key = peer\<rparr>)]\<rparr>"
    using silent_inbound [OF Cons.prems(1) fresh(2,1)] by simp
  have "silent_connections m peer e (cid # cids) = silent_connections ?m peer e cids"
    by (simp add: silent_connections_def)
  moreover have "length (cm_connections (silent_connections ?m peer e cids)) = length (cm_connections ?m) + length cids
    \<and> cm_max_connections (silent_connections ?m peer e cids) = cm_max_connections ?m
    \<and> cm_banned_peers (silent_connections ?m peer e cids) = cm_banned_peers ?m"
    by (rule Cons.IH) (use Cons.prems m in auto)
  ultimately show ?case using m by simp
qed (simp add: silent_connections_def)

text \<open>Silent inbound connections use up the manager for good: each connection that ends
  before its HELLO stays registered (closing a session in its first state raises, so the
  removal is skipped), the peer is never banned for it, and once as many have come as there
  are slots every later inbound connection of any peer that is not banned is refused.\<close>

theorem silent_connections_exhaust:
  assumes "cm_connections m = []" and "distinct cids" and "length cids = cm_max_connections m"
    and "peer \<notin> set (cm_banned_peers m)"
  shows "available_slots (silent_connections m peer e cids) = 0
    \<and> cm_banned_peers (silent_connections m peer e cids) = cm_banned_peers m
    \<and> register_inbound (silent_connections m peer e cids) cid peer' received sent
        = (silent_connections m peer e cids, Inl TransportLimitError)"
proof -
  have f: "length (cm_connections (silent_connections m peer e cids)) = cm_max_connections m"
    "cm_max_connections (silent_connections m peer e cids) = cm_max_connections m"
    "cm_banned_peers (silent_connections m peer e cids) = cm_banned_peers m"
    using silent_connections_fill [of peer m cids e] assms by simp_all
  then show ?thesis
    by (simp add: available_slots_def register_inbound_def prepare_connection_def)
qed

definition demo_manager :: manager where
  "demo_manager = \<lparr>cm_context = demo_context, cm_max_connections = 2, cm_connections = [],
     cm_reject_counts = (\<lambda>_. 0), cm_banned_peers = []\<rparr>"

theorem silent_connections_exhaust_witness:
  "snd (register_inbound (silent_connections demo_manager ''p'' TransportClosedError [''a'', ''b'']) ''c'' ''q''
     (Inr (HELLO, Inr demo_hello)) (Inr ())) = Inl TransportLimitError"
  using silent_connections_exhaust [of demo_manager "[''a'', ''b'']" "''p''" TransportClosedError "''c''" "''q''"
      "Inr (HELLO, Inr demo_hello)" "Inr ()"]
  by (simp add: demo_manager_def)

end
