(* ===== verification/Messages.thy ===== *)
theory Messages
  imports Json_Access Handshake
begin

text \<open>
  \<open>network/messages.py\<close> with \<open>network/codec.py\<close> and \<open>network/validation.py\<close>: the typed
  payloads of the protocol, their validation and their canonical JSON.  A payload class is a
  constructor of \<open>message\<close> (\<open>HelloMessage\<close> is the record \<open>hello\<close> of the handshake);
  \<open>decode_message\<close> is the lookup in \<open>MESSAGE_PAYLOAD_CLASSES\<close> followed by
  \<open>from_payload\<close>.
\<close>

section \<open>Codec and validation\<close>

definition encode_payload :: "json \<Rightarrow> bytes res" where
  "encode_payload obj = bindE (json_dumps canonical_style obj) encode_utf8"

definition decode_payload :: "runtime \<Rightarrow> bytes \<Rightarrow> json res" where
  "decode_payload R payload = loads R payload"

fun validate_hex_hash :: "json \<Rightarrow> unit res" where
  "validate_hex_hash (JStr s) = checkE (hex64 s) NetworkValidationError"
| "validate_hex_hash _ = Inl NetworkValidationError"

fun validate_nonnegative_int :: "json \<Rightarrow> unit res" where
  "validate_nonnegative_int (JInt i) = checkE (0 \<le> i) NetworkValidationError"
| "validate_nonnegative_int _ = Inl NetworkValidationError"

definition GET_HEADERS :: int where "GET_HEADERS = 0x05"
definition HEADERS :: int where "HEADERS = 0x06"
definition GET_BLOCK :: int where "GET_BLOCK = 0x07"
definition BLOCK :: int where "BLOCK = 0x08"
definition GET_ARCHIVE :: int where "GET_ARCHIVE = 0x09"
definition ARCHIVE :: int where "ARCHIVE = 0x0A"
definition INVENTORY :: int where "INVENTORY = 0x0B"
definition GET_DATA :: int where "GET_DATA = 0x0C"
definition REJECT :: int where "REJECT = 0x0D"

definition MAX_HEADERS_RESPONSE :: nat where "MAX_HEADERS_RESPONSE = 2000"
definition MAX_BLOCKS_RESPONSE :: nat where "MAX_BLOCKS_RESPONSE = 32"
definition MAX_INVENTORY_ENTRIES :: nat where "MAX_INVENTORY_ENTRIES = 5000"
definition MAX_LOCATOR_SIZE :: nat where "MAX_LOCATOR_SIZE = 32"
definition DEFAULT_GOSSIP_TTL :: int where "DEFAULT_GOSSIP_TTL = 3"

lemmas message_types = HELLO_def HELLO_ACK_def PING_def PONG_def GET_HEADERS_def HEADERS_def GET_BLOCK_def
  BLOCK_def GET_ARCHIVE_def ARCHIVE_def INVENTORY_def GET_DATA_def REJECT_def

text \<open>\<open>if not isinstance(xs, list) or len(xs) > n: raise \<dots> len(xs)\<close>: the message itself
  raises \<open>TypeError\<close> for a value without a length.\<close>

fun bounded_list :: "nat \<Rightarrow> json \<Rightarrow> json list res" where
  "bounded_list n (JList xs) = (if length xs > n then Inl NetworkValidationError else Inr xs)"
| "bounded_list n (JStr _) = Inl NetworkValidationError"
| "bounded_list n (JDict _) = Inl NetworkValidationError"
| "bounded_list n _ = Inl TypeError"

section \<open>The payload classes\<close>

record header_entry =
  he_height :: int
  he_hash :: string
  he_bytes :: string

datatype message =
    MHello hello
  | MHelloAck hello bool
  | MPing int
  | MPong int
  | MGetHeaders "string list" "string option" int
  | MHeaders "header_entry list"
  | MGetBlock "string list" int
  | MBlock "(string \<times> string) list"
  | MGetArchive string
  | MArchive string
  | MInventory string "string list"
  | MGetData string "string list"
  | MReject string string "int option"

definition strings :: "string list \<Rightarrow> json" where
  "strings ss = JList (map JStr ss)"

definition hello_fields :: "hello \<Rightarrow> (string \<times> json) list" where
  "hello_fields m =
     [(''protocol_version'', JInt (hl_protocol_version m)), (''network_id'', JStr (hl_network_id m)),
      (''genesis_hash'', JStr (hl_genesis_hash m)), (''best_height'', JInt (hl_best_height m)),
      (''best_chain_work'', JStr (hl_best_chain_work m)), (''feature_bits'', strings (sort (hl_feature_bits m))),
      (''node_limits'', JDict (map (\<lambda>(k, v). (k, JInt v)) (sort_key fst (hl_node_limits m))))]"

definition hello_from :: "runtime \<Rightarrow> json \<Rightarrow> hello res" where
  "hello_from R obj =
     thenE (require_keys NetworkValidationError obj
              [''protocol_version'', ''network_id'', ''genesis_hash'', ''best_height'', ''best_chain_work''])
    (bindE (jindex obj ''genesis_hash'') (\<lambda>genesis_hash.
     thenE (validate_hex_hash genesis_hash)
    (bindE (jindex obj ''best_chain_work'') (\<lambda>best_chain_work.
     thenE (validate_hex_hash best_chain_work)
    (bindE (jindex obj ''best_height'') (\<lambda>best_height.
     thenE (validate_nonnegative_int best_height)
    (bindE (bindE (jindex obj ''protocol_version'') (py_int R)) (\<lambda>protocol_version.
     bindE (jindex obj ''network_id'') (\<lambda>network_id.
     bindE (py_int R best_height) (\<lambda>height.
     bindE (bindE (jget obj ''feature_bits'' (JList [])) jiter) (\<lambda>features.
     bindE (bindE (jget obj ''node_limits'' (JDict [])) jitems) (\<lambda>limits.
     bindE (mapE (\<lambda>(k, v). bindE (py_int R v) (\<lambda>i. Inr (k, i))) limits) (\<lambda>node_limits.
       Inr \<lparr>hl_protocol_version = protocol_version, hl_network_id = py_str R network_id,
            hl_genesis_hash = py_str R genesis_hash, hl_best_height = height,
            hl_best_chain_work = py_str R best_chain_work, hl_feature_bits = map (py_str R) features,
            hl_node_limits = node_limits\<rparr>)))))))))))))"

definition hello_ack_from :: "runtime \<Rightarrow> json \<Rightarrow> (hello \<times> bool) res" where
  "hello_ack_from R obj =
     bindE (hello_from R obj) (\<lambda>m.
     bindE (jget obj ''handshake_complete'' (JBool False)) (\<lambda>b. Inr (m, truthy b)))"

definition nonce_from :: "runtime \<Rightarrow> json \<Rightarrow> int res" where
  "nonce_from R obj =
     thenE (require_keys NetworkValidationError obj [''nonce''])
    (bindE (jindex obj ''nonce'') (\<lambda>nonce. thenE (validate_nonnegative_int nonce) (py_int R nonce)))"

definition hashes_from :: "runtime \<Rightarrow> nat \<Rightarrow> json \<Rightarrow> string \<Rightarrow> string list res" where
  "hashes_from R n obj k =
     bindE (bindE (jget obj k (JList [])) (bounded_list n)) (\<lambda>hashes.
     thenE (forE validate_hex_hash hashes) (Inr (map (py_str R) hashes)))"

definition get_headers_from :: "runtime \<Rightarrow> json \<Rightarrow> message res" where
  "get_headers_from R obj =
     bindE (hashes_from R MAX_LOCATOR_SIZE obj ''start_hashes'') (\<lambda>start_hashes.
     bindE (jget obj ''stop_hash'' JNull) (\<lambda>stop_hash.
     thenE (if stop_hash \<noteq> JNull then validate_hex_hash stop_hash else Inr ())
    (bindE (bindE (jget obj ''max_count'' (JInt 0)) (py_int R)) (\<lambda>max_count.
     thenE (checkE (\<not> (max_count \<le> 0 \<or> max_count > int MAX_HEADERS_RESPONSE)) NetworkValidationError)
       (Inr (MGetHeaders start_hashes (if stop_hash \<noteq> JNull then Some (py_str R stop_hash) else None) max_count))))))"

definition header_entry_from :: "runtime \<Rightarrow> json \<Rightarrow> header_entry res" where
  "header_entry_from R entry =
     bindE (jindex entry ''hash'') (\<lambda>h. thenE (validate_hex_hash h)
    (bindE (jindex entry ''height'') (\<lambda>n. thenE (validate_nonnegative_int n)
    (bindE (jget entry ''header_bytes'' JNull) (\<lambda>b. thenE (checkE (is_str b) NetworkValidationError)
    (bindE (py_int R n) (\<lambda>height.
       Inr \<lparr>he_height = height, he_hash = py_str R h, he_bytes = py_str R b\<rparr>)))))))"

definition headers_from :: "runtime \<Rightarrow> json \<Rightarrow> message res" where
  "headers_from R obj =
     bindE (bindE (jget obj ''headers'' (JList [])) (bounded_list MAX_HEADERS_RESPONSE)) (\<lambda>headers.
     bindE (mapE (header_entry_from R) headers) (\<lambda>entries. Inr (MHeaders entries)))"

definition get_block_from :: "runtime \<Rightarrow> json \<Rightarrow> message res" where
  "get_block_from R obj =
     bindE (hashes_from R MAX_BLOCKS_RESPONSE obj ''hashes'') (\<lambda>hashes.
     bindE (bindE (jget obj ''max_total_bytes'' (JInt 0)) (py_int R)) (\<lambda>max_total_bytes.
     thenE (checkE (\<not> max_total_bytes \<le> 0) NetworkValidationError) (Inr (MGetBlock hashes max_total_bytes))))"

definition block_entry_check :: "json \<Rightarrow> unit res" where
  "block_entry_check b =
     bindE (has_key b ''hash'') (\<lambda>h.
     bindE (if h then has_key b ''block_bytes'' else Inr False) (\<lambda>ok.
     thenE (checkE ok NetworkValidationError) (bindE (jindex b ''hash'') validate_hex_hash)))"

definition block_from :: "runtime \<Rightarrow> json \<Rightarrow> message res" where
  "block_from R obj =
     bindE (bindE (jget obj ''blocks'' (JList [])) (bounded_list MAX_BLOCKS_RESPONSE)) (\<lambda>blocks.
     thenE (forE block_entry_check blocks)
    (bindE (mapE (\<lambda>b. bindE (jindex b ''hash'') (\<lambda>h. bindE (jindex b ''block_bytes'') (\<lambda>d.
              Inr (py_str R h, py_str R d)))) blocks) (\<lambda>entries. Inr (MBlock entries))))"

definition inventory_types :: "string list" where
  "inventory_types = [''headers'', ''blocks'', ''archive'', ''transactions'']"

definition inventory_from :: "runtime \<Rightarrow> json \<Rightarrow> (string \<times> string list) res" where
  "inventory_from R obj =
     bindE (jget obj ''type'' (JStr [])) (\<lambda>t.
     thenE (checkE (py_str R t \<in> set inventory_types) NetworkValidationError)
    (bindE (hashes_from R MAX_INVENTORY_ENTRIES obj ''hashes'') (\<lambda>hashes. Inr (py_str R t, hashes))))"

definition content_hash_from :: "runtime \<Rightarrow> json \<Rightarrow> string res" where
  "content_hash_from R obj =
     thenE (require_keys NetworkValidationError obj [''content_hash''])
    (bindE (jindex obj ''content_hash'') (\<lambda>h. thenE (validate_hex_hash h) (Inr (py_str R h))))"

definition reject_from :: "runtime \<Rightarrow> json \<Rightarrow> message res" where
  "reject_from R obj =
     thenE (require_keys NetworkValidationError obj [''code'', ''reason''])
    (bindE (jget obj ''offending_message_type'' JNull) (\<lambda>offending.
     bindE (jindex obj ''code'') (\<lambda>code.
     bindE (jindex obj ''reason'') (\<lambda>reason.
     bindE (if offending = JNull then Inr None else bindE (py_int R offending) (\<lambda>i. Inr (Some i))) (\<lambda>t.
       Inr (MReject (py_str R code) (py_str R reason) t))))))"

section \<open>Encoding and dispatch\<close>

fun message_type :: "message \<Rightarrow> int" where
  "message_type (MHello _) = HELLO"
| "message_type (MHelloAck _ _) = HELLO_ACK"
| "message_type (MPing _) = PING"
| "message_type (MPong _) = PONG"
| "message_type (MGetHeaders _ _ _) = GET_HEADERS"
| "message_type (MHeaders _) = HEADERS"
| "message_type (MGetBlock _ _) = GET_BLOCK"
| "message_type (MBlock _) = BLOCK"
| "message_type (MGetArchive _) = GET_ARCHIVE"
| "message_type (MArchive _) = ARCHIVE"
| "message_type (MInventory _ _) = INVENTORY"
| "message_type (MGetData _ _) = GET_DATA"
| "message_type (MReject _ _ _) = REJECT"

definition header_entry_json :: "header_entry \<Rightarrow> json" where
  "header_entry_json h = JDict [(''height'', JInt (he_height h)), (''hash'', JStr (he_hash h)),
     (''header_bytes'', JStr (he_bytes h))]"

definition block_entry_json :: "string \<times> string \<Rightarrow> json" where
  "block_entry_json b = JDict [(''hash'', JStr (fst b)), (''block_bytes'', JStr (snd b))]"

definition hello_ack_fields :: "hello \<Rightarrow> bool \<Rightarrow> (string \<times> json) list" where
  "hello_ack_fields m c = hello_fields m @ [(''handshake_complete'', JBool c)]"

definition nonce_fields :: "int \<Rightarrow> (string \<times> json) list" where
  "nonce_fields n = [(''nonce'', JInt n)]"

definition get_headers_fields :: "string list \<Rightarrow> string option \<Rightarrow> int \<Rightarrow> (string \<times> json) list" where
  "get_headers_fields hs stop n =
     [(''start_hashes'', strings hs), (''stop_hash'', case stop of None \<Rightarrow> JNull | Some h \<Rightarrow> JStr h), (''max_count'', JInt n)]"

definition headers_fields :: "header_entry list \<Rightarrow> (string \<times> json) list" where
  "headers_fields hs = [(''headers'', JList (map header_entry_json hs))]"

definition get_block_fields :: "string list \<Rightarrow> int \<Rightarrow> (string \<times> json) list" where
  "get_block_fields hs n = [(''hashes'', strings hs), (''max_total_bytes'', JInt n)]"

definition block_fields :: "(string \<times> string) list \<Rightarrow> (string \<times> json) list" where
  "block_fields bs = [(''blocks'', JList (map block_entry_json bs))]"

definition content_hash_fields :: "string \<Rightarrow> (string \<times> json) list" where
  "content_hash_fields h = [(''content_hash'', JStr h)]"

definition inventory_fields :: "string \<Rightarrow> string list \<Rightarrow> (string \<times> json) list" where
  "inventory_fields t hs = [(''type'', JStr t), (''hashes'', strings hs)]"

definition reject_fields :: "string \<Rightarrow> string \<Rightarrow> int option \<Rightarrow> (string \<times> json) list" where
  "reject_fields c r t = [(''code'', JStr c), (''reason'', JStr r)]
     @ (case t of None \<Rightarrow> [] | Some i \<Rightarrow> [(''offending_message_type'', JInt i)])"

lemmas fields_defs [simp] = hello_ack_fields_def nonce_fields_def get_headers_fields_def headers_fields_def
  get_block_fields_def block_fields_def content_hash_fields_def inventory_fields_def reject_fields_def

fun message_fields :: "message \<Rightarrow> (string \<times> json) list" where
  "message_fields (MHello m) = hello_fields m"
| "message_fields (MHelloAck m c) = hello_ack_fields m c"
| "message_fields (MPing n) = nonce_fields n"
| "message_fields (MPong n) = nonce_fields n"
| "message_fields (MGetHeaders hs stop n) = get_headers_fields hs stop n"
| "message_fields (MHeaders hs) = headers_fields hs"
| "message_fields (MGetBlock hs n) = get_block_fields hs n"
| "message_fields (MBlock bs) = block_fields bs"
| "message_fields (MGetArchive h) = content_hash_fields h"
| "message_fields (MArchive h) = content_hash_fields h"
| "message_fields (MInventory t hs) = inventory_fields t hs"
| "message_fields (MGetData t hs) = inventory_fields t hs"
| "message_fields (MReject c r t) = reject_fields c r t"

definition to_payload :: "message \<Rightarrow> bytes res" where
  "to_payload m = encode_payload (JDict (message_fields m))"

definition message_from :: "runtime \<Rightarrow> int \<Rightarrow> json \<Rightarrow> message res" where
  "message_from R t obj =
     (if t = HELLO then bindE (hello_from R obj) (\<lambda>m. Inr (MHello m))
      else if t = HELLO_ACK then bindE (hello_ack_from R obj) (\<lambda>(m, c). Inr (MHelloAck m c))
      else if t = PING then bindE (nonce_from R obj) (\<lambda>n. Inr (MPing n))
      else if t = PONG then bindE (nonce_from R obj) (\<lambda>n. Inr (MPong n))
      else if t = GET_HEADERS then get_headers_from R obj
      else if t = HEADERS then headers_from R obj
      else if t = GET_BLOCK then get_block_from R obj
      else if t = BLOCK then block_from R obj
      else if t = GET_ARCHIVE then bindE (content_hash_from R obj) (\<lambda>h. Inr (MGetArchive h))
      else if t = ARCHIVE then bindE (content_hash_from R obj) (\<lambda>h. Inr (MArchive h))
      else if t = INVENTORY then bindE (inventory_from R obj) (\<lambda>(ty, hs). Inr (MInventory ty hs))
      else if t = GET_DATA then bindE (inventory_from R obj) (\<lambda>(ty, hs). Inr (MGetData ty hs))
      else if t = REJECT then reject_from R obj
      else Inl KeyError)"

definition decode_message :: "runtime \<Rightarrow> int \<Rightarrow> bytes \<Rightarrow> message res" where
  "decode_message R t payload = bindE (decode_payload R payload) (message_from R t)"

section \<open>Peer exchange\<close>

record pex =
  px_peers :: "json list"
  px_ttl :: int
  px_hop_count :: int

definition new_pex :: "json list \<Rightarrow> int \<Rightarrow> int \<Rightarrow> pex" where
  "new_pex peers ttl hop_count = \<lparr>px_peers = peers, px_ttl = max 0 ttl, px_hop_count = max 0 hop_count\<rparr>"

fun is_int_or_bool :: "json \<Rightarrow> bool" where
  "is_int_or_bool (JInt _) = True"
| "is_int_or_bool (JBool _) = True"
| "is_int_or_bool _ = False"

fun pex_peer_ok :: "json \<Rightarrow> bool" where
  "pex_peer_ok (JDict d) = (is_str (dget d ''host'' JNull) \<and> is_int_or_bool (dget d ''port'' JNull))"
| "pex_peer_ok _ = False"

definition pex_fields :: "pex \<Rightarrow> (string \<times> json) list" where
  "pex_fields p = [(''peers'', JList (px_peers p)), (''ttl'', JInt (px_ttl p)), (''hop_count'', JInt (px_hop_count p))]"

definition pex_from :: "runtime \<Rightarrow> json \<Rightarrow> pex res" where
  "pex_from R obj =
     (case obj of
        JDict d \<Rightarrow>
          (case dget d ''peers'' (JList []) of
             JList peers \<Rightarrow>
               thenE (checkE (length peers \<le> 16) NetworkValidationError)
              (thenE (checkE (list_all pex_peer_ok peers) NetworkValidationError)
              (let ttl = dget d ''ttl'' (JInt DEFAULT_GOSSIP_TTL); hop_count = dget d ''hop_count'' (JInt 0) in
               thenE (validate_nonnegative_int ttl)
              (thenE (validate_nonnegative_int hop_count)
              (bindE (py_int R ttl) (\<lambda>t. bindE (py_int R hop_count) (\<lambda>h. Inr (new_pex peers t h)))))))
           | _ \<Rightarrow> Inl NetworkValidationError)
      | _ \<Rightarrow> Inl NetworkValidationError)"

section \<open>Round trip\<close>

text \<open>The messages that survive the trip; \<open>canon_message\<close> sorts what \<open>to_payload\<close> sorts.\<close>

definition wf_hello :: "hello \<Rightarrow> bool" where
  "wf_hello m = (hex64 (hl_genesis_hash m) \<and> hex64 (hl_best_chain_work m) \<and> 0 \<le> hl_best_height m
     \<and> utf8_valid (hl_network_id m) \<and> list_all utf8_valid (hl_feature_bits m)
     \<and> distinct (map fst (hl_node_limits m)) \<and> list_all (\<lambda>(k, v). utf8_valid k) (hl_node_limits m))"

definition wf_header_entry :: "header_entry \<Rightarrow> bool" where
  "wf_header_entry h = (0 \<le> he_height h \<and> hex64 (he_hash h) \<and> utf8_valid (he_bytes h))"

fun wf_message :: "message \<Rightarrow> bool" where
  "wf_message (MHello m) = wf_hello m"
| "wf_message (MHelloAck m c) = wf_hello m"
| "wf_message (MPing n) = (0 \<le> n)"
| "wf_message (MPong n) = (0 \<le> n)"
| "wf_message (MGetHeaders hs stop n) =
     (list_all hex64 hs \<and> length hs \<le> MAX_LOCATOR_SIZE \<and> pred_option hex64 stop \<and> 0 < n \<and> n \<le> int MAX_HEADERS_RESPONSE)"
| "wf_message (MHeaders hs) = (list_all wf_header_entry hs \<and> length hs \<le> MAX_HEADERS_RESPONSE)"
| "wf_message (MGetBlock hs n) = (list_all hex64 hs \<and> length hs \<le> MAX_BLOCKS_RESPONSE \<and> 0 < n)"
| "wf_message (MBlock bs) = (list_all (\<lambda>(h, d). hex64 h \<and> utf8_valid d) bs \<and> length bs \<le> MAX_BLOCKS_RESPONSE)"
| "wf_message (MGetArchive h) = hex64 h"
| "wf_message (MArchive h) = hex64 h"
| "wf_message (MInventory t hs) = (t \<in> set inventory_types \<and> list_all hex64 hs \<and> length hs \<le> MAX_INVENTORY_ENTRIES)"
| "wf_message (MGetData t hs) = (t \<in> set inventory_types \<and> list_all hex64 hs \<and> length hs \<le> MAX_INVENTORY_ENTRIES)"
| "wf_message (MReject c r t) = (utf8_valid c \<and> utf8_valid r)"

definition canon_hello :: "hello \<Rightarrow> hello" where
  "canon_hello m = m\<lparr>hl_feature_bits := sort (hl_feature_bits m), hl_node_limits := sort_key fst (hl_node_limits m)\<rparr>"

fun canon_message :: "message \<Rightarrow> message" where
  "canon_message (MHello m) = MHello (canon_hello m)"
| "canon_message (MHelloAck m c) = MHelloAck (canon_hello m) c"
| "canon_message m = m"

lemma hex64_utf8: "hex64 h \<Longrightarrow> utf8_valid h"
  by (rule utf8_valid_ascii) (auto simp: hex64_def list_all_iff is_lower_hex_def Let_def)

lemma inventory_types_utf8: "t \<in> set inventory_types \<Longrightarrow> utf8_valid t"
  by (rule utf8_valid_ascii) (auto simp: inventory_types_def)

lemma json_wf_strings: "json_wf fl (strings ss) \<longleftrightarrow> list_all utf8_valid ss"
  by (auto simp: strings_def list_all_iff)

lemma norm_strings [simp]: "norm_json (strings ss) = strings ss"
  by (simp add: strings_def)

text \<open>What a \<open>dict\<close> holds after it was written and read.\<close>

definition norm_items :: "(string \<times> json) list \<Rightarrow> (string \<times> json) list" where
  "norm_items d = map (\<lambda>(k, v). (k, norm_json v)) (sort_key fst d)"

lemma map_of_perm:
  assumes "distinct (map fst xs)" and "mset xs = mset ys"
  shows "map_of xs = map_of ys"
proof (rule ext)
  fix k
  have ys: "distinct (map fst ys)" using assms by (metis mset_map mset_eq_imp_distinct_iff)
  have "set xs = set ys" using assms(2) by (rule mset_eq_setD)
  then have "map_of xs k = Some v \<longleftrightarrow> map_of ys k = Some v" for v
    by (simp only: map_of_eq_Some_iff [OF assms(1)] map_of_eq_Some_iff [OF ys])
  then show "map_of xs k = map_of ys k" by (metis option.exhaust)
qed

lemma map_of_norm_items:
  assumes "distinct (map fst d)"
  shows "map_of (norm_items d) k = map_option norm_json (map_of d k)"
proof -
  have "map_of (map (\<lambda>(k, v). (k, norm_json v)) xs) k = map_option norm_json (map_of xs k)" for xs
    by (induction xs) auto
  moreover have "map_of (sort_key fst d) = map_of d" using assms map_of_perm [of d "sort_key fst d"] by simp
  ultimately show ?thesis by (simp add: norm_items_def)
qed

lemma norm_JDict: "norm_json (JDict d) = JDict (norm_items d)"
  by (simp add: norm_items_def)

lemma norm_dget: "distinct (map fst d) \<Longrightarrow> dget (norm_items d) k v = (case map_of d k of None \<Rightarrow> v | Some x \<Rightarrow> norm_json x)"
  by (simp add: dget_def map_of_norm_items split: option.split)

lemma norm_dindex: "distinct (map fst d) \<Longrightarrow> dindex (norm_items d) k = of_option KeyError (map_option norm_json (map_of d k))"
  by (simp add: dindex_def map_of_norm_items)

lemma norm_dkeys: "distinct (map fst d) \<Longrightarrow> k \<in> dkeys (norm_items d) \<longleftrightarrow> map_of d k \<noteq> None"
  by (simp add: dkeys_map_of map_of_norm_items)

lemmas norm_access = norm_dget norm_dindex norm_dkeys

declare norm_json.simps(2) [simp del]

lemma norm_ints: "norm_items (map (\<lambda>(k, v). (k, JInt v)) (sort_key fst d)) = map (\<lambda>(k, v). (k, JInt v)) (sort_key fst d)"
proof -
  have "sort_key fst (map (\<lambda>(k, v). (k, JInt v)) (sort_key fst d)) = map (\<lambda>(k, v). (k, JInt v)) (sort_key fst d)"
    by (rule sort_key_id_if_sorted) (simp add: comp_def case_prod_unfold)
  then show ?thesis by (simp add: norm_items_def comp_def case_prod_unfold)
qed

lemma mapE_ints: "mapE (\<lambda>(k, v). bindE (py_int R v) (\<lambda>i. Inr (k, i))) (map (\<lambda>(k, v). (k, JInt v)) d) = Inr d"
  by (induction d) auto

lemma forE_hashes: "list_all hex64 hs \<Longrightarrow> forE validate_hex_hash (map JStr hs) = Inr ()"
  by (induction hs) (simp_all add: checkE_def)

lemma map_py_str [simp]: "map (py_str R \<circ> JStr) hs = hs"
  by (induction hs) simp_all

lemma hello_from_dict:
  assumes "wf_hello m" and "\<And>k v. map_of (hello_fields m) k = Some v \<Longrightarrow> map_of D k = Some (norm_json v)"
  shows "hello_from R (JDict D) = Inr (canon_hello m)"
proof -
  have f: "map_of (hello_fields m) ''protocol_version'' = Some (JInt (hl_protocol_version m))"
    "map_of (hello_fields m) ''network_id'' = Some (JStr (hl_network_id m))"
    "map_of (hello_fields m) ''genesis_hash'' = Some (JStr (hl_genesis_hash m))"
    "map_of (hello_fields m) ''best_height'' = Some (JInt (hl_best_height m))"
    "map_of (hello_fields m) ''best_chain_work'' = Some (JStr (hl_best_chain_work m))"
    "map_of (hello_fields m) ''feature_bits'' = Some (strings (sort (hl_feature_bits m)))"
    "map_of (hello_fields m) ''node_limits'' = Some (JDict (map (\<lambda>(k, v). (k, JInt v)) (sort_key fst (hl_node_limits m))))"
    by (simp_all add: hello_fields_def)
  note d = f [THEN assms(2)]
  show ?thesis
    using assms(1) [unfolded wf_hello_def]
    by (simp add: hello_from_def require_keys_def d dindex_def dget_def dkeys_map_of checkE_def norm_JDict norm_ints mapE_ints)
      (simp add: strings_def canon_hello_def)
qed

lemma hello_fields_keys:
  "distinct (map fst (hello_fields m))" "distinct (map fst (hello_fields m @ [(''handshake_complete'', JBool c)]))"
  by (simp_all add: hello_fields_def)

lemma hello_from_norm:
  assumes "wf_hello m"
  shows "hello_from R (JDict (norm_items (hello_fields m))) = Inr (canon_hello m)"
    and "hello_ack_from R (JDict (norm_items (hello_fields m @ [(''handshake_complete'', JBool c)]))) = Inr (canon_hello m, c)"
proof -
  show "hello_from R (JDict (norm_items (hello_fields m))) = Inr (canon_hello m)"
    by (rule hello_from_dict [OF assms]) (simp add: map_of_norm_items hello_fields_keys)
  let ?d = "norm_items (hello_fields m @ [(''handshake_complete'', JBool c)])"
  have n: "map_of (hello_fields m) ''handshake_complete'' = None" by (simp add: hello_fields_def)
  then have "hello_from R (JDict ?d) = Inr (canon_hello m)"
    by (intro hello_from_dict [OF assms])
      (auto simp: map_of_norm_items [OF hello_fields_keys(2)] map_add_Some_iff)
  then show "hello_ack_from R (JDict ?d) = Inr (canon_hello m, c)"
    by (simp add: hello_ack_from_def norm_access [OF hello_fields_keys(2)] map_add_def n)
qed

lemma hashes_from_norm:
  assumes "distinct (map fst d)" and "map_of d k = Some (strings hs)" and "list_all hex64 hs" and "length hs \<le> n"
  shows "hashes_from R n (JDict (norm_items d)) k = Inr hs"
  using assms(2-4) forE_hashes [OF assms(3)]
  by (simp add: hashes_from_def norm_access [OF assms(1)]) (simp add: strings_def)

lemma header_entries_norm:
  "list_all wf_header_entry hs \<Longrightarrow> mapE (header_entry_from R) (map (norm_json \<circ> header_entry_json) hs) = Inr hs"
proof (induction hs)
  case (Cons h hs)
  have "distinct (map fst [(''height'', JInt (he_height h)), (''hash'', JStr (he_hash h)), (''header_bytes'', JStr (he_bytes h))])"
    by simp
  note a = norm_access [OF this]
  from Cons show ?case
    by (simp add: header_entry_json_def norm_JDict header_entry_from_def a wf_header_entry_def checkE_def)
qed simp

lemma block_entries_norm:
  assumes "list_all (\<lambda>(h, d). hex64 h \<and> utf8_valid d) bs"
  shows "forE block_entry_check (map (norm_json \<circ> block_entry_json) bs) = Inr ()"
    and "mapE (\<lambda>b. bindE (jindex b ''hash'') (\<lambda>h. bindE (jindex b ''block_bytes'') (\<lambda>d.
            Inr (py_str R h, py_str R d)))) (map (norm_json \<circ> block_entry_json) bs) = Inr bs"
  using assms
proof (induction bs)
  case (Cons b bs)
  have "distinct (map fst [(''hash'', JStr (fst b)), (''block_bytes'', JStr (snd b))])" by simp
  note a = norm_access [OF this]
  case 1
  with Cons show ?case
    by (simp add: block_entry_json_def norm_JDict block_entry_check_def a checkE_def case_prod_unfold)
  case 2
  with Cons show ?case by (simp add: block_entry_json_def norm_JDict a case_prod_unfold)
qed simp_all

lemma message_fields_keys: "distinct (map fst (message_fields m))"
  by (cases m) (simp_all add: hello_fields_def split: option.split)

lemma distinct_sort_keys: "distinct (map f (sort_key g xs)) = distinct (map f xs)"
  by (metis mset_map mset_sort mset_eq_imp_distinct_iff)

lemma message_fields_wf: "wf_message m \<Longrightarrow> json_wf fl (JDict (message_fields m))"
  by (cases m)
    (auto simp: hello_fields_def wf_hello_def json_wf_strings utf8_valid_ascii hex64_utf8 list_all_iff comp_def
      case_prod_unfold header_entry_json_def wf_header_entry_def block_entry_json_def inventory_types_utf8
      pred_option_def distinct_sort_keys split: option.split)

lemma encode_wf:
  assumes "json_wf fl j" and "json_dumps canonical_style j = Inr t"
  shows "utf8_valid t"
proof -
  from assms(2) have "jdump canonical_style 0 j = Some t" by (simp add: json_dumps_def res_simps)
  moreover have "js_ascii canonical_style" by (simp add: canonical_style_def)
  ultimately have "ascii t" using ascii_jdump [OF styles_ok(1) _ assms(1)] by blast
  then show ?thesis by (simp add: utf8_valid_ascii ascii_def)
qed

lemma decode_encode_payload:
  assumes "json_wf (rt_float R) j" and "encode_payload j = Inr b"
  shows "decode_payload R b = Inr (norm_json j)"
  using loads_dumps_bytes [OF styles_ok(1) assms(1)] assms(2)
  by (simp add: encode_payload_def decode_payload_def loads_def dumps_bytes_def)

lemma message_from_fields:
  assumes "wf_message m"
  shows "message_from R (message_type m) (JDict (norm_items (message_fields m))) = Inr (canon_message m)"
proof -
  note keys = message_fields_keys [of m]
  note access = norm_access [OF keys]
  show ?thesis
  proof (cases m)
    case (MHello h)
    with assms hello_from_norm(1) [of h R] show ?thesis by (simp add: message_from_def)
  next
    case (MHelloAck h c)
    with assms hello_from_norm(2) [of h R c] show ?thesis by (simp add: message_from_def message_types)
  next
    case (MGetHeaders hs stop n)
    with assms hashes_from_norm [OF keys, of "''start_hashes''" hs MAX_LOCATOR_SIZE R] show ?thesis
      using access
      by (cases stop) (simp_all add: message_from_def message_types get_headers_from_def checkE_def)
  next
    case (MHeaders hs)
    with assms header_entries_norm [of hs R] access show ?thesis
      by (simp add: message_from_def message_types headers_from_def comp_def)
  next
    case (MGetBlock hs n)
    with assms hashes_from_norm [OF keys, of "''hashes''" hs MAX_BLOCKS_RESPONSE R] access show ?thesis
      by (simp add: message_from_def message_types get_block_from_def checkE_def)
  next
    case (MBlock bs)
    with assms block_entries_norm(1) [of bs] block_entries_norm(2) [of bs R] access show ?thesis
      by (simp add: message_from_def message_types block_from_def comp_def)
  next
    case (MInventory t hs)
    with assms hashes_from_norm [OF keys, of "''hashes''" hs MAX_INVENTORY_ENTRIES R] access show ?thesis
      by (simp add: message_from_def message_types inventory_from_def checkE_def)
  next
    case (MGetData t hs)
    with assms hashes_from_norm [OF keys, of "''hashes''" hs MAX_INVENTORY_ENTRIES R] access show ?thesis
      by (simp add: message_from_def message_types inventory_from_def checkE_def)
  next
    case (MReject c r t)
    with assms access show ?thesis
      by (cases t) (simp_all add: message_from_def message_types reject_from_def require_keys_def checkE_def)
  qed (use assms access in \<open>simp_all add: message_from_def message_types nonce_from_def content_hash_from_def
      require_keys_def checkE_def\<close>)
qed

lemma message_roundtrip_aux:
  assumes "wf_message m"
  shows "\<exists>b. to_payload m = Inr b \<and> decode_message R (message_type m) b = Inr (canon_message m)"
proof -
  note wf = message_fields_wf [OF assms, of "rt_float R"]
  have "dumps_ok canonical_style (JDict (message_fields m))"
    using assms by (cases m)
      (auto simp: hello_fields_def wf_hello_def hex64_utf8 utf8_valid_ascii strings_def list_all_iff case_prod_unfold
        header_entry_json_def wf_header_entry_def block_entry_json_def inventory_types_utf8 pred_option_def split: option.split)
  then obtain t where "json_dumps canonical_style (JDict (message_fields m)) = Inr t"
    using jdump_None(1) [of canonical_style 0 "JDict (message_fields m)"]
    by (cases "jdump canonical_style 0 (JDict (message_fields m))") (auto simp: json_dumps_def)
  with encode_wf [OF wf] have b: "to_payload m = Inr (str_bytes t)"
    by (simp add: to_payload_def encode_payload_def encode_utf8_def)
  then have "decode_payload R (str_bytes t) = Inr (JDict (norm_items (message_fields m)))"
    using decode_encode_payload [OF wf] by (simp add: to_payload_def norm_JDict)
  with b message_from_fields [OF assms] show ?thesis by (simp add: decode_message_def)
qed

text \<open>C23: every payload class survives the wire: for a well-formed message \<open>to_payload\<close> gives
  bytes, and \<open>from_payload\<close> of the class that \<open>MESSAGE_PAYLOAD_CLASSES\<close> lists for its type
  reads the same message back (the features and limits of a HELLO sorted), in any runtime.\<close>

theorem message_roundtrip:
  assumes "wf_message m"
  shows "\<exists>b. to_payload m = Inr b \<and> decode_message R (message_type m) b = Inr (canon_message m)"
  by (rule message_roundtrip_aux [OF assms])

theorem message_roundtrip_witness:
  "\<exists>b. to_payload (MGetHeaders [zero_hash] None 7) = Inr b
     \<and> decode_message demo_runtime GET_HEADERS b = Inr (MGetHeaders [zero_hash] None 7)"
  using message_roundtrip [of "MGetHeaders [zero_hash] None 7" demo_runtime]
  by (simp add: MAX_LOCATOR_SIZE_def MAX_HEADERS_RESPONSE_def hex64_zero_hash)

end
