(* ===== verification/Formats.thy ===== *)
theory Formats
  imports Json_Access Block
begin

text \<open>
  \<open>storage/formats.py\<close>: the block record, the HEAD line and the journal record.  A runtime
  is passed where JSON is read back or a decimal text is converted.
\<close>

section \<open>Block records\<close>

definition BLOCK_MAGIC :: bytes where "BLOCK_MAGIC = str_bytes ''CBB2''"
definition BLOCK_VERSION :: nat where "BLOCK_VERSION = 2"
definition HEADER_LEN :: nat where "HEADER_LEN = 149"
definition RESERVED_BYTE :: bytes where "RESERVED_BYTE = [0]"
definition BLOCK_TRAILING :: bytes where "BLOCK_TRAILING = [0, 0, 0, 0]"
definition MAX_TX_COUNT :: nat where "MAX_TX_COUNT = 10000"
definition MAX_BODY_LEN :: nat where "MAX_BODY_LEN = 64 * 1024 * 1024"

lemmas block_record_consts = BLOCK_MAGIC_def BLOCK_VERSION_def HEADER_LEN_def RESERVED_BYTE_def BLOCK_TRAILING_def

text \<open>The bytes after the header: lengths, body, checksum and the trailing zeros.\<close>

definition body_prefix :: "nat \<Rightarrow> nat \<Rightarrow> bytes" where
  "body_prefix body_len tx_count = le_bytes 8 body_len @ le_bytes 4 tx_count"

definition encode_block_record :: "env \<Rightarrow> block_v2 \<Rightarrow> bytes res" where
  "encode_block_record E b =
     bindE (bindE (header_v2_to_dict (bk_header b)) encode_header_v2) (\<lambda>header_bytes.
     thenE (checkE (length header_bytes = HEADER_LEN) ValueError)
    (bindE (dumps_bytes record_style (JList (bk_transactions b))) (\<lambda>body_bytes.
     let tx_count = length (bk_transactions b); body_len = length body_bytes in
     thenE (checkE (\<not> tx_count > MAX_TX_COUNT) ValueError)
    (thenE (checkE (\<not> body_len > MAX_BODY_LEN) ValueError)
    (let body_checksum = double_sha256 E (body_prefix body_len tx_count @ body_bytes) in
       Inr (BLOCK_MAGIC @ le_bytes 4 BLOCK_VERSION @ le_bytes 4 HEADER_LEN @ header_bytes @ RESERVED_BYTE
            @ body_prefix body_len tx_count @ body_bytes @ body_checksum @ BLOCK_TRAILING))))))"

definition MIN_RECORD_LEN :: nat where
  "MIN_RECORD_LEN = 4 + 4 + 4 + HEADER_LEN + 1 + 8 + 4 + 32 + 4"

fun json_list :: "json \<Rightarrow> json list option" where
  "json_list (JList xs) = Some xs"
| "json_list _ = None"

definition decode_block_record :: "env \<Rightarrow> runtime \<Rightarrow> bytes \<Rightarrow> block_v2 res" where
  "decode_block_record E R data =
     thenE (checkE (\<not> length data < MIN_RECORD_LEN) ValueError)
    (thenE (checkE (slice 0 4 data = BLOCK_MAGIC) ValueError)
    (thenE (checkE (le_val (slice 4 4 data) = BLOCK_VERSION) ValueError)
    (thenE (checkE (le_val (slice 8 4 data) = HEADER_LEN) ValueError)
    (let header_bytes = slice 12 HEADER_LEN data; offset = 12 + HEADER_LEN in
     thenE (checkE (slice offset 1 data = RESERVED_BYTE) ValueError)
    (let offset = offset + 1; body_len = le_val (slice offset 8 data); tx_count = le_val (slice (offset + 8) 4 data) in
     thenE (checkE (\<not> body_len > MAX_BODY_LEN) ValueError)
    (thenE (checkE (\<not> tx_count > MAX_TX_COUNT) ValueError)
    (thenE (checkE (length data = MIN_RECORD_LEN + body_len) ValueError)
    (let offset = offset + 12; body_bytes = slice offset body_len data; offset = offset + body_len;
         stored_checksum = slice offset 32 data in
     thenE (checkE (stored_checksum = double_sha256 E (body_prefix body_len tx_count @ body_bytes)) ValueError)
    (thenE (checkE (slice (offset + 32) 4 data = BLOCK_TRAILING) ValueError)
    (bindE (decode_header_v2 header_bytes 0 False) (\<lambda>(header_dict, _).
     bindE (loads R body_bytes) (\<lambda>transactions.
     bindE (of_option ValueError (json_list transactions)) (\<lambda>txs.
     thenE (checkE (length txs = tx_count) ValueError)
    (bindE (header_v2_from_dict header_dict) (\<lambda>header.
       Inr \<lparr>bk_header = header, bk_transactions = txs\<rparr>)))))))))))))))"

section \<open>HEAD\<close>

text \<open>\<open>f"{n:0<w>d}"\<close>.\<close>

definition pad_nat :: "nat \<Rightarrow> nat \<Rightarrow> string" where
  "pad_nat w n = replicate (w - length (nat_text n)) CHR ''0'' @ nat_text n"

definition pad_int :: "nat \<Rightarrow> int \<Rightarrow> string" where
  "pad_int w i = (if i < 0 then CHR ''-'' # pad_nat (w - 1) (nat (- i)) else pad_nat w (nat i))"

text \<open>\<open>len\<close> of a text counts code points.\<close>

definition py_len :: "string \<Rightarrow> nat" where
  "py_len s = (case text_points False s of Some ps \<Rightarrow> length ps | None \<Rightarrow> length s)"

definition head_line :: "int \<Rightarrow> string \<Rightarrow> string \<Rightarrow> string \<Rightarrow> int \<Rightarrow> string" where
  "head_line height block_hash network_id genesis_hash format_version =
     pad_int 20 height @ '':'' @ block_hash @ '':'' @ network_id @ '':'' @ genesis_hash @ '':''
       @ int_text format_version @ [newline]"

definition encode_head :: "int \<Rightarrow> string \<Rightarrow> string \<Rightarrow> string \<Rightarrow> int \<Rightarrow> bytes res" where
  "encode_head height block_hash network_id genesis_hash format_version =
     thenE (checkE (py_len block_hash = 64) ValueError)
    (thenE (checkE (py_len genesis_hash = 64) ValueError)
       (encode_utf8 (head_line height block_hash network_id genesis_hash format_version)))"

fun split_on :: "char \<Rightarrow> string \<Rightarrow> string list" where
  "split_on c [] = [[]]"
| "split_on c (d # s) = (if d = c then [] # split_on c s
     else case split_on c s of [] \<Rightarrow> [[d]] | p # ps \<Rightarrow> (d # p) # ps)"

record head_info =
  hi_height :: int
  hi_block_hash :: string
  hi_network_id :: string
  hi_genesis_hash :: string
  hi_format_version :: int

definition decode_head :: "runtime \<Rightarrow> bytes \<Rightarrow> head_info res" where
  "decode_head R data =
     bindE (catchE (decode_utf8 data) (\<lambda>e. e = UnicodeError) (Inl ValueError)) (\<lambda>t.
       (case split_on CHR '':'' (strip_text t) of
          [p0, p1, p2, p3, p4] \<Rightarrow>
            bindE (of_option ValueError (int_of_text R p0)) (\<lambda>height.
            bindE (of_option ValueError (int_of_text R p4)) (\<lambda>format_version.
            thenE (checkE (hex64 p1) ValueError)
           (thenE (checkE (hex64 p3) ValueError)
              (Inr \<lparr>hi_height = height, hi_block_hash = p1, hi_network_id = p2, hi_genesis_hash = p3,
                    hi_format_version = format_version\<rparr>))))
        | _ \<Rightarrow> Inl ValueError))"

section \<open>Journal records\<close>

definition JOURNAL_MAGIC :: bytes where "JOURNAL_MAGIC = str_bytes ''CBJR''"
definition MAX_JOURNAL_PAYLOAD :: nat where "MAX_JOURNAL_PAYLOAD = 64 * 1024 * 1024"

definition JOURNAL_BEGIN :: int where "JOURNAL_BEGIN = 0x01"
definition JOURNAL_HEADER_STAGED :: int where "JOURNAL_HEADER_STAGED = 0x02"
definition JOURNAL_BLOCK_STAGED :: int where "JOURNAL_BLOCK_STAGED = 0x03"
definition JOURNAL_REGISTRY_STAGED :: int where "JOURNAL_REGISTRY_STAGED = 0x04"
definition JOURNAL_INDEX_STAGED :: int where "JOURNAL_INDEX_STAGED = 0x05"
definition JOURNAL_COMMIT :: int where "JOURNAL_COMMIT = 0x10"
definition JOURNAL_ABORT :: int where "JOURNAL_ABORT = 0xFF"

record journal_record =
  jr_type :: int
  jr_seq :: int
  jr_height :: int
  jr_payload :: bytes

definition encode_journal_record :: "env \<Rightarrow> int \<Rightarrow> int \<Rightarrow> int \<Rightarrow> bytes \<Rightarrow> bytes res" where
  "encode_journal_record E record_type seq height payload =
     thenE (checkE (\<not> length payload > MAX_JOURNAL_PAYLOAD) ValueError)
    (bindE (struct_pack 1 record_type) (\<lambda>t.
     bindE (struct_pack 8 seq) (\<lambda>s.
     bindE (struct_pack 8 height) (\<lambda>h.
     bindE (struct_pack 4 (int (length payload))) (\<lambda>n.
       let header = t @ s @ h @ n in
       Inr (JOURNAL_MAGIC @ header @ payload @ double_sha256 E (header @ payload)))))))"

definition decode_journal_record :: "env \<Rightarrow> bytes \<Rightarrow> nat \<Rightarrow> (journal_record \<times> nat) res" where
  "decode_journal_record E data offset =
     thenE (checkE (\<not> offset + 25 > length data) ValueError)
    (thenE (checkE (slice offset 4 data = JOURNAL_MAGIC) ValueError)
    (let record_type = uint (data ! (offset + 4)); seq = int (le_val (slice (offset + 5) 8 data));
         height = int (le_val (slice (offset + 13) 8 data)); payload_len = le_val (slice (offset + 21) 4 data) in
     thenE (checkE (\<not> payload_len > MAX_JOURNAL_PAYLOAD) ValueError)
    (let record_end = offset + 25 + payload_len + 32 in
     thenE (checkE (\<not> record_end > length data) ValueError)
    (let payload = slice (offset + 25) payload_len data;
         stored_checksum = slice (offset + 25 + payload_len) 32 data in
     thenE (checkE (stored_checksum = double_sha256 E (slice (offset + 4) 21 data @ payload)) ValueError)
       (Inr (\<lparr>jr_type = record_type, jr_seq = seq, jr_height = height, jr_payload = payload\<rparr>, record_end))))))"

section \<open>Round trips\<close>

lemma length_body_prefix [simp]: "length (body_prefix l n) = 12"
  by (simp add: body_prefix_def)

lemma length_block_consts [simp]:
  "length BLOCK_MAGIC = 4" "length RESERVED_BYTE = 1" "length BLOCK_TRAILING = 4" "length JOURNAL_MAGIC = 4"
  by (simp_all add: block_record_consts JOURNAL_MAGIC_def)

lemma MIN_RECORD_LEN: "MIN_RECORD_LEN = 210"
  by (simp add: MIN_RECORD_LEN_def HEADER_LEN_def)

text \<open>The fields of a record, found at their offsets.\<close>

lemma slice_field: "off = length pre \<Longrightarrow> n = length x \<Longrightarrow> data = pre @ x @ suf \<Longrightarrow> slice off n data = x"
  by simp

lemma decode_header_v2_lenient: "decode_header_v2 data 0 True = Inr x \<Longrightarrow> decode_header_v2 data 0 False = Inr x"
  by (auto simp: decode_header_v2_def res_simps split: if_split_asm)

context hash_length
begin

lemma decode_encode_block_record:
  assumes "wf_header_v2 (bk_header b)" and "json_wf (rt_float R) (JList (bk_transactions b))"
    and "encode_block_record E b = Inr data"
  shows "decode_block_record E R data = Inr (b\<lparr>bk_transactions := map norm_json (bk_transactions b)\<rparr>)"
proof -
  let ?txs = "bk_transactions b"
  from header_v2_roundtrip_aux [OF assms(1)] obtain hb d where hb: "header_v2_bytes (bk_header b) = Inr hb" "length hb = 149"
    and d: "decode_header_v2 hb 0 True = Inr (d, 149)" "header_v2_from_dict d = Inr (bk_header b)" by blast
  have d': "decode_header_v2 hb 0 False = Inr (d, 149)" by (rule decode_header_v2_lenient [OF d(1)])
  from assms(3) hb obtain body where body: "dumps_bytes record_style (JList ?txs) = Inr body"
    and bounds: "length ?txs \<le> MAX_TX_COUNT" "length body \<le> MAX_BODY_LEN"
    and data: "data = BLOCK_MAGIC @ le_bytes 4 BLOCK_VERSION @ le_bytes 4 HEADER_LEN @ hb @ RESERVED_BYTE
        @ body_prefix (length body) (length ?txs) @ body
        @ double_sha256 E (body_prefix (length body) (length ?txs) @ body) @ BLOCK_TRAILING"
    by (auto simp: encode_block_record_def res_simps Let_def header_v2_bytes_def HEADER_LEN_def not_less)
  let ?p = "body_prefix (length body) (length ?txs)" and ?c = "double_sha256 E (body_prefix (length body) (length ?txs) @ body)"
  note len = hb(2)
  have small: "length body < 256 ^ 8" "length ?txs < 256 ^ 4"
    using bounds by (simp_all add: MAX_BODY_LEN_def MAX_TX_COUNT_def)
  have total: "length data = 210 + length body" by (simp add: data len)
  have f: "slice 0 4 data = BLOCK_MAGIC" "slice 4 4 data = le_bytes 4 BLOCK_VERSION" "slice 8 4 data = le_bytes 4 HEADER_LEN"
    "slice 12 149 data = hb" "slice 161 1 data = RESERVED_BYTE"
    "slice 162 8 data = le_bytes 8 (length body)" "slice 170 4 data = le_bytes 4 (length ?txs)"
    "slice 174 (length body) data = body" "slice (174 + length body) 32 data = ?c"
    "slice (206 + length body) 4 data = BLOCK_TRAILING"
    by (simp_all add: data slice_def len body_prefix_def)
  have "loads R body = Inr (JList (map norm_json ?txs))"
    using loads_dumps_bytes [OF styles_ok(3) assms(2) body] by (simp add: loads_def)
  then show ?thesis
    using f total bounds small d d'
    by (simp add: decode_block_record_def MIN_RECORD_LEN HEADER_LEN_def checkE_def BLOCK_VERSION_def Let_def
        add.commute [of 2] add.assoc)
qed

end

section \<open>The HEAD line\<close>

lemma split_on_app: "c \<notin> set a \<Longrightarrow> split_on c (a @ c # s) = a # split_on c s"
  by (induction a) auto

lemma split_on_last: "c \<notin> set a \<Longrightarrow> split_on c a = [a]"
  by (induction a) auto

lemma nat_text_colon: "CHR '':'' \<notin> set (nat_text n)"
  using nat_text_digits [of n] by (auto simp: list_all_iff is_digit_def)

lemma pad_nat_colon: "CHR '':'' \<notin> set (pad_nat w n)"
  using nat_text_colon [of n] by (auto simp: pad_nat_def)

lemma hex64_colon: "hex64 s \<Longrightarrow> CHR '':'' \<notin> set s"
  by (auto simp: hex64_def is_lower_hex_def list_all_iff Let_def)

lemma text_points_append:
  "text_points st s = Some ps \<Longrightarrow> text_points st t = Some qs \<Longrightarrow> text_points st (s @ t) = Some (ps @ qs)"
proof (induction st s arbitrary: ps rule: text_points.induct)
  case (2 st c cs)
  from "2.prems" "2.IH" show ?case
    by (auto simp: Let_def split: if_split_asm list.split_asm option.split_asm)
qed simp

lemma utf8_valid_append [intro]: "utf8_valid s \<Longrightarrow> utf8_valid t \<Longrightarrow> utf8_valid (s @ t)"
  by (auto simp: utf8_valid_def text_points_append)

lemma hex64_py_len: "hex64 s \<Longrightarrow> py_len s = 64"
proof -
  have "list_all is_lower_hex s \<Longrightarrow> \<exists>ps. text_points False s = Some ps \<and> length ps = length s"
    by (induction s) (auto simp: is_lower_hex_def Let_def)
  then show "hex64 s \<Longrightarrow> py_len s = 64" by (auto simp: hex64_def py_len_def)
qed

lemma hex64_valid: "hex64 s \<Longrightarrow> utf8_valid s"
  by (rule utf8_valid_ascii) (auto simp: hex64_def list_all_iff is_lower_hex_def Let_def)

lemma utf8_valid_text: "ascii s \<Longrightarrow> utf8_valid s"
  by (simp add: ascii_def utf8_valid_ascii)

lemma pad_int_text: "0 \<le> h \<Longrightarrow> pad_int w h = replicate (w - length (nat_text (nat h))) CHR ''0'' @ nat_text (nat h)"
  by (simp add: pad_int_def pad_nat_def)

lemma pad_int_digits: "0 \<le> h \<Longrightarrow> list_all is_digit (pad_int w h) \<and> pad_int w h \<noteq> []"
  using nat_text_digits [of "nat h"] nat_text_nonempty [of "nat h"]
  by (auto simp: pad_int_text list_all_iff is_digit_zero)

definition wf_head :: "head_info \<Rightarrow> bool" where
  "wf_head hi \<longleftrightarrow> 0 \<le> hi_height hi \<and> 0 \<le> hi_format_version hi \<and> hex64 (hi_block_hash hi) \<and> hex64 (hi_genesis_hash hi)
     \<and> utf8_valid (hi_network_id hi) \<and> CHR '':'' \<notin> set (hi_network_id hi)"

definition head_text :: "head_info \<Rightarrow> string" where
  "head_text hi = head_line (hi_height hi) (hi_block_hash hi) (hi_network_id hi) (hi_genesis_hash hi) (hi_format_version hi)"

lemma wf_head_valid: "wf_head hi \<Longrightarrow> utf8_valid (head_text hi)"
  unfolding head_text_def head_line_def
  by (intro utf8_valid_append)
    (auto simp: wf_head_def hex64_valid pad_int_digits utf8_valid_text ascii_digits ascii_int_text newline_def)

lemma decode_encode_head:
  assumes "wf_head hi"
  shows "decode_head R (str_bytes (head_text hi)) = Inr hi"
proof -
  let ?p0 = "pad_int 20 (hi_height hi)" and ?p4 = "int_text (hi_format_version hi)"
  note d0 = pad_int_digits [of "hi_height hi" 20]
  have p4: "?p4 = nat_text (nat (hi_format_version hi))" using assms by (simp add: wf_head_def int_text_def)
  let ?s = "?p0 @ '':'' @ hi_block_hash hi @ '':'' @ hi_network_id hi @ '':'' @ hi_genesis_hash hi @ '':'' @ ?p4"
  have line: "head_text hi = ?s @ [newline]" by (simp add: head_text_def head_line_def)
  have "is_digit (hd ?s)" "?s \<noteq> []" using d0 assms by (auto simp: wf_head_def list_all_iff hd_append)
  moreover have "is_digit (last ?s)"
    using nat_text_digits [of "nat (hi_format_version hi)"] nat_text_nonempty [of "nat (hi_format_version hi)"]
    by (simp add: p4 list_all_iff)
  ultimately have ends: "\<not> is_uni_space (hd ?s)" "\<not> is_uni_space (last ?s)" "?s \<noteq> []"
    using is_digit_not_space by blast+
  have "strip_text (?s @ [newline]) = strip_text ?s"
    using ends by (simp add: strip_text_def dropWhile_append3 is_uni_space_def newline_def Let_def)
  also have "\<dots> = ?s" by (rule strip_text_id [OF ends(3,1,2)])
  finally have strip: "strip_text (head_text hi) = ?s" by (simp add: line)
  have "split_on CHR '':'' ?s = [?p0, hi_block_hash hi, hi_network_id hi, hi_genesis_hash hi, ?p4]"
    using assms by (simp add: wf_head_def split_on_app split_on_last hex64_colon pad_int_def pad_nat_colon p4 nat_text_colon)
  moreover have "int_of_text R ?p0 = Some (hi_height hi)"
    using int_of_text_nat [of R _ "nat (hi_height hi)"] assms by (simp add: pad_int_text wf_head_def)
  moreover have "int_of_text R ?p4 = Some (hi_format_version hi)"
    using int_of_text_nat [of R 0 "nat (hi_format_version hi)"] assms by (simp add: p4 wf_head_def)
  ultimately show ?thesis
    using assms wf_head_valid [OF assms] strip by (simp add: decode_head_def wf_head_def checkE_def)
qed

lemma encode_head_wf:
  assumes "wf_head hi"
  shows "encode_head (hi_height hi) (hi_block_hash hi) (hi_network_id hi) (hi_genesis_hash hi) (hi_format_version hi)
    = Inr (str_bytes (head_text hi))"
  using assms wf_head_valid [OF assms] by (simp add: encode_head_def wf_head_def hex64_py_len checkE_def encode_utf8_def head_text_def)

section \<open>Claims\<close>

lemma demo_block_record:
  "\<exists>data. encode_block_record demo_env (demo_block\<lparr>bk_transactions := [demo_tx]\<rparr>) = Inr data \<and> length data \<le> MAX_JOURNAL_PAYLOAD"
proof -
  obtain hb d where hb: "header_v2_bytes demo_header = Inr hb" "length hb = 149"
    using header_v2_roundtrip_aux [OF wf_demo_header] by blast
  have one: "nat_text (Suc 0) = ''1''" by (simp add: nat_text.simps [of "Suc 0"] char_of_def bit_0)
  have "\<exists>body. dumps_bytes record_style (JList [demo_tx]) = Inr body \<and> length body \<le> 1000"
    by (simp add: dumps_bytes_def json_dumps_def demo_tx_def style_defs style_text_def raw_text_def escape_raw_def
        bracket_def line_break_def encode_utf8_def utf8_valid_ascii int_text_def one MAX_BODY_LEN_def)
  then obtain body where body: "dumps_bytes record_style (JList [demo_tx]) = Inr body" "length body \<le> 1000" by blast
  show ?thesis
    using hb body(2) by (simp add: encode_block_record_def demo_block_def header_v2_bytes_def HEADER_LEN_def checkE_def
        MAX_TX_COUNT_def body(1) not_less MAX_BODY_LEN_def MAX_JOURNAL_PAYLOAD_def demo_double Let_def)
qed

text \<open>A block record read back is the block, its transactions with sorted keys, whatever the
  runtime: magic, lengths, checksum and trailer written by \<open>encode_block_record\<close> pass every
  check of \<open>decode_block_record\<close>.\<close>

theorem block_record_roundtrip:
  assumes "hash_length E" and "wf_header_v2 (bk_header b)"
    and "json_wf (rt_float R) (JList (bk_transactions b))" and "encode_block_record E b = Inr data"
  shows "decode_block_record E R data = Inr (b\<lparr>bk_transactions := map norm_json (bk_transactions b)\<rparr>)"
  by (rule hash_length.decode_encode_block_record [OF assms])

theorem block_record_roundtrip_witness:
  "\<exists>data. encode_block_record demo_env (demo_block\<lparr>bk_transactions := [demo_tx]\<rparr>) = Inr data
     \<and> decode_block_record demo_env demo_runtime data = Inr (demo_block\<lparr>bk_transactions := [norm_json demo_tx]\<rparr>)"
proof -
  let ?b = "demo_block\<lparr>bk_transactions := [demo_tx]\<rparr>"
  obtain data where data: "encode_block_record demo_env ?b = Inr data" using demo_block_record by blast
  have "wf_header_v2 (bk_header ?b)" "json_wf (rt_float demo_runtime) (JList (bk_transactions ?b))"
    using wf_demo_header by (simp_all add: demo_block_def demo_tx_def utf8_valid_ascii)
  from block_record_roundtrip [OF demo.hash_length_axioms this data] data show ?thesis by simp
qed

text \<open>HEAD is an exact pointer: the line written for a tip reads back as that height, hash,
  network and genesis, whatever the runtime, when the network id holds no colon.\<close>

theorem head_roundtrip:
  assumes "wf_head hi"
  shows "\<exists>b. encode_head (hi_height hi) (hi_block_hash hi) (hi_network_id hi) (hi_genesis_hash hi) (hi_format_version hi) = Inr b
    \<and> decode_head R b = Inr hi"
  using encode_head_wf [OF assms] decode_encode_head [OF assms, of R] by blast

theorem head_roundtrip_witness:
  "\<exists>b. encode_head 7 zero_hash ''net'' zero_hash 1 = Inr b \<and> decode_head demo_runtime b
    = Inr \<lparr>hi_height = 7, hi_block_hash = zero_hash, hi_network_id = ''net'', hi_genesis_hash = zero_hash, hi_format_version = 1\<rparr>"
  using head_roundtrip [of "\<lparr>hi_height = 7, hi_block_hash = zero_hash, hi_network_id = ''net'', hi_genesis_hash = zero_hash,
      hi_format_version = 1\<rparr>" demo_runtime]
  by (simp add: wf_head_def hex64_zero_hash utf8_valid_ascii)

end
