(* ===== verification/Journal.thy ===== *)
theory Journal
  imports Formats
begin

text \<open>
  \<open>storage/journal.py\<close> on the bytes of the journal file: the three loops that read it (all
  records, the highest sequence number, and the last commit of \<open>storage/recovery.py\<close>), and
  what an append writes.  The loops stop at the first record that does not decode.
\<close>

lemma decode_journal_next:
  "decode_journal_record E data offset = Inr (r, n) \<Longrightarrow> offset + 57 \<le> n \<and> n \<le> length data"
  by (auto simp: decode_journal_record_def res_simps Let_def)

function read_records :: "env \<Rightarrow> bytes \<Rightarrow> nat \<Rightarrow> journal_record list" where
  "read_records E data offset =
     (if offset < length data then
        (case decode_journal_record E data offset of
           Inl e \<Rightarrow> []
         | Inr (record, next_offset) \<Rightarrow> record # read_records E data next_offset)
      else [])"
  by pat_completeness auto
termination
  by (relation "measure (\<lambda>(_, data, offset). length data - offset)") (auto dest: decode_journal_next)

function highest_seq_loop :: "env \<Rightarrow> bytes \<Rightarrow> nat \<Rightarrow> int \<Rightarrow> int" where
  "highest_seq_loop E data offset highest =
     (if offset < length data then
        (case decode_journal_record E data offset of
           Inl e \<Rightarrow> highest
         | Inr (record, next_offset) \<Rightarrow> highest_seq_loop E data next_offset (max highest (jr_seq record)))
      else highest)"
  by pat_completeness auto
termination
  by (relation "measure (\<lambda>(_, data, offset, _). length data - offset)") (auto dest: decode_journal_next)

function last_commit_loop :: "env \<Rightarrow> bytes \<Rightarrow> nat \<Rightarrow> int \<Rightarrow> int" where
  "last_commit_loop E data offset highest =
     (if offset < length data then
        (case decode_journal_record E data offset of
           Inl e \<Rightarrow> highest
         | Inr (record, next_offset) \<Rightarrow>
             last_commit_loop E data next_offset
               (if jr_type record = JOURNAL_COMMIT \<and> jr_height record > highest then jr_height record else highest))
      else highest)"
  by pat_completeness auto
termination
  by (relation "measure (\<lambda>(_, data, offset, _). length data - offset)") (auto dest: decode_journal_next)

declare read_records.simps [simp del] highest_seq_loop.simps [simp del] last_commit_loop.simps [simp del]

definition highest_seq :: "env \<Rightarrow> bytes option \<Rightarrow> int" where
  "highest_seq E file = (case file of None \<Rightarrow> 0 | Some data \<Rightarrow> highest_seq_loop E data 0 0)"

definition last_commit_height :: "env \<Rightarrow> bytes option \<Rightarrow> int" where
  "last_commit_height E file = (case file of None \<Rightarrow> 0 | Some data \<Rightarrow> last_commit_loop E data 0 0)"

text \<open>The file after \<open>append\<close>; the record is encoded before the file is touched.\<close>

definition journal_append :: "env \<Rightarrow> bytes option \<Rightarrow> int \<Rightarrow> int \<Rightarrow> bytes \<Rightarrow> bytes res" where
  "journal_append E file record_type height payload =
     bindE (encode_journal_record E record_type (highest_seq E file + 1) height payload) (\<lambda>record.
       Inr ((case file of None \<Rightarrow> [] | Some data \<Rightarrow> data) @ record))"

section \<open>The loops are folds over the records\<close>

definition commit_step :: "int \<Rightarrow> journal_record \<Rightarrow> int" where
  "commit_step highest r = (if jr_type r = JOURNAL_COMMIT \<and> jr_height r > highest then jr_height r else highest)"

lemma highest_seq_fold:
  "highest_seq_loop E data offset m = foldl (\<lambda>m r. max m (jr_seq r)) m (read_records E data offset)"
proof (induction E data offset m rule: highest_seq_loop.induct)
  case (1 E data offset m)
  then show ?case
    by (subst highest_seq_loop.simps, subst read_records.simps) (auto split: sum.split)
qed

lemma last_commit_fold:
  "last_commit_loop E data offset m = foldl commit_step m (read_records E data offset)"
proof (induction E data offset m rule: last_commit_loop.induct)
  case (1 E data offset m)
  then show ?case
    by (subst last_commit_loop.simps, subst read_records.simps) (simp flip: commit_step_def split: sum.split prod.split)
qed

section \<open>Records in a stream\<close>

definition record_bytes :: "env \<Rightarrow> journal_record \<Rightarrow> bytes res" where
  "record_bytes E r = encode_journal_record E (jr_type r) (jr_seq r) (jr_height r) (jr_payload r)"

lemma record_bytes_Inr:
  "record_bytes E r = Inr b \<longleftrightarrow>
     length (jr_payload r) \<le> MAX_JOURNAL_PAYLOAD \<and> 0 \<le> jr_type r \<and> jr_type r < 256 ^ 1 \<and> 0 \<le> jr_seq r \<and> jr_seq r < 256 ^ 8
     \<and> 0 \<le> jr_height r \<and> jr_height r < 256 ^ 8 \<and> int (length (jr_payload r)) < 256 ^ 4
     \<and> b = JOURNAL_MAGIC @ (le_bytes 1 (nat (jr_type r)) @ le_bytes 8 (nat (jr_seq r)) @ le_bytes 8 (nat (jr_height r))
        @ le_bytes 4 (length (jr_payload r))) @ jr_payload r
        @ double_sha256 E ((le_bytes 1 (nat (jr_type r)) @ le_bytes 8 (nat (jr_seq r)) @ le_bytes 8 (nat (jr_height r))
        @ le_bytes 4 (length (jr_payload r))) @ jr_payload r)"
  unfolding record_bytes_def encode_journal_record_def Let_def
  by (auto simp only: bindE_Inr_iff checkE_Inr struct_pack_Inr not_less nat_int sum.inject append_assoc of_nat_0_le_iff simp_thms ex_simps)

lemma slice_shift: "slice (length pre + k) n (pre @ data) = slice k n data"
  by (simp add: slice_def)

lemma slice_shift0: "slice (length pre) n (pre @ data) = slice 0 n data"
  by (simp add: slice_def)

context hash_length
begin

lemma record_bytes_shape:
  assumes "record_bytes E r = Inr b"
  obtains h where "b = JOURNAL_MAGIC @ h @ jr_payload r @ double_sha256 E (h @ jr_payload r)"
    and "length h = 21" and "length (jr_payload r) \<le> MAX_JOURNAL_PAYLOAD"
    and "uint (h ! 0) = jr_type r" and "int (le_val (slice 1 8 h)) = jr_seq r"
    and "int (le_val (slice 9 8 h)) = jr_height r" and "le_val (slice 17 4 h) = length (jr_payload r)"
proof -
  let ?p = "jr_payload r"
  note a = assms [unfolded record_bytes_Inr]
  then have len: "length ?p \<le> MAX_JOURNAL_PAYLOAD" and t: "0 \<le> jr_type r" "jr_type r < 256 ^ 1"
    and s: "0 \<le> jr_seq r" "jr_seq r < 256 ^ 8" and g: "0 \<le> jr_height r" "jr_height r < 256 ^ 8"
    and b: "b = JOURNAL_MAGIC @ (le_bytes 1 (nat (jr_type r)) @ le_bytes 8 (nat (jr_seq r)) @ le_bytes 8 (nat (jr_height r))
        @ le_bytes 4 (length ?p)) @ ?p @ double_sha256 E ((le_bytes 1 (nat (jr_type r)) @ le_bytes 8 (nat (jr_seq r))
        @ le_bytes 8 (nat (jr_height r)) @ le_bytes 4 (length ?p)) @ ?p)"
    by blast+
  have small: "length ?p < 256 ^ 4" using len by (simp add: MAX_JOURNAL_PAYLOAD_def)
  have n: "nat (jr_seq r) < 256 ^ 8" "nat (jr_height r) < 256 ^ 8" using s g by (auto intro: nat_less_256_pow)
  have "unat (word_of_nat (nat (jr_type r)) :: byte) = nat (jr_type r)"
    unfolding unat_byte_of_nat using t by simp
  then have "uint (word_of_nat (nat (jr_type r)) :: byte) = jr_type r" using t(1) by (simp only: uint_nat)
  then have type: "uint ((le_bytes 1 (nat (jr_type r)) @ x) ! 0) = jr_type r" for x
    by (simp only: One_nat_def le_bytes.simps append_Cons nth_Cons_0)
  let ?t = "le_bytes 1 (nat (jr_type r))" and ?s = "le_bytes 8 (nat (jr_seq r))"
    and ?g = "le_bytes 8 (nat (jr_height r))" and ?l = "le_bytes 4 (length ?p)"
  have f: "slice 1 8 (?t @ ?s @ ?g @ ?l) = ?s" "slice 9 8 (?t @ ?s @ ?g @ ?l) = ?g" "slice 17 4 (?t @ ?s @ ?g @ ?l) = ?l"
    by (simp_all add: slice_def)
  have v: "int (le_val ?s) = jr_seq r" "int (le_val ?g) = jr_height r" "le_val ?l = length ?p"
    using small n s(1) g(1) by simp_all
  have h: "length (?t @ ?s @ ?g @ ?l) = 21" by simp
  show thesis by (rule that [OF b h len type]) (simp_all only: f v)
qed

text \<open>A record inside a longer file.\<close>

lemma decode_record_at:
  assumes "record_bytes E r = Inr b"
  shows "decode_journal_record E (pre @ b @ suf) (length pre) = Inr (r, length pre + length b)"
proof -
  from assms obtain h where b: "b = JOURNAL_MAGIC @ h @ jr_payload r @ double_sha256 E (h @ jr_payload r)"
    and h: "length h = 21" and len: "length (jr_payload r) \<le> MAX_JOURNAL_PAYLOAD"
    and f: "uint (h ! 0) = jr_type r" "int (le_val (slice 1 8 h)) = jr_seq r"
      "int (le_val (slice 9 8 h)) = jr_height r" "le_val (slice 17 4 h) = length (jr_payload r)"
    by (rule record_bytes_shape)
  let ?d = "pre @ b @ suf" and ?n = "length pre"
  have sub: "slice (?n + 4 + k) n ?d = slice k n h" if "k + n \<le> 21" for k n
    using that h by (simp add: b slice_def)
  have "?d ! (?n + 4) = h ! 0" using h by (simp add: b nth_append)
  moreover have "slice ?n 4 ?d = JOURNAL_MAGIC" by (simp add: b slice_def)
  moreover have "slice (?n + 5) 8 ?d = slice 1 8 h" "slice (?n + 13) 8 ?d = slice 9 8 h"
    "slice (?n + 21) 4 ?d = slice 17 4 h" "slice (?n + 4) 21 ?d = h"
    using sub [of 1 8] sub [of 9 8] sub [of 17 4] sub [of 0 21] h by (simp_all add: add.assoc slice_def)
  moreover have "slice (?n + 25) (length (jr_payload r)) ?d = jr_payload r"
    "slice (?n + 25 + length (jr_payload r)) 32 ?d = double_sha256 E (h @ jr_payload r)"
    using h by (simp_all add: b slice_def)
  moreover have "length b = 57 + length (jr_payload r)" using h by (simp add: b)
  ultimately show ?thesis
    using f len by (simp add: decode_journal_record_def checkE_def Let_def)
qed

text \<open>Every proper prefix of a record fails to decode.\<close>

lemma decode_torn:
  assumes "record_bytes E r = Inr b" and "k < length b"
  shows "decode_journal_record E (pre @ take k b) (length pre) = Inl ValueError"
proof (cases "k < 25")
  case True
  then show ?thesis using assms(2) by (simp add: decode_journal_record_def checkE_def)
next
  case False
  from assms(1) obtain h where b: "b = JOURNAL_MAGIC @ h @ jr_payload r @ double_sha256 E (h @ jr_payload r)"
    and h: "length h = 21" and len: "length (jr_payload r) \<le> MAX_JOURNAL_PAYLOAD"
    and l: "le_val (slice 17 4 h) = length (jr_payload r)"
    by (rule record_bytes_shape)
  let ?d = "pre @ take k b" and ?n = "length pre"
  have b': "b = (JOURNAL_MAGIC @ h) @ jr_payload r @ double_sha256 E (h @ jr_payload r)" using b by simp
  have t: "take k b = (JOURNAL_MAGIC @ h) @ take (k - 25) (jr_payload r @ double_sha256 E (h @ jr_payload r))"
    unfolding b' by (subst take_append) (use False h in simp)
  have "slice ?n 4 ?d = JOURNAL_MAGIC" "slice (?n + 21) 4 ?d = slice 17 4 h"
    using h by (simp_all add: t slice_def)
  moreover have "length b = 57 + length (jr_payload r)" using h by (simp add: b)
  ultimately show ?thesis
    using assms(2) False l len by (simp add: decode_journal_record_def checkE_def Let_def)
qed

lemma read_records_at:
  "mapE (record_bytes E) recs = Inr bs \<Longrightarrow>
     read_records E (pre @ concat bs @ suf) (length pre)
       = recs @ read_records E (pre @ concat bs @ suf) (length pre + length (concat bs))"
proof (induction recs arbitrary: bs pre)
  case (Cons r recs)
  then obtain b cs where b: "record_bytes E r = Inr b" and cs: "mapE (record_bytes E) recs = Inr cs" and bs: "bs = b # cs"
    by (auto simp: res_simps)
  have "b \<noteq> []" using record_bytes_shape [OF b] by (metis append_is_Nil_conv block_record_consts length_block_consts(4) list.size(3) zero_neq_numeral)
  then have "read_records E (pre @ b @ concat cs @ suf) (length pre) = r # read_records E (pre @ b @ concat cs @ suf) (length pre + length b)"
    by (subst read_records.simps) (simp add: decode_record_at [OF b])
  with Cons.IH [OF cs, of "pre @ b"] show ?case by (simp add: bs add.assoc)
qed simp

lemma read_records_torn:
  assumes "mapE (record_bytes E) recs = Inr bs" and "record_bytes E r = Inr b" and "k < length b"
  shows "read_records E (concat bs @ take k b) 0 = recs"
proof -
  note r = read_records_at [OF assms(1), of "[]" "take k b", simplified]
  have "read_records E (concat bs @ take k b) (length (concat bs)) = []"
    by (subst read_records.simps) (simp add: decode_torn [OF assms(2,3)])
  with r show ?thesis by simp
qed

text \<open>A tear shorter than the magic, followed by a new record.\<close>

lemma decode_after_tear:
  assumes "0 < k" and "k < 4"
  shows "decode_journal_record E (pre @ take k JOURNAL_MAGIC @ JOURNAL_MAGIC @ rest) (length pre) = Inl ValueError"
proof -
  have k: "k = 1 \<or> k = 2 \<or> k = 3" using assms by auto
  have "slice (length pre) 4 (pre @ take k JOURNAL_MAGIC @ JOURNAL_MAGIC @ rest) \<noteq> JOURNAL_MAGIC"
    using k by (elim disjE) (simp_all add: slice_def JOURNAL_MAGIC_def str_bytes_def)
  then show ?thesis by (auto simp: decode_journal_record_def checkE_def)
qed

lemma read_records_hidden:
  assumes "mapE (record_bytes E) recs = Inr bs" and "0 < k" and "k < 4"
  shows "read_records E (concat bs @ take k JOURNAL_MAGIC @ JOURNAL_MAGIC @ rest) 0 = recs"
proof -
  note r = read_records_at [OF assms(1), of "[]" "take k JOURNAL_MAGIC @ JOURNAL_MAGIC @ rest", simplified]
  have "read_records E (concat bs @ take k JOURNAL_MAGIC @ JOURNAL_MAGIC @ rest) (length (concat bs)) = []"
    by (subst read_records.simps) (simp add: decode_after_tear [OF assms(2,3)])
  with r show ?thesis by simp
qed

end

section \<open>What a crash during an append does\<close>

lemma record_starts: "record_bytes E r = Inr b \<Longrightarrow> \<exists>rest. b = JOURNAL_MAGIC @ rest"
  by (auto simp: record_bytes_Inr)

lemma journal_append_shape:
  "journal_append E (Some data) t h p = Inr file \<Longrightarrow> \<exists>rest. file = data @ JOURNAL_MAGIC @ rest"
  by (auto simp: journal_append_def encode_journal_record_def res_simps Let_def)

definition demo_begin :: journal_record where
  "demo_begin = \<lparr>jr_type = JOURNAL_BEGIN, jr_seq = 1, jr_height = 7, jr_payload = []\<rparr>"
definition demo_commit :: journal_record where
  "demo_commit = \<lparr>jr_type = JOURNAL_COMMIT, jr_seq = 2, jr_height = 7, jr_payload = [1, 2, 3]\<rparr>"

lemma demo_records:
  "\<exists>b. record_bytes E demo_begin = Inr b" "\<exists>b. record_bytes E demo_commit = Inr b"
  by (auto simp: record_bytes_Inr demo_begin_def demo_commit_def JOURNAL_BEGIN_def JOURNAL_COMMIT_def MAX_JOURNAL_PAYLOAD_def)

lemma demo_records': "\<exists>bs. mapE (record_bytes E) [demo_begin, demo_commit] = Inr bs"
  using demo_records [of E] by auto

text \<open>A torn tail is harmless.  A journal that holds any records and then the first bytes of
  one more reads as exactly those records, at whatever byte the last append was cut, and the last
  committed height is that of the complete records.\<close>

theorem journal_torn_tail:
  assumes "hash_length E" and "mapE (record_bytes E) recs = Inr bs"
    and "record_bytes E r = Inr b" and "k < length b"
  shows "read_records E (concat bs @ take k b) 0 = recs
    \<and> last_commit_height E (Some (concat bs @ take k b)) = foldl commit_step 0 recs"
  using hash_length.read_records_torn [OF assms] by (simp add: last_commit_height_def last_commit_fold)

theorem journal_torn_tail_witness:
  "\<exists>bs b. read_records demo_env (concat bs @ take 5 b) 0 = [demo_begin, demo_commit]
    \<and> last_commit_height demo_env (Some (concat bs @ take 5 b)) = foldl commit_step 0 [demo_begin, demo_commit]"
proof -
  obtain bs where bs: "mapE (record_bytes demo_env) [demo_begin, demo_commit] = Inr bs" using demo_records' by blast
  obtain b where b: "record_bytes demo_env demo_begin = Inr b" using demo_records(1) by blast
  have "5 < length b" using b by (auto simp: record_bytes_Inr)
  from journal_torn_tail [OF demo.hash_length_axioms bs b this] show ?thesis by blast
qed

text \<open>What is appended behind a tear is lost.  \<open>append\<close> neither cuts a torn tail off nor
  notices it, so when a crash left one to three bytes of a record, every record appended
  afterwards, a commit included, is invisible to all readers.\<close>

theorem journal_torn_hides:
  assumes "hash_length E" and "mapE (record_bytes E) recs = Inr bs" and "record_bytes E r = Inr b"
    and "0 < k" and "k < 4" and "journal_append E (Some (concat bs @ take k b)) t h p = Inr file"
  shows "read_records E file 0 = recs \<and> last_commit_height E (Some file) = foldl commit_step 0 recs"
proof -
  obtain rest where "b = JOURNAL_MAGIC @ rest" using record_starts [OF assms(3)] by blast
  then have "take k b = take k JOURNAL_MAGIC" using assms(5) by simp
  with journal_append_shape [OF assms(6)] obtain rest' where "file = concat bs @ take k JOURNAL_MAGIC @ JOURNAL_MAGIC @ rest'"
    by auto
  then have "read_records E file 0 = recs"
    using hash_length.read_records_hidden [OF assms(1,2,4,5)] by simp
  then show ?thesis by (simp add: last_commit_height_def last_commit_fold)
qed

theorem journal_torn_hides_witness:
  "\<exists>b file. journal_append demo_env (Some (take 2 b)) JOURNAL_COMMIT 7 [] = Inr file
    \<and> read_records demo_env file 0 = [] \<and> last_commit_height demo_env (Some file) = foldl commit_step 0 []"
proof -
  obtain b where b: "record_bytes demo_env demo_begin = Inr b" using demo_records(1) by blast
  have m: "mapE (record_bytes demo_env) [] = Inr []" by simp
  obtain rest where "b = JOURNAL_MAGIC @ rest" using record_starts [OF b] by blast
  then have h: "highest_seq demo_env (Some (take 2 b)) = 0"
    by (simp add: highest_seq_def highest_seq_loop.simps [of _ _ 0] decode_journal_record_def checkE_def split: sum.split)
  obtain x where f: "journal_append demo_env (Some (concat [] @ take 2 b)) JOURNAL_COMMIT 7 [] = Inr x"
    by (simp add: journal_append_def h encode_journal_record_def struct_pack_def checkE_def Let_def JOURNAL_COMMIT_def MAX_JOURNAL_PAYLOAD_def)
  from journal_torn_hides [OF demo.hash_length_axioms m b _ _ f] f show ?thesis by auto
qed

end
