(* ===== verification/Files.thy ===== *)
theory Files
  imports Journal "HOL-Library.AList"
begin

text \<open>
  The files a storage backend owns and computations over them.  A directory is an association
  list from the paths the code builds to their contents; a computation maps it to the changed
  directory and a result, so the files written before an exception stay written.
  \<open>atomic_write\<close> and \<open>safe_unlink\<close> of \<open>storage/filesystem.py\<close> are one update each (a
  temporary file is renamed into place), \<open>fsync\<close> changes no contents and is left out.
  The second part is a Hoare calculus whose exceptional postcondition says what a computation
  leaves behind when it is cut off.
\<close>

section \<open>Paths\<close>

text \<open>The paths under \<open>chain_root\<close>; a number stands for the height in the file name.\<close>

datatype path =
    HeadFile | JournalFile | JournalArchive int | ConfigFile
  | HeaderFile int | BlockFile int | SnapshotFile int | SnapshotMeta int
  | TmpHeader int | TmpBlock int | TmpState int
  | HeightIndex | HashIndex | ArchiveObject string

type_synonym files = "(path \<times> bytes) list"
type_synonym 'a io = "files \<Rightarrow> files \<times> 'a res"

abbreviation content :: "files \<Rightarrow> path \<Rightarrow> bytes option" where
  "content fs p \<equiv> map_of fs p"

section \<open>Computations\<close>

definition returnI :: "'a \<Rightarrow> 'a io" where
  "returnI x fs = (fs, Inr x)"

definition liftI :: "'a res \<Rightarrow> 'a io" where
  "liftI r fs = (fs, r)"

definition bindI :: "'a io \<Rightarrow> ('a \<Rightarrow> 'b io) \<Rightarrow> 'b io" where
  "bindI m f fs = (case m fs of (fs', Inl e) \<Rightarrow> (fs', Inl e) | (fs', Inr x) \<Rightarrow> f x fs')"

abbreviation thenI :: "unit io \<Rightarrow> 'b io \<Rightarrow> 'b io" where
  "thenI m n \<equiv> bindI m (\<lambda>_. n)"

primrec seqI :: "unit io list \<Rightarrow> unit io" where
  "seqI [] = returnI ()"
| "seqI (m # ms) = thenI m (seqI ms)"

definition filesI :: "files io" where
  "filesI fs = (fs, Inr fs)"

definition getI :: "path \<Rightarrow> bytes option io" where
  "getI p fs = (fs, Inr (content fs p))"

definition readI :: "path \<Rightarrow> bytes io" where
  "readI p fs = (fs, of_option FileNotFound (content fs p))"

definition atomic_write :: "path \<Rightarrow> bytes \<Rightarrow> unit io" where
  "atomic_write p data fs = (AList.update p data fs, Inr ())"

definition safe_unlink :: "path \<Rightarrow> unit io" where
  "safe_unlink p fs = (AList.delete p fs, Inr ())"

definition checkI :: "bool \<Rightarrow> py_error \<Rightarrow> unit io" where
  "checkI c e = liftI (checkE c e)"

text \<open>\<open>glob\<close> over the files of one kind: the heights their names carry.\<close>

fun block_height :: "path \<Rightarrow> int option" where
  "block_height (BlockFile h) = Some h" | "block_height _ = None"
fun header_height :: "path \<Rightarrow> int option" where
  "header_height (HeaderFile h) = Some h" | "header_height _ = None"
fun snapshot_height :: "path \<Rightarrow> int option" where
  "snapshot_height (SnapshotFile h) = Some h" | "snapshot_height _ = None"

definition scan_heights :: "(path \<Rightarrow> int option) \<Rightarrow> files \<Rightarrow> int list" where
  "scan_heights k fs = remdups (concat (map (\<lambda>(p, _). case k p of None \<Rightarrow> [] | Some h \<Rightarrow> [h]) fs))"

lemma set_scan_heights: "set (scan_heights k fs) = {h. \<exists>p \<in> dom (content fs). k p = Some h}"
  by (force simp: scan_heights_def dom_map_of_conv_image_fst split: option.split_asm)

section \<open>What a computation leaves behind\<close>

definition valid :: "(files \<Rightarrow> bool) \<Rightarrow> 'a io \<Rightarrow> ('a \<Rightarrow> files \<Rightarrow> bool) \<Rightarrow> (files \<Rightarrow> bool) \<Rightarrow> bool" where
  "valid P m Q X \<longleftrightarrow> (\<forall>fs. P fs \<longrightarrow> (case m fs of (fs', Inr x) \<Rightarrow> Q x fs' | (fs', Inl e) \<Rightarrow> X fs'))"

named_theorems valid_intros "rules of the calculus"

lemma validI: "(\<And>fs fs' x. P fs \<Longrightarrow> m fs = (fs', Inr x) \<Longrightarrow> Q x fs') \<Longrightarrow> (\<And>fs fs' e. P fs \<Longrightarrow> m fs = (fs', Inl e) \<Longrightarrow> X fs') \<Longrightarrow> valid P m Q X"
  unfolding valid_def by (auto split: sum.split)

lemma validD_Inr: "valid P m Q X \<Longrightarrow> P fs \<Longrightarrow> m fs = (fs', Inr x) \<Longrightarrow> Q x fs'"
  unfolding valid_def by force

lemma validD_Inl: "valid P m Q X \<Longrightarrow> P fs \<Longrightarrow> m fs = (fs', Inl e) \<Longrightarrow> X fs'"
  unfolding valid_def by force

lemma valid_returnI [valid_intros]: "(\<And>fs. P fs \<Longrightarrow> Q x fs) \<Longrightarrow> valid P (returnI x) Q X"
  by (auto simp: valid_def returnI_def)

lemma valid_liftI [valid_intros]:
  "(\<And>fs x. P fs \<Longrightarrow> r = Inr x \<Longrightarrow> Q x fs) \<Longrightarrow> (\<And>fs e. P fs \<Longrightarrow> r = Inl e \<Longrightarrow> X fs) \<Longrightarrow> valid P (liftI r) Q X"
  by (auto simp: valid_def liftI_def split: sum.split)

lemma valid_checkI [valid_intros]:
  "(\<And>fs. P fs \<Longrightarrow> c \<Longrightarrow> Q () fs) \<Longrightarrow> (\<And>fs. P fs \<Longrightarrow> X fs) \<Longrightarrow> valid P (checkI c e) Q X"
  by (auto simp: valid_def checkI_def checkE_def liftI_def)

lemma valid_getI [valid_intros]: "(\<And>fs. P fs \<Longrightarrow> Q (content fs p) fs) \<Longrightarrow> valid P (getI p) Q X"
  by (auto simp: valid_def getI_def)

lemma valid_filesI [valid_intros]: "(\<And>fs. P fs \<Longrightarrow> Q fs fs) \<Longrightarrow> valid P filesI Q X"
  by (auto simp: valid_def filesI_def)

lemma valid_readI [valid_intros]:
  "(\<And>fs x. P fs \<Longrightarrow> content fs p = Some x \<Longrightarrow> Q x fs) \<Longrightarrow> (\<And>fs. P fs \<Longrightarrow> X fs) \<Longrightarrow> valid P (readI p) Q X"
  by (auto simp: valid_def readI_def of_option_def split: option.split)

lemma valid_atomic_write [valid_intros]:
  "(\<And>fs. P fs \<Longrightarrow> Q () (AList.update p d fs)) \<Longrightarrow> valid P (atomic_write p d) Q X"
  by (auto simp: valid_def atomic_write_def)

lemma valid_safe_unlink [valid_intros]:
  "(\<And>fs. P fs \<Longrightarrow> Q () (AList.delete p fs)) \<Longrightarrow> valid P (safe_unlink p) Q X"
  by (auto simp: valid_def safe_unlink_def)

lemma valid_bindI [valid_intros]:
  "valid P m R X \<Longrightarrow> (\<And>x. valid (R x) (f x) Q X) \<Longrightarrow> valid P (bindI m f) Q X"
  unfolding valid_def bindI_def by (fastforce split: sum.splits prod.splits)

lemma valid_weaken:
  "valid P m Q X \<Longrightarrow> (\<And>fs. P' fs \<Longrightarrow> P fs) \<Longrightarrow> (\<And>x fs. Q x fs \<Longrightarrow> Q' x fs) \<Longrightarrow> (\<And>fs. X fs \<Longrightarrow> X' fs)
     \<Longrightarrow> valid P' m Q' X'"
  unfolding valid_def by (fastforce split: sum.splits prod.splits)

text \<open>A sequence of steps that each keep a predicate.\<close>

lemma valid_seqI: "(\<And>m. m \<in> set ms \<Longrightarrow> valid P m (\<lambda>_. P) P) \<Longrightarrow> valid P (seqI ms) (\<lambda>_. P) P"
  by (induction ms) (auto intro!: valid_intros)

lemma valid_seqI_Cons: "valid P m (\<lambda>_. R) X \<Longrightarrow> valid R (seqI ms) Q X \<Longrightarrow> valid P (seqI (m # ms)) Q X"
  by (auto intro!: valid_bindI)

lemma valid_seqI_Nil: "(\<And>fs. P fs \<Longrightarrow> Q () fs) \<Longrightarrow> valid P (seqI []) Q X"
  by (auto intro!: valid_intros)

lemma bindI_Inr:
  "bindI m f fs = (fs', Inr y) \<longleftrightarrow> (\<exists>fs1 x. m fs = (fs1, Inr x) \<and> f x fs1 = (fs', Inr y))"
  unfolding bindI_def by (auto split: sum.splits prod.splits)

lemma content_update [simp]: "content (AList.update p d fs) q = (if q = p then Some d else content fs q)"
  by (simp add: update_conv)

lemma content_delete [simp]: "content (AList.delete p fs) q = (if q = p then None else content fs q)"
  by (simp add: delete_conv)

end
