(* ===== verification/Store.thy ===== *)
theory Store
  imports Files Reducer
begin

text \<open>
  \<open>storage/backend.py\<close>: the flat-file backend.  A backend is its network, its genesis hash and
  its failpoint callback, which sees the files, so that any exception at any named point of a
  commit is covered.  The journal object keeps no state the code uses: \<open>append\<close> reads the
  highest sequence number from the file each time.
\<close>

record backend =
  be_network_id :: string
  be_genesis_hash :: string
  be_fail :: "files \<Rightarrow> string \<Rightarrow> unit res"

definition STORAGE_FORMAT_VERSION :: int where "STORAGE_FORMAT_VERSION = 1"
definition SNAPSHOT_INTERVAL :: int where "SNAPSHOT_INTERVAL = 100"

definition fail_at :: "backend \<Rightarrow> string \<Rightarrow> unit io" where
  "fail_at be name fs = (fs, be_fail be fs name)"

definition backend_config :: "backend \<Rightarrow> json" where
  "backend_config be = JDict [(''storage_format_version'', JInt STORAGE_FORMAT_VERSION),
     (''network_id'', JStr (be_network_id be)), (''genesis_hash'', JStr (be_genesis_hash be)),
     (''backend'', JStr ''flat-file'')]"

definition write_config :: "backend \<Rightarrow> unit io" where
  "write_config be = bindI (getI ConfigFile) (\<lambda>c. case c of
       Some _ \<Rightarrow> returnI ()
     | None \<Rightarrow> bindI (liftI (dumps_bytes indent_style (backend_config be))) (atomic_write ConfigFile))"

section \<open>The journal file\<close>

definition append_journal :: "env \<Rightarrow> backend \<Rightarrow> int \<Rightarrow> int \<Rightarrow> bytes \<Rightarrow> unit io" where
  "append_journal E be record_type height payload =
     thenI (fail_at be ''before_journal_append'')
    (bindI (getI JournalFile) (\<lambda>f.
     bindI (liftI (journal_append E f record_type height payload)) (\<lambda>data.
     thenI (atomic_write JournalFile data)
       (fail_at be ''after_journal_append''))))"

definition rotate_journal :: "int \<Rightarrow> unit io" where
  "rotate_journal height = bindI (getI JournalFile) (\<lambda>f. case f of
       None \<Rightarrow> returnI ()
     | Some data \<Rightarrow> thenI (atomic_write (JournalArchive height) data) (safe_unlink JournalFile))"

definition reset_journal :: "unit io" where
  "reset_journal = safe_unlink JournalFile"

section \<open>Reading\<close>

definition genesis_tip :: "backend \<Rightarrow> head_info" where
  "genesis_tip be = \<lparr>hi_height = 0, hi_block_hash = be_genesis_hash be, hi_network_id = be_network_id be,
     hi_genesis_hash = be_genesis_hash be, hi_format_version = STORAGE_FORMAT_VERSION\<rparr>"

definition get_tip :: "runtime \<Rightarrow> backend \<Rightarrow> files \<Rightarrow> head_info res" where
  "get_tip R be fs = (case content fs HeadFile of None \<Rightarrow> Inr (genesis_tip be) | Some data \<Rightarrow> decode_head R data)"

definition read_header :: "files \<Rightarrow> int \<Rightarrow> bytes res" where
  "read_header fs height =
     bindE (of_option StorageIOError (content fs (HeaderFile height))) (\<lambda>data.
     thenE (checkE (length data = HEADER_LEN) StorageIOError) (Inr data))"

definition read_block :: "env \<Rightarrow> runtime \<Rightarrow> files \<Rightarrow> int \<Rightarrow> block_v2 res" where
  "read_block E R fs height =
     bindE (of_option StorageIOError (content fs (BlockFile height))) (decode_block_record E R)"

text \<open>Every exception becomes a \<open>StorageIOError\<close>; height 0 is the genesis block.\<close>

definition read_chain_up_to :: "env \<Rightarrow> runtime \<Rightarrow> files \<Rightarrow> int \<Rightarrow> block_v2 list res" where
  "read_chain_up_to E R fs height =
     mapE (\<lambda>h. if h = 0 then create_genesis_block
               else catchE (read_block E R fs h) (\<lambda>_. True) (Inl StorageIOError)) [0..height]"

definition list_blocks :: "files \<Rightarrow> int list" where
  "list_blocks fs = sort (scan_heights block_height fs)"

definition archive_ok :: "string \<Rightarrow> bool" where
  "archive_ok content_hash = hex64 content_hash"

definition put_archive_object :: "env \<Rightarrow> string \<Rightarrow> bytes \<Rightarrow> unit io" where
  "put_archive_object E content_hash data =
     thenI (checkI (archive_ok content_hash) ValueError)
    (thenI (checkI (hash_single_hex E data = content_hash) StorageIOError)
    (bindI (getI (ArchiveObject content_hash)) (\<lambda>f. case f of
       Some existing \<Rightarrow> checkI (existing = data) StorageIOError
     | None \<Rightarrow> atomic_write (ArchiveObject content_hash) data)))"

definition get_archive_object :: "env \<Rightarrow> files \<Rightarrow> string \<Rightarrow> bytes res" where
  "get_archive_object E fs content_hash =
     bindE (of_option StorageIOError (content fs (ArchiveObject content_hash))) (\<lambda>data.
     thenE (checkE (hash_single_hex E data = content_hash) StorageIOError) (Inr data))"

section \<open>Snapshots\<close>

definition snapshot_meta :: "env \<Rightarrow> backend \<Rightarrow> int \<Rightarrow> registry_state \<Rightarrow> bytes \<Rightarrow> json res" where
  "snapshot_meta E be height state data =
     bindE (registry_root E state) (\<lambda>root.
       Inr (JDict [(''height'', JInt height), (''network_id'', JStr (be_network_id be)),
         (''genesis_hash'', JStr (be_genesis_hash be)), (''registry_root'', JStr root),
         (''state_hash'', JStr (hash_single_hex E data)), (''format_version'', JInt STORAGE_FORMAT_VERSION)]))"

definition write_snapshot :: "env \<Rightarrow> backend \<Rightarrow> int \<Rightarrow> registry_state \<Rightarrow> unit io" where
  "write_snapshot E be height state =
     bindI (liftI (serialize_registry_state state)) (\<lambda>data.
     thenI (atomic_write (SnapshotFile height) data)
    (bindI (liftI (bindE (snapshot_meta E be height state data) (dumps_bytes indent_style)))
       (atomic_write (SnapshotMeta height))))"

definition read_snapshot :: "env \<Rightarrow> runtime \<Rightarrow> backend \<Rightarrow> files \<Rightarrow> int \<Rightarrow> registry_state option res" where
  "read_snapshot E R be fs height =
     bindE (get_tip R be fs) (\<lambda>tip.
       if height > hi_height tip then Inr None
       else case content fs (SnapshotFile height) of
           None \<Rightarrow> Inr None
         | Some data \<Rightarrow>
             thenE (case content fs (SnapshotMeta height) of
                      None \<Rightarrow> Inr ()
                    | Some m \<Rightarrow> bindE (loads R m) (\<lambda>meta.
                        bindE (jget meta ''state_hash'' JNull) (\<lambda>h.
                          checkE (h = JStr (hash_single_hex E data)) StorageIOError)))
              (bindE (deserialize_registry_state data) (\<lambda>s. Inr (Some s))))"

section \<open>Indexes\<close>

definition read_index :: "runtime \<Rightarrow> path \<Rightarrow> json io" where
  "read_index R p = bindI (getI p) (\<lambda>f. liftI (case f of None \<Rightarrow> Inr (JDict []) | Some data \<Rightarrow> loads R data))"

fun set_item :: "json \<Rightarrow> string \<Rightarrow> json \<Rightarrow> json res" where
  "set_item (JDict d) k v = Inr (JDict (dict_set d k v))"
| "set_item _ k v = Inl TypeError"

definition write_index :: "path \<Rightarrow> json \<Rightarrow> unit io" where
  "write_index p j = bindI (liftI (dumps_bytes indent_style j)) (atomic_write p)"

definition update_indexes :: "runtime \<Rightarrow> int \<Rightarrow> string \<Rightarrow> unit io" where
  "update_indexes R height block_hash =
     bindI (read_index R HeightIndex) (\<lambda>height_to_hash.
     bindI (read_index R HashIndex) (\<lambda>hash_to_height.
     bindI (liftI (set_item height_to_hash (int_text height) (JStr block_hash))) (\<lambda>height_to_hash.
     bindI (liftI (set_item hash_to_height block_hash (JInt height))) (\<lambda>hash_to_height.
     thenI (write_index HeightIndex height_to_hash)
       (write_index HashIndex hash_to_height)))))"

text \<open>The loop that \<open>rebuild_indexes\<close> and the recovery share: blocks above the safe height and
  blocks that cannot be read (an exception in \<open>skip\<close>) are left out.\<close>

type_synonym index_pair = "(string \<times> json) list \<times> (string \<times> json) list"

definition index_block :: "env \<Rightarrow> (int \<Rightarrow> block_v2 res) \<Rightarrow> (py_error \<Rightarrow> bool) \<Rightarrow> int \<Rightarrow> index_pair \<Rightarrow> int \<Rightarrow> index_pair res" where
  "index_block E read skip safe_height ix h =
     (if h > safe_height then Inr ix
      else catchE (bindE (read h) (\<lambda>block. bindE (header_v2_hash E (bk_header block)) (\<lambda>bh.
             Inr (dict_set (fst ix) (int_text h) (JStr bh), dict_set (snd ix) bh (JInt h))))) skip (Inr ix))"

definition rebuild_indexes :: "env \<Rightarrow> runtime \<Rightarrow> backend \<Rightarrow> (int \<times> int list) io" where
  "rebuild_indexes E R be =
     bindI filesI (\<lambda>fs.
     bindI (liftI (get_tip R be fs)) (\<lambda>tip.
     let safe_height = hi_height tip in
     bindI (liftI (foldE (index_block E (read_block E R fs)
                (\<lambda>e. e = StorageIOError \<or> e = FileNotFound \<or> is_value_error e) safe_height) ([], []) (list_blocks fs)))
       (\<lambda>(height_to_hash, hash_to_height).
     thenI (if height_to_hash \<noteq> []
            then seqI [write_index HeightIndex (JDict height_to_hash), write_index HashIndex (JDict hash_to_height)]
            else seqI [safe_unlink HeightIndex, safe_unlink HashIndex])
    (bindI (liftI (mapE (\<lambda>(k, _). of_option ValueError (int_of_text R k)) height_to_hash)) (\<lambda>hs.
       returnI (safe_height, sort hs))))))"

section \<open>Appending a block\<close>

definition replay_tx :: "env \<Rightarrow> gov_context \<Rightarrow> int \<Rightarrow> registry_state \<Rightarrow> json \<Rightarrow> registry_state res" where
  "replay_tx E context height state tx =
     bindE (jget tx ''body'' tx) (\<lambda>body.
     bindE (jget body ''type'' JNull) (\<lambda>tx_type.
       let commit = (\<lambda>parsed. bindE (hash_object_hex E body) (\<lambda>txid.
             apply_registry_transaction E state parsed height txid context)) in
       if tx_type = JStr ''register'' then bindE (register_from_dict body GOV_NETWORK_ID) (\<lambda>p. commit (RegisterTx p))
       else if tx_type = JStr ''rotate'' then bindE (rotate_from_dict body GOV_NETWORK_ID) (\<lambda>p. commit (RotateTx p))
       else if tx_type = JStr ''revoke'' then bindE (revoke_from_dict body GOV_NETWORK_ID) (\<lambda>p. commit (RevokeTx p))
       else Inr state))"

definition replay_block :: "env \<Rightarrow> registry_state \<Rightarrow> int \<Rightarrow> json list \<Rightarrow> registry_state res" where
  "replay_block E previous_state height txs =
     bindE (governance_context (rs_governance_keys previous_state) (rs_threshold previous_state) GOV_NETWORK_ID)
       (\<lambda>context. foldE (replay_tx E context height) previous_state txs)"

text \<open>Steps 2, 3 and 4: an artifact is written to \<open>tmp\<close> and recorded in the journal.\<close>

definition stage :: "env \<Rightarrow> backend \<Rightarrow> int \<Rightarrow> string \<Rightarrow> path \<Rightarrow> bytes \<Rightarrow> string \<Rightarrow> int \<Rightarrow> string \<Rightarrow> unit io" where
  "stage E be height before tmp data after record_type recorded =
     seqI [fail_at be before, atomic_write tmp data, fail_at be after,
       append_journal E be record_type height data, fail_at be recorded]"

definition copy_file :: "path \<Rightarrow> path \<Rightarrow> unit io" where
  "copy_file src dst = bindI (readI src) (atomic_write dst)"

definition publish_snapshot :: "int \<Rightarrow> bytes \<Rightarrow> unit io" where
  "publish_snapshot height snapshot_bytes =
     bindI (getI (SnapshotFile height)) (\<lambda>f.
       if f \<noteq> None \<or> height mod SNAPSHOT_INTERVAL = 0 then atomic_write (SnapshotFile height) snapshot_bytes
       else returnI ())"

text \<open>Step 6.\<close>

definition publish :: "env \<Rightarrow> runtime \<Rightarrow> backend \<Rightarrow> int \<Rightarrow> string \<Rightarrow> bytes \<Rightarrow> unit io" where
  "publish E R be height block_hash snapshot_bytes =
     seqI [fail_at be ''before_publish'', fail_at be ''during_header_rename'',
       copy_file (TmpHeader height) (HeaderFile height), fail_at be ''after_header_publish'',
       fail_at be ''during_block_rename'', copy_file (TmpBlock height) (BlockFile height),
       fail_at be ''after_block_publish'', publish_snapshot height snapshot_bytes,
       fail_at be ''after_snapshot_publish'', fail_at be ''before_index_stage'',
       update_indexes R height block_hash, append_journal E be JOURNAL_INDEX_STAGED height [],
       fail_at be ''after_index_stage'', fail_at be ''after_publish'']"

text \<open>Steps 7 and 8, and steps 9 and 10.\<close>

definition commit_block :: "env \<Rightarrow> backend \<Rightarrow> int \<Rightarrow> unit io" where
  "commit_block E be height =
     seqI [fail_at be ''before_fsync'', fail_at be ''after_fsync'', fail_at be ''before_commit'',
       append_journal E be JOURNAL_COMMIT height [], fail_at be ''during_commit'', fail_at be ''after_commit'']"

definition advance_head :: "backend \<Rightarrow> int \<Rightarrow> string \<Rightarrow> unit io" where
  "advance_head be height block_hash =
     seqI [fail_at be ''before_head_update'',
       bindI (liftI (encode_head height block_hash (be_network_id be) (be_genesis_hash be) STORAGE_FORMAT_VERSION))
         (atomic_write HeadFile),
       fail_at be ''after_head_update'', fail_at be ''before_dir_sync'', fail_at be ''after_dir_sync'']"

definition store_block :: "env \<Rightarrow> runtime \<Rightarrow> backend \<Rightarrow> block_v2 \<Rightarrow> int \<Rightarrow> string \<Rightarrow> registry_state \<Rightarrow> unit io" where
  "store_block E R be block height block_hash state =
     thenI (seqI [fail_at be ''before_begin'', append_journal E be JOURNAL_BEGIN height [], fail_at be ''after_begin''])
    (bindI (liftI (header_v2_bytes (bk_header block))) (\<lambda>header_bytes.
     thenI (stage E be height ''before_header_stage'' (TmpHeader height) header_bytes
              ''after_header_stage'' JOURNAL_HEADER_STAGED ''after_header_staged_record'')
    (bindI (liftI (encode_block_record E block)) (\<lambda>block_record.
     thenI (stage E be height ''before_block_stage'' (TmpBlock height) block_record
              ''after_block_stage'' JOURNAL_BLOCK_STAGED ''after_block_staged_record'')
    (bindI (liftI (serialize_registry_state state)) (\<lambda>snapshot_bytes.
     thenI (stage E be height ''before_registry_stage'' (TmpState height) snapshot_bytes
              ''after_registry_stage'' JOURNAL_REGISTRY_STAGED ''after_registry_staged_record'')
    (thenI (if hash_double_hex E header_bytes \<noteq> block_hash
            then thenI (append_journal E be JOURNAL_ABORT height (str_bytes ''header hash mismatch''))
                   (liftI (Inl StorageIOError))
            else returnI ())
    (thenI (publish E R be height block_hash snapshot_bytes)
    (thenI (commit_block E be height)
    (thenI (advance_head be height block_hash)
       (seqI [safe_unlink (TmpHeader height), safe_unlink (TmpBlock height), safe_unlink (TmpState height)])))))))))))"

definition append_block :: "env \<Rightarrow> runtime \<Rightarrow> backend \<Rightarrow> block_v2 \<Rightarrow> registry_state \<Rightarrow> registry_state io" where
  "append_block E R be block previous_state =
     bindI filesI (\<lambda>fs.
     bindI (liftI (get_tip R be fs)) (\<lambda>tip.
     let height = hi_height tip + 1 in
     thenI (checkI (\<not> height \<le> 0) StorageIOError)
    (bindI (liftI (replay_block E previous_state height (bk_transactions block))) (\<lambda>state.
     bindI (liftI (header_v2_hash E (bk_header block))) (\<lambda>block_hash.
     thenI (store_block E R be block height block_hash state)
       (returnI state))))))"

section \<open>Switching the tip\<close>

definition atomic_tip_switch :: "env \<Rightarrow> runtime \<Rightarrow> backend \<Rightarrow> int \<Rightarrow> string \<Rightarrow> (int \<times> string \<times> int \<times> int list) io" where
  "atomic_tip_switch E R be new_tip_height new_tip_hash =
     thenI (checkI (\<not> new_tip_height < 0) StorageIOError)
    (thenI (seqI [fail_at be ''before_reorg_commit'', append_journal E be JOURNAL_COMMIT new_tip_height [],
        fail_at be ''after_reorg_commit'', fail_at be ''before_head_update'',
        bindI (liftI (encode_utf8 (head_line new_tip_height new_tip_hash (be_network_id be) (be_genesis_hash be)
                 STORAGE_FORMAT_VERSION))) (atomic_write HeadFile),
        fail_at be ''after_head_update''])
    (bindI (rebuild_indexes E R be) (\<lambda>index_info. returnI (new_tip_height, new_tip_hash, index_info))))"

end
