(* ===== verification/Recovery.thy ===== *)
theory Recovery
  imports Store
begin

text \<open>
  \<open>storage/recovery.py\<close>: \<open>recover_store\<close> on the files a crash left behind.
\<close>

definition verify_block_at_height :: "env \<Rightarrow> runtime \<Rightarrow> files \<Rightarrow> int \<Rightarrow> string \<Rightarrow> bool res" where
  "verify_block_at_height E R fs height expected_hash =
     (case (content fs (HeaderFile height), content fs (BlockFile height)) of
        (Some header_data, Some block_data) \<Rightarrow>
          if length header_data \<noteq> HEADER_LEN then Inr False
          else if hash_double_hex E header_data \<noteq> expected_hash then Inr False
          else (case decode_block_record E R block_data of
                  Inl e \<Rightarrow> if is_value_error e then Inr False else Inl e
                | Inr block \<Rightarrow> bindE (header_v2_hash E (bk_header block)) (\<lambda>h. Inr (h = expected_hash)))
      | _ \<Rightarrow> Inr False)"

text \<open>The walk from the safe height down to 1: the heights rolled back, the hash at the end and,
  after a failed check, the new safe height.\<close>

primrec walk_back :: "env \<Rightarrow> runtime \<Rightarrow> files \<Rightarrow> string \<Rightarrow> nat \<Rightarrow> string \<Rightarrow> (int list \<times> string \<times> int option) res" where
  "walk_back E R fs genesis_hash 0 current_hash = Inr ([], current_hash, None)"
| "walk_back E R fs genesis_hash (Suc n) current_hash =
     (let h = int (Suc n) in
      bindE (verify_block_at_height E R fs h current_hash) (\<lambda>ok.
        if ok then
          (case bindE (of_option FileNotFound (content fs (BlockFile h))) (decode_block_record E R) of
             Inl e \<Rightarrow> if is_value_error e then Inr ([h], genesis_hash, Some (h - 1)) else Inl e
           | Inr block \<Rightarrow> walk_back E R fs genesis_hash n (bh_prev_hash (bk_header block)))
        else Inr ([h], genesis_hash, Some (h - 1))))"

definition unlink_all :: "path list \<Rightarrow> unit io" where
  "unlink_all ps = seqI (map safe_unlink ps)"

definition delete_above :: "int \<Rightarrow> unit io" where
  "delete_above safe_height =
     bindI filesI (\<lambda>fs. thenI (unlink_all (map HeaderFile (filter (\<lambda>h. h > safe_height) (scan_heights header_height fs))))
    (bindI filesI (\<lambda>fs. thenI (unlink_all (map BlockFile (filter (\<lambda>h. h > safe_height) (scan_heights block_height fs))))
    (bindI filesI (\<lambda>fs. unlink_all (concat (map (\<lambda>h. [SnapshotFile h, SnapshotMeta h])
        (filter (\<lambda>h. h > safe_height) (scan_heights snapshot_height fs)))))))))"

record recovery =
  rc_height :: int
  rc_block_hash :: string
  rc_network_id :: string
  rc_genesis_hash :: string
  rc_format_version :: int
  rc_rolled_back :: "int list"
  rc_rebuilt :: "string list"
  rc_note :: string

text \<open>The HEAD a recovery starts from; a HEAD that is unreadable, or of another genesis, counts as
  missing, because \<open>RecoveryError\<close> is a \<open>ValueError\<close>.\<close>

definition recovery_head :: "runtime \<Rightarrow> string \<Rightarrow> bytes option \<Rightarrow> (int \<times> string) res" where
  "recovery_head R genesis_hash head_file =
     (case head_file of
        None \<Rightarrow> Inr (0, genesis_hash)
      | Some data \<Rightarrow>
          catchE (bindE (decode_head R data) (\<lambda>head.
              thenE (checkE (hi_genesis_hash head = genesis_hash) RecoveryError)
                (Inr (hi_height head, hi_block_hash head)))) is_value_error (Inr (0, genesis_hash)))"

definition int_list_text :: "int list \<Rightarrow> string" where
  "int_list_text xs = ''['' @ join '', '' (map int_text xs) @ '']''"

definition limit_height :: "int option \<Rightarrow> int \<Rightarrow> int" where
  "limit_height max_height safe_height =
     (case max_height of Some m \<Rightarrow> if safe_height > m then m else safe_height | None \<Rightarrow> safe_height)"

definition write_recovered_head :: "int \<Rightarrow> string \<Rightarrow> string \<Rightarrow> string \<Rightarrow> unit io" where
  "write_recovered_head height block_hash network_id genesis_hash =
     bindI (liftI (encode_utf8 (head_line height block_hash network_id genesis_hash 1))) (atomic_write HeadFile)"

definition read_block_file :: "env \<Rightarrow> runtime \<Rightarrow> files \<Rightarrow> int \<Rightarrow> block_v2 res" where
  "read_block_file E R fs h = bindE (of_option FileNotFound (content fs (BlockFile h))) (decode_block_record E R)"

definition recover_indexes :: "env \<Rightarrow> runtime \<Rightarrow> int \<Rightarrow> (string list) io" where
  "recover_indexes E R safe_height =
     bindI filesI (\<lambda>fs.
     bindI (liftI (foldE (index_block E (read_block_file E R fs) is_value_error safe_height) ([], []) (list_blocks fs)))
       (\<lambda>(height_to_hash, hash_to_height).
     thenI (if height_to_hash \<noteq> []
            then seqI [write_index HeightIndex (JDict height_to_hash), write_index HashIndex (JDict hash_to_height)]
            else returnI ())
       (returnI (map fst height_to_hash))))"

definition recover_store :: "env \<Rightarrow> runtime \<Rightarrow> string \<Rightarrow> string \<Rightarrow> int option \<Rightarrow> recovery io" where
  "recover_store E R network_id genesis_hash max_height =
     bindI filesI (\<lambda>fs.
     bindI (liftI (recovery_head R genesis_hash (content fs HeadFile))) (\<lambda>(head_height, head_hash).
     let commit_height = last_commit_height E (content fs JournalFile);
         safe_height = limit_height max_height (min head_height commit_height) in
     bindI (liftI (walk_back E R fs genesis_hash (nat safe_height) head_hash)) (\<lambda>(rolled_back, current_hash, cut).
     let safe_height = (case cut of None \<Rightarrow> safe_height | Some s \<Rightarrow> s) in
     thenI (delete_above safe_height)
    (thenI (if safe_height \<noteq> head_height then write_recovered_head safe_height current_hash network_id genesis_hash
            else returnI ())
    (bindI (recover_indexes E R safe_height) (\<lambda>rebuilt.
       returnI \<lparr>rc_height = safe_height, rc_block_hash = current_hash, rc_network_id = network_id,
         rc_genesis_hash = genesis_hash, rc_format_version = 1, rc_rolled_back = rolled_back, rc_rebuilt = rebuilt,
         rc_note = (if rolled_back = [] then ''clean recovery''
                    else ''rolled back heights '' @ int_list_text rolled_back)\<rparr>))))))"

end
