(* ===== verification/Store_Props.thy ===== *)
theory Store_Props
  imports Recovery
begin

text \<open>
  What the storage promises.  A directory \<open>stored\<close> a chain when HEAD names its tip, the header
  and block files of its heights hold it, each block names its predecessor, and the journal has a
  commit at least that high.  Recovery of such a directory changes nothing (\<open>recover_stored\<close>);
  a commit that is cut off at any failpoint leaves a directory that stores the old chain or the
  new one (\<open>append_block_stored\<close>).
\<close>

section \<open>The registry replay of the backend\<close>

lemma type_key: "dget d ''type'' JNull = JStr s \<Longrightarrow> ''type'' \<in> dkeys d"
  by (auto simp: dget_def dkeys_def split: option.split_asm dest!: map_of_SomeD) force

lemma register_with_type: "dget d ''type'' JNull = JStr s \<Longrightarrow> register_from_dict (JDict d) n = Inl GovernanceError"
  using type_key [of d s] by (auto simp: check_envelope_def checkE_def)

lemma rotate_with_type: "dget d ''type'' JNull = JStr s \<Longrightarrow> rotate_from_dict (JDict d) n = Inl GovernanceError"
  using type_key [of d s] by (auto simp: check_envelope_def checkE_def)

lemma revoke_with_type: "dget d ''type'' JNull = JStr s \<Longrightarrow> revoke_from_dict (JDict d) n = Inl GovernanceError"
  using type_key [of d s] by (auto simp: check_envelope_def checkE_def)

lemma replay_tx_same:
  assumes "replay_tx E ctx h s tx = Inr s'"
  shows "s' = s"
proof -
  from assms obtain body t where b: "jget tx ''body'' tx = Inr body" "jget body ''type'' JNull = Inr t"
    by (auto simp: replay_tx_def res_simps)
  then obtain d where d: "body = JDict d" "dget d ''type'' JNull = t" by (auto simp: jget_Inr)
  show ?thesis
    using assms b d register_with_type [of d] rotate_with_type [of d] revoke_with_type [of d]
    by (auto simp: replay_tx_def Let_def split: if_split_asm)
qed

lemma replay_block_same: "replay_block E s h txs = Inr s' \<Longrightarrow> s' = s"
  unfolding replay_block_def
  by (auto simp: res_simps elim!: foldE_invariant [where P = "\<lambda>t. t = s"] dest: replay_tx_same)

section \<open>A directory that stores a chain\<close>

text \<open>The hash of a block, and the tip of a chain: heights count from 1.\<close>

definition block_id :: "env \<Rightarrow> block_v2 \<Rightarrow> string" where
  "block_id E b = (case header_v2_hash E (bk_header b) of Inl _ \<Rightarrow> [] | Inr h \<Rightarrow> h)"

definition tip_hash :: "env \<Rightarrow> backend \<Rightarrow> block_v2 list \<Rightarrow> string" where
  "tip_hash E be chain = (if chain = [] then be_genesis_hash be else block_id E (last chain))"

definition tip_info :: "env \<Rightarrow> backend \<Rightarrow> block_v2 list \<Rightarrow> head_info" where
  "tip_info E be chain = \<lparr>hi_height = int (length chain), hi_block_hash = tip_hash E be chain,
     hi_network_id = be_network_id be, hi_genesis_hash = be_genesis_hash be, hi_format_version = STORAGE_FORMAT_VERSION\<rparr>"

definition wf_backend :: "backend \<Rightarrow> bool" where
  "wf_backend be \<longleftrightarrow> hex64 (be_genesis_hash be) \<and> utf8_valid (be_network_id be) \<and> CHR '':'' \<notin> set (be_network_id be)"

text \<open>The files of one block.\<close>

definition block_stored :: "env \<Rightarrow> runtime \<Rightarrow> files \<Rightarrow> int \<Rightarrow> block_v2 \<Rightarrow> bool" where
  "block_stored E R fs h b \<longleftrightarrow>
     wf_header_v2 (bk_header b)
     \<and> (\<exists>hb. header_v2_bytes (bk_header b) = Inr hb \<and> content fs (HeaderFile h) = Some hb)
     \<and> (\<exists>data. content fs (BlockFile h) = Some data \<and> decode_block_record E R data = Inr b)"

definition linked :: "env \<Rightarrow> block_v2 list \<Rightarrow> bool" where
  "linked E chain \<longleftrightarrow> (\<forall>i. Suc i < length chain \<longrightarrow> bh_prev_hash (bk_header (chain ! Suc i)) = block_id E (chain ! i))"

definition blocks_stored :: "env \<Rightarrow> runtime \<Rightarrow> files \<Rightarrow> block_v2 list \<Rightarrow> bool" where
  "blocks_stored E R fs chain \<longleftrightarrow>
     linked E chain \<and> (\<forall>i < length chain. block_stored E R fs (int (Suc i)) (chain ! i))
     \<and> (\<forall>h. content fs (BlockFile h) \<noteq> None \<longrightarrow> 1 \<le> h)"

definition head_stored :: "env \<Rightarrow> backend \<Rightarrow> files \<Rightarrow> block_v2 list \<Rightarrow> bool" where
  "head_stored E be fs chain \<longleftrightarrow>
     (chain = [] \<and> content fs HeadFile = None)
     \<or> content fs HeadFile = Some (str_bytes (head_text (tip_info E be chain)))"

text \<open>A journal of complete records whose last commit is \<open>c\<close> or above.\<close>

definition journal_stored :: "env \<Rightarrow> files \<Rightarrow> int \<Rightarrow> bool" where
  "journal_stored E fs c \<longleftrightarrow>
     (\<exists>recs bs. mapE (record_bytes E) recs = Inr bs \<and> c \<le> foldl commit_step 0 recs
        \<and> (content fs JournalFile = Some (concat bs) \<or> content fs JournalFile = None \<and> recs = []))"

definition stored :: "env \<Rightarrow> runtime \<Rightarrow> backend \<Rightarrow> block_v2 list \<Rightarrow> int \<Rightarrow> files \<Rightarrow> bool" where
  "stored E R be chain c fs \<longleftrightarrow>
     blocks_stored E R fs chain \<and> head_stored E be fs chain \<and> journal_stored E fs c \<and> int (length chain) \<le> c"

lemma stored_mono: "stored E R be chain c fs \<Longrightarrow> int (length chain) \<le> c' \<Longrightarrow> c' \<le> c \<Longrightarrow> stored E R be chain c' fs"
  unfolding stored_def journal_stored_def by fastforce

lemma stored_empty: "stored E R be [] 0 []"
  by (auto simp: stored_def blocks_stored_def linked_def head_stored_def journal_stored_def intro!: exI [of _ "[]"])

subsection \<open>Frame\<close>

fun protected :: "int \<Rightarrow> path \<Rightarrow> bool" where
  "protected n HeadFile = True"
| "protected n JournalFile = True"
| "protected n (HeaderFile h) = (h \<le> n)"
| "protected n (BlockFile h) = (h \<le> n)"
| "protected n _ = False"

definition same_protected :: "int \<Rightarrow> files \<Rightarrow> files \<Rightarrow> bool" where
  "same_protected n fs fs' \<longleftrightarrow> (\<forall>p. protected n p \<longrightarrow> content fs' p = content fs p)"

lemma blocks_stored_frame:
  assumes "same_protected (int (length chain)) fs fs'" and "blocks_stored E R fs chain"
  shows "blocks_stored E R fs' chain"
proof -
  have eq: "content fs' (HeaderFile h) = content fs (HeaderFile h)" "content fs' (BlockFile h) = content fs (BlockFile h)"
    if "h \<le> int (length chain)" for h
    using assms(1) that by (simp_all add: same_protected_def)
  have "1 \<le> h" if "content fs' (BlockFile h) \<noteq> None" for h
  proof (rule ccontr)
    assume "\<not> 1 \<le> h"
    then have "content fs (BlockFile h) \<noteq> None" using eq(2) [of h] that by simp
    with assms(2) \<open>\<not> 1 \<le> h\<close> show False by (auto simp: blocks_stored_def)
  qed
  moreover have "block_stored E R fs' (int (Suc i)) (chain ! i)" if "i < length chain" for i
    using assms(2) eq [of "int (Suc i)"] that by (auto simp: blocks_stored_def block_stored_def)
  ultimately show ?thesis using assms(2) by (simp add: blocks_stored_def)
qed

lemma stored_frame:
  assumes "same_protected (int (length chain)) fs fs'" and "stored E R be chain c fs"
  shows "stored E R be chain c fs'"
proof -
  have "content fs' HeadFile = content fs HeadFile" "content fs' JournalFile = content fs JournalFile"
    using assms(1) by (simp_all add: same_protected_def)
  then show ?thesis
    using blocks_stored_frame [OF assms(1)] assms(2) by (simp add: stored_def head_stored_def journal_stored_def)
qed

lemma same_protected_update: "\<not> protected n p \<Longrightarrow> same_protected n fs (AList.update p d fs)"
  and same_protected_delete: "\<not> protected n p \<Longrightarrow> same_protected n fs (AList.delete p fs)"
  by (auto simp: same_protected_def)

subsection \<open>Reading the head\<close>

lemma block_id_hash:
  assumes "wf_header_v2 (bk_header b)"
  obtains hb where "header_v2_bytes (bk_header b) = Inr hb" and "length hb = 149"
    and "header_v2_hash E (bk_header b) = Inr (block_id E b)" and "block_id E b = hash_double_hex E hb"
  using header_v2_roundtrip_aux [OF assms] that by (auto simp: block_id_def header_v2_hash_bytes)

context hash_length
begin

lemma hex64_block_id: "wf_header_v2 (bk_header b) \<Longrightarrow> hex64 (block_id E b)"
  by (rule block_id_hash [of b E]) (auto simp: hash_double_hex_def hex64_hex)

lemma wf_tip_info:
  assumes "wf_backend be" and "\<And>b. b \<in> set chain \<Longrightarrow> wf_header_v2 (bk_header b)"
  shows "wf_head (tip_info E be chain)"
  using assms hex64_block_id [of "last chain"]
  by (auto simp: wf_head_def tip_info_def tip_hash_def wf_backend_def STORAGE_FORMAT_VERSION_def)

end

lemma blocks_stored_wf: "blocks_stored E R fs chain \<Longrightarrow> b \<in> set chain \<Longrightarrow> wf_header_v2 (bk_header b)"
  by (auto simp: blocks_stored_def block_stored_def in_set_conv_nth)

section \<open>The steps of a commit\<close>

text \<open>The chain stays stored while the commit works on unprotected paths, whose contents are
  remembered in \<open>facts\<close>.\<close>

definition keeps :: "env \<Rightarrow> runtime \<Rightarrow> backend \<Rightarrow> block_v2 list \<Rightarrow> int \<Rightarrow> (path \<times> bytes) list \<Rightarrow> files \<Rightarrow> bool" where
  "keeps E R be chain c facts fs \<longleftrightarrow>
     stored E R be chain c fs \<and> (\<forall>(p, d) \<in> set facts. content fs p = Some d)"

lemma keeps_stored: "keeps E R be chain c facts fs \<Longrightarrow> stored E R be chain c fs"
  by (simp add: keeps_def)

lemma keeps_fewer: "keeps E R be chain c facts fs \<Longrightarrow> set facts' \<subseteq> set facts \<Longrightarrow> keeps E R be chain c facts' fs"
  by (auto simp: keeps_def)

lemma keeps_update:
  assumes "keeps E R be chain c facts fs" and "\<not> protected (int (length chain)) p" and "p \<notin> fst ` set facts"
  shows "keeps E R be chain c ((p, d) # facts) (AList.update p d fs)"
  using assms stored_frame [OF same_protected_update [OF assms(2)]] by (force simp: keeps_def)

lemma keeps_delete:
  assumes "keeps E R be chain c facts fs" and "\<not> protected (int (length chain)) p" and "p \<notin> fst ` set facts"
  shows "keeps E R be chain c facts (AList.delete p fs)"
  using assms stored_frame [OF same_protected_delete [OF assms(2)]] by (force simp: keeps_def)

lemma keeps_journal:
  assumes "keeps E R be chain c facts fs" and "JournalFile \<notin> fst ` set facts"
    and "journal_append E (content fs JournalFile) t h p = Inr data"
  shows "keeps E R be chain (if t = JOURNAL_COMMIT then max c h else c) facts (AList.update JournalFile data fs)"
proof -
  let ?r = "\<lparr>jr_type = t, jr_seq = highest_seq E (content fs JournalFile) + 1, jr_height = h, jr_payload = p\<rparr>"
  from assms(1) obtain recs bs where j: "mapE (record_bytes E) recs = Inr bs" "c \<le> foldl commit_step 0 recs"
    "content fs JournalFile = Some (concat bs) \<or> content fs JournalFile = None \<and> recs = []"
    by (auto simp: keeps_def stored_def journal_stored_def)
  from assms(3) obtain b where b: "record_bytes E ?r = Inr b"
    "data = (case content fs JournalFile of None \<Rightarrow> [] | Some data \<Rightarrow> data) @ b"
    by (auto simp: journal_append_def record_bytes_def res_simps)
  have "mapE (record_bytes E) (recs @ [?r]) = Inr (bs @ [b])"
    using j(1) b(1) unfolding mapE_Inr_iff by (auto intro: list_all2_appendI)
  moreover have "data = concat (bs @ [b])" using b(2) j(1,3) by auto
  moreover have "(if t = JOURNAL_COMMIT then max c h else c) \<le> foldl commit_step 0 (recs @ [?r])"
    using j(2) by (auto simp: commit_step_def)
  ultimately have "journal_stored E (AList.update JournalFile data fs) (if t = JOURNAL_COMMIT then max c h else c)"
    unfolding journal_stored_def by (intro exI [of _ "recs @ [?r]"] exI [of _ "bs @ [b]"]) auto
  moreover have "blocks_stored E R (AList.update JournalFile data fs) chain"
    using assms(1) by (auto simp: keeps_def stored_def blocks_stored_def block_stored_def)
  ultimately show ?thesis
    using assms(1,2) by (force simp: keeps_def stored_def head_stored_def)
qed

lemma valid_fail_at [valid_intros]: "(\<And>fs. P fs \<Longrightarrow> Q () fs) \<Longrightarrow> (\<And>fs. P fs \<Longrightarrow> X fs) \<Longrightarrow> valid P (fail_at be name) Q X"
  by (auto simp: valid_def fail_at_def split: sum.split)

lemma keeps_fail_at: "valid (keeps E R be chain c facts) (fail_at be' name) (\<lambda>_. keeps E R be chain c facts) (stored E R be chain c)"
  by (intro valid_intros) (auto simp: keeps_stored)

lemma keeps_atomic_write:
  "\<not> protected (int (length chain)) p \<Longrightarrow> p \<notin> fst ` set facts \<Longrightarrow>
     valid (keeps E R be chain c facts) (atomic_write p d) (\<lambda>_. keeps E R be chain c ((p, d) # facts)) (stored E R be chain c)"
  by (intro valid_intros keeps_update)

text \<open>The same where the new contents do not matter.\<close>

lemma keeps_write_any:
  "\<not> protected (int (length chain)) p \<Longrightarrow> p \<notin> fst ` set facts \<Longrightarrow>
     valid (keeps E R be chain c facts) (atomic_write p d) (\<lambda>_. keeps E R be chain c facts) (stored E R be chain c)"
  by (rule valid_weaken [OF keeps_atomic_write]) (auto elim: keeps_fewer)

lemma keeps_unlink:
  "\<not> protected (int (length chain)) p \<Longrightarrow> p \<notin> fst ` set facts \<Longrightarrow>
     valid (keeps E R be chain c facts) (safe_unlink p) (\<lambda>_. keeps E R be chain c facts) (stored E R be chain c)"
  by (intro valid_intros keeps_delete)

lemma keeps_append_journal:
  assumes "JournalFile \<notin> fst ` set facts" and "int (length chain) \<le> c"
  shows "valid (keeps E R be chain c facts) (append_journal E be' t h p)
    (\<lambda>_. keeps E R be chain (if t = JOURNAL_COMMIT then max c h else c) facts) (stored E R be chain c)"
proof (rule validI)
  fix fs fs' x assume k: "keeps E R be chain c facts fs" and "append_journal E be' t h p fs = (fs', Inr x)"
  then obtain data where "journal_append E (content fs JournalFile) t h p = Inr data" "fs' = AList.update JournalFile data fs"
    by (auto simp: append_journal_def bindI_Inr fail_at_def getI_def liftI_def atomic_write_def)
  then show "keeps E R be chain (if t = JOURNAL_COMMIT then max c h else c) facts fs'"
    using keeps_journal [OF k assms(1)] by blast
next
  fix fs fs' e assume k: "keeps E R be chain c facts fs" and "append_journal E be' t h p fs = (fs', Inl e)"
  then have "fs' = fs \<or> (\<exists>data. journal_append E (content fs JournalFile) t h p = Inr data
      \<and> fs' = AList.update JournalFile data fs)"
    by (auto simp: append_journal_def bindI_def fail_at_def getI_def liftI_def atomic_write_def split: sum.split_asm)
  then show "stored E R be chain c fs'"
  proof
    assume "\<exists>data. journal_append E (content fs JournalFile) t h p = Inr data \<and> fs' = AList.update JournalFile data fs"
    then have "keeps E R be chain (if t = JOURNAL_COMMIT then max c h else c) facts fs'"
      using keeps_journal [OF k assms(1)] by blast
    then show ?thesis using assms(2) by (auto dest!: keeps_stored elim: stored_mono split: if_split_asm)
  qed (use k keeps_stored in auto)
qed

lemma not_protected_journal: "\<not> protected n p \<Longrightarrow> p \<noteq> JournalFile"
  by (cases p) auto

lemma keeps_stage:
  assumes "\<not> protected (int (length chain)) p" and "p \<notin> fst ` set facts" and "JournalFile \<notin> fst ` set facts"
    and "int (length chain) \<le> c" and "t \<noteq> JOURNAL_COMMIT"
  shows "valid (keeps E R be chain c facts) (stage E be' h before p d after t recorded)
    (\<lambda>_. keeps E R be chain c ((p, d) # facts)) (stored E R be chain c)"
proof -
  have j: "JournalFile \<notin> fst ` set ((p, d) # facts)" using assms(3) not_protected_journal [OF assms(1)] by auto
  note a = keeps_append_journal [OF j assms(4), of E R be be' t, simplified assms(5) if_False]
  show ?thesis
    unfolding stage_def
    by (intro valid_seqI_Cons [OF keeps_fail_at] valid_seqI_Cons [OF keeps_atomic_write [OF assms(1,2)]]
        valid_seqI_Cons [OF a] valid_seqI_Nil)
qed

lemma keeps_copy:
  assumes "(src, d) \<in> set facts" and "\<not> protected (int (length chain)) p" and "p \<notin> fst ` set facts"
  shows "valid (keeps E R be chain c facts) (copy_file src p) (\<lambda>_. keeps E R be chain c ((p, d) # facts)) (stored E R be chain c)"
  unfolding copy_file_def
proof (rule valid_bindI)
  show "valid (keeps E R be chain c facts) (readI src) (\<lambda>x fs. x = d \<and> keeps E R be chain c facts fs) (stored E R be chain c)"
    using assms(1) by (intro valid_intros) (auto simp: keeps_def)
  show "valid (\<lambda>fs. x = d \<and> keeps E R be chain c facts fs) (atomic_write p x)
      (\<lambda>_. keeps E R be chain c ((p, d) # facts)) (stored E R be chain c)" for x
    using keeps_update [OF _ assms(2,3)] by (intro valid_intros) auto
qed

lemma keeps_bind_lift:
  "(\<And>x. r = Inr x \<Longrightarrow> valid (keeps E R be chain c facts) (f x) Q (stored E R be chain c)) \<Longrightarrow>
     valid (keeps E R be chain c facts) (bindI (liftI r) f) Q (stored E R be chain c)"
  unfolding valid_def bindI_def liftI_def by (cases r) (auto dest: keeps_stored)

lemma keeps_bind_get:
  "(\<And>x. valid (keeps E R be chain c facts) (f x) Q (stored E R be chain c)) \<Longrightarrow>
     valid (keeps E R be chain c facts) (bindI (getI p) f) Q (stored E R be chain c)"
  unfolding valid_def bindI_def getI_def by auto

lemma keeps_publish_snapshot:
  assumes "SnapshotFile h \<notin> fst ` set facts"
  shows "valid (keeps E R be chain c facts) (publish_snapshot h d) (\<lambda>_. keeps E R be chain c facts) (stored E R be chain c)"
proof -
  have w: "valid (keeps E R be chain c facts) (atomic_write (SnapshotFile h) d) (\<lambda>_. keeps E R be chain c facts) (stored E R be chain c)"
    using assms by (intro keeps_write_any) auto
  have r: "valid (keeps E R be chain c facts) (returnI ()) (\<lambda>_. keeps E R be chain c facts) (stored E R be chain c)"
    by (intro valid_intros)
  show ?thesis unfolding publish_snapshot_def by (intro keeps_bind_get) (simp add: w r)
qed

lemma keeps_write_index:
  assumes "p = HeightIndex \<or> p = HashIndex" and "p \<notin> fst ` set facts"
  shows "valid (keeps E R be chain c facts) (write_index p j) (\<lambda>_. keeps E R be chain c facts) (stored E R be chain c)"
  unfolding write_index_def using assms by (intro keeps_bind_lift keeps_write_any) auto

lemma keeps_update_indexes:
  assumes "HeightIndex \<notin> fst ` set facts" and "HashIndex \<notin> fst ` set facts"
  shows "valid (keeps E R be chain c facts) (update_indexes R' h x) (\<lambda>_. keeps E R be chain c facts) (stored E R be chain c)"
proof -
  have r: "valid (keeps E R be chain c facts) (read_index R' p) (\<lambda>_. keeps E R be chain c facts) (stored E R be chain c)" for p
    unfolding read_index_def by (intro keeps_bind_get valid_intros) (auto simp: keeps_stored)
  show ?thesis
    unfolding update_indexes_def
    using assms by (intro valid_bindI [OF r] keeps_bind_lift valid_bindI [OF keeps_write_index] keeps_write_index) auto
qed

text \<open>The block a reader gets back has its transactions with sorted keys.\<close>

definition read_form :: "block_v2 \<Rightarrow> block_v2" where
  "read_form b = b\<lparr>bk_transactions := map norm_json (bk_transactions b)\<rparr>"

definition storable :: "runtime \<Rightarrow> block_v2 \<Rightarrow> bool" where
  "storable R b \<longleftrightarrow> wf_header_v2 (bk_header b) \<and> json_wf (rt_float R) (JList (bk_transactions b))"

lemma block_id_read_form [simp]: "block_id E (read_form b) = block_id E b"
  by (simp add: block_id_def read_form_def)

text \<open>The directories a cut-off commit may leave.\<close>

definition old_or_new :: "env \<Rightarrow> runtime \<Rightarrow> backend \<Rightarrow> block_v2 list \<Rightarrow> block_v2 \<Rightarrow> files \<Rightarrow> bool" where
  "old_or_new E R be chain b fs \<longleftrightarrow>
     stored E R be chain (int (length chain)) fs
     \<or> stored E R be (chain @ [read_form b]) (int (length (chain @ [read_form b]))) fs"

lemma keeps_publish:
  fixes h :: int
  assumes "h = int (length chain) + 1" and "int (length chain) \<le> c" and "set facts = {(TmpHeader h, hb), (TmpBlock h, rb), (TmpState h, sb)}"
  shows "valid (keeps E R be chain c facts) (publish E R' be' h x d)
    (\<lambda>_. keeps E R be chain c [(BlockFile h, rb), (HeaderFile h, hb)]) (stored E R be chain c)"
proof -
  let ?f1 = "(HeaderFile h, hb) # facts" and ?f2 = "(BlockFile h, rb) # (HeaderFile h, hb) # facts"
  have dom: "p \<notin> fst ` set facts" if "p \<noteq> TmpHeader h" "p \<noteq> TmpBlock h" "p \<noteq> TmpState h" for p
    using that assms(3) by auto
  have c1: "valid (keeps E R be chain c facts) (copy_file (TmpHeader h) (HeaderFile h)) (\<lambda>_. keeps E R be chain c ?f1) (stored E R be chain c)"
    by (rule keeps_copy) (auto simp: assms(1,3))
  have c2: "valid (keeps E R be chain c ?f1) (copy_file (TmpBlock h) (BlockFile h)) (\<lambda>_. keeps E R be chain c ?f2) (stored E R be chain c)"
    by (rule keeps_copy) (auto simp: assms(1,3))
  have "JournalFile \<notin> fst ` set ?f2" "SnapshotFile h \<notin> fst ` set ?f2" "HeightIndex \<notin> fst ` set ?f2" "HashIndex \<notin> fst ` set ?f2"
    using dom by auto
  note f2 = this
  have a: "valid (keeps E R be chain c ?f2) (append_journal E be' JOURNAL_INDEX_STAGED h []) (\<lambda>_. keeps E R be chain c ?f2) (stored E R be chain c)"
    using keeps_append_journal [OF f2(1) assms(2), of E R be be' JOURNAL_INDEX_STAGED] by (simp add: JOURNAL_INDEX_STAGED_def JOURNAL_COMMIT_def)
  show ?thesis
    unfolding publish_def
    by (intro valid_seqI_Cons [OF keeps_fail_at] valid_seqI_Cons [OF c1] valid_seqI_Cons [OF c2]
        valid_seqI_Cons [OF keeps_publish_snapshot [OF f2(2)]] valid_seqI_Cons [OF keeps_update_indexes [OF f2(3,4)]]
        valid_seqI_Cons [OF a] valid_seqI_Nil) (auto elim: keeps_fewer)
qed

lemma keeps_commit_block:
  assumes "int (length chain) \<le> c" and "JournalFile \<notin> fst ` set facts"
  shows "valid (keeps E R be chain c facts) (commit_block E be' h) (\<lambda>_. keeps E R be chain (max c h) facts) (stored E R be chain c)"
proof -
  note a = keeps_append_journal [OF assms(2,1), of E R be be' JOURNAL_COMMIT, simplified]
  have f: "valid (keeps E R be chain (max c h) facts) (fail_at be' name) (\<lambda>_. keeps E R be chain (max c h) facts) (stored E R be chain c)" for name
    by (rule valid_weaken [OF keeps_fail_at [of E R be chain "max c h" facts]]) (use assms(1) in \<open>auto elim: stored_mono\<close>)
  show ?thesis
    unfolding commit_block_def
    by (intro valid_seqI_Cons [OF keeps_fail_at] valid_seqI_Cons [OF a] valid_seqI_Cons [OF f] valid_seqI_Nil)
qed

context hash_length
begin

lemma stored_snoc:
  assumes "keeps E R be chain c facts fs" and "(HeaderFile h, hb) \<in> set facts" and "(BlockFile h, rb) \<in> set facts"
    and h: "h = int (length chain) + 1" and "h \<le> c"
    and b: "wf_header_v2 (bk_header b)" "header_v2_bytes (bk_header b) = Inr hb" "decode_block_record E R rb = Inr b"
    and link: "chain \<noteq> [] \<Longrightarrow> bh_prev_hash (bk_header b) = block_id E (last chain)"
  shows "stored E R be (chain @ [b]) c (AList.update HeadFile (str_bytes (head_text (tip_info E be (chain @ [b])))) fs)"
proof -
  from assms(1-3) have s: "stored E R be chain c fs" and f: "content fs (HeaderFile h) = Some hb" "content fs (BlockFile h) = Some rb"
    by (auto simp: keeps_def)
  let ?fs = "AList.update HeadFile (str_bytes (head_text (tip_info E be (chain @ [b])))) fs"
  have "linked E (chain @ [b])"
    unfolding linked_def
  proof (intro allI impI)
    fix i assume i: "Suc i < length (chain @ [b])"
    show "bh_prev_hash (bk_header ((chain @ [b]) ! Suc i)) = block_id E ((chain @ [b]) ! i)"
    proof (cases "Suc i < length chain")
      case True
      then show ?thesis using s by (simp add: stored_def blocks_stored_def linked_def nth_append)
    next
      case False
      with i have "length chain = Suc i" by simp
      moreover from this have "chain \<noteq> []" by auto
      ultimately show ?thesis using link by (simp add: nth_append last_conv_nth)
    qed
  qed
  moreover have "block_stored E R ?fs (int (Suc i)) ((chain @ [b]) ! i)" if "i < length (chain @ [b])" for i
  proof (cases "i = length chain")
    case True
    then show ?thesis using b f h by (auto simp: block_stored_def nth_append add.commute)
  next
    case False
    with that have "i < length chain" by simp
    then show ?thesis using s by (auto simp: stored_def blocks_stored_def block_stored_def nth_append)
  qed
  ultimately have "blocks_stored E R ?fs (chain @ [b])"
    using s by (simp add: blocks_stored_def stored_def)
  then show ?thesis
    using s assms(5) h by (auto simp: stored_def head_stored_def journal_stored_def)
qed

lemma keeps_advance_head:
  assumes "wf_backend be" and "(HeaderFile h, hb) \<in> set facts" and "(BlockFile h, rb) \<in> set facts"
    and h: "h = int (length chain) + 1" and "h \<le> c" and c: "\<And>fs. stored E R be chain c fs \<Longrightarrow> X fs"
    and b: "wf_header_v2 (bk_header b)" "header_v2_bytes (bk_header b) = Inr hb" "decode_block_record E R rb = Inr b"
    and link: "chain \<noteq> [] \<Longrightarrow> bh_prev_hash (bk_header b) = block_id E (last chain)"
    and x: "\<And>fs. stored E R be (chain @ [b]) c fs \<Longrightarrow> X fs"
  shows "valid (keeps E R be chain c facts) (advance_head be h (block_id E b)) (\<lambda>_. keeps E R be (chain @ [b]) c []) X"
proof -
  let ?w = "bindI (liftI (encode_head h (block_id E b) (be_network_id be) (be_genesis_hash be) STORAGE_FORMAT_VERSION)) (atomic_write HeadFile)"
  let ?line = "str_bytes (head_text (tip_info E be (chain @ [b])))"
  have w: "valid (keeps E R be chain c facts) ?w (\<lambda>_. keeps E R be (chain @ [b]) c []) X"
  proof (rule validI)
    fix fs fs' u assume k: "keeps E R be chain c facts fs" and r: "?w fs = (fs', Inr u)"
    then have "b' \<in> set (chain @ [b]) \<Longrightarrow> wf_header_v2 (bk_header b')" for b'
      using blocks_stored_wf b(1) by (auto simp: keeps_def stored_def)
    from encode_head_wf [OF wf_tip_info [of be "chain @ [b]", OF assms(1) this]]
    have "encode_head h (block_id E b) (be_network_id be) (be_genesis_hash be) STORAGE_FORMAT_VERSION = Inr ?line"
      by (simp add: tip_info_def tip_hash_def h add.commute)
    with r have "fs' = AList.update HeadFile ?line fs" by (simp add: bindI_def liftI_def atomic_write_def)
    then show "keeps E R be (chain @ [b]) c [] fs'"
      using stored_snoc [OF k assms(2,3) h assms(5) b link] by (simp add: keeps_def)
  next
    fix fs fs' e assume "keeps E R be chain c facts fs" "?w fs = (fs', Inl e)"
    then have "stored E R be chain c fs'"
      by (auto simp: bindI_def liftI_def atomic_write_def keeps_def split: sum.split_asm)
    then show "X fs'" by (rule c)
  qed
  have f: "valid (keeps E R be chain c facts) (fail_at be n) (\<lambda>_. keeps E R be chain c facts) X"
    "valid (keeps E R be (chain @ [b]) c []) (fail_at be n) (\<lambda>_. keeps E R be (chain @ [b]) c []) X" for n
    by (rule valid_weaken [OF keeps_fail_at], assumption, assumption, erule c)
      (rule valid_weaken [OF keeps_fail_at], assumption, assumption, erule x)
  show ?thesis
    unfolding advance_head_def
    by (intro valid_seqI_Cons [OF f(1)] valid_seqI_Cons [OF w] valid_seqI_Cons [OF f(2)] valid_seqI_Nil)
qed

lemma store_block_valid:
  assumes "wf_backend be" and b: "storable R b" and h: "h = int (length chain) + 1"
    and link: "chain \<noteq> [] \<Longrightarrow> bh_prev_hash (bk_header b) = block_id E (last chain)"
  shows "valid (stored E R be chain (int (length chain))) (store_block E R be b h (block_id E b) state)
    (\<lambda>_. stored E R be (chain @ [read_form b]) (int (length (chain @ [read_form b])))) (old_or_new E R be chain b)"
proof -
  let ?n = "int (length chain)" and ?c = "read_form b"
  let ?k = "keeps E R be chain ?n" and ?s = "stored E R be chain ?n"
  have wf: "wf_header_v2 (bk_header b)" and wf': "wf_header_v2 (bk_header ?c)" and hdr: "bk_header ?c = bk_header b"
    using b by (simp_all add: storable_def read_form_def)
  obtain hb where hb: "header_v2_bytes (bk_header b) = Inr hb" "block_id E b = hash_double_hex E hb"
    using block_id_hash [OF wf] by metis
  have old: "?s fs \<Longrightarrow> old_or_new E R be chain b fs" for fs by (simp add: old_or_new_def)
  have old': "stored E R be chain (max ?n h) fs \<Longrightarrow> ?s fs" for fs by (auto elim: stored_mono)
  have new: "stored E R be (chain @ [?c]) (max ?n h) fs \<Longrightarrow> stored E R be (chain @ [?c]) (int (length (chain @ [?c]))) fs" for fs
    by (auto elim: stored_mono simp: h)
  have kc: "max ?n h = h" using h by simp
  note codes = JOURNAL_BEGIN_def JOURNAL_HEADER_STAGED_def JOURNAL_BLOCK_STAGED_def JOURNAL_REGISTRY_STAGED_def JOURNAL_COMMIT_def
  have first: "valid (?k []) (seqI [fail_at be ''before_begin'', append_journal E be JOURNAL_BEGIN h [], fail_at be ''after_begin''])
      (\<lambda>_. ?k []) ?s"
    using keeps_append_journal [of "[]" chain ?n E R be be JOURNAL_BEGIN h "[]"]
    by (intro valid_seqI_Cons [OF keeps_fail_at] valid_seqI_Cons [where R = "?k []"] valid_seqI_Nil) (simp_all add: codes keeps_fail_at)
  have rest: "valid (?k facts) (thenI (publish E R be h (block_id E b) sb) (thenI (commit_block E be h)
        (thenI (advance_head be h (block_id E b)) (seqI [safe_unlink (TmpHeader h), safe_unlink (TmpBlock h), safe_unlink (TmpState h)]))))
      (\<lambda>_. keeps E R be (chain @ [?c]) (max ?n h) []) (old_or_new E R be chain b)"
    if facts: "set facts = {(TmpHeader h, hb), (TmpBlock h, rb), (TmpState h, sb)}" and rb: "decode_block_record E R rb = Inr ?c"
    for facts rb sb
  proof -
    let ?f = "[(BlockFile h, rb), (HeaderFile h, hb)]"
    have p: "valid (?k facts) (publish E R be h (block_id E b) sb) (\<lambda>_. ?k ?f) (old_or_new E R be chain b)"
      by (rule valid_weaken [OF keeps_publish [OF h _ facts]]) (auto intro: old)
    have c: "valid (?k ?f) (commit_block E be h) (\<lambda>_. keeps E R be chain (max ?n h) ?f) (old_or_new E R be chain b)"
      by (rule valid_weaken [OF keeps_commit_block]) (auto intro: old)
    have a: "valid (keeps E R be chain (max ?n h) ?f) (advance_head be h (block_id E b))
        (\<lambda>_. keeps E R be (chain @ [?c]) (max ?n h) []) (old_or_new E R be chain b)"
      using keeps_advance_head [OF assms(1), of h hb ?f rb chain "max ?n h" R "old_or_new E R be chain b" ?c]
        wf' hb(1) hdr rb link old' new by (auto simp: h old_or_new_def)
    have u: "valid (keeps E R be (chain @ [?c]) (max ?n h) []) (seqI [safe_unlink (TmpHeader h), safe_unlink (TmpBlock h), safe_unlink (TmpState h)])
        (\<lambda>_. keeps E R be (chain @ [?c]) (max ?n h) []) (old_or_new E R be chain b)"
    proof (rule valid_weaken [OF valid_seqI])
      show "valid (keeps E R be (chain @ [?c]) (max ?n h) []) m (\<lambda>_. keeps E R be (chain @ [?c]) (max ?n h) [])
          (keeps E R be (chain @ [?c]) (max ?n h) [])"
        if "m \<in> set [safe_unlink (TmpHeader h), safe_unlink (TmpBlock h), safe_unlink (TmpState h)]" for m
        using that by (auto intro!: valid_safe_unlink keeps_delete)
      show "keeps E R be (chain @ [?c]) (max ?n h) [] fs \<Longrightarrow> old_or_new E R be chain b fs" for fs
        using new [of fs] by (simp add: old_or_new_def keeps_def)
    qed
    show ?thesis by (intro valid_bindI [OF p] valid_bindI [OF c] valid_bindI [OF a] u)
  qed
  have staged: "valid (?k facts) (stage E be h n1 p d n2 t n3) (\<lambda>_. ?k ((p, d) # facts)) (old_or_new E R be chain b)"
    if "\<not> protected ?n p" "p \<notin> fst ` set facts" "JournalFile \<notin> fst ` set facts" "t \<noteq> JOURNAL_COMMIT" for facts n1 p d n2 t n3
    by (rule valid_weaken [OF keeps_stage [OF that(1-3) order_refl that(4)]]) (auto intro: old)
  have header_ok: "valid (?k facts) (if hash_double_hex E hb \<noteq> block_id E b
       then thenI (append_journal E be JOURNAL_ABORT h (str_bytes ''header hash mismatch'')) (liftI (Inl StorageIOError))
       else returnI ()) (\<lambda>_. ?k facts) (old_or_new E R be chain b)" for facts
    by (simp add: hb(2)) (intro valid_intros)
  have lifted: "valid (?k facts) (bindI (liftI r) f) Q (old_or_new E R be chain b)"
    if "\<And>x. r = Inr x \<Longrightarrow> valid (?k facts) (f x) Q (old_or_new E R be chain b)" for facts and r :: "'x res" and f :: "'x \<Rightarrow> unit io" and Q
    using that unfolding valid_def bindI_def liftI_def by (cases r) (auto dest!: keeps_stored intro: old)
  have first': "valid (?k []) (seqI [fail_at be ''before_begin'', append_journal E be JOURNAL_BEGIN h [], fail_at be ''after_begin''])
      (\<lambda>_. ?k []) (old_or_new E R be chain b)"
    by (rule valid_weaken [OF first]) (auto intro: old)
  note s1 = staged [of "TmpHeader h" "[]" JOURNAL_HEADER_STAGED "''before_header_stage''" _ "''after_header_stage''"
      "''after_header_staged_record''", simplified codes, simplified, folded codes(2)]
    and s2 = staged [of "TmpBlock h" "[(TmpHeader h, hd)]" JOURNAL_BLOCK_STAGED "''before_block_stage''" _ "''after_block_stage''"
      "''after_block_staged_record''" for hd, simplified codes, simplified, folded codes(3)]
    and s3 = staged [of "TmpState h" "[(TmpBlock h, rb), (TmpHeader h, hd)]" JOURNAL_REGISTRY_STAGED "''before_registry_stage''" _
      "''after_registry_stage''" "''after_registry_staged_record''" for rb hd, simplified codes, simplified, folded codes(4)]
  have "valid (?k []) (store_block E R be b h (block_id E b) state) (\<lambda>_. keeps E R be (chain @ [?c]) (max ?n h) []) (old_or_new E R be chain b)"
    unfolding store_block_def
    apply (rule valid_bindI [OF first'])
    apply (rule lifted)
    apply (rule valid_bindI [OF s1])
    apply (rule lifted)
    apply (rule valid_bindI [OF s2])
    apply (rule lifted)
    apply (rule valid_bindI [OF s3])
    subgoal premises p for u x v rb w sb y
    proof -
      have x: "x = hb" using p(1) hb(1) by simp
      have "decode_block_record E R rb = Inr ?c"
        using decode_encode_block_record [OF wf _ p(2)] b by (simp add: storable_def read_form_def)
      from rest [OF _ this, of "[(TmpState h, sb), (TmpBlock h, rb), (TmpHeader h, x)]" sb]
      show ?thesis by (intro valid_bindI [OF header_ok [folded x]]) (simp add: x insert_commute)
    qed
    done
  then show ?thesis
    by (rule valid_weaken) (auto simp: keeps_def dest: new)
qed

end

end
