(* ===== verification/Store_Recovery.thy ===== *)
theory Store_Recovery
  imports Store_Props
begin

text \<open>
  The recovery of a directory that stores a chain, and with it the crash safety of
  \<open>append_block\<close>: whatever failpoint cuts the commit off, recovery ends with the old chain or the
  new one.
\<close>

section \<open>The walk\<close>

context hash_length
begin

lemma verify_stored:
  assumes "block_stored E R fs h b"
  shows "verify_block_at_height E R fs h (block_id E b) = Inr True"
proof -
  from assms have "wf_header_v2 (bk_header b)" by (simp add: block_stored_def)
  then obtain hb where "header_v2_bytes (bk_header b) = Inr hb" "length hb = 149"
    "header_v2_hash E (bk_header b) = Inr (block_id E b)" "block_id E b = hash_double_hex E hb"
    by (rule block_id_hash)
  with assms show ?thesis by (auto simp: block_stored_def verify_block_at_height_def HEADER_LEN_def)
qed

lemma walk_back_stored:
  assumes "blocks_stored E R fs chain"
  shows "n \<le> length chain \<Longrightarrow> (n > 0 \<Longrightarrow> cur = block_id E (chain ! (n - 1))) \<Longrightarrow>
    walk_back E R fs g n cur = Inr ([], if n = 0 then cur else bh_prev_hash (bk_header (chain ! 0)), None)"
proof (induction n arbitrary: cur)
  case (Suc n)
  then have b: "block_stored E R fs (int (Suc n)) (chain ! n)" and cur: "cur = block_id E (chain ! n)"
    using assms by (auto simp: blocks_stored_def)
  have "n > 0 \<Longrightarrow> bh_prev_hash (bk_header (chain ! n)) = block_id E (chain ! (n - 1))"
    using assms Suc.prems(1) by (cases n) (auto simp: blocks_stored_def linked_def)
  with Suc.IH Suc.prems(1) have "walk_back E R fs g n (bh_prev_hash (bk_header (chain ! n)))
      = Inr ([], if n = 0 then bh_prev_hash (bk_header (chain ! n)) else bh_prev_hash (bk_header (chain ! 0)), None)" by simp
  moreover obtain data where "content fs (BlockFile (int (Suc n))) = Some data" "decode_block_record E R data = Inr (chain ! n)"
    using b by (auto simp: block_stored_def)
  ultimately show ?case using verify_stored [OF b] by (simp add: cur Let_def)
qed simp

end

section \<open>Deleting\<close>

lemma unlink_all_result:
  "\<exists>fs'. unlink_all ps fs = (fs', Inr ()) \<and> (\<forall>p. content fs' p = (if p \<in> set ps then None else content fs p))"
proof (induction ps arbitrary: fs)
  case Nil
  then show ?case by (simp add: unlink_all_def returnI_def)
next
  case (Cons q ps)
  from Cons.IH [of "AList.delete q fs"] show ?case
    by (auto simp: unlink_all_def bindI_def safe_unlink_def)
qed

definition cut_above :: "int \<Rightarrow> files \<Rightarrow> files \<Rightarrow> bool" where
  "cut_above n fs fs' \<longleftrightarrow> same_protected n fs fs' \<and> (\<forall>h > n. content fs' (HeaderFile h) = None \<and> content fs' (BlockFile h) = None)"

lemma delete_above_result: "\<exists>fs'. delete_above n fs = (fs', Inr ()) \<and> cut_above n fs fs'"
proof -
  let ?a = "map HeaderFile (filter (\<lambda>h. h > n) (scan_heights header_height fs))"
  obtain f1 where f1: "unlink_all ?a fs = (f1, Inr ())" "\<And>p. content f1 p = (if p \<in> set ?a then None else content fs p)"
    using unlink_all_result by blast
  let ?b = "map BlockFile (filter (\<lambda>h. h > n) (scan_heights block_height f1))"
  obtain f2 where f2: "unlink_all ?b f1 = (f2, Inr ())" "\<And>p. content f2 p = (if p \<in> set ?b then None else content f1 p)"
    using unlink_all_result by blast
  let ?c = "concat (map (\<lambda>h. [SnapshotFile h, SnapshotMeta h]) (filter (\<lambda>h. h > n) (scan_heights snapshot_height f2)))"
  obtain f3 where f3: "unlink_all ?c f2 = (f3, Inr ())" "\<And>p. content f3 p = (if p \<in> set ?c then None else content f2 p)"
    using unlink_all_result by blast
  have "delete_above n fs = (f3, Inr ())"
    unfolding delete_above_def by (simp add: bindI_def filesI_def f1(1) f2(1) f3(1))
  moreover have "content f3 (HeaderFile h) = None" if "h > n" for h
  proof -
    have "HeaderFile h \<in> set ?a \<or> content fs (HeaderFile h) = None" using that by (force simp: set_scan_heights)
    then show ?thesis by (auto simp: f3(2) f2(2) f1(2))
  qed
  moreover have "content f3 (BlockFile h) = None" if "h > n" for h
  proof -
    have "BlockFile h \<in> set ?b \<or> content f1 (BlockFile h) = None" using that by (force simp: set_scan_heights)
    then show ?thesis by (auto simp: f3(2) f2(2))
  qed
  moreover have "content f3 p = content fs p" if "protected n p" for p
    using that by (cases p) (auto simp: f3(2) f2(2) f1(2))
  ultimately show ?thesis by (auto simp: cut_above_def same_protected_def)
qed

section \<open>The rebuilt index\<close>

fun index_value :: "json \<Rightarrow> bool" where
  "index_value (JStr s) = ascii s"
| "index_value (JInt i) = True"
| "index_value _ = False"

definition index_json :: "(string \<times> json) list \<Rightarrow> bool" where
  "index_json d \<longleftrightarrow> distinct (map fst d) \<and> (\<forall>(k, v) \<in> set d. ascii k \<and> index_value v)"

lemma index_json_set: "index_json d \<Longrightarrow> ascii k \<Longrightarrow> index_value v \<Longrightarrow> index_json (dict_set d k v)"
  using set_dict_set [of d k v] by (auto simp: index_json_def distinct_dict_set)

lemma index_json_dumps:
  assumes "index_json d"
  shows "\<exists>b. dumps_bytes indent_style (JDict d) = Inr b"
proof -
  have v: "index_value v \<Longrightarrow> dumps_ok indent_style v \<and> json_wf id v" for v
    by (cases v) (auto dest: ascii_valid simp: indent_style_def)
  have "dumps_ok indent_style (JDict d)" "json_wf id (JDict d)"
    using assms v ascii_valid by (auto simp: index_json_def)
  then obtain t where t: "jdump indent_style 0 (JDict d) = Some t" "json_wf id (JDict d)"
    using jdump_None(1) [of indent_style 0 "JDict d"] by (cases "jdump indent_style 0 (JDict d)") auto
  have "ascii t" by (rule ascii_jdump [OF _ _ t(2,1)]) (simp, simp add: indent_style_def)
  then show ?thesis using t(1) by (auto simp: dumps_bytes_def json_dumps_def encode_utf8_def ascii_valid simp del: jdump.simps)
qed

text \<open>What a recovery reports: the height, no rollback, and as the hash the link of block 1.\<close>

definition clean_report :: "backend \<Rightarrow> block_v2 list \<Rightarrow> recovery" where
  "clean_report be chain = \<lparr>rc_height = int (length chain),
     rc_block_hash = (if chain = [] then be_genesis_hash be else bh_prev_hash (bk_header (hd chain))),
     rc_network_id = be_network_id be, rc_genesis_hash = be_genesis_hash be, rc_format_version = 1,
     rc_rolled_back = [], rc_rebuilt = map int_text [1..int (length chain)], rc_note = ''clean recovery''\<rparr>"

lemma int_text_inj:
  assumes "int_text i = int_text j" and "0 \<le> i" and "0 \<le> j"
  shows "i = j"
proof -
  have "nat_text (nat i) = nat_text (nat j)" using assms by (simp add: int_text_def)
  then have "nat i = nat j" by (metis digits_val_nat_text)
  with assms show ?thesis by simp
qed

context hash_length
begin

lemma ascii_block_id: "wf_header_v2 (bk_header b) \<Longrightarrow> ascii (block_id E b)"
  using hex64_block_id [of b] by (auto simp: hex64_def ascii_def list_all_iff is_lower_hex_def Let_def)

lemma index_fold:
  assumes "\<And>h. h \<in> set hs \<Longrightarrow> h \<le> n \<and> 0 \<le> h \<and> read h = Inr (blk h) \<and> wf_header_v2 (bk_header (blk h))"
    and "distinct hs" and "index_json a" and "index_json b" and "\<And>h. h \<in> set hs \<Longrightarrow> int_text h \<notin> fst ` set a"
  shows "\<exists>b'. foldE (index_block E read skip n) (a, b) hs
      = Inr (a @ map (\<lambda>h. (int_text h, JStr (block_id E (blk h)))) hs, b') \<and> index_json b'
      \<and> index_json (a @ map (\<lambda>h. (int_text h, JStr (block_id E (blk h)))) hs)"
  using assms
proof (induction hs arbitrary: a b)
  case (Cons h hs)
  let ?x = "block_id E (blk h)"
  have h: "h \<le> n" "read h = Inr (blk h)" "wf_header_v2 (bk_header (blk h))" "0 \<le> h" using Cons.prems(1) [of h] by auto
  have x: "header_v2_hash E (bk_header (blk h)) = Inr ?x" by (rule block_id_hash [OF h(3), of E]) simp
  have step: "index_block E read skip n (a, b) h = Inr (a @ [(int_text h, JStr ?x)], dict_set b ?x (JInt h))"
    using h x Cons.prems(5) [of h] by (simp add: index_block_def dict_set_new)
  have a: "index_json (a @ [(int_text h, JStr ?x)])"
    using index_json_set [OF Cons.prems(3), of "int_text h" "JStr ?x"] Cons.prems(5) [of h] ascii_block_id [OF h(3)]
    by (simp add: dict_set_new ascii_int_text)
  have b: "index_json (dict_set b ?x (JInt h))"
    by (rule index_json_set [OF Cons.prems(4)]) (simp_all add: ascii_block_id [OF h(3)])
  have "int_text k \<notin> fst ` set (a @ [(int_text h, JStr ?x)])" if "k \<in> set hs" for k
    using Cons.prems(1) [of k] Cons.prems(5) [of k] Cons.prems(2) that h(4) int_text_inj [of k h] by auto
  from Cons.IH [OF Cons.prems(1) _ a b this] Cons.prems(2) show ?case by (simp add: step)
qed simp

lemma recover_indexes_stored:
  assumes "blocks_stored E R fs chain" and "\<forall>h > int (length chain). content fs (BlockFile h) = None"
  shows "\<exists>fs'. recover_indexes E R (int (length chain)) fs = (fs', Inr (map int_text [1..int (length chain)]))
    \<and> (\<forall>p. p \<noteq> HeightIndex \<and> p \<noteq> HashIndex \<longrightarrow> content fs' p = content fs p)"
proof -
  let ?n = "int (length chain)"
  define blk where "blk h = chain ! (nat h - 1)" for h
  have st: "block_stored E R fs h (blk h)" if "1 \<le> h" "h \<le> ?n" for h
  proof -
    have "nat h - 1 < length chain" "int (Suc (nat h - 1)) = h" using that by auto
    then show ?thesis using assms(1) unfolding blocks_stored_def blk_def by metis
  qed
  have "set (scan_heights block_height fs) = {1..?n}"
  proof (intro set_eqI iffI)
    fix h assume "h \<in> set (scan_heights block_height fs)"
    then obtain p where "p \<in> dom (content fs)" "block_height p = Some h" by (auto simp: set_scan_heights)
    then have "content fs (BlockFile h) \<noteq> None" by (cases p) auto
    with assms show "h \<in> {1..?n}" by (fastforce simp: blocks_stored_def not_le)
  next
    fix h assume "h \<in> {1..?n}"
    with st [of h] show "h \<in> set (scan_heights block_height fs)" by (force simp: set_scan_heights block_stored_def)
  qed
  then have hs: "list_blocks fs = [1..?n]"
    unfolding list_blocks_def by (intro sorted_distinct_set_unique) (simp_all add: scan_heights_def)
  have "h \<in> set [1..?n] \<Longrightarrow> h \<le> ?n \<and> 0 \<le> h \<and> read_block_file E R fs h = Inr (blk h) \<and> wf_header_v2 (bk_header (blk h))" for h
    using st [of h] by (auto simp: block_stored_def read_block_file_def)
  from index_fold [OF this, where hs = "[1..?n]" and a = "[]" and b = "[]" and skip = is_value_error]
  obtain b' where f: "foldE (index_block E (read_block_file E R fs) is_value_error ?n) ([], []) [1..?n]
      = Inr (map (\<lambda>h. (int_text h, JStr (block_id E (blk h)))) [1..?n], b')" "index_json b'"
      "index_json (map (\<lambda>h. (int_text h, JStr (block_id E (blk h)))) [1..?n])"
    by (auto simp: index_json_def)
  let ?a = "map (\<lambda>h. (int_text h, JStr (block_id E (blk h)))) [1..?n]"
  obtain d1 d2 where d: "dumps_bytes indent_style (JDict ?a) = Inr d1" "dumps_bytes indent_style (JDict b') = Inr d2"
    using index_json_dumps f(2,3) by blast
  show ?thesis
    by (cases "?a = []") (simp_all add: recover_indexes_def bindI_def filesI_def liftI_def returnI_def hs f(1) comp_def
        write_index_def d atomic_write_def)
qed

section \<open>Recovery\<close>

lemma recovery_head_stored:
  assumes "wf_backend be" and "blocks_stored E R fs chain" and "head_stored E be fs chain"
  shows "recovery_head R (be_genesis_hash be) (content fs HeadFile) = Inr (int (length chain), tip_hash E be chain)"
proof (cases "content fs HeadFile")
  case None
  then show ?thesis using assms(3) by (simp add: head_stored_def recovery_head_def tip_hash_def)
next
  case (Some line)
  then have "line = str_bytes (head_text (tip_info E be chain))" using assms(3) by (auto simp: head_stored_def)
  moreover have "wf_head (tip_info E be chain)"
    using wf_tip_info [OF assms(1)] blocks_stored_wf [OF assms(2)] by blast
  ultimately show ?thesis
    using decode_encode_head [of "tip_info E be chain" R] Some
    by (simp add: recovery_head_def tip_info_def checkE_def)
qed

lemma commit_height_stored:
  assumes "journal_stored E fs c" and "0 \<le> c"
  shows "c \<le> last_commit_height E (content fs JournalFile)"
proof -
  from assms(1) obtain recs bs where j: "mapE (record_bytes E) recs = Inr bs" "c \<le> foldl commit_step 0 recs"
    "content fs JournalFile = Some (concat bs) \<or> content fs JournalFile = None \<and> recs = []"
    by (auto simp: journal_stored_def)
  have "read_records E (concat bs) (length (concat bs)) = []" by (subst read_records.simps) simp
  then have "read_records E (concat bs) 0 = recs"
    using read_records_at [OF j(1), of "[]" "[]"] by simp
  with j show ?thesis by (auto simp: last_commit_height_def last_commit_fold)
qed

lemma recover_stored_aux:
  assumes "wf_backend be" and "stored E R be chain c fs"
  shows "\<exists>fs'. recover_store E R (be_network_id be) (be_genesis_hash be) None fs = (fs', Inr (clean_report be chain))
    \<and> stored E R be chain c fs' \<and> cut_above (int (length chain)) fs fs'"
proof -
  let ?n = "int (length chain)" and ?g = "be_genesis_hash be"
  from assms(2) have st: "blocks_stored E R fs chain" "head_stored E be fs chain" "journal_stored E fs c" "?n \<le> c"
    by (simp_all add: stored_def)
  note head = recovery_head_stored [OF assms(1) st(1,2)]
  have "?n \<le> last_commit_height E (content fs JournalFile)" using commit_height_stored [OF st(3)] st(4) by simp
  then have safe: "limit_height None (min ?n (last_commit_height E (content fs JournalFile))) = ?n"
    by (simp add: limit_height_def)
  have walk: "walk_back E R fs ?g (length chain) (tip_hash E be chain)
      = Inr ([], if chain = [] then ?g else bh_prev_hash (bk_header (hd chain)), None)"
    using walk_back_stored [OF st(1), of "length chain" "tip_hash E be chain" ?g]
    by (auto simp: tip_hash_def last_conv_nth hd_conv_nth)
  obtain f1 where f1: "delete_above ?n fs = (f1, Inr ())" "cut_above ?n fs f1" using delete_above_result by blast
  then have s1: "stored E R be chain c f1" using stored_frame assms(2) by (auto simp: cut_above_def)
  obtain f2 where f2: "recover_indexes E R ?n f1 = (f2, Inr (map int_text [1..?n]))"
    "\<And>p. p \<noteq> HeightIndex \<Longrightarrow> p \<noteq> HashIndex \<Longrightarrow> content f2 p = content f1 p"
    using recover_indexes_stored [of R f1 chain] s1 f1(2) by (auto simp: stored_def cut_above_def)
  have "same_protected ?n f1 f2" unfolding same_protected_def using f2(2) by (metis protected.simps(12,13))
  then have s2: "stored E R be chain c f2" by (rule stored_frame [OF _ s1])
  have "cut_above ?n fs f2" using f1(2) f2(2) \<open>same_protected ?n f1 f2\<close> by (auto simp: cut_above_def same_protected_def)
  moreover have "recover_store E R (be_network_id be) ?g None fs = (f2, Inr (clean_report be chain))"
    by (simp add: recover_store_def bindI_def filesI_def liftI_def returnI_def head safe walk f1(1) f2(1) clean_report_def Let_def)
  ultimately show ?thesis using s2 by blast
qed

section \<open>append_block\<close>

lemma get_tip_stored:
  assumes "wf_backend be" and "blocks_stored E R fs chain" and "head_stored E be fs chain"
  shows "get_tip R be fs = Inr (tip_info E be chain)"
proof (cases "content fs HeadFile")
  case None
  then show ?thesis using assms(3) by (simp add: head_stored_def get_tip_def tip_info_def tip_hash_def genesis_tip_def)
next
  case (Some line)
  then have "line = str_bytes (head_text (tip_info E be chain))" using assms(3) by (auto simp: head_stored_def)
  moreover have "wf_head (tip_info E be chain)"
    using wf_tip_info [OF assms(1)] blocks_stored_wf [OF assms(2)] by blast
  ultimately show ?thesis using decode_encode_head [of "tip_info E be chain" R] Some by (simp add: get_tip_def)
qed

lemma append_block_cases:
  assumes "wf_backend be" and "stored E R be chain (int (length chain)) fs" and "storable R b"
    and "chain \<noteq> [] \<Longrightarrow> bh_prev_hash (bk_header b) = block_id E (last chain)"
    and "append_block E R be b state fs = (fs', r)"
  shows "case r of Inl e \<Rightarrow> old_or_new E R be chain b fs'
    | Inr state' \<Rightarrow> state' = state \<and> stored E R be (chain @ [read_form b]) (int (length (chain @ [read_form b]))) fs'"
proof -
  let ?h = "int (length chain) + 1"
  have tip: "get_tip R be fs = Inr (tip_info E be chain)"
    using get_tip_stored [OF assms(1)] assms(2) by (simp add: stored_def)
  have id: "header_v2_hash E (bk_header b) = Inr (block_id E b)"
    using assms(3) by (auto simp: storable_def intro: block_id_hash [of b E])
  have run: "append_block E R be b state fs = (case replay_block E state ?h (bk_transactions b) of
      Inl e \<Rightarrow> (fs, Inl e)
    | Inr st \<Rightarrow> (case store_block E R be b ?h (block_id E b) st fs of (f1, Inl e) \<Rightarrow> (f1, Inl e) | (f1, Inr u) \<Rightarrow> (f1, Inr st)))"
    by (simp add: append_block_def bindI_def filesI_def liftI_def checkI_def checkE_def returnI_def tip id tip_info_def Let_def
        split: sum.split)
  show ?thesis
  proof (cases "replay_block E state ?h (bk_transactions b)")
    case (Inl e)
    then have "r = Inl e" "fs' = fs" using assms(5) by (simp_all add: run)
    then show ?thesis using assms(2) by (simp add: old_or_new_def)
  next
    case (Inr st)
    obtain f1 q where q: "store_block E R be b ?h (block_id E b) st fs = (f1, q)" by fastforce
    note v = store_block_valid [OF assms(1,3) refl assms(4), of st]
    have "case q of Inl e \<Rightarrow> old_or_new E R be chain b f1
        | Inr u \<Rightarrow> stored E R be (chain @ [read_form b]) (int (length (chain @ [read_form b]))) f1"
      using validD_Inr [OF v assms(2)] validD_Inl [OF v assms(2)] q by (cases q) simp_all
    moreover have "st = state" by (rule replay_block_same [OF Inr])
    moreover have "fs' = f1" "r = (case q of Inl e \<Rightarrow> Inl e | Inr u \<Rightarrow> Inr st)"
      using assms(5) q Inr by (simp_all add: run split: sum.split_asm)
    ultimately show ?thesis by (cases q) simp_all
  qed
qed

lemma read_back_stored:
  assumes "blocks_stored E R fs chain"
  shows "read_chain_up_to E R fs (int (length chain)) = bindE create_genesis_block (\<lambda>g. Inr (g # chain))"
proof -
  let ?f = "\<lambda>h. if h = 0 then create_genesis_block else catchE (read_block E R fs h) (\<lambda>_. True) (Inl StorageIOError)"
  have split: "[0..int (length chain)] = 0 # [1..int (length chain)]" by (subst upto.simps) simp
  have "mapE ?f [1..int (length chain)] = Inr (map (\<lambda>h. chain ! (nat h - 1)) [1..int (length chain)])"
  proof (rule mapE_all_Inr)
    fix h assume "h \<in> set [1..int (length chain)]"
    then have "nat h - 1 < length chain" "int (Suc (nat h - 1)) = h" by auto
    then have "block_stored E R fs h (chain ! (nat h - 1))" using assms unfolding blocks_stored_def by metis
    then show "?f h = Inr (chain ! (nat h - 1))"
      using \<open>h \<in> set [1..int (length chain)]\<close> by (auto simp: block_stored_def read_block_def)
  qed
  moreover have "map (\<lambda>h. chain ! (nat h - 1)) [1..int (length chain)] = chain"
    by (rule nth_equalityI) (simp_all add: nth_upto nat_add_distrib)
  ultimately show ?thesis by (simp add: read_chain_up_to_def split)
qed

text \<open>Without a journal.\<close>

lemma recover_no_journal:
  assumes "wf_backend be" and "blocks_stored E R fs chain" and "head_stored E be fs chain" and "chain \<noteq> []"
    and "content fs JournalFile = None"
  shows "\<exists>fs' rc. recover_store E R (be_network_id be) (be_genesis_hash be) None fs = (fs', Inr rc)
    \<and> rc_height rc = 0 \<and> rc_note rc = ''clean recovery''
    \<and> (\<forall>h. content fs' (BlockFile h) = None) \<and> (\<forall>h > 0. content fs' (HeaderFile h) = None)
    \<and> content fs' HeadFile = Some (str_bytes (head_line 0 (tip_hash E be chain) (be_network_id be) (be_genesis_hash be) 1))"
proof -
  let ?n = "int (length chain)" and ?g = "be_genesis_hash be"
  let ?line = "head_line 0 (tip_hash E be chain) (be_network_id be) ?g 1"
  note head = recovery_head_stored [OF assms(1-3)]
  have safe: "limit_height None (min ?n (last_commit_height E (content fs JournalFile))) = 0"
    by (simp add: limit_height_def last_commit_height_def assms(5))
  obtain f1 where f1: "delete_above 0 fs = (f1, Inr ())" "cut_above 0 fs f1" using delete_above_result by blast
  have "hex64 (tip_hash E be chain)"
    using hex64_block_id [of "last chain"] blocks_stored_wf [OF assms(2)] assms(4) by (auto simp: tip_hash_def)
  then have "wf_head \<lparr>hi_height = 0, hi_block_hash = tip_hash E be chain, hi_network_id = be_network_id be,
      hi_genesis_hash = ?g, hi_format_version = 1\<rparr>"
    using assms(1) by (simp add: wf_head_def wf_backend_def)
  from wf_head_valid [OF this] have line: "encode_utf8 ?line = Inr (str_bytes ?line)" by (simp add: head_text_def encode_utf8_def)
  define f2 where "f2 = AList.update HeadFile (str_bytes ?line) f1"
  have none: "content f1 (BlockFile h) = None" for h
    using f1(2) assms(2) by (cases "h > 0") (fastforce simp: cut_above_def same_protected_def blocks_stored_def not_less)+
  then have empty: "blocks_stored E R f2 []" "\<forall>h > int (length ([] :: block_v2 list)). content f2 (BlockFile h) = None"
    by (simp_all add: blocks_stored_def linked_def f2_def)
  obtain f3 where f3: "recover_indexes E R 0 f2 = (f3, Inr [])" "\<And>p. p \<noteq> HeightIndex \<Longrightarrow> p \<noteq> HashIndex \<Longrightarrow> content f3 p = content f2 p"
    using recover_indexes_stored [OF empty] by auto
  have "recover_store E R (be_network_id be) ?g None fs = (f3, Inr \<lparr>rc_height = 0, rc_block_hash = tip_hash E be chain,
      rc_network_id = be_network_id be, rc_genesis_hash = ?g, rc_format_version = 1, rc_rolled_back = [], rc_rebuilt = [],
      rc_note = ''clean recovery''\<rparr>)"
    using assms(4)
    by (simp add: recover_store_def bindI_def filesI_def liftI_def returnI_def head safe f1(1) write_recovered_head_def line
        atomic_write_def f3(1) Let_def flip: f2_def)
  moreover have "content f3 (BlockFile h) = None" "h > 0 \<Longrightarrow> content f3 (HeaderFile h) = None" for h
    using none f3(2) f1(2) by (auto simp: f2_def cut_above_def)
  moreover have "content f3 HeadFile = Some (str_bytes ?line)" using f3(2) [of HeadFile] by (simp add: f2_def)
  ultimately show ?thesis by simp
qed

end

section \<open>Claims\<close>

definition demo_backend :: backend where
  "demo_backend = \<lparr>be_network_id = ''net'', be_genesis_hash = zero_hash,
     be_fail = (\<lambda>_ name. if name = ''after_commit'' then Inl RuntimeError else Inr ())\<rparr>"

definition demo_stored_block :: block_v2 where
  "demo_stored_block = demo_block\<lparr>bk_transactions := [demo_tx]\<rparr>"

lemma demo_backend_fields [simp]: "be_network_id demo_backend = ''net''" "be_genesis_hash demo_backend = zero_hash"
  by (simp_all add: demo_backend_def)

lemma demo_storable: "storable demo_runtime demo_stored_block"
  using wf_demo_header by (simp add: storable_def demo_stored_block_def demo_block_def demo_tx_def utf8_valid_ascii)

lemma wf_demo_backend: "wf_backend demo_backend"
  by (simp add: wf_backend_def demo_backend_def hex64_zero_hash utf8_valid_ascii)

text \<open>C3: \<open>append_block\<close> refines appending to the chain, crashes included.  From a directory that
  stores a chain, a commit that returns leaves a directory that stores the chain with the new block;
  one that an exception cuts off, at any failpoint and with any effect of the callback, leaves a
  directory from which \<open>recover_store\<close> returns without rolling anything back, and which
  then stores the old chain or the new one, and nothing above its tip.\<close>

theorem append_block_crash_safe:
  assumes "hash_length E" and "wf_backend be" and "stored E R be chain (int (length chain)) fs" and "storable R b"
    and "chain \<noteq> [] \<Longrightarrow> bh_prev_hash (bk_header b) = block_id E (last chain)"
  shows "case append_block E R be b state fs of
      (fs', Inr state') \<Rightarrow> stored E R be (chain @ [read_form b]) (int (length chain) + 1) fs'
    | (fs', Inl e) \<Rightarrow> (\<exists>chain' \<in> {chain, chain @ [read_form b]}. \<exists>fs''.
         recover_store E R (be_network_id be) (be_genesis_hash be) None fs' = (fs'', Inr (clean_report be chain'))
         \<and> stored E R be chain' (int (length chain')) fs''
         \<and> (\<forall>h > int (length chain'). content fs'' (HeaderFile h) = None \<and> content fs'' (BlockFile h) = None))"
proof -
  obtain fs' r where run: "append_block E R be b state fs = (fs', r)" by fastforce
  note c = hash_length.append_block_cases [OF assms run]
  show ?thesis
  proof (cases r)
    case (Inr st)
    with c run show ?thesis by (simp add: add.commute)
  next
    case (Inl e)
    with c have "\<exists>chain' \<in> {chain, chain @ [read_form b]}. stored E R be chain' (int (length chain')) fs'"
      by (simp add: old_or_new_def)
    then obtain chain' where "chain' \<in> {chain, chain @ [read_form b]}" "stored E R be chain' (int (length chain')) fs'" ..
    with hash_length.recover_stored_aux [OF assms(1,2) this(2)] show ?thesis
      using run Inl by (fastforce simp: cut_above_def)
  qed
qed

theorem append_block_crash_safe_witness:
  "case append_block demo_env demo_runtime demo_backend demo_stored_block demo_state0 [] of
      (fs', Inr state') \<Rightarrow> stored demo_env demo_runtime demo_backend [read_form demo_stored_block] 1 fs'
    | (fs', Inl e) \<Rightarrow> (\<exists>chain' \<in> {[], [read_form demo_stored_block]}. \<exists>fs''.
         recover_store demo_env demo_runtime ''net'' zero_hash None fs' = (fs'', Inr (clean_report demo_backend chain'))
         \<and> stored demo_env demo_runtime demo_backend chain' (int (length chain')) fs''
         \<and> (\<forall>h > int (length chain'). content fs'' (HeaderFile h) = None \<and> content fs'' (BlockFile h) = None))"
  using append_block_crash_safe [OF demo.hash_length_axioms wf_demo_backend _ demo_storable, where chain = "[]" and fs = "[]"
      and state = demo_state0] stored_empty [of demo_env demo_runtime demo_backend]
  by (simp split: prod.splits sum.splits)

text \<open>C25: recovery of an intact directory is exact: it returns the stored height, rolls nothing back,
  rebuilds the index of every height, deletes what lies above the tip and keeps the chain stored.  The
  block hash it returns is not the hash of the tip, though, but the link of block 1, which is where
  its walk ends.\<close>

theorem recovery_exact:
  assumes "hash_length E" and "wf_backend be" and "stored E R be chain c fs"
  shows "\<exists>fs'. recover_store E R (be_network_id be) (be_genesis_hash be) None fs = (fs', Inr (clean_report be chain))
    \<and> stored E R be chain c fs' \<and> cut_above (int (length chain)) fs fs'"
  by (rule hash_length.recover_stored_aux [OF assms])

theorem recovery_exact_witness:
  "\<exists>fs'. recover_store demo_env demo_runtime ''net'' zero_hash None [] = (fs', Inr (clean_report demo_backend []))
    \<and> stored demo_env demo_runtime demo_backend [] 0 fs' \<and> cut_above 0 [] fs'"
  using recovery_exact [OF demo.hash_length_axioms wf_demo_backend stored_empty, of demo_runtime] by simp

text \<open>What is stored is what is read: the backend returns the genesis block and then the stored
  blocks, and the tip it reports is the last of them.\<close>

theorem stored_reads_back:
  assumes "hash_length E" and "wf_backend be" and "stored E R be chain c fs"
  shows "read_chain_up_to E R fs (int (length chain)) = bindE create_genesis_block (\<lambda>g. Inr (g # chain))
    \<and> get_tip R be fs = Inr (tip_info E be chain)"
  using hash_length.read_back_stored [OF assms(1)] hash_length.get_tip_stored [OF assms(1,2)] assms(3)
  by (simp add: stored_def)

theorem stored_reads_back_witness:
  "read_chain_up_to demo_env demo_runtime [] 0 = bindE create_genesis_block (\<lambda>g. Inr [g])
    \<and> get_tip demo_runtime demo_backend [] = Inr (tip_info demo_env demo_backend [])"
  using stored_reads_back [OF demo.hash_length_axioms wf_demo_backend stored_empty] by simp

end
