(* ===== verification/Store_Live.thy ===== *)
theory Store_Live
  imports Store_Recovery
begin

text \<open>
  That \<open>append_block\<close> returns: with failpoints that do not fire, a readable index and sizes the
  formats can carry, no step of a commit raises.
\<close>

definition silent :: "backend \<Rightarrow> bool" where
  "silent be \<longleftrightarrow> (\<forall>fs name. be_fail be fs name = Inr ())"

definition index_readable :: "runtime \<Rightarrow> files \<Rightarrow> path \<Rightarrow> bool" where
  "index_readable R fs p \<longleftrightarrow>
     content fs p = None \<or> (\<exists>data d. content fs p = Some data \<and> loads R data = Inr (JDict d) \<and> index_json d)"

text \<open>The state between two steps: sequence numbers up to \<open>s\<close>, both index files readable, and the
  files written so far.\<close>

definition ready :: "env \<Rightarrow> runtime \<Rightarrow> int \<Rightarrow> (path \<times> bytes) list \<Rightarrow> files \<Rightarrow> bool" where
  "ready E R s facts fs \<longleftrightarrow> 0 \<le> s
     \<and> (\<exists>recs bs. mapE (record_bytes E) recs = Inr bs \<and> (\<forall>r \<in> set recs. jr_seq r \<le> s)
          \<and> (content fs JournalFile = Some (concat bs) \<or> content fs JournalFile = None \<and> recs = []))
     \<and> index_readable R fs HeightIndex \<and> index_readable R fs HashIndex
     \<and> (\<forall>(p, d) \<in> set facts. content fs p = Some d)"

abbreviation returns :: "(files \<Rightarrow> bool) \<Rightarrow> 'a io \<Rightarrow> ('a \<Rightarrow> files \<Rightarrow> bool) \<Rightarrow> bool" where
  "returns P m Q \<equiv> valid P m Q (\<lambda>_. False)"

fun plain_path :: "path \<Rightarrow> bool" where
  "plain_path JournalFile = False"
| "plain_path HeightIndex = False"
| "plain_path HashIndex = False"
| "plain_path _ = True"

lemma ready_update:
  "ready E R s facts fs \<Longrightarrow> plain_path p \<Longrightarrow> p \<notin> fst ` set facts \<Longrightarrow> ready E R s ((p, d) # facts) (AList.update p d fs)"
  by (force simp: ready_def index_readable_def)

lemma ready_write: "plain_path p \<Longrightarrow> p \<notin> fst ` set facts \<Longrightarrow>
    returns (ready E R s facts) (atomic_write p d) (\<lambda>_. ready E R s ((p, d) # facts))"
  by (intro valid_intros ready_update)

lemma ready_fail: "silent be \<Longrightarrow> returns P (fail_at be name) (\<lambda>_. P)"
  by (simp add: silent_def fail_at_def valid_def)

lemma foldl_max_le: "m \<le> s \<Longrightarrow> (\<forall>r \<in> set recs. jr_seq r \<le> s) \<Longrightarrow> foldl (\<lambda>m r. max m (jr_seq r)) m recs \<le> (s :: int)"
  by (induction recs arbitrary: m) auto

lemma foldl_max_ge: "m \<le> foldl (\<lambda>m r. max m (jr_seq r)) (m :: int) recs"
proof (induction recs arbitrary: m)
  case (Cons r recs)
  from Cons.IH [of "max m (jr_seq r)"] show ?case by simp
qed simp

context hash_length
begin

lemma ready_append:
  assumes "silent be" and "JournalFile \<notin> fst ` set facts" and "0 \<le> t" and "t < 256" and "0 \<le> h" and "h < 2 ^ 64"
    and "length p \<le> MAX_JOURNAL_PAYLOAD" and "s + 1 < 2 ^ 64"
  shows "returns (ready E R s facts) (append_journal E be t h p) (\<lambda>_. ready E R (s + 1) facts)"
proof -
  have "\<exists>fs'. append_journal E be t h p fs = (fs', Inr ()) \<and> ready E R (s + 1) facts fs'" if r: "ready E R s facts fs" for fs
  proof -
    from r obtain recs bs where j: "mapE (record_bytes E) recs = Inr bs" "\<forall>r \<in> set recs. jr_seq r \<le> s"
      "content fs JournalFile = Some (concat bs) \<or> content fs JournalFile = None \<and> recs = []" and s: "0 \<le> s"
      by (auto simp: ready_def)
    have "read_records E (concat bs) (length (concat bs)) = []" by (subst read_records.simps) simp
    then have "read_records E (concat bs) 0 = recs" using read_records_at [OF j(1), of "[]" "[]"] by simp
    then have q: "0 \<le> highest_seq E (content fs JournalFile)" "highest_seq E (content fs JournalFile) \<le> s"
      using j(2,3) s foldl_max_le [of 0 s recs] foldl_max_ge [of 0 recs] by (auto simp: highest_seq_def highest_seq_fold)
    let ?r = "\<lparr>jr_type = t, jr_seq = highest_seq E (content fs JournalFile) + 1, jr_height = h, jr_payload = p\<rparr>"
    have "int (length p) < 256 ^ 4" using assms(7) by (simp add: MAX_JOURNAL_PAYLOAD_def)
    then obtain b where b: "record_bytes E ?r = Inr b"
      using assms(3-8) q by (auto simp: record_bytes_Inr)
    let ?data = "(case content fs JournalFile of None \<Rightarrow> [] | Some data \<Rightarrow> data) @ b"
    have a: "journal_append E (content fs JournalFile) t h p = Inr ?data"
      using b by (simp add: journal_append_def record_bytes_def)
    have "mapE (record_bytes E) (recs @ [?r]) = Inr (bs @ [b])"
      using j(1) b unfolding mapE_Inr_iff by (auto intro: list_all2_appendI)
    moreover have "?data = concat (bs @ [b])" using j(1,3) by auto
    moreover have "\<forall>r \<in> set (recs @ [?r]). jr_seq r \<le> s + 1" using j(2) q(2) by force
    moreover have "content (AList.update JournalFile ?data fs) JournalFile = Some ?data" by simp
    ultimately have "\<exists>recs bs. mapE (record_bytes E) recs = Inr bs \<and> (\<forall>r \<in> set recs. jr_seq r \<le> s + 1)
        \<and> (content (AList.update JournalFile ?data fs) JournalFile = Some (concat bs)
          \<or> content (AList.update JournalFile ?data fs) JournalFile = None \<and> recs = [])" by metis
    moreover have "\<forall>(p, d) \<in> set facts. content (AList.update JournalFile ?data fs) p = Some d"
      using r assms(2) by (force simp: ready_def)
    moreover have "index_readable R (AList.update JournalFile ?data fs) HeightIndex"
      "index_readable R (AList.update JournalFile ?data fs) HashIndex" "0 \<le> s + 1"
      using r by (simp_all add: ready_def index_readable_def)
    ultimately have "ready E R (s + 1) facts (AList.update JournalFile ?data fs)"
      unfolding ready_def by blast
    then show ?thesis
      using a assms(1) by (simp add: append_journal_def bindI_def fail_at_def getI_def liftI_def atomic_write_def silent_def)
  qed
  then show ?thesis unfolding valid_def by fastforce
qed

end

lemma ready_copy:
  assumes "(src, d) \<in> set facts" and "plain_path p" and "p \<notin> fst ` set facts"
  shows "returns (ready E R s facts) (copy_file src p) (\<lambda>_. ready E R s ((p, d) # facts))"
proof -
  have "content fs src = Some d" if "ready E R s facts fs" for fs using that assms(1) by (auto simp: ready_def)
  then show ?thesis
    using ready_update [OF _ assms(2,3)] unfolding valid_def copy_file_def bindI_def readI_def atomic_write_def by auto
qed

lemma ready_weaken:
  "returns P m (\<lambda>_. ready E R s facts) \<Longrightarrow> set facts' \<subseteq> set facts \<Longrightarrow> returns P m (\<lambda>_. ready E R s facts')"
  by (erule valid_weaken) (auto simp: ready_def)

lemma ready_publish_snapshot:
  assumes "SnapshotFile h \<notin> fst ` set facts"
  shows "returns (ready E R s facts) (publish_snapshot h d) (\<lambda>_. ready E R s facts)"
  using ready_update [OF _ _ assms, of E R s] unfolding valid_def publish_snapshot_def bindI_def getI_def
  by (auto simp: atomic_write_def returnI_def) (force simp: ready_def)+

lemma index_step:
  assumes "index_readable R fs p" and "ascii k" and "index_value v"
  shows "\<exists>d b. read_index R p fs = (fs, Inr (JDict d)) \<and> dumps_bytes indent_style (JDict (dict_set d k v)) = Inr b
    \<and> index_json (dict_set d k v)"
proof -
  from assms(1) obtain d where d: "read_index R p fs = (fs, Inr (JDict d))" "index_json d"
    by (auto simp: index_readable_def read_index_def bindI_def getI_def liftI_def index_json_def)
  from index_json_set [OF d(2) assms(2,3)] index_json_dumps d(1) show ?thesis by blast
qed

lemma index_json_norm:
  assumes "index_json d"
  shows "index_json (map (\<lambda>(k, v). (k, norm_json v)) (sort_key fst d))"
proof -
  have n: "index_value v \<Longrightarrow> norm_json v = v" for v by (cases v) auto
  have "distinct (map fst (sort_key fst d))"
    using assms mset_map [of fst "sort_key fst d"] mset_map [of fst d] by (simp add: index_json_def distinct_count_atmost_1)
  then show ?thesis using assms n by (auto simp: index_json_def comp_def case_prod_unfold)
qed

lemma index_written:
  assumes "index_json d" and "dumps_bytes indent_style (JDict d) = Inr b" and "content fs p = Some b"
  shows "index_readable R fs p"
proof -
  have "index_value v \<Longrightarrow> json_wf (rt_float R) v" for v by (cases v) (auto dest: ascii_valid)
  then have "json_wf (rt_float R) (JDict d)" using assms(1) ascii_valid by (auto simp: index_json_def)
  from loads_dumps_bytes [OF _ this assms(2)]
  have "loads R b = Inr (JDict (map (\<lambda>(k, v). (k, norm_json v)) (sort_key fst d)))" by (simp add: loads_def)
  then show ?thesis using assms(3) index_json_norm [OF assms(1)] by (simp add: index_readable_def)
qed

lemma ready_update_indexes:
  assumes "ascii x" and "HeightIndex \<notin> fst ` set facts" and "HashIndex \<notin> fst ` set facts"
  shows "returns (ready E R s facts) (update_indexes R h x) (\<lambda>_. ready E R s facts)"
proof -
  have "\<exists>fs'. update_indexes R h x fs = (fs', Inr ()) \<and> ready E R s facts fs'" if r: "ready E R s facts fs" for fs
  proof -
    from r have i: "index_readable R fs HeightIndex" "index_readable R fs HashIndex" by (simp_all add: ready_def)
    obtain d1 b1 where 1: "read_index R HeightIndex fs = (fs, Inr (JDict d1))"
      "dumps_bytes indent_style (JDict (dict_set d1 (int_text h) (JStr x))) = Inr b1" "index_json (dict_set d1 (int_text h) (JStr x))"
      using index_step [OF i(1), of "int_text h" "JStr x"] assms(1) ascii_int_text by auto
    obtain d2 b2 where 2: "read_index R HashIndex fs = (fs, Inr (JDict d2))"
      "dumps_bytes indent_style (JDict (dict_set d2 x (JInt h))) = Inr b2" "index_json (dict_set d2 x (JInt h))"
      using index_step [OF i(2), of x "JInt h"] assms(1) by auto
    let ?fs = "AList.update HashIndex b2 (AList.update HeightIndex b1 fs)"
    have "update_indexes R h x fs = (?fs, Inr ())"
      using 1 2 by (simp add: update_indexes_def bindI_def liftI_def write_index_def atomic_write_def)
    moreover have "index_readable R ?fs HeightIndex" "index_readable R ?fs HashIndex"
      using index_written [OF 1(3,2)] index_written [OF 2(3,2)] by simp_all
    moreover have "\<forall>(p, d) \<in> set facts. content ?fs p = Some d" using r assms(2,3) by (force simp: ready_def)
    ultimately show ?thesis using r by (simp add: ready_def)
  qed
  then show ?thesis unfolding valid_def by fastforce
qed

section \<open>The whole commit\<close>

lemma ready_silent: "silent be \<Longrightarrow> returns (ready E R s facts) (fail_at be name) (\<lambda>_. ready E R s facts)"
  by (rule ready_fail)

lemma returns_bind_lift: "r = Inr x \<Longrightarrow> returns P (f x) Q \<Longrightarrow> returns P (bindI (liftI r) f) Q"
  by (simp add: valid_def bindI_def liftI_def)

context hash_length
begin

lemma ready_stage:
  assumes "silent be" and "plain_path p" and "p \<notin> fst ` set facts" and "JournalFile \<notin> fst ` set facts"
    and "0 \<le> t" and "t < 256" and "0 \<le> h" and "h < 2 ^ 64" and "length d \<le> MAX_JOURNAL_PAYLOAD" and "s + 1 < 2 ^ 64"
  shows "returns (ready E R s facts) (stage E be h n1 p d n2 t n3) (\<lambda>_. ready E R (s + 1) ((p, d) # facts))"
proof -
  have j: "JournalFile \<notin> fst ` set ((p, d) # facts)" using assms(2,4) by (cases p) auto
  show ?thesis
    unfolding stage_def
    by (intro valid_seqI_Cons [OF ready_silent [OF assms(1)]] valid_seqI_Cons [OF ready_write [OF assms(2,3)]]
        valid_seqI_Cons [OF ready_append [OF assms(1) j assms(5-10)]] valid_seqI_Nil)
qed

lemma ready_publish:
  assumes "silent be" and "0 \<le> h" and "h < 2 ^ 64" and "s + 1 < 2 ^ 64" and "ascii x"
    and facts: "set facts = {(TmpHeader h, hb), (TmpBlock h, rb), (TmpState h, sb)}"
  shows "returns (ready E R s facts) (publish E R be h x d) (\<lambda>_. ready E R (s + 1) [])"
proof -
  let ?f1 = "(HeaderFile h, hb) # facts" and ?f2 = "(BlockFile h, rb) # (HeaderFile h, hb) # facts"
  have c1: "returns (ready E R s facts) (copy_file (TmpHeader h) (HeaderFile h)) (\<lambda>_. ready E R s ?f1)"
    by (rule ready_copy) (auto simp: facts)
  have c2: "returns (ready E R s ?f1) (copy_file (TmpBlock h) (BlockFile h)) (\<lambda>_. ready E R s ?f2)"
    by (rule ready_copy) (auto simp: facts)
  have p: "returns (ready E R s ?f2) (publish_snapshot h d) (\<lambda>_. ready E R s ?f2)"
    by (rule ready_publish_snapshot) (auto simp: facts)
  have u: "returns (ready E R s ?f2) (update_indexes R h x) (\<lambda>_. ready E R s ?f2)"
    by (rule ready_update_indexes) (auto simp: facts assms(5))
  have a: "returns (ready E R s ?f2) (append_journal E be JOURNAL_INDEX_STAGED h []) (\<lambda>_. ready E R (s + 1) ?f2)"
    by (rule ready_append) (use assms in \<open>auto simp: JOURNAL_INDEX_STAGED_def\<close>)
  show ?thesis
    unfolding publish_def
    by (intro valid_seqI_Cons [OF ready_silent [OF assms(1)]] valid_seqI_Cons [OF c1] valid_seqI_Cons [OF c2]
        valid_seqI_Cons [OF p] valid_seqI_Cons [OF u] valid_seqI_Cons [OF a] valid_seqI_Nil) (simp add: ready_def)
qed

lemma store_block_returns:
  assumes be: "silent be" "wf_backend be" and b: "wf_header_v2 (bk_header b)" and h: "0 \<le> h" "h < 2 ^ 64" and s: "s + 6 < 2 ^ 64"
    and rb: "encode_block_record E b = Inr rb" "length rb \<le> MAX_JOURNAL_PAYLOAD"
    and sb: "serialize_registry_state state = Inr sb" "length sb \<le> MAX_JOURNAL_PAYLOAD"
  shows "returns (ready E R s []) (store_block E R be b h (block_id E b) state) (\<lambda>_ _. True)"
proof -
  obtain hb where hb: "header_v2_bytes (bk_header b) = Inr hb" "length hb = 149" "block_id E b = hash_double_hex E hb"
    using block_id_hash [OF b] by metis
  note codes = JOURNAL_BEGIN_def JOURNAL_HEADER_STAGED_def JOURNAL_BLOCK_STAGED_def JOURNAL_REGISTRY_STAGED_def JOURNAL_COMMIT_def
  have p: "length hb \<le> MAX_JOURNAL_PAYLOAD" using hb(2) by (simp add: MAX_JOURNAL_PAYLOAD_def)
  let ?f1 = "[(TmpHeader h, hb)]" and ?f2 = "[(TmpBlock h, rb), (TmpHeader h, hb)]"
    and ?f3 = "[(TmpState h, sb), (TmpBlock h, rb), (TmpHeader h, hb)]"
  note q = ready_silent [OF be(1)]
  have a: "returns (ready E R s []) (append_journal E be JOURNAL_BEGIN h []) (\<lambda>_. ready E R (s + 1) [])"
    by (rule ready_append [OF be(1)]) (use h s in \<open>simp_all add: codes\<close>)
  have first: "returns (ready E R s []) (seqI [fail_at be ''before_begin'', append_journal E be JOURNAL_BEGIN h [], fail_at be ''after_begin''])
      (\<lambda>_. ready E R (s + 1) [])"
    by (intro valid_seqI_Cons [OF q] valid_seqI_Cons [OF a] valid_seqI_Nil)
  have s1: "returns (ready E R (s + 1) []) (stage E be h n1 (TmpHeader h) hb n2 JOURNAL_HEADER_STAGED n3) (\<lambda>_. ready E R (s + 2) ?f1)" for n1 n2 n3
    using ready_stage [OF be(1), of "TmpHeader h" "[]" JOURNAL_HEADER_STAGED h hb "s + 1" R n1 n2 n3] h s p by (simp add: codes algebra_simps)
  have s2: "returns (ready E R (s + 2) ?f1) (stage E be h n1 (TmpBlock h) rb n2 JOURNAL_BLOCK_STAGED n3) (\<lambda>_. ready E R (s + 3) ?f2)" for n1 n2 n3
    using ready_stage [OF be(1), of "TmpBlock h" ?f1 JOURNAL_BLOCK_STAGED h rb "s + 2" R n1 n2 n3] h s rb by (simp add: codes algebra_simps)
  have s3: "returns (ready E R (s + 3) ?f2) (stage E be h n1 (TmpState h) sb n2 JOURNAL_REGISTRY_STAGED n3) (\<lambda>_. ready E R (s + 4) ?f3)" for n1 n2 n3
    using ready_stage [OF be(1), of "TmpState h" ?f2 JOURNAL_REGISTRY_STAGED h sb "s + 3" R n1 n2 n3] h s sb by (simp add: codes algebra_simps)
  have "returns (ready E R (s + 4) ?f3) (publish E R be h (block_id E b) sb) (\<lambda>_. ready E R (s + 4 + 1) [])"
    by (rule ready_publish [OF be(1) h, where hb = hb and rb = rb and sb = sb]) (use s ascii_block_id [OF b] in auto)
  then have s4: "returns (ready E R (s + 4) ?f3) (publish E R be h (block_id E b) sb) (\<lambda>_. ready E R (s + 5) [])" by (simp add: add.commute)
  have "returns (ready E R (s + 5) []) (append_journal E be JOURNAL_COMMIT h []) (\<lambda>_. ready E R (s + 5 + 1) [])"
    by (rule ready_append [OF be(1)]) (use h s in \<open>simp_all add: codes\<close>)
  then have s5: "returns (ready E R (s + 5) []) (commit_block E be h) (\<lambda>_. ready E R (s + 5 + 1) [])"
    unfolding commit_block_def
    by (intro valid_seqI_Cons [OF q] valid_seqI_Cons [where R = "ready E R (s + 5 + 1) []"] valid_seqI_Nil)
  have "hex64 (block_id E b)" by (rule hex64_block_id [OF b])
  then have "wf_head \<lparr>hi_height = h, hi_block_hash = block_id E b, hi_network_id = be_network_id be,
      hi_genesis_hash = be_genesis_hash be, hi_format_version = STORAGE_FORMAT_VERSION\<rparr>"
    using be(2) h by (simp add: wf_head_def wf_backend_def STORAGE_FORMAT_VERSION_def)
  from encode_head_wf [OF this] obtain line where
    "encode_head h (block_id E b) (be_network_id be) (be_genesis_hash be) STORAGE_FORMAT_VERSION = Inr line" by simp
  then have w: "returns (ready E R (s + 5 + 1) []) (bindI (liftI (encode_head h (block_id E b) (be_network_id be) (be_genesis_hash be)
      STORAGE_FORMAT_VERSION)) (atomic_write HeadFile)) (\<lambda>_ _. True)"
    by (intro returns_bind_lift) (assumption, simp add: valid_def atomic_write_def)
  have t: "returns (\<lambda>_. True) (fail_at be n) (\<lambda>_ _. True)" for n by (rule ready_fail [OF be(1)])
  have s6: "returns (ready E R (s + 5 + 1) []) (advance_head be h (block_id E b)) (\<lambda>_ _. True)"
    unfolding advance_head_def
    by (intro valid_seqI_Cons [OF q] valid_seqI_Cons [OF w] valid_seqI_Cons [OF t] valid_seqI_Nil TrueI)
  have s7: "returns (\<lambda>_. True) (seqI [safe_unlink (TmpHeader h), safe_unlink (TmpBlock h), safe_unlink (TmpState h)]) (\<lambda>_ _. True)"
    by (simp add: valid_def bindI_def safe_unlink_def returnI_def)
  have ok: "returns P (if hash_double_hex E hb \<noteq> block_id E b then x else returnI ()) (\<lambda>_. P)" for P x
    by (simp add: hb(3) valid_returnI)
  show ?thesis
    unfolding store_block_def
    by (intro valid_bindI [OF first] returns_bind_lift [OF hb(1)] valid_bindI [OF s1] returns_bind_lift [OF rb(1)]
        valid_bindI [OF s2] returns_bind_lift [OF sb(1)] valid_bindI [OF s3] valid_bindI [OF ok] valid_bindI [OF s4]
        valid_bindI [OF s5] valid_bindI [OF s6] s7)
qed

lemma append_block_returns_aux:
  assumes "silent be" and "wf_backend be" and "stored E R be chain (int (length chain)) fs" and "ready E R s [] fs"
    and "wf_header_v2 (bk_header b)" and "int (length chain) + 1 < 2 ^ 64" and "s + 6 < 2 ^ 64"
    and "encode_block_record E b = Inr rb" and "length rb \<le> MAX_JOURNAL_PAYLOAD"
    and "serialize_registry_state state = Inr sb" and "length sb \<le> MAX_JOURNAL_PAYLOAD"
    and "replay_block E state (int (length chain) + 1) (bk_transactions b) = Inr state"
  shows "\<exists>fs'. append_block E R be b state fs = (fs', Inr state)"
proof -
  let ?h = "int (length chain) + 1"
  have tip: "get_tip R be fs = Inr (tip_info E be chain)"
    using get_tip_stored [OF assms(2)] assms(3) by (simp add: stored_def)
  have id: "header_v2_hash E (bk_header b) = Inr (block_id E b)"
    using assms(5) by (auto intro: block_id_hash [of b E])
  have "returns (ready E R s []) (store_block E R be b ?h (block_id E b) state) (\<lambda>_ _. True)"
    by (rule store_block_returns [OF assms(1,2,5) _ assms(6,7-11)]) simp
  then obtain fs' where "store_block E R be b ?h (block_id E b) state fs = (fs', Inr ())"
    using assms(4) unfolding valid_def by (fastforce split: sum.split_asm)
  then show ?thesis
    by (simp add: append_block_def bindI_def filesI_def liftI_def checkI_def checkE_def returnI_def tip id tip_info_def
        assms(12) Let_def)
qed

end

section \<open>Claims\<close>

definition silent_backend :: backend where
  "silent_backend = demo_backend\<lparr>be_fail := \<lambda>_ _. Inr ()\<rparr>"

lemma silent_backend_ok: "silent silent_backend" "wf_backend silent_backend"
  using wf_demo_backend by (simp_all add: silent_def silent_backend_def wf_backend_def)

lemma ready_empty: "ready E R 0 [] []"
  by (auto simp: ready_def index_readable_def intro!: exI [of _ "[]"])

lemma demo_state_bytes: "\<exists>sb. serialize_registry_state demo_state0 = Inr sb \<and> length sb \<le> MAX_JOURNAL_PAYLOAD"
proof -
  obtain k where k: "fromhex zero_hash = Some k" "length k = 32" using hex64_fromhex [OF hex64_zero_hash] by blast
  show ?thesis
    by (simp add: serialize_registry_state_def demo_state0_def k from_hex_def GOVERNANCE_SCHEMA_VERSION_def
        GOV_NETWORK_ID_def sort_records_def ids_encodable_def reg_encode_str_def reg_encode_bytes_def reg_encode_varint_def int_to_le_def encode_utf8_def
        utf8_valid_ascii MAX_JOURNAL_PAYLOAD_def)
qed

lemma demo_stored_record: "\<exists>rb. encode_block_record demo_env demo_stored_block = Inr rb \<and> length rb \<le> MAX_JOURNAL_PAYLOAD"
  using demo_block_record by (simp add: demo_stored_block_def)

lemma demo_replay: "replay_block E demo_state0 1 (bk_transactions demo_stored_block) = Inr demo_state0"
  using demo_ctx_ok
  by (simp add: replay_block_def demo_state0_def demo_stored_block_def demo_tx_def replay_tx_def dget_def)

lemma demo_append: "\<exists>fs. append_block demo_env demo_runtime silent_backend demo_stored_block demo_state0 [] = (fs, Inr demo_state0)"
proof -
  obtain rb where rb: "encode_block_record demo_env demo_stored_block = Inr rb" "length rb \<le> MAX_JOURNAL_PAYLOAD"
    using demo_stored_record by blast
  obtain sb where sb: "serialize_registry_state demo_state0 = Inr sb" "length sb \<le> MAX_JOURNAL_PAYLOAD"
    using demo_state_bytes by blast
  have st: "stored demo_env demo_runtime silent_backend [] (int (length [])) []" using stored_empty by simp
  have wf: "wf_header_v2 (bk_header demo_stored_block)" using demo_storable by (simp add: storable_def)
  show ?thesis
    using demo.append_block_returns_aux [OF silent_backend_ok st ready_empty wf _ _ rb sb] demo_replay by auto
qed

text \<open>C24: a commit returns.  When no failpoint fires, the index files are readable, the state and the
  block fit the formats and the replay accepts the transactions, \<open>append_block\<close> ends without an exception,
  and the directory then stores the chain with the new block.  \<open>ready\<close> bounds the sequence
  numbers of the journal by \<open>s\<close>.\<close>

theorem append_block_returns:
  assumes "hash_length E" and "silent be" and "wf_backend be" and "stored E R be chain (int (length chain)) fs"
    and "ready E R s [] fs" and "s + 6 < 2 ^ 64" and "int (length chain) + 1 < 2 ^ 64" and "storable R b"
    and "chain \<noteq> [] \<Longrightarrow> bh_prev_hash (bk_header b) = block_id E (last chain)"
    and "encode_block_record E b = Inr rb" and "length rb \<le> MAX_JOURNAL_PAYLOAD"
    and "serialize_registry_state state = Inr sb" and "length sb \<le> MAX_JOURNAL_PAYLOAD"
    and "replay_block E state (int (length chain) + 1) (bk_transactions b) = Inr state"
  shows "\<exists>fs'. append_block E R be b state fs = (fs', Inr state)
    \<and> stored E R be (chain @ [read_form b]) (int (length chain) + 1) fs'"
proof -
  have wf: "wf_header_v2 (bk_header b)" using assms(8) by (simp add: storable_def)
  from hash_length.append_block_returns_aux [OF assms(1-5) wf assms(7,6,10-14)]
  obtain fs' where run: "append_block E R be b state fs = (fs', Inr state)" by blast
  from hash_length.append_block_cases [OF assms(1,3,4,8,9) run] run show ?thesis by (simp add: add.commute)
qed

theorem append_block_returns_witness:
  "\<exists>fs'. append_block demo_env demo_runtime silent_backend demo_stored_block demo_state0 [] = (fs', Inr demo_state0)
    \<and> stored demo_env demo_runtime silent_backend [read_form demo_stored_block] 1 fs'"
proof -
  obtain rb where rb: "encode_block_record demo_env demo_stored_block = Inr rb" "length rb \<le> MAX_JOURNAL_PAYLOAD"
    using demo_stored_record by blast
  obtain sb where sb: "serialize_registry_state demo_state0 = Inr sb" "length sb \<le> MAX_JOURNAL_PAYLOAD"
    using demo_state_bytes by blast
  have st: "stored demo_env demo_runtime silent_backend [] (int (length [])) []" using stored_empty by simp
  show ?thesis
    using append_block_returns [OF demo.hash_length_axioms silent_backend_ok st ready_empty _ _ demo_storable _ rb sb] demo_replay
    by simp
qed

text \<open>The storage never applies a governance transaction.  Its replay looks for a
  \<open>type\<close> inside the body, which no governance body may contain, so whatever a block holds, a commit
  that returns gives back, and writes into its snapshot, the registry state it was given.\<close>

theorem append_block_registry_frozen:
  assumes "append_block E R be b state fs = (fs', Inr state')"
  shows "state' = state"
  using assms
  by (auto simp: append_block_def bindI_Inr filesI_def liftI_def checkI_def returnI_def Let_def dest: replay_block_same)

theorem append_block_registry_frozen_witness:
  "\<exists>fs'. append_block demo_env demo_runtime silent_backend demo_stored_block demo_state0 [] = (fs', Inr demo_state0)
    \<and> demo_state0 = demo_state0"
proof -
  obtain fs where run: "append_block demo_env demo_runtime silent_backend demo_stored_block demo_state0 [] = (fs, Inr demo_state0)"
    using demo_append by blast
  from append_block_registry_frozen [OF run] run show ?thesis by blast
qed

text \<open>An intact chain is erased when the journal is missing.  After \<open>rotate\<close>, which no later
  step undoes, recovery finds no commit, reports \<open>clean recovery\<close> at height 0, deletes the block and
  header of every height, and leaves a HEAD that pairs height 0 with the hash of the old tip.\<close>

theorem recovery_without_journal_erases:
  assumes "hash_length E" and "wf_backend be" and "stored E R be chain c fs" and "chain \<noteq> []"
    and "rotate_journal k fs = (fs1, r)"
  shows "\<exists>fs' rc. recover_store E R (be_network_id be) (be_genesis_hash be) None fs1 = (fs', Inr rc)
    \<and> rc_height rc = 0 \<and> rc_note rc = ''clean recovery''
    \<and> (\<forall>h. content fs' (BlockFile h) = None) \<and> (\<forall>h > 0. content fs' (HeaderFile h) = None)
    \<and> content fs' HeadFile = Some (str_bytes (head_line 0 (tip_hash E be chain) (be_network_id be) (be_genesis_hash be) 1))"
proof -
  have c: "content fs1 JournalFile = None" "\<And>h. content fs1 (BlockFile h) = content fs (BlockFile h)"
    "\<And>h. content fs1 (HeaderFile h) = content fs (HeaderFile h)" "content fs1 HeadFile = content fs HeadFile"
    using assms(5)
    by (auto simp: rotate_journal_def bindI_def getI_def atomic_write_def safe_unlink_def returnI_def split: option.split_asm)
  then have "blocks_stored E R fs1 chain" "head_stored E be fs1 chain"
    using assms(3) by (simp_all add: stored_def blocks_stored_def block_stored_def head_stored_def)
  from hash_length.recover_no_journal [OF assms(1,2) this assms(4) c(1)] show ?thesis .
qed

theorem recovery_without_journal_erases_witness:
  "\<exists>fs fs1 fs' rc. stored demo_env demo_runtime silent_backend [read_form demo_stored_block] 1 fs
    \<and> rotate_journal 1 fs = (fs1, Inr ())
    \<and> recover_store demo_env demo_runtime ''net'' zero_hash None fs1 = (fs', Inr rc)
    \<and> rc_height rc = 0 \<and> (\<forall>h. content fs' (BlockFile h) = None)"
proof -
  obtain fs where run: "append_block demo_env demo_runtime silent_backend demo_stored_block demo_state0 [] = (fs, Inr demo_state0)"
    using demo_append by blast
  have st: "stored demo_env demo_runtime silent_backend [] (int (length [])) []" using stored_empty by simp
  have fs: "stored demo_env demo_runtime silent_backend [read_form demo_stored_block] 1 fs"
    using demo.append_block_cases [OF silent_backend_ok(2) st demo_storable _ run] by simp
  have "\<exists>fs1. rotate_journal 1 fs = (fs1, Inr ())"
    by (cases "content fs JournalFile") (simp_all add: rotate_journal_def bindI_def getI_def atomic_write_def safe_unlink_def returnI_def)
  then obtain fs1 where rot: "rotate_journal 1 fs = (fs1, Inr ())" ..
  have "be_network_id silent_backend = ''net''" "be_genesis_hash silent_backend = zero_hash" by (simp_all add: silent_backend_def)
  with recovery_without_journal_erases [OF demo.hash_length_axioms silent_backend_ok(2) fs _ rot]
  have "\<exists>fs' rc. recover_store demo_env demo_runtime ''net'' zero_hash None fs1 = (fs', Inr rc)
    \<and> rc_height rc = 0 \<and> (\<forall>h. content fs' (BlockFile h) = None)" by simp metis
  with fs rot show ?thesis by blast
qed

end
