(* ===== verification/Gossip.thy ===== *)
theory Gossip
  imports Complex_Main Messages "HOL-Library.Product_Lexorder"
begin

text \<open>
  \<open>network/gossip\<close>: the duplicate cache, the token buckets and the engine.  A clock value is a
  rational number of seconds; the code reads \<open>time.monotonic()\<close>, a float, possibly more than once per
  call, where a definition here takes the reading as an argument and each call reads it once.
  An \<open>OrderedDict\<close> is the list of its items in order.
\<close>

definition DEFAULT_GOSSIP_FANOUT :: nat where "DEFAULT_GOSSIP_FANOUT = 3"
definition DEFAULT_GOSSIP_MAX_HOPS :: int where "DEFAULT_GOSSIP_MAX_HOPS = 8"
definition DEFAULT_GOSSIP_CACHE_TTL_SECONDS :: rat where "DEFAULT_GOSSIP_CACHE_TTL_SECONDS = 300"
definition DEFAULT_GOSSIP_CACHE_MAX_ENTRIES :: int where "DEFAULT_GOSSIP_CACHE_MAX_ENTRIES = 50000"
definition DEFAULT_MAX_GOSSIP_PAYLOAD_SIZE :: nat where "DEFAULT_MAX_GOSSIP_PAYLOAD_SIZE = 1024"

definition GOSSIP_MESSAGE_TYPES :: "int set" where
  "GOSSIP_MESSAGE_TYPES = {PING, PONG, PEX}"

section \<open>The duplicate cache\<close>

record gossip_cache =
  gc_max_entries :: nat
  gc_ttl_seconds :: rat
  gc_entries :: "(string \<times> rat) list"

definition new_gossip_cache :: "int \<Rightarrow> rat \<Rightarrow> gossip_cache res" where
  "new_gossip_cache max_entries ttl_seconds =
     (if max_entries \<le> 0 then Inl ValueError
      else Inr \<lparr>gc_max_entries = nat max_entries, gc_ttl_seconds = ttl_seconds, gc_entries = []\<rparr>)"

text \<open>\<open>bytes([message_type])\<close> raises outside a byte.\<close>

definition gossip_id :: "env \<Rightarrow> int \<Rightarrow> bytes \<Rightarrow> string res" where
  "gossip_id E mtype payload =
     thenE (checkE (0 \<le> mtype \<and> mtype < 256) ValueError)
       (Inr (hex_of_bytes (sha E (word_of_int mtype # payload))))"

definition evict_expired :: "rat \<Rightarrow> gossip_cache \<Rightarrow> gossip_cache" where
  "evict_expired now c = c\<lparr>gc_entries := filter (\<lambda>(k, t). \<not> now - t > gc_ttl_seconds c) (gc_entries c)\<rparr>"

definition move_to_end :: "string \<Rightarrow> (string \<times> 'a) list \<Rightarrow> (string \<times> 'a) list" where
  "move_to_end k d = filter (\<lambda>e. fst e \<noteq> k) d @ filter (\<lambda>e. fst e = k) d"

definition seen :: "env \<Rightarrow> rat \<Rightarrow> gossip_cache \<Rightarrow> int \<Rightarrow> bytes \<Rightarrow> (gossip_cache \<times> bool) res" where
  "seen E now c mtype payload =
     (let c = evict_expired now c in
      bindE (gossip_id E mtype payload) (\<lambda>key.
        if key \<in> fst ` set (gc_entries c) then Inr (c\<lparr>gc_entries := move_to_end key (gc_entries c)\<rparr>, True)
        else Inr (c, False)))"

text \<open>\<open>while len(entries) >= max: popitem(last=False)\<close>.\<close>

definition pop_to :: "nat \<Rightarrow> 'a list \<Rightarrow> 'a list" where
  "pop_to n d = drop (length d + 1 - n) d"

definition cache_add :: "env \<Rightarrow> rat \<Rightarrow> gossip_cache \<Rightarrow> int \<Rightarrow> bytes \<Rightarrow> gossip_cache res" where
  "cache_add E now c mtype payload =
     (let c = evict_expired now c in
      bindE (gossip_id E mtype payload) (\<lambda>key.
        if key \<in> fst ` set (gc_entries c) then Inr (c\<lparr>gc_entries := move_to_end key (gc_entries c)\<rparr>)
        else Inr (c\<lparr>gc_entries := pop_to (gc_max_entries c) (gc_entries c) @ [(key, now)]\<rparr>)))"

definition cache_size :: "rat \<Rightarrow> gossip_cache \<Rightarrow> gossip_cache \<times> nat" where
  "cache_size now c = (let c = evict_expired now c in (c, length (gc_entries c)))"

definition cache_clear :: "gossip_cache \<Rightarrow> gossip_cache" where
  "cache_clear c = c\<lparr>gc_entries := []\<rparr>"

section \<open>Token buckets\<close>

record token_bucket =
  tb_rate :: rat
  tb_capacity :: rat
  tb_tokens :: rat
  tb_last :: rat

definition new_bucket :: "rat \<Rightarrow> rat \<Rightarrow> token_bucket" where
  "new_bucket now rate = \<lparr>tb_rate = rate, tb_capacity = rate, tb_tokens = rate, tb_last = now\<rparr>"

definition consume_tokens :: "rat \<Rightarrow> rat \<Rightarrow> token_bucket \<Rightarrow> token_bucket \<times> bool" where
  "consume_tokens now amount b =
     (let elapsed = now - tb_last b; tokens = min (tb_capacity b) (tb_tokens b + elapsed * tb_rate b) in
      if tokens < amount then (b\<lparr>tb_last := now, tb_tokens := tokens\<rparr>, False)
      else (b\<lparr>tb_last := now, tb_tokens := tokens - amount\<rparr>, True))"

section \<open>The engine\<close>

record gossip_limits =
  gl_fanout :: nat
  gl_max_hops :: int
  gl_max_payload_size :: nat
  gl_max_per_peer_per_second :: rat
  gl_max_total_per_second :: rat
  gl_max_bytes_per_second :: rat

definition default_gossip_limits :: gossip_limits where
  "default_gossip_limits = \<lparr>gl_fanout = DEFAULT_GOSSIP_FANOUT, gl_max_hops = DEFAULT_GOSSIP_MAX_HOPS,
     gl_max_payload_size = DEFAULT_MAX_GOSSIP_PAYLOAD_SIZE, gl_max_per_peer_per_second = 10,
     gl_max_total_per_second = 100, gl_max_bytes_per_second = 512 * 1024\<rparr>"

record gossip_engine =
  ge_limits :: gossip_limits
  ge_cache :: gossip_cache
  ge_peer_buckets :: "string \<rightharpoonup> token_bucket"
  ge_total_bucket :: token_bucket
  ge_bytes_bucket :: token_bucket

definition new_gossip_engine :: "rat \<Rightarrow> gossip_limits \<Rightarrow> gossip_cache \<Rightarrow> gossip_engine" where
  "new_gossip_engine now limits cache = \<lparr>ge_limits = limits, ge_cache = cache, ge_peer_buckets = Map.empty,
     ge_total_bucket = new_bucket now (gl_max_total_per_second limits),
     ge_bytes_bucket = new_bucket now (gl_max_bytes_per_second limits)\<rparr>"

text \<open>The engine after the check and its outcome: the tokens of an earlier bucket stay consumed
  when a later one refuses.\<close>

definition check_gossip_rate :: "rat \<Rightarrow> gossip_engine \<Rightarrow> string \<Rightarrow> nat \<Rightarrow> gossip_engine \<times> unit res" where
  "check_gossip_rate now g peer_id payload_size =
     (if payload_size > gl_max_payload_size (ge_limits g) then (g, Inl GossipRateLimitError)
      else
        let bucket = (case ge_peer_buckets g peer_id of Some b \<Rightarrow> b
                      | None \<Rightarrow> new_bucket now (gl_max_per_peer_per_second (ge_limits g)));
            (bucket, ok) = consume_tokens now 1 bucket;
            g = g\<lparr>ge_peer_buckets := (ge_peer_buckets g)(peer_id \<mapsto> bucket)\<rparr> in
        if \<not> ok then (g, Inl GossipRateLimitError)
        else
          let (total, ok) = consume_tokens now 1 (ge_total_bucket g); g = g\<lparr>ge_total_bucket := total\<rparr> in
          if \<not> ok then (g, Inl GossipRateLimitError)
          else
            let (byts, ok) = consume_tokens now (of_nat payload_size) (ge_bytes_bucket g); g = g\<lparr>ge_bytes_bucket := byts\<rparr> in
            if \<not> ok then (g, Inl GossipRateLimitError) else (g, Inr ()))"

definition gossip_receive :: "env \<Rightarrow> rat \<Rightarrow> gossip_engine \<Rightarrow> envelope \<Rightarrow> string \<Rightarrow> gossip_engine \<times> bool res" where
  "gossip_receive E now g env from_peer_id =
     (if ev_message_type env \<notin> GOSSIP_MESSAGE_TYPES then (g, Inl GossipError)
      else
        let (g, r) = check_gossip_rate now g from_peer_id (length (ev_payload env)) in
        case r of
          Inl e \<Rightarrow> (g, Inl e)
        | Inr _ \<Rightarrow>
            (case seen E now (ge_cache g) (ev_message_type env) (ev_payload env) of
               Inl e \<Rightarrow> (g\<lparr>ge_cache := evict_expired now (ge_cache g)\<rparr>, Inl e)
             | Inr (c, True) \<Rightarrow> (g\<lparr>ge_cache := c\<rparr>, Inr False)
             | Inr (c, False) \<Rightarrow>
                 (case cache_add E now c (ev_message_type env) (ev_payload env) of
                    Inl e \<Rightarrow> (g\<lparr>ge_cache := evict_expired now c\<rparr>, Inl e)
                  | Inr c' \<Rightarrow> (g\<lparr>ge_cache := c'\<rparr>, Inr True))))"

section \<open>Forwarding\<close>

text \<open>\<open>json.loads\<close> of \<open>bytes\<close> guesses the encoding: without a byte order mark and without NUL among
  the first bytes it is UTF-8, surrogates let through.  \<open>other\<close> stands for the decoders of the
  remaining encodings.\<close>

definition looks_utf8 :: "bytes \<Rightarrow> bool" where
  "looks_utf8 b =
     (take 2 b \<noteq> [0xFE, 0xFF] \<and> take 2 b \<noteq> [0xFF, 0xFE] \<and> take 3 b \<noteq> [0xEF, 0xBB, 0xBF]
      \<and> (case b of
           b0 # b1 # _ # _ # _ \<Rightarrow> b0 \<noteq> 0 \<and> b1 \<noteq> 0
         | [b0, b1] \<Rightarrow> b0 \<noteq> 0 \<and> b1 \<noteq> 0
         | _ \<Rightarrow> True))"

definition loads_any :: "runtime \<Rightarrow> (bytes \<Rightarrow> string res) \<Rightarrow> bytes \<Rightarrow> json res" where
  "loads_any R other b =
     bindE (if looks_utf8 b then (if str_valid (bytes_str b) then Inr (bytes_str b) else Inl UnicodeError) else other b)
       (json_loads (rt_float R))"

text \<open>Any exception gives the defaults.\<close>

definition extract_forward_fields :: "runtime \<Rightarrow> (bytes \<Rightarrow> string res) \<Rightarrow> bytes \<Rightarrow> int \<times> int" where
  "extract_forward_fields R other payload =
     (case loads_any R other payload of
        Inr (JDict d) \<Rightarrow>
          (case (py_int R (dget d ''ttl'' (JInt 0)), py_int R (dget d ''hop_count'' (JInt 0))) of
             (Inr ttl, Inr hop_count) \<Rightarrow> (ttl, hop_count)
           | _ \<Rightarrow> (0, 0))
      | _ \<Rightarrow> (0, 0))"

definition adjust_fields :: "runtime \<Rightarrow> (bytes \<Rightarrow> string res) \<Rightarrow> bytes \<Rightarrow> int \<Rightarrow> int \<Rightarrow> bytes" where
  "adjust_fields R other payload ttl hop_count =
     (case loads_any R other payload of
        Inr (JDict d) \<Rightarrow>
          (case dumps_bytes compact_style
                  (JDict (dict_set (dict_set d ''ttl'' (JInt (max 0 ttl))) ''hop_count'' (JInt hop_count))) of
             Inr b \<Rightarrow> b
           | Inl _ \<Rightarrow> payload)
      | _ \<Rightarrow> payload)"

text \<open>The order of \<open>forward_targets\<close> is that of Python's \<open>hash\<close> of a pair of an integer and a
  string, which a process randomises: the parameter \<open>py_hash\<close>.\<close>

definition forward_seed :: "string \<Rightarrow> int" where
  "forward_seed key = int (foldl (\<lambda>a c. 16 * a + the (hex_val c)) 0 (take 16 key))"

definition forward_targets :: "env \<Rightarrow> runtime \<Rightarrow> (bytes \<Rightarrow> string res) \<Rightarrow> (int \<Rightarrow> string \<Rightarrow> int) \<Rightarrow> gossip_engine \<Rightarrow>
    envelope \<Rightarrow> string \<Rightarrow> (string \<times> int) list \<Rightarrow> (string \<times> int) list res" where
  "forward_targets E R other py_hash g env from_peer_id peers =
     (if ev_message_type env \<notin> GOSSIP_MESSAGE_TYPES then Inr []
      else
        let (ttl, hop_count) = extract_forward_fields R other (ev_payload env) in
        if ttl \<le> 0 \<or> hop_count \<ge> gl_max_hops (ge_limits g) then Inr []
        else
          bindE (gossip_id E (ev_message_type env) (ev_payload env)) (\<lambda>key.
            let seed = forward_seed key;
                available = sort_key (\<lambda>p. (py_hash seed (fst p) mod 2 ^ 31, fst p)) (filter (\<lambda>p. fst p \<noteq> from_peer_id) peers) in
            Inr (take (gl_fanout (ge_limits g)) available)))"

definition prepare_forward :: "runtime \<Rightarrow> (bytes \<Rightarrow> string res) \<Rightarrow> envelope \<Rightarrow> envelope" where
  "prepare_forward R other env =
     (let (ttl, hop_count) = extract_forward_fields R other (ev_payload env) in
      env\<lparr>ev_payload := adjust_fields R other (ev_payload env) (ttl - 1) (hop_count + 1)\<rparr>)"

definition ping_payload :: "int \<Rightarrow> bytes res" where
  "ping_payload nonce = dumps_bytes default_style
     (JDict [(''nonce'', JInt nonce), (''ttl'', JInt 0), (''hop_count'', JInt 0)])"

definition create_ping :: "int \<Rightarrow> envelope res" where
  "create_ping nonce = bindE (ping_payload nonce) (\<lambda>p. Inr \<lparr>ev_message_type = PING, ev_flags = 0, ev_payload = p\<rparr>)"

definition create_pong :: "int \<Rightarrow> envelope res" where
  "create_pong nonce = bindE (ping_payload nonce) (\<lambda>p. Inr \<lparr>ev_message_type = PONG, ev_flags = 0, ev_payload = p\<rparr>)"

end
