(* ===== verification/Wire.thy ===== *)
theory Wire
  imports Messages Block
begin

text \<open>
  Blocks and headers on the wire: the JSON form of a version 2 block (\<open>BlockV2.to_dict\<close> and
  \<open>from_dict\<close>) in hexadecimal, as \<open>network/sync/block_sync.py\<close> and \<open>network/relay/engine.py\<close> send it,
  and the 149 header bytes in hexadecimal, as \<open>network/sync/header_sync.py\<close> sends them.
\<close>

section \<open>JSON form\<close>

definition header_v2_items :: "hdr_dict_v2 \<Rightarrow> (string \<times> json) list" where
  "header_v2_items d =
     [(''version'', JInt (hd_version d)), (''prev_hash'', JStr (hd_prev_hash d)),
      (''merkle_root'', JStr (hd_merkle_root d)), (''registry_root'', JStr (hd_registry_root d)),
      (''timestamp'', JInt (hd_timestamp d)), (''target'', JStr (hd_target d)), (''nonce'', JInt (hd_nonce d))]"

definition header_v2_from_json :: "runtime \<Rightarrow> json \<Rightarrow> block_header_v2 res" where
  "header_v2_from_json R data =
     bindE (bindE (jindex data ''version'') (py_int R)) (\<lambda>version.
     bindE (jindex data ''prev_hash'') (\<lambda>prev_hash.
     bindE (jindex data ''merkle_root'') (\<lambda>merkle_root.
     bindE (jindex data ''registry_root'') (\<lambda>registry_root.
     bindE (bindE (jindex data ''timestamp'') (py_int R)) (\<lambda>timestamp.
     bindE (bindE (jindex data ''target'') (\<lambda>t. hex_to_target (py_str R t))) (\<lambda>target.
     bindE (bindE (jindex data ''nonce'') (py_int R)) (\<lambda>nonce.
       Inr \<lparr>bh_version = version, bh_prev_hash = py_str R prev_hash, bh_merkle_root = py_str R merkle_root,
            bh_timestamp = timestamp, bh_target = target, bh_nonce = nonce,
            bh_registry_root = py_str R registry_root\<rparr>)))))))"

definition block_v2_to_dict :: "env \<Rightarrow> block_v2 \<Rightarrow> (string \<times> json) list res" where
  "block_v2_to_dict E b =
     bindE (header_v2_to_dict (bk_header b)) (\<lambda>d.
     bindE (block_hash_v2 E b) (\<lambda>h.
       Inr [(''header'', JDict (header_v2_items d)), (''transactions'', JList (bk_transactions b)), (''hash'', JStr h)]))"

definition block_v2_from_dict :: "runtime \<Rightarrow> json \<Rightarrow> block_v2 res" where
  "block_v2_from_dict R data =
     bindE (bindE (jindex data ''header'') (header_v2_from_json R)) (\<lambda>header.
     bindE (bindE (jget data ''transactions'' (JList [])) jiter) (\<lambda>transactions.
       Inr \<lparr>bk_header = header, bk_transactions = transactions\<rparr>))"

section \<open>Hexadecimal form\<close>

definition encode_block :: "env \<Rightarrow> block_v2 \<Rightarrow> string res" where
  "encode_block E b =
     bindE (block_v2_to_dict E b) (\<lambda>d. bindE (dumps_bytes compact_style (JDict d)) (\<lambda>raw. Inr (hex_of_bytes raw)))"

definition decode_block :: "runtime \<Rightarrow> string \<Rightarrow> block_v2 res" where
  "decode_block R block_bytes_hex =
     bindE (of_option ValueError (fromhex block_bytes_hex)) (\<lambda>raw. bindE (loads R raw) (block_v2_from_dict R))"

definition encode_wire_header :: "block_header_v2 \<Rightarrow> string res" where
  "encode_wire_header h = bindE (header_v2_to_dict h) (\<lambda>d. bindE (encode_header_v2 d) (\<lambda>raw. Inr (hex_of_bytes raw)))"

definition decode_wire_header :: "runtime \<Rightarrow> string \<Rightarrow> block_header_v2 res" where
  "decode_wire_header R header_bytes_hex =
     bindE (of_option ValueError (fromhex header_bytes_hex)) (\<lambda>raw.
     bindE (decode_header_v2 raw 0 False) (\<lambda>(d, _). header_v2_from_dict d))"

section \<open>Round trips\<close>

lemma wire_header_roundtrip_aux:
  assumes "wf_header_v2 h"
  shows "\<exists>s. encode_wire_header h = Inr s \<and> decode_wire_header R s = Inr h"
proof -
  from header_v2_roundtrip_aux [OF assms] obtain b d where b: "header_v2_bytes h = Inr b" "length b = 149"
    "decode_header_v2 b 0 True = Inr (d, 149)" "header_v2_from_dict d = Inr h" by blast
  have "decode_header_v2 b 0 False = Inr (d, 149)"
    using b(2,3) by (auto simp: decode_header_v2_def res_simps split: if_split_asm)
  then show ?thesis
    using b(1,4) by (auto simp: encode_wire_header_def decode_wire_header_def header_v2_bytes_def res_simps)
qed

declare hex64_utf8 [simp]

lemma header_items_read:
  assumes "wf_header_v2 h" and "header_v2_to_dict h = Inr d"
  shows "header_v2_from_json R (norm_json (JDict (header_v2_items d))) = Inr h"
proof -
  from assms(2) obtain t where t: "target_to_hex (bh_target h) = Inr t"
    "d = \<lparr>hd_version = bh_version h, hd_prev_hash = bh_prev_hash h, hd_merkle_root = bh_merkle_root h,
       hd_timestamp = bh_timestamp h, hd_target = t, hd_nonce = bh_nonce h, hd_registry_root = bh_registry_root h\<rparr>"
    by (auto simp: header_v2_to_dict_def res_simps simp del: target_to_hex_Inr)
  have "distinct (map fst (header_v2_items d))" by (simp add: header_v2_items_def)
  then show ?thesis
    unfolding norm_JDict header_v2_from_json_def jindex.simps
    by (simp add: norm_dindex) (simp add: header_v2_items_def t(2) hex_to_target_to_hex [OF t(1)])
qed

lemma block_read:
  assumes "wf_header_v2 (bk_header b)" and "json_wf (rt_float R) (JList (bk_transactions b))" and "block_v2_to_dict E b = Inr d"
  shows "block_v2_from_dict R (norm_json (JDict d)) = Inr (b\<lparr>bk_transactions := map norm_json (bk_transactions b)\<rparr>)"
    and "utf8_valid h \<Longrightarrow> block_hash_v2 E b = Inr h \<Longrightarrow> json_wf (rt_float R) (JDict d)"
proof -
  from assms(3) obtain hd h where d: "header_v2_to_dict (bk_header b) = Inr hd" "block_hash_v2 E b = Inr h"
    "d = [(''header'', JDict (header_v2_items hd)), (''transactions'', JList (bk_transactions b)), (''hash'', JStr h)]"
    by (auto simp: block_v2_to_dict_def res_simps)
  have dist: "distinct (map fst d)" by (simp add: d(3))
  note hdr = header_items_read [OF assms(1) d(1), of R]
  show "block_v2_from_dict R (norm_json (JDict d)) = Inr (b\<lparr>bk_transactions := map norm_json (bk_transactions b)\<rparr>)"
    unfolding norm_JDict block_v2_from_dict_def jindex.simps jget.simps
    using dist by (simp add: norm_dindex norm_dget) (simp add: d(3) hdr)
  from d(1) assms(1) have "json_wf (rt_float R) (JDict (header_v2_items hd))"
    using target_to_hex64 by (auto simp: header_v2_items_def header_v2_to_dict_def wf_header_v2_def bindE_Inr_iff utf8_valid_ascii)
  then show "utf8_valid h' \<Longrightarrow> block_hash_v2 E b = Inr h' \<Longrightarrow> json_wf (rt_float R) (JDict d)" for h'
    using assms(2) d(2) by (simp add: d(3) utf8_valid_ascii)
qed

text \<open>The compact text of a well-formed value.\<close>

lemma json_wf_dumps_ok: "json_wf fl j \<Longrightarrow> dumps_ok compact_style j"
  by (induction j) (auto simp: compact_style_def canonical_style_def)

lemma compact_dumps:
  assumes "json_wf fl j"
  shows "\<exists>t. jdump compact_style 0 j = Some t \<and> ascii t \<and> dumps_bytes compact_style j = Inr (str_bytes t)"
proof -
  from json_wf_dumps_ok [OF assms] obtain t where t: "jdump compact_style 0 j = Some t"
    using jdump_None(1) [of compact_style 0 j] by (cases "jdump compact_style 0 j") blast+
  have a: "ascii t" by (rule ascii_jdump [OF _ _ assms t]) (simp, simp add: compact_style_def canonical_style_def)
  have "dumps_bytes compact_style j = Inr (str_bytes t)"
    using a t by (simp add: dumps_bytes_def json_dumps_def encode_utf8_def ascii_valid del: jdump.simps)
  with t a show ?thesis by blast
qed

lemma block_wire_read:
  assumes "hash_length E" and "wf_header_v2 (bk_header b)" and "json_wf (rt_float R) (JList (bk_transactions b))"
  shows "\<exists>s. encode_block E b = Inr s \<and> decode_block R s = Inr (b\<lparr>bk_transactions := map norm_json (bk_transactions b)\<rparr>)"
proof -
  from header_v2_roundtrip_aux [OF assms(2)] obtain hb hd where hb: "header_v2_bytes (bk_header b) = Inr hb" "header_v2_to_dict (bk_header b) = Inr hd"
    by (auto simp: header_v2_bytes_def res_simps)
  have hash: "block_hash_v2 E b = Inr (hash_double_hex E hb)"
    using hb(1) by (simp add: block_hash_v2_def header_v2_hash_bytes)
  then obtain d where d: "block_v2_to_dict E b = Inr d" using hb(2) by (simp add: block_v2_to_dict_def)
  have wf: "json_wf (rt_float R) (JDict d)"
    by (rule block_read(2) [OF assms(2,3) d _ hash]) (simp add: hash_length.hash_double_hex64 [OF assms(1)])
  obtain t where t: "dumps_bytes compact_style (JDict d) = Inr (str_bytes t)" using compact_dumps [OF wf] by blast
  have "loads R (str_bytes t) = Inr (norm_json (JDict d))"
    unfolding loads_def by (rule loads_dumps_bytes [OF _ wf t]) simp
  then show ?thesis
    using block_read(1) [OF assms(2,3) d] t by (simp add: encode_block_def decode_block_def d)
qed

section \<open>Claims\<close>

text \<open>Blocks and headers survive the network: a well-formed block is sent as hexadecimal JSON that the
  receiver decodes to the same block, the keys of its transactions sorted, and a well-formed header as
  149 bytes in hexadecimal that decode to the same header.\<close>

theorem block_wire_roundtrip:
  assumes "hash_length E" and "wf_header_v2 (bk_header b)" and "json_wf (rt_float R) (JList (bk_transactions b))"
  shows "(\<exists>s. encode_block E b = Inr s \<and> decode_block R s = Inr (b\<lparr>bk_transactions := map norm_json (bk_transactions b)\<rparr>))
    \<and> (\<exists>s. encode_wire_header (bk_header b) = Inr s \<and> decode_wire_header R s = Inr (bk_header b))"
  by (intro conjI block_wire_read [OF assms] wire_header_roundtrip_aux [OF assms(2)])

theorem block_wire_roundtrip_witness:
  "(\<exists>s. encode_block demo_env demo_block = Inr s
      \<and> decode_block demo_runtime s = Inr (demo_block\<lparr>bk_transactions := map norm_json (bk_transactions demo_block)\<rparr>))"
proof -
  have "wf_header_v2 (bk_header demo_block)" "json_wf (rt_float demo_runtime) (JList (bk_transactions demo_block))"
    using wf_demo_header by (simp_all add: demo_block_def demo_tx_def utf8_valid_ascii)
  from block_wire_roundtrip [OF demo.hash_length_axioms this] show ?thesis by blast
qed

end
