(* ===== verification/Gossip_Props.thy ===== *)
theory Gossip_Props
  imports Gossip Wire
begin

text \<open>
  What the gossip layer guarantees: the cache stays within its size and has no key twice, a message
  accepted once is not accepted again while it is within the cache's time and size limits, a token
  bucket never grants more than its capacity and rate allow, and forwarding a message ends.
\<close>

section \<open>The cache\<close>

definition wf_cache :: "gossip_cache \<Rightarrow> bool" where
  "wf_cache c \<longleftrightarrow> 0 < gc_max_entries c \<and> distinct (map fst (gc_entries c)) \<and> length (gc_entries c) \<le> gc_max_entries c"

lemma distinct_map_filter_fst: "distinct (map fst d) \<Longrightarrow> distinct (map fst (filter P d))"
  by (rule distinct_map_filter)

lemma wf_evict: "wf_cache c \<Longrightarrow> wf_cache (evict_expired now c)"
  by (auto simp: wf_cache_def evict_expired_def distinct_map_filter intro: order_trans [OF length_filter_le])

lemma length_move_to_end: "length (move_to_end k d) = length d"
  using sum_length_filter_compl [of "\<lambda>e. fst e \<noteq> k" d] by (simp add: move_to_end_def)

lemma wf_move: "wf_cache c \<Longrightarrow> wf_cache (c\<lparr>gc_entries := move_to_end k (gc_entries c)\<rparr>)"
  by (auto simp: wf_cache_def length_move_to_end) (auto simp: move_to_end_def distinct_map_filter)

lemma length_pop_to: "0 < n \<Longrightarrow> length (pop_to n d) < n"
  by (simp add: pop_to_def)

lemma wf_pop:
  assumes "wf_cache c" and "k \<notin> fst ` set (gc_entries c)"
  shows "wf_cache (c\<lparr>gc_entries := pop_to (gc_max_entries c) (gc_entries c) @ [(k, t)]\<rparr>)"
  using assms length_pop_to [of "gc_max_entries c" "gc_entries c"]
  by (auto simp: wf_cache_def pop_to_def drop_map [symmetric] dest: in_set_dropD)

lemma wf_seen: "wf_cache c \<Longrightarrow> seen E now c m p = Inr (c', b) \<Longrightarrow> wf_cache c'"
  by (auto simp: seen_def res_simps Let_def wf_evict wf_move split: if_split_asm)

lemma wf_add:
  assumes "wf_cache c" and "cache_add E now c m p = Inr c'"
  shows "wf_cache c'"
proof -
  let ?c = "evict_expired now c"
  have w: "wf_cache ?c" by (rule wf_evict [OF assms(1)])
  from assms(2) obtain k where k: "gossip_id E m p = Inr k" by (auto simp: cache_add_def res_simps Let_def)
  show ?thesis
  proof (cases "k \<in> fst ` set (gc_entries ?c)")
    case True
    then show ?thesis using assms(2) k wf_move [OF w] by (auto simp: cache_add_def Let_def)
  next
    case False
    then show ?thesis using assms(2) k wf_pop [OF w False] by (auto simp: cache_add_def Let_def)
  qed
qed

section \<open>Token buckets\<close>

definition wf_bucket :: "token_bucket \<Rightarrow> bool" where
  "wf_bucket b \<longleftrightarrow> 0 \<le> tb_rate b \<and> 0 \<le> tb_tokens b \<and> tb_tokens b \<le> tb_capacity b"

lemma wf_new_bucket: "0 \<le> rate \<Longrightarrow> wf_bucket (new_bucket now rate)"
  by (simp add: wf_bucket_def new_bucket_def)

lemma wf_consume:
  assumes "wf_bucket b" and "tb_last b \<le> now" and "0 \<le> amount"
  shows "wf_bucket (fst (consume_tokens now amount b))"
  using assms by (auto simp: wf_bucket_def consume_tokens_def Let_def)

text \<open>A sequence of requests, each a time and an amount: the bucket after it and what it granted.\<close>

fun consume_tokens_all :: "(rat \<times> rat) list \<Rightarrow> token_bucket \<Rightarrow> token_bucket \<times> rat" where
  "consume_tokens_all [] b = (b, 0)"
| "consume_tokens_all ((now, amount) # rs) b =
     (let (b', ok) = consume_tokens now amount b; (b'', granted) = consume_tokens_all rs b' in
      (b'', (if ok then amount else 0) + granted))"

fun times_ok :: "rat \<Rightarrow> (rat \<times> rat) list \<Rightarrow> bool" where
  "times_ok t [] = True"
| "times_ok t ((now, amount) # rs) = (t \<le> now \<and> 0 \<le> amount \<and> times_ok now rs)"

lemma consume_step:
  assumes "wf_bucket b" and "tb_last b \<le> now" and "consume_tokens now amount b = (b', ok)"
  shows "(if ok then amount else 0) + tb_tokens b' \<le> tb_tokens b + tb_rate b * (now - tb_last b)
    \<and> tb_last b' = now \<and> tb_rate b' = tb_rate b \<and> tb_capacity b' = tb_capacity b"
  using assms by (auto simp: consume_tokens_def Let_def mult.commute split: if_split_asm)

lemma consume_all_bound:
  "wf_bucket b \<Longrightarrow> times_ok (tb_last b) rs \<Longrightarrow> consume_tokens_all rs b = (b', granted) \<Longrightarrow>
     granted + tb_tokens b' \<le> tb_tokens b + tb_rate b * (tb_last b' - tb_last b) \<and> tb_last b \<le> tb_last b' \<and> wf_bucket b'"
proof (induction rs b arbitrary: b' granted rule: consume_tokens_all.induct)
  case (2 now amount rs b)
  obtain b1 ok where b1: "consume_tokens now amount b = (b1, ok)" by fastforce
  obtain b2 g where b2: "consume_tokens_all rs b1 = (b2, g)" by fastforce
  have t: "tb_last b \<le> now" "0 \<le> amount" "times_ok now rs" using "2.prems"(2) by simp_all
  note s = consume_step [OF "2.prems"(1) t(1) b1]
  have w: "wf_bucket b1" using wf_consume [OF "2.prems"(1) t(1,2)] b1 by simp
  have "g + tb_tokens b2 \<le> tb_tokens b1 + tb_rate b1 * (tb_last b2 - tb_last b1) \<and> tb_last b1 \<le> tb_last b2 \<and> wf_bucket b2"
    using "2.IH" [OF b1 [symmetric] _ w _ b2] s t(3) b1 by simp
  with s t(1) "2.prems"(3) b1 b2 show ?case by (auto simp: algebra_simps)
qed simp

section \<open>The engine\<close>

definition wf_engine :: "rat \<Rightarrow> gossip_engine \<Rightarrow> bool" where
  "wf_engine now g \<longleftrightarrow> wf_cache (ge_cache g) \<and> 0 \<le> gl_max_per_peer_per_second (ge_limits g)
     \<and> wf_bucket (ge_total_bucket g) \<and> tb_last (ge_total_bucket g) \<le> now
     \<and> wf_bucket (ge_bytes_bucket g) \<and> tb_last (ge_bytes_bucket g) \<le> now
     \<and> (\<forall>b \<in> ran (ge_peer_buckets g). wf_bucket b \<and> tb_last b \<le> now)"

lemma consume_ok:
  "wf_bucket b \<Longrightarrow> tb_last b \<le> now \<Longrightarrow> 0 \<le> x \<Longrightarrow> consume_tokens now x b = (b', ok) \<Longrightarrow> wf_bucket b' \<and> tb_last b' = now"
  using wf_consume [of b now x] consume_step [of b now x b' ok] by simp

lemma wf_engine_later: "wf_engine t g \<Longrightarrow> t \<le> now \<Longrightarrow> wf_engine now g"
  unfolding wf_engine_def by fastforce

lemma wf_check_rate:
  assumes "wf_engine now g" and "check_gossip_rate now g peer n = (g', r)"
  shows "wf_engine now g' \<and> ge_cache g' = ge_cache g \<and> ge_limits g' = ge_limits g"
proof (cases "n > gl_max_payload_size (ge_limits g)")
  case True
  then show ?thesis using assms by (simp add: check_gossip_rate_def)
next
  case False
  define b0 where "b0 = (case ge_peer_buckets g peer of Some b \<Rightarrow> b | None \<Rightarrow> new_bucket now (gl_max_per_peer_per_second (ge_limits g)))"
  obtain b1 ok1 where b1: "consume_tokens now 1 b0 = (b1, ok1)" by fastforce
  obtain t1 ok2 where t1: "consume_tokens now 1 (ge_total_bucket g) = (t1, ok2)" by fastforce
  obtain y1 ok3 where y1: "consume_tokens now (of_nat n) (ge_bytes_bucket g) = (y1, ok3)" by fastforce
  have "wf_bucket b0 \<and> tb_last b0 \<le> now"
  proof (cases "ge_peer_buckets g peer")
    case None
    then show ?thesis using assms(1) wf_new_bucket [of "gl_max_per_peer_per_second (ge_limits g)" now]
      by (simp add: b0_def wf_engine_def) (simp add: new_bucket_def)
  next
    case (Some b)
    then show ?thesis using assms(1) by (auto simp: b0_def wf_engine_def ran_def)
  qed
  then have w1: "wf_bucket b1 \<and> tb_last b1 = now" using consume_ok [OF _ _ _ b1] by simp
  have w2: "wf_bucket t1 \<and> tb_last t1 = now" "wf_bucket y1 \<and> tb_last y1 = now"
    using assms(1) consume_ok [OF _ _ _ t1] consume_ok [OF _ _ _ y1] by (simp_all add: wf_engine_def)
  have "\<forall>b \<in> ran ((ge_peer_buckets g)(peer \<mapsto> b1)). wf_bucket b \<and> tb_last b \<le> now"
    using assms(1) w1 by (auto simp: wf_engine_def ran_def)
  note p = this
  let ?g1 = "g\<lparr>ge_peer_buckets := (ge_peer_buckets g)(peer \<mapsto> b1)\<rparr>"
  have run: "check_gossip_rate now g peer n =
      (if \<not> ok1 then (?g1, Inl GossipRateLimitError)
       else if \<not> ok2 then (?g1\<lparr>ge_total_bucket := t1\<rparr>, Inl GossipRateLimitError)
       else (?g1\<lparr>ge_total_bucket := t1, ge_bytes_bucket := y1\<rparr>, if ok3 then Inr () else Inl GossipRateLimitError))"
    using False by (simp add: check_gossip_rate_def b0_def [symmetric] b1 t1 y1)
  have "wf_engine now ?g1" "wf_engine now (?g1\<lparr>ge_total_bucket := t1\<rparr>)"
    "wf_engine now (?g1\<lparr>ge_total_bucket := t1, ge_bytes_bucket := y1\<rparr>)"
    using assms(1) p w2 by (simp_all add: wf_engine_def)
  then show ?thesis using assms(2) unfolding run by (auto split: if_split_asm)
qed

lemma wf_receive:
  assumes "wf_engine now g" and "gossip_receive E now g env peer = (g', r)"
  shows "wf_engine now g'"
proof -
  obtain g1 r1 where g1: "check_gossip_rate now g peer (length (ev_payload env)) = (g1, r1)" by fastforce
  note w = wf_check_rate [OF assms(1) g1]
  have c: "wf_cache c \<Longrightarrow> wf_engine now (g1\<lparr>ge_cache := c\<rparr>)" for c using w by (auto simp: wf_engine_def)
  have "wf_engine now g1" using w by blast
  then have "wf_cache (ge_cache g1)" by (simp add: wf_engine_def)
  with assms g1 w show ?thesis
    by (auto simp: gossip_receive_def split: if_split_asm sum.split_asm prod.split_asm bool.split_asm
        intro!: c intro: wf_evict wf_seen wf_add)
qed

section \<open>Duplicates\<close>

text \<open>A key that is in the cache, was stamped at \<open>t0\<close> or later and has at most \<open>m\<close> younger
  entries.\<close>

definition held :: "string \<Rightarrow> rat \<Rightarrow> nat \<Rightarrow> gossip_cache \<Rightarrow> bool" where
  "held k t0 m c \<longleftrightarrow> (\<exists>pre t suf. gc_entries c = pre @ (k, t) # suf \<and> t0 \<le> t \<and> length suf \<le> m)"

lemma heldI: "gc_entries c = pre @ (k, t) # suf \<Longrightarrow> t0 \<le> t \<Longrightarrow> length suf \<le> m \<Longrightarrow> held k t0 m c"
  by (auto simp: held_def)

lemma held_mono: "held k t0 m c \<Longrightarrow> m \<le> n \<Longrightarrow> held k t0 n c"
  unfolding held_def by fastforce

lemma held_in: "held k t0 m c \<Longrightarrow> k \<in> fst ` set (gc_entries c)"
  unfolding held_def by force

lemma held_evict:
  assumes "held k t0 m c" and "now - t0 \<le> gc_ttl_seconds c"
  shows "held k t0 m (evict_expired now c)"
proof -
  from assms(1) obtain pre t suf where e: "gc_entries c = pre @ (k, t) # suf" "t0 \<le> t" "length suf \<le> m"
    by (auto simp: held_def)
  let ?P = "\<lambda>(k, t). \<not> now - t > gc_ttl_seconds c"
  have "gc_entries (evict_expired now c) = filter ?P pre @ (k, t) # filter ?P suf"
    using e assms(2) by (simp add: evict_expired_def)
  then show ?thesis by (rule heldI [OF _ e(2)]) (use e(3) length_filter_le [of ?P suf] in linarith)
qed

lemma length_filter_key: "distinct (map fst d) \<Longrightarrow> length (filter (\<lambda>e. fst e = j) d) \<le> 1"
proof (induction d)
  case (Cons e d)
  have "fst e = j \<Longrightarrow> filter (\<lambda>e. fst e = j) d = []" using Cons.prems by (force simp: filter_empty_conv image_iff)
  with Cons show ?case by auto
qed simp

lemma held_move:
  assumes "held k t0 m c" and "distinct (map fst (gc_entries c))"
  shows "held k t0 (Suc m) (c\<lparr>gc_entries := move_to_end j (gc_entries c)\<rparr>)"
proof -
  from assms(1) obtain pre t suf where e: "gc_entries c = pre @ (k, t) # suf" "t0 \<le> t" "length suf \<le> m"
    by (auto simp: held_def)
  have no: "filter (\<lambda>e. fst e = k) pre = []" "filter (\<lambda>e. fst e = k) suf = []"
    using assms(2) unfolding e(1) by (force simp: filter_empty_conv)+
  show ?thesis
  proof (cases "j = k")
    case True
    have "gc_entries (c\<lparr>gc_entries := move_to_end j (gc_entries c)\<rparr>)
        = (filter (\<lambda>e. fst e \<noteq> k) pre @ filter (\<lambda>e. fst e \<noteq> k) suf) @ (k, t) # []"
      using no by (simp add: move_to_end_def e(1) True)
    then show ?thesis by (rule heldI [OF _ e(2)]) simp
  next
    case False
    let ?s = "filter (\<lambda>e. fst e \<noteq> j) suf @ filter (\<lambda>e. fst e = j) (pre @ suf)"
    have "gc_entries (c\<lparr>gc_entries := move_to_end j (gc_entries c)\<rparr>) = filter (\<lambda>e. fst e \<noteq> j) pre @ (k, t) # ?s"
      using False by (simp add: move_to_end_def e(1))
    moreover have "length ?s \<le> Suc m"
    proof -
      have "distinct (map fst (pre @ suf))" using assms(2) by (auto simp: e(1))
      then have "length (filter (\<lambda>e. fst e = j) (pre @ suf)) \<le> 1" by (rule length_filter_key)
      then show ?thesis using e(3) length_filter_le [of "\<lambda>e. fst e \<noteq> j" suf] unfolding length_append by linarith
    qed
    ultimately show ?thesis by (rule heldI [OF _ e(2)])
  qed
qed

lemma held_pop:
  assumes "held k t0 m c" and "m + 2 \<le> n"
  shows "held k t0 (Suc m) (c\<lparr>gc_entries := pop_to n (gc_entries c) @ [x]\<rparr>)"
proof -
  from assms(1) obtain pre t suf where e: "gc_entries c = pre @ (k, t) # suf" "t0 \<le> t" "length suf \<le> m"
    by (auto simp: held_def)
  have "length (gc_entries c) + 1 - n \<le> length pre" using e assms(2) by simp
  then have "pop_to n (gc_entries c) = drop (length (gc_entries c) + 1 - n) pre @ (k, t) # suf"
    by (simp add: pop_to_def e(1) del: length_append)
  then show ?thesis by (intro heldI [OF _ e(2), of _ "drop (length (gc_entries c) + 1 - n) pre" k "suf @ [x]"]) (use e(3) in simp_all)
qed

text \<open>One received message: the key stays, with at most one more younger entry.\<close>

lemma seen_entries:
  assumes "seen E now c m p = Inr (c', b)"
  obtains k where "gossip_id E m p = Inr k"
    and "b = (k \<in> fst ` set (gc_entries (evict_expired now c)))"
    and "c' = (if b then (evict_expired now c)\<lparr>gc_entries := move_to_end k (gc_entries (evict_expired now c))\<rparr> else evict_expired now c)"
proof -
  from assms obtain k where k: "gossip_id E m p = Inr k" by (auto simp: seen_def res_simps Let_def)
  show thesis
    by (rule that [OF k]) (use assms k in \<open>auto simp: seen_def Let_def split: if_split_asm\<close>)
qed

lemma add_entries:
  assumes "cache_add E now c m p = Inr c'" and "gossip_id E m p = Inr k" and "k \<notin> fst ` set (gc_entries (evict_expired now c))"
  shows "c' = (evict_expired now c)\<lparr>gc_entries := pop_to (gc_max_entries c) (gc_entries (evict_expired now c)) @ [(k, now)]\<rparr>"
  using assms by (simp add: cache_add_def Let_def) (simp add: evict_expired_def)

lemma evict_fields [simp]:
  "gc_max_entries (evict_expired now c) = gc_max_entries c" "gc_ttl_seconds (evict_expired now c) = gc_ttl_seconds c"
  by (simp_all add: evict_expired_def)

lemma evict_twice: "evict_expired now (evict_expired now c) = evict_expired now c"
  by (simp add: evict_expired_def)

definition fresh_cache :: "string \<Rightarrow> rat \<Rightarrow> nat \<Rightarrow> nat \<Rightarrow> rat \<Rightarrow> gossip_cache \<Rightarrow> bool" where
  "fresh_cache k t0 m n ttl c \<longleftrightarrow> wf_cache c \<and> held k t0 m c \<and> gc_max_entries c = n \<and> gc_ttl_seconds c = ttl"

lemma fresh_evict: "fresh_cache k t0 m n ttl c \<Longrightarrow> now - t0 \<le> ttl \<Longrightarrow> fresh_cache k t0 m n ttl (evict_expired now c)"
  by (auto simp: fresh_cache_def wf_evict held_evict)

lemma fresh_mono: "fresh_cache k t0 m n ttl c \<Longrightarrow> m \<le> m' \<Longrightarrow> fresh_cache k t0 m' n ttl c"
  by (auto simp: fresh_cache_def elim: held_mono)

lemma fresh_seen:
  assumes "fresh_cache k t0 m n ttl c" and "now - t0 \<le> ttl" and "seen E now c mt p = Inr (c', b)"
  shows "fresh_cache k t0 (Suc m) n ttl c'" and "\<not> b \<Longrightarrow> c' = evict_expired now c"
proof -
  note f = fresh_evict [OF assms(1,2)]
  from assms(3) obtain j where c': "c' = (if b then (evict_expired now c)\<lparr>gc_entries := move_to_end j (gc_entries (evict_expired now c))\<rparr>
      else evict_expired now c)" by (rule seen_entries)
  show "\<not> b \<Longrightarrow> c' = evict_expired now c" using c' by simp
  show "fresh_cache k t0 (Suc m) n ttl c'"
    using f wf_move [of "evict_expired now c" j] held_move [of k t0 m "evict_expired now c" j] fresh_mono [OF f, of "Suc m"] c'
    by (auto simp: fresh_cache_def wf_cache_def)
qed

lemma fresh_add:
  assumes "fresh_cache k t0 m n ttl c" and "now - t0 \<le> ttl" and "m + 2 \<le> n" and "cache_add E now c mt p = Inr c'"
    and "gossip_id E mt p = Inr j" and "j \<notin> fst ` set (gc_entries (evict_expired now c))"
  shows "fresh_cache k t0 (Suc m) n ttl c'"
proof -
  note f = fresh_evict [OF assms(1,2)]
  have c': "c' = (evict_expired now c)\<lparr>gc_entries := pop_to n (gc_entries (evict_expired now c)) @ [(j, now)]\<rparr>"
    using add_entries [OF assms(4-6)] assms(1) by (simp add: fresh_cache_def)
  have "held k t0 (Suc m) c'" unfolding c' using f by (intro held_pop [OF _ assms(3)]) (simp add: fresh_cache_def)
  moreover have "wf_cache c'" using wf_add [OF _ assms(4)] assms(1) by (simp add: fresh_cache_def)
  ultimately show ?thesis using f by (simp add: fresh_cache_def c')
qed

lemma fresh_receive:
  assumes "fresh_cache k t0 m n ttl (ge_cache g)" and "now - t0 \<le> ttl" and "m + 2 \<le> n"
    and "gossip_receive E now g env peer = (g', r)"
  shows "fresh_cache k t0 (Suc m) n ttl (ge_cache g')"
    and "gossip_id E (ev_message_type env) (ev_payload env) = Inr k \<Longrightarrow> r \<noteq> Inr True"
proof -
  let ?m = "ev_message_type env" and ?p = "ev_payload env"
  obtain g1 r1 where g1: "check_gossip_rate now g peer (length ?p) = (g1, r1)" by fastforce
  have same: "ge_cache g1 = ge_cache g"
    using g1 by (auto simp: check_gossip_rate_def Let_def split: if_split_asm prod.split_asm)
  note stay = fresh_mono [OF assms(1), of "Suc m", simplified]
  show "fresh_cache k t0 (Suc m) n ttl (ge_cache g')"
    and "gossip_id E ?m ?p = Inr k \<Longrightarrow> r \<noteq> Inr True"
  proof -
    consider "?m \<notin> GOSSIP_MESSAGE_TYPES" | e where "r1 = Inl e" | "?m \<in> GOSSIP_MESSAGE_TYPES" "r1 = Inr ()"
      by (cases r1) auto
    then have "fresh_cache k t0 (Suc m) n ttl (ge_cache g') \<and> (gossip_id E ?m ?p = Inr k \<longrightarrow> r \<noteq> Inr True)"
    proof cases
      case 1
      then show ?thesis using assms(4) stay by (auto simp: gossip_receive_def)
    next
      case 2
      then show ?thesis using assms(4) stay same g1 by (auto simp: gossip_receive_def split: if_split_asm)
    next
      case 3
      show ?thesis
      proof (cases "seen E now (ge_cache g) ?m ?p")
        case (Inl e)
        then have "g' = g1\<lparr>ge_cache := evict_expired now (ge_cache g)\<rparr>" "r = Inl e"
          using assms(4) 3 g1 same by (simp_all add: gossip_receive_def)
        then show ?thesis using fresh_evict [OF stay assms(2)] by simp
      next
        case (Inr cb)
        obtain c b where cb: "cb = (c, b)" by fastforce
        note s = fresh_seen [OF assms(1,2) Inr [unfolded cb]]
        show ?thesis
        proof (cases b)
          case True
          then show ?thesis using assms(4) 3 g1 same Inr cb s(1) by (auto simp: gossip_receive_def)
        next
          case False
          obtain j where j: "gossip_id E ?m ?p = Inr j" "j \<notin> fst ` set (gc_entries (evict_expired now (ge_cache g)))"
            using Inr cb False by (auto elim!: seen_entries)
          have "k \<in> fst ` set (gc_entries (evict_expired now (ge_cache g)))"
            using fresh_evict [OF assms(1,2)] held_in by (auto simp: fresh_cache_def)
          with j have "j \<noteq> k" by auto
          have c: "c = evict_expired now (ge_cache g)" by (rule s(2) [OF False])
          obtain c' where c': "cache_add E now c ?m ?p = Inr c'" using j by (simp add: c cache_add_def Let_def evict_twice)
          have "fresh_cache k t0 (Suc m) n ttl c'"
            by (rule fresh_add [OF fresh_evict [OF assms(1,2)] assms(2,3) c' [unfolded c] j(1)])
              (use j(2) in \<open>simp add: evict_twice\<close>)
          moreover have "g' = g1\<lparr>ge_cache := c'\<rparr>"
            using assms(4) 3 g1 same Inr cb False c' by (simp add: gossip_receive_def)
          ultimately show ?thesis using j(1) \<open>j \<noteq> k\<close> by simp
        qed
      qed
    qed
    then show "fresh_cache k t0 (Suc m) n ttl (ge_cache g')" and "gossip_id E ?m ?p = Inr k \<Longrightarrow> r \<noteq> Inr True" by blast+
  qed
qed

fun receive_all :: "env \<Rightarrow> gossip_engine \<Rightarrow> (rat \<times> envelope \<times> string) list \<Rightarrow> gossip_engine" where
  "receive_all E g [] = g"
| "receive_all E g ((now, env, peer) # rs) = receive_all E (fst (gossip_receive E now g env peer)) rs"

lemma fresh_receive_all:
  "fresh_cache k t0 m n ttl (ge_cache g) \<Longrightarrow> (\<forall>(now, env, peer) \<in> set rs. now - t0 \<le> ttl) \<Longrightarrow> m + length rs < n \<Longrightarrow>
     fresh_cache k t0 (m + length rs) n ttl (ge_cache (receive_all E g rs))"
proof (induction rs arbitrary: g m)
  case (Cons x rs)
  obtain now env peer where x: "x = (now, env, peer)" by (cases x)
  obtain g1 r1 where g1: "gossip_receive E now g env peer = (g1, r1)" by fastforce
  have "fresh_cache k t0 (Suc m) n ttl (ge_cache g1)"
    by (rule fresh_receive(1) [OF Cons.prems(1) _ _ g1]) (use Cons.prems(2,3) x in auto)
  from Cons.IH [OF this] Cons.prems(2,3) show ?case by (simp add: x g1)
qed simp

lemma accepted_fresh:
  assumes "wf_cache (ge_cache g)" and "gossip_receive E now g env peer = (g', Inr True)"
  shows "\<exists>k. gossip_id E (ev_message_type env) (ev_payload env) = Inr k
    \<and> fresh_cache k now 0 (gc_max_entries (ge_cache g)) (gc_ttl_seconds (ge_cache g)) (ge_cache g')"
proof -
  let ?m = "ev_message_type env" and ?p = "ev_payload env"
  obtain g1 r1 where g1: "check_gossip_rate now g peer (length ?p) = (g1, r1)" by fastforce
  have same: "ge_cache g1 = ge_cache g"
    using g1 by (auto simp: check_gossip_rate_def Let_def split: if_split_asm prod.split_asm)
  obtain c where c: "seen E now (ge_cache g) ?m ?p = Inr (c, False)" and a: "cache_add E now c ?m ?p = Inr (ge_cache g')"
    using assms(2) g1 same
    by (auto simp: gossip_receive_def split: if_split_asm sum.split_asm prod.split_asm bool.split_asm)
  obtain k where k: "gossip_id E ?m ?p = Inr k" "k \<notin> fst ` set (gc_entries (evict_expired now (ge_cache g)))"
    "c = evict_expired now (ge_cache g)"
    using c by (auto elim!: seen_entries)
  have w: "wf_cache (ge_cache g')" using wf_add [OF wf_evict [OF assms(1)]] a k(3) by blast
  have "ge_cache g' = c\<lparr>gc_entries := pop_to (gc_max_entries c) (gc_entries c) @ [(k, now)]\<rparr>"
    using add_entries [OF a k(1)] k(2,3) by (simp add: evict_twice)
  with w k have "fresh_cache k now 0 (gc_max_entries (ge_cache g)) (gc_ttl_seconds (ge_cache g)) (ge_cache g')"
    by (auto simp: fresh_cache_def held_def)
  with k(1) show ?thesis by blast
qed

lemma not_accepted_again:
  assumes "fresh_cache k t0 m n ttl (ge_cache g)" and "now - t0 \<le> ttl"
    and "gossip_id E (ev_message_type env) (ev_payload env) = Inr k"
  shows "snd (gossip_receive E now g env peer) \<noteq> Inr True"
proof -
  let ?m = "ev_message_type env" and ?p = "ev_payload env"
  obtain g1 r1 where g1: "check_gossip_rate now g peer (length ?p) = (g1, r1)" by fastforce
  have same: "ge_cache g1 = ge_cache g"
    using g1 by (auto simp: check_gossip_rate_def Let_def split: if_split_asm prod.split_asm)
  have "k \<in> fst ` set (gc_entries (evict_expired now (ge_cache g)))"
    using fresh_evict [OF assms(1,2)] held_in by (auto simp: fresh_cache_def)
  then have "\<exists>c. seen E now (ge_cache g) ?m ?p = Inr (c, True)"
    using assms(3) by (simp add: seen_def Let_def)
  then show ?thesis using g1 same by (auto simp: gossip_receive_def split: sum.split)
qed

section \<open>Forwarding ends\<close>

lemma json_wf_dict_set:
  "json_wf fl (JDict d) \<Longrightarrow> utf8_valid k \<Longrightarrow> json_wf fl v \<Longrightarrow> json_wf fl (JDict (dict_set d k v))"
  using set_dict_set [of d k v] by (auto simp: distinct_dict_set)

lemma json_wf_norm: "json_wf fl j \<Longrightarrow> json_wf fl (norm_json j)"
proof (induction j)
  case (JDict d)
  have "json_wf fl (norm_json v)" if "(k, v) \<in> set d" for k v
    using JDict.IH [OF that, of v] JDict.prems that by (auto simp: snds.simps)
  with JDict.prems show ?case by (auto simp: norm_json.simps distinct_sort_keys comp_def case_prod_unfold)
qed auto

lemma dump_dict_start:
  assumes "jdump compact_style 0 (JDict (kv # d)) = Some t"
  shows "\<exists>r. t = CHR ''{'' # CHR 0x22 # r"
proof -
  from assms obtain its where its: "jdump_items compact_style 1 (kv # d) = Some its"
    and t: "t = bracket compact_style 0 ''{'' ''}'' (map snd (sort_key fst its))" by auto
  note e = jdump_items_set [OF its]
  obtain x xs where x: "map snd (sort_key fst its) = x # xs" using e by (cases "sort_key fst its") (auto dest: arg_cong [where f = length])
  then have "x \<in> snd ` set its" by (metis list.set_intros(1) set_map set_sort)
  then have "x \<in> item_text compact_style 1 ` set (kv # d)" unfolding e by (simp add: image_image)
  then obtain kv' where kv': "x = item_text compact_style 1 kv'" "kv' \<in> set (kv # d)" by blast
  have "\<forall>(k, v) \<in> set (kv # d). str_ok compact_style k \<and> dumps_ok compact_style v"
  proof (rule ccontr)
    assume "\<not> ?thesis"
    then have "jdump_items compact_style 1 (kv # d) = None" unfolding jdump_None(3) .
    from trans [OF sym [OF its] this] show False by (rule option.distinct(2) [THEN notE])
  qed
  from bspec [OF this kv'(2)] have "str_ok compact_style (fst kv')" by (simp add: case_prod_beta)
  then have "style_text compact_style (fst kv') \<noteq> None"
    by (auto simp: str_ok_def style_text_def compact_style_def canonical_style_def text_json_def str_valid_def)
  then obtain u where "x = CHR 0x22 # u"
    using kv'(1) by (auto simp: item_text_def style_text_def compact_style_def canonical_style_def text_json_def)
  then show ?thesis
    using x by (cases xs) (auto simp: t bracket_def line_break_def compact_style_def canonical_style_def)
qed

lemma adjust_reads:
  assumes "loads_any R other p = Inr (JDict d)" and "json_wf (rt_float R) (JDict d)"
  shows "\<exists>d'. loads_any R other (adjust_fields R other p ttl hop) = Inr (JDict d') \<and> json_wf (rt_float R) (JDict d')
    \<and> extract_forward_fields R other (adjust_fields R other p ttl hop) = (max 0 ttl, hop)"
proof -
  let ?d = "dict_set (dict_set d ''ttl'' (JInt (max 0 ttl))) ''hop_count'' (JInt hop)"
  have wf: "json_wf (rt_float R) (JDict ?d)"
    using assms(2) by (intro json_wf_dict_set) (auto simp: utf8_valid_ascii)
  obtain kv e where kv: "?d = kv # e" by (cases ?d) (use keys_dict_set [of "dict_set d ''ttl'' (JInt (max 0 ttl))" "''hop_count''" "JInt hop"] in auto)
  obtain t where t: "jdump compact_style 0 (JDict ?d) = Some t" and a: "ascii t"
    and dumps: "dumps_bytes compact_style (JDict ?d) = Inr (str_bytes t)"
    using compact_dumps [OF wf] by blast
  obtain r where r: "t = CHR ''{'' # CHR 0x22 # r" using dump_dict_start t kv by metis
  have adj: "adjust_fields R other p ttl hop = str_bytes t" using assms(1) dumps by (simp add: adjust_fields_def)
  have "looks_utf8 (str_bytes t)"
    by (auto simp: looks_utf8_def r str_bytes_def split: list.split)
  then have "loads_any R other (str_bytes t) = json_loads (rt_float R) t"
    using a by (simp add: loads_any_def ascii_valid utf8_str_valid)
  also have "\<dots> = Inr (JDict (norm_items ?d))"
    using json_loads_dumps [OF _ wf, of compact_style t] t by (simp add: json_dumps_def norm_JDict del: jdump.simps)
  finally have l: "loads_any R other (str_bytes t) = Inr (JDict (norm_items ?d))" .
  have "distinct (map fst ?d)" using wf by simp
  then have "dget (norm_items ?d) ''ttl'' x = JInt (max 0 ttl)" "dget (norm_items ?d) ''hop_count'' x = JInt hop" for x
    by (simp_all add: norm_dget map_of_dict_set)
  moreover have "json_wf (rt_float R) (JDict (norm_items ?d))" using json_wf_norm [OF wf] unfolding norm_JDict .
  ultimately show ?thesis using l by (simp add: adj extract_forward_fields_def)
qed

lemma forward_iterate:
  assumes "loads_any R other (ev_payload env) = Inr (JDict d)" and "json_wf (rt_float R) (JDict d)"
    and "extract_forward_fields R other (ev_payload env) = (ttl, hop)"
  shows "\<exists>d'. loads_any R other (ev_payload ((prepare_forward R other ^^ k) env)) = Inr (JDict d') \<and> json_wf (rt_float R) (JDict d')
    \<and> (\<exists>t. extract_forward_fields R other (ev_payload ((prepare_forward R other ^^ k) env)) = (t, hop + int k)
         \<and> (0 < t \<or> int k < ttl \<longrightarrow> t = ttl - int k))"
proof (induction k)
  case 0
  then show ?case using assms by auto
next
  case (Suc k)
  let ?e = "(prepare_forward R other ^^ k) env"
  from Suc obtain d' t where d': "loads_any R other (ev_payload ?e) = Inr (JDict d')" "json_wf (rt_float R) (JDict d')"
    and t: "extract_forward_fields R other (ev_payload ?e) = (t, hop + int k)" "0 < t \<or> int k < ttl \<longrightarrow> t = ttl - int k" by blast
  have p: "ev_payload (prepare_forward R other ?e) = adjust_fields R other (ev_payload ?e) (t - 1) (hop + int k + 1)"
    by (simp add: prepare_forward_def t(1))
  from adjust_reads [OF d', of "t - 1" "hop + int k + 1"] obtain d'' where
    "loads_any R other (ev_payload (prepare_forward R other ?e)) = Inr (JDict d'')" "json_wf (rt_float R) (JDict d'')"
    "extract_forward_fields R other (ev_payload (prepare_forward R other ?e)) = (max 0 (t - 1), hop + int (Suc k))"
    by (auto simp: p add.commute add.left_commute)
  moreover have "0 < max 0 (t - 1) \<or> int (Suc k) < ttl \<longrightarrow> max 0 (t - 1) = ttl - int (Suc k)"
  proof
    assume h: "0 < max 0 (t - 1) \<or> int (Suc k) < ttl"
    then have "0 < t \<or> int k < ttl" unfolding less_max_iff_disj by linarith
    with t(2) have e: "t = ttl - int k" by blast
    from h show "max 0 (t - 1) = ttl - int (Suc k)" unfolding less_max_iff_disj e by linarith
  qed
  ultimately show ?case unfolding funpow.simps comp_def by (intro exI conjI)
qed

lemma prepare_forward_type [simp]: "ev_message_type ((prepare_forward R other ^^ k) env) = ev_message_type env"
  by (induction k) (simp_all add: prepare_forward_def [of R other "(prepare_forward R other ^^ _) env"] Let_def case_prod_unfold)

section \<open>Claims\<close>

text \<open>A message on the way, for the witnesses.\<close>

definition demo_message :: envelope where
  "demo_message = \<lparr>ev_message_type = PING, ev_flags = 0, ev_payload = str_bytes ''{}''\<rparr>"

definition demo_gossip :: gossip_engine where
  "demo_gossip = new_gossip_engine 0 default_gossip_limits \<lparr>gc_max_entries = 5, gc_ttl_seconds = 300, gc_entries = []\<rparr>"

lemma wf_demo_gossip: "wf_engine 0 demo_gossip"
  by (simp add: wf_engine_def demo_gossip_def new_gossip_engine_def default_gossip_limits_def wf_cache_def wf_bucket_def new_bucket_def)

lemma demo_accepts:
  "gossip_receive demo_env 0 demo_gossip demo_message ''p''
    = (fst (gossip_receive demo_env 0 demo_gossip demo_message ''p''), Inr True)"
  by (simp add: gossip_receive_def demo_message_def demo_gossip_def new_gossip_engine_def default_gossip_limits_def
      check_gossip_rate_def consume_tokens_def new_bucket_def seen_def cache_add_def gossip_id_def evict_expired_def
      GOSSIP_MESSAGE_TYPES_def PING_def checkE_def DEFAULT_MAX_GOSSIP_PAYLOAD_SIZE_def Let_def)

text \<open>A message with two hops to go.\<close>

definition demo_forward :: envelope where
  "demo_forward = demo_message\<lparr>ev_payload := adjust_fields demo_runtime (\<lambda>_. Inl UnicodeError) (ev_payload demo_message) 2 0\<rparr>"

lemma demo_message_reads: "loads_any demo_runtime (\<lambda>_. Inl UnicodeError) (ev_payload demo_message) = Inr (JDict [])"
proof -
  have b: "ev_payload demo_message = str_bytes ''{}''" by (simp add: demo_message_def)
  have "utf8_valid ''{}''" by (simp add: utf8_valid_ascii)
  moreover have "json_loads (rt_float demo_runtime) ''{}'' = Inr (norm_json (JDict []))"
    by (rule json_loads_dumps [of compact_style]) (simp, simp, simp add: json_dumps_def bracket_def)
  moreover have "looks_utf8 (str_bytes ''{}'')" by (simp add: looks_utf8_def str_bytes_def)
  ultimately show ?thesis by (simp add: b loads_any_def utf8_str_valid norm_json.simps)
qed

lemma demo_forward_reads:
  "\<exists>d. loads_any demo_runtime (\<lambda>_. Inl UnicodeError) (ev_payload demo_forward) = Inr (JDict d)
     \<and> json_wf (rt_float demo_runtime) (JDict d)
     \<and> extract_forward_fields demo_runtime (\<lambda>_. Inl UnicodeError) (ev_payload demo_forward) = (2, 0)"
  using adjust_reads [OF demo_message_reads, of 2 0] by (simp add: demo_forward_def)

text \<open>C22: the gossip engine stays bounded.  Whatever is received, at non-decreasing times, the cache
  holds at most its maximum of entries, with no key twice, and every bucket between nothing and its
  capacity.\<close>

theorem gossip_engine_invariant:
  assumes "wf_engine t0 g" and "sorted (t0 # map fst rs)"
  shows "wf_engine (last (t0 # map fst rs)) (receive_all E g rs)"
  using assms
proof (induction rs arbitrary: t0 g)
  case (Cons x rs)
  obtain now env peer where x: "x = (now, env, peer)" by (cases x)
  have "wf_engine now (fst (gossip_receive E now g env peer))"
    using wf_receive [OF wf_engine_later [OF Cons.prems(1)], of now E env peer] Cons.prems(2) x by (metis fst_conv list.simps(9) prod.collapse sorted_simps(2) list.set_intros(1))
  from Cons.IH [OF this] Cons.prems(2) x show ?case by simp
qed simp

theorem gossip_engine_invariant_witness:
  "wf_engine 2 (receive_all demo_env demo_gossip [(1, demo_message, ''p''), (2, demo_message, ''q'')])"
  using gossip_engine_invariant [OF wf_demo_gossip, of "[(1, demo_message, ''p''), (2, demo_message, ''q'')]" demo_env] by simp

text \<open>A message is accepted once.  After \<open>receive\<close> returned \<open>True\<close>, no later \<open>receive\<close> of the same
  type and payload returns \<open>True\<close> while the clock has moved by at most the cache's time to live and
  fewer messages than the cache holds have been received in between.\<close>

theorem gossip_accepted_once:
  assumes "wf_cache (ge_cache g)" and "gossip_receive E t0 g env peer = (g', Inr True)"
    and "\<forall>(now, _, _) \<in> set rs. now - t0 \<le> gc_ttl_seconds (ge_cache g)" and "length rs < gc_max_entries (ge_cache g)"
    and "now - t0 \<le> gc_ttl_seconds (ge_cache g)"
    and "ev_message_type env' = ev_message_type env" and "ev_payload env' = ev_payload env"
  shows "snd (gossip_receive E now (receive_all E g' rs) env' peer') \<noteq> Inr True"
proof -
  from accepted_fresh [OF assms(1,2)] obtain k where k: "gossip_id E (ev_message_type env) (ev_payload env) = Inr k"
    "fresh_cache k t0 0 (gc_max_entries (ge_cache g)) (gc_ttl_seconds (ge_cache g)) (ge_cache g')" by blast
  have "fresh_cache k t0 (0 + length rs) (gc_max_entries (ge_cache g)) (gc_ttl_seconds (ge_cache g)) (ge_cache (receive_all E g' rs))"
    by (rule fresh_receive_all [OF k(2)]) (use assms(3,4) in auto)
  from not_accepted_again [OF this assms(5)] k(1) assms(6,7) show ?thesis by simp
qed

theorem gossip_accepted_once_witness:
  "snd (gossip_receive demo_env 2
      (receive_all demo_env (fst (gossip_receive demo_env 0 demo_gossip demo_message ''p'')) [(1, demo_message, ''q'')])
      demo_message ''r'') \<noteq> Inr True"
proof -
  have r: "gossip_receive demo_env 0 demo_gossip demo_message ''p''
      = (fst (gossip_receive demo_env 0 demo_gossip demo_message ''p''), Inr True)"
    by (rule demo_accepts)
  show ?thesis
    by (rule gossip_accepted_once [OF _ r, of "[(1, demo_message, ''q'')]"])
      (simp_all add: demo_gossip_def new_gossip_engine_def wf_cache_def)
qed

text \<open>C21: forwarding ends, and when.  Let a gossip message carry \<open>ttl\<close> and \<open>hop_count\<close>.  Along any path,
  the node that holds it after \<open>k\<close> forwardings finds a target exactly when \<open>k < ttl\<close> and
  \<open>hop_count + k < max_hops\<close>, its fanout is not 0 and it has a peer other than the one the message came
  from; the targets are such peers, at most as many as the fanout.  So no path is longer than \<open>ttl\<close>
  forwardings, nor longer than \<open>max_hops - hop_count\<close>.  The second bound is more than \<open>max_hops\<close> when the
  sender wrote a negative \<open>hop_count\<close>, which nothing checks.\<close>

theorem gossip_forward_terminates:
  assumes "loads_any R other (ev_payload env) = Inr (JDict d)" and "json_wf (rt_float R) (JDict d)"
    and "extract_forward_fields R other (ev_payload env) = (ttl, hop_count)"
    and "forward_targets E R other py_hash g ((prepare_forward R other ^^ k) env) from_peer peers = Inr ts"
  shows "(ts \<noteq> [] \<longleftrightarrow> ev_message_type env \<in> GOSSIP_MESSAGE_TYPES \<and> int k < ttl \<and> hop_count + int k < gl_max_hops (ge_limits g)
        \<and> 0 < gl_fanout (ge_limits g) \<and> (\<exists>p \<in> set peers. fst p \<noteq> from_peer))
    \<and> length ts \<le> gl_fanout (ge_limits g) \<and> set ts \<subseteq> {p \<in> set peers. fst p \<noteq> from_peer}"
proof -
  from forward_iterate [OF assms(1-3), of k] obtain t where
    t: "extract_forward_fields R other (ev_payload ((prepare_forward R other ^^ k) env)) = (t, hop_count + int k)"
    and pos: "0 < t \<or> int k < ttl \<longrightarrow> t = ttl - int k" by blast
  from pos have dead: "t \<le> 0 \<longleftrightarrow> ttl \<le> int k" by auto
  let ?av = "filter (\<lambda>p. fst p \<noteq> from_peer) peers"
  have peers: "?av = [] \<longleftrightarrow> \<not> (\<exists>p \<in> set peers. fst p \<noteq> from_peer)" by (auto simp: filter_empty_conv)
  show ?thesis
  proof (cases "ev_message_type env \<in> GOSSIP_MESSAGE_TYPES \<and> \<not> (t \<le> 0 \<or> gl_max_hops (ge_limits g) \<le> hop_count + int k)")
    case True
    with assms(4) t obtain f :: "string \<times> int \<Rightarrow> int \<times> string" where "ts = take (gl_fanout (ge_limits g)) (sort_key f ?av)"
      by (auto simp: forward_targets_def res_simps Let_def)
    moreover have "sort_key f ?av = [] \<longleftrightarrow> ?av = []" by (metis set_empty set_sort)
    ultimately show ?thesis using True peers dead by (auto dest!: in_set_takeD)
  next
    case False
    with assms(4) t have "ts = []" by (auto simp: forward_targets_def split: if_split_asm)
    with False dead show ?thesis by auto
  qed
qed

theorem gossip_forward_terminates_witness:
  "(\<exists>ts. forward_targets demo_env demo_runtime (\<lambda>_. Inl UnicodeError) (\<lambda>_ _. 0) demo_gossip
        (prepare_forward demo_runtime (\<lambda>_. Inl UnicodeError) demo_forward) ''p'' [(''p'', 1), (''q'', 2)] = Inr ts \<and> ts \<noteq> [])
    \<and> forward_targets demo_env demo_runtime (\<lambda>_. Inl UnicodeError) (\<lambda>_ _. 0) demo_gossip
        ((prepare_forward demo_runtime (\<lambda>_. Inl UnicodeError) ^^ 2) demo_forward) ''p'' [(''p'', 1), (''q'', 2)] = Inr []"
proof -
  let ?o = "\<lambda>_. Inl UnicodeError"
  obtain d where d: "loads_any demo_runtime ?o (ev_payload demo_forward) = Inr (JDict d)"
    "json_wf (rt_float demo_runtime) (JDict d)"
    "extract_forward_fields demo_runtime ?o (ev_payload demo_forward) = (2, 0)"
    using demo_forward_reads by blast
  define env where "env k = (prepare_forward demo_runtime ?o ^^ k) demo_forward" for k
  have "\<exists>ts. forward_targets demo_env demo_runtime ?o (\<lambda>_ _. 0) demo_gossip (env k) ''p'' [(''p'', 1), (''q'', 2)] = Inr ts" for k
    by (auto simp: forward_targets_def gossip_id_def checkE_def Let_def env_def demo_forward_def demo_message_def PING_def split: prod.split)
  then obtain ts where ts: "forward_targets demo_env demo_runtime ?o (\<lambda>_ _. 0) demo_gossip (env k) ''p'' [(''p'', 1), (''q'', 2)] = Inr (ts k)" for k
    by metis
  have g: "gl_max_hops (ge_limits demo_gossip) = 8" "gl_fanout (ge_limits demo_gossip) = 3" "ev_message_type demo_forward \<in> GOSSIP_MESSAGE_TYPES"
    by (simp_all add: demo_gossip_def new_gossip_engine_def default_gossip_limits_def DEFAULT_GOSSIP_MAX_HOPS_def
        DEFAULT_GOSSIP_FANOUT_def demo_forward_def demo_message_def GOSSIP_MESSAGE_TYPES_def PING_def)
  have "ts k \<noteq> [] \<longleftrightarrow> int k < 2" for k
    using gossip_forward_terminates [OF d ts [of k, unfolded env_def]] g by auto
  from this [of 1] this [of 2] show ?thesis using ts [of 1] ts [of 2] by (simp add: env_def)
qed

end
