(* ===== verification/Witness.thy ===== *)
theory Witness
  imports Registry Json_Access
begin

text \<open>
  \<open>witness.py\<close>: the curator registry of the first protocol version, attestations of both versions
  and the checks of a transaction's witnesses.  A \<open>Curator\<close> is mutable in the code; here the registry
  is returned updated.  A signing key is the function from a message to the 64 bytes of its
  signature.  \<open>time.time()\<close> is an argument.  Bodies of registry transactions are those
  \<open>validate_registry_body\<close> accepts.
\<close>

section \<open>Registry\<close>

record curator =
  cu_curator_id :: string
  cu_public_key_hex :: string
  cu_activation_height :: int
  cu_revocation_height :: "int option"
  cu_previous_key_hex :: "string option"

definition curator_active_at :: "curator \<Rightarrow> int \<Rightarrow> bool" where
  "curator_active_at c height =
     (height \<ge> cu_activation_height c
      \<and> (case cu_revocation_height c of None \<Rightarrow> True | Some v \<Rightarrow> height < v))"

text \<open>\<open>_by_id\<close>, in insertion order.\<close>

type_synonym curators = "(string \<times> curator) list"

definition register_curator :: "curators \<Rightarrow> curator \<Rightarrow> curators res" where
  "register_curator reg c =
     (if cu_curator_id c = [] then Inl ValueError
      else if cu_curator_id c \<in> fst ` set reg then Inl ValueError
      else if (case cu_revocation_height c of None \<Rightarrow> False | Some v \<Rightarrow> v < cu_activation_height c) then Inl ValueError
      else Inr (reg @ [(cu_curator_id c, c)]))"

definition new_curators :: "curator list \<Rightarrow> curators res" where
  "new_curators entries = foldE register_curator [] entries"

definition add_curator :: "curators \<Rightarrow> string \<Rightarrow> string \<Rightarrow> int \<Rightarrow> int option \<Rightarrow> string option \<Rightarrow> curators res" where
  "add_curator reg curator_id public_key_hex activation_height revocation_height previous_key_hex =
     register_curator reg \<lparr>cu_curator_id = curator_id, cu_public_key_hex = public_key_hex,
       cu_activation_height = activation_height, cu_revocation_height = revocation_height,
       cu_previous_key_hex = previous_key_hex\<rparr>"

definition curator_is_active :: "curators \<Rightarrow> string \<Rightarrow> int \<Rightarrow> bool" where
  "curator_is_active reg curator_id height =
     (case map_of reg curator_id of None \<Rightarrow> False | Some c \<Rightarrow> curator_active_at c height)"

definition active_keys :: "curators \<Rightarrow> int \<Rightarrow> (string \<times> string) list" where
  "active_keys reg height =
     map (\<lambda>(i, c). (cu_curator_id c, cu_public_key_hex c)) (filter (\<lambda>(i, c). curator_active_at c height) reg)"

text \<open>\<open>existing.revocation_height = h\<close>.\<close>

definition set_revocation :: "curators \<Rightarrow> string \<Rightarrow> int \<Rightarrow> curators" where
  "set_revocation reg curator_id h =
     map (\<lambda>(i, c). (i, if i = curator_id then c\<lparr>cu_revocation_height := Some h\<rparr> else c)) reg"

fun opt_int :: "json \<Rightarrow> int option" where
  "opt_int (JInt i) = Some i"
| "opt_int _ = None"

fun opt_str :: "json \<Rightarrow> string option" where
  "opt_str (JStr s) = Some s"
| "opt_str _ = None"

fun str_of :: "json \<Rightarrow> string" where
  "str_of (JStr s) = s"
| "str_of _ = []"

text \<open>The three actions; the registry after the call, and its outcome: a rotation has already revoked
  the entry when \<open>register\<close> raises.\<close>

definition registered :: "curators \<Rightarrow> curator \<Rightarrow> curators \<times> unit res" where
  "registered reg c = (case register_curator reg c of Inl e \<Rightarrow> (reg, Inl e) | Inr reg' \<Rightarrow> (reg', Inr ()))"

definition apply_add_action :: "curators \<Rightarrow> (string \<times> json) list \<Rightarrow> string \<Rightarrow> string \<Rightarrow> curators \<times> unit res" where
  "apply_add_action reg tx_body curator_id public_key_hex =
     (case dindex tx_body ''activation_height'' of
        Inl e \<Rightarrow> (reg, Inl e)
      | Inr ah \<Rightarrow> registered reg
          \<lparr>cu_curator_id = curator_id, cu_public_key_hex = public_key_hex, cu_activation_height = int_of ah,
           cu_revocation_height = opt_int (dget tx_body ''revocation_height'' JNull),
           cu_previous_key_hex = opt_str (dget tx_body ''previous_key_hex'' JNull)\<rparr>)"

definition apply_revoke_action :: "curators \<Rightarrow> string \<Rightarrow> int \<Rightarrow> curators \<times> unit res" where
  "apply_revoke_action reg curator_id height =
     (case map_of reg curator_id of
        None \<Rightarrow> (reg, Inl ValueError)
      | Some existing \<Rightarrow>
          (set_revocation reg curator_id
             (min (case cu_revocation_height existing of None \<Rightarrow> height | Some v \<Rightarrow> if v = 0 then height else v) height),
           Inr ()))"

definition apply_rotate_action :: "curators \<Rightarrow> (string \<times> json) list \<Rightarrow> string \<Rightarrow> string \<Rightarrow> int \<Rightarrow> curators \<times> unit res" where
  "apply_rotate_action reg tx_body curator_id public_key_hex height =
     (case map_of reg curator_id of
        None \<Rightarrow> (reg, Inl ValueError)
      | Some existing \<Rightarrow> registered (set_revocation reg curator_id height)
          \<lparr>cu_curator_id = curator_id, cu_public_key_hex = public_key_hex, cu_activation_height = height,
           cu_revocation_height = opt_int (dget tx_body ''revocation_height'' JNull),
           cu_previous_key_hex = Some (cu_public_key_hex existing)\<rparr>)"

definition apply_registry_transaction_v1 :: "curators \<Rightarrow> (string \<times> json) list \<Rightarrow> int \<Rightarrow> curators \<times> unit res" where
  "apply_registry_transaction_v1 reg tx_body height =
     (case (dindex tx_body ''action'', dindex tx_body ''curator_id'', dindex tx_body ''public_key_hex'') of
        (Inr action, Inr cid, Inr key) \<Rightarrow>
          if str_of action = ''add'' then apply_add_action reg tx_body (str_of cid) (str_of key)
          else if str_of action = ''revoke'' then apply_revoke_action reg (str_of cid) height
          else if str_of action = ''rotate'' then apply_rotate_action reg tx_body (str_of cid) (str_of key) height
          else (reg, Inr ())
      | _ \<Rightarrow> (reg, Inl KeyError))"

definition opt_json :: "('a \<Rightarrow> json) \<Rightarrow> 'a option \<Rightarrow> json" where
  "opt_json f v = (case v of None \<Rightarrow> JNull | Some x \<Rightarrow> f x)"

definition curators_to_list :: "curators \<Rightarrow> json list" where
  "curators_to_list reg = map (\<lambda>(i, c). JDict
     [(''curator_id'', JStr (cu_curator_id c)), (''public_key_hex'', JStr (cu_public_key_hex c)),
      (''activation_height'', JInt (cu_activation_height c)),
      (''revocation_height'', opt_json JInt (cu_revocation_height c)),
      (''previous_key_hex'', opt_json JStr (cu_previous_key_hex c))]) reg"

section \<open>Attestations of version 1\<close>

definition attestation_dict :: "string \<Rightarrow> string \<Rightarrow> int \<Rightarrow> json" where
  "attestation_dict body_hash curator_id timestamp = JDict
     [(''network_id'', JStr GOV_NETWORK_ID), (''version'', JInt 1), (''body_hash'', JStr body_hash),
      (''curator_id'', JStr curator_id), (''timestamp'', JInt timestamp)]"

definition attestation_message :: "env \<Rightarrow> string \<Rightarrow> string \<Rightarrow> int \<Rightarrow> bytes res" where
  "attestation_message E body_hash curator_id timestamp = hash_object E (attestation_dict body_hash curator_id timestamp)"

definition sign_attestation :: "env \<Rightarrow> (bytes \<Rightarrow> bytes) \<Rightarrow> string \<Rightarrow> string \<Rightarrow> int \<Rightarrow> (string \<times> json) list res" where
  "sign_attestation E sk body_hash curator_id timestamp =
     bindE (attestation_message E body_hash curator_id timestamp) (\<lambda>msg.
       Inr [(''curator_id'', JStr curator_id), (''timestamp'', JInt timestamp), (''signature'', JStr (hex_of_bytes (sk msg)))])"

text \<open>\<open>CuratorSigner.sign_manifest\<close>.\<close>

definition sign_manifest :: "env \<Rightarrow> (bytes \<Rightarrow> bytes) \<Rightarrow> string \<Rightarrow> json \<Rightarrow> int \<Rightarrow> (string \<times> json) list res" where
  "sign_manifest E sk curator_id body timestamp =
     bindE (hash_object_hex E body) (\<lambda>body_hash. sign_attestation E sk body_hash curator_id timestamp)"

definition attestation_caught :: "py_error \<Rightarrow> bool" where
  "attestation_caught e = (is_value_error e \<or> e = KeyError \<or> e = TypeError)"

text \<open>The checks after the three fields are read.\<close>

fun check_attestation :: "env \<Rightarrow> curators \<Rightarrow> string \<Rightarrow> int \<Rightarrow> json \<Rightarrow> json \<Rightarrow> json \<Rightarrow> bool res" where
  "check_attestation E reg body_hash block_height (JStr curator_id) (JStr sig_hex) (JInt timestamp) =
     (case map_of reg curator_id of
        None \<Rightarrow> Inr False
      | Some c \<Rightarrow>
          if \<not> curator_active_at c block_height then Inr False
          else bindE (decode_public_key E (cu_public_key_hex c)) (\<lambda>pk.
               bindE (attestation_message E body_hash curator_id timestamp) (\<lambda>msg. Inr (verify E pk msg sig_hex))))"
| "check_attestation E reg body_hash block_height _ _ _ = Inr False"

definition verify_attestation :: "env \<Rightarrow> curators \<Rightarrow> json \<Rightarrow> string \<Rightarrow> int \<Rightarrow> bool res" where
  "verify_attestation E reg witness body_hash block_height =
     catchE (bindE (jindex witness ''curator_id'') (\<lambda>curator_id.
             bindE (jindex witness ''signature'') (\<lambda>sig_hex.
             bindE (jindex witness ''timestamp'') (\<lambda>timestamp.
               check_attestation E reg body_hash block_height curator_id sig_hex timestamp))))
       attestation_caught (Inr False)"

definition is_fresh :: "runtime \<Rightarrow> json \<Rightarrow> int \<Rightarrow> int \<Rightarrow> bool res" where
  "is_fresh R witness now max_age_seconds =
     catchE (bindE (jindex witness ''timestamp'') (\<lambda>t. bindE (py_int R t) (\<lambda>t. Inr (\<bar>now - t\<bar> \<le> max_age_seconds))))
       attestation_caught (Inr False)"

text \<open>The loop over the witnesses: the curators seen, the count, and how it ended.\<close>

fun verify_witnesses :: "(json \<Rightarrow> bool res) \<Rightarrow> (json \<Rightarrow> json res) \<Rightarrow> json list \<Rightarrow> json list \<Rightarrow> nat \<Rightarrow> nat option res" where
  "verify_witnesses ok who [] seen valid = Inr (Some valid)"
| "verify_witnesses ok who (w # ws) seen valid =
     bindE (who w) (\<lambda>curator_id.
       if curator_id \<in> set seen then Inr None
       else bindE (ok w) (\<lambda>b.
         if \<not> b then Inr None else verify_witnesses ok who ws (curator_id # seen) (valid + 1)))"

definition enough :: "int \<Rightarrow> nat option res \<Rightarrow> bool res" where
  "enough min_attestations r =
     bindE r (\<lambda>v. Inr (case v of None \<Rightarrow> False | Some valid \<Rightarrow> int valid \<ge> min_attestations))"

fun tx_items :: "json \<Rightarrow> json list" where
  "tx_items (JList ws) = ws"
| "tx_items _ = []"

definition verify_transaction_witnesses ::
    "env \<Rightarrow> runtime \<Rightarrow> curators \<Rightarrow> json \<Rightarrow> int \<Rightarrow> bool \<Rightarrow> int \<Rightarrow> int \<Rightarrow> bool res" where
  "verify_transaction_witnesses E R reg tx block_height require_fresh now min_attestations =
     (case validate_transaction tx of
        Inl _ \<Rightarrow> Inr False
      | Inr _ \<Rightarrow>
          bindE (jindex tx ''body'') (\<lambda>body. bindE (hash_object_hex E body) (\<lambda>body_hash.
          bindE (jindex tx ''witnesses'') (\<lambda>witnesses.
            enough min_attestations
              (verify_witnesses
                 (\<lambda>w. bindE (verify_attestation E reg w body_hash block_height) (\<lambda>ok.
                    if \<not> ok then Inr False else if require_fresh then is_fresh R w now 86400 else Inr True))
                 (\<lambda>w. jget w ''curator_id'' JNull) (tx_items witnesses) [] 0)))))"

section \<open>Attestations of version 2\<close>

definition attestation_dict_v2 :: "string \<Rightarrow> string \<Rightarrow> int \<Rightarrow> json" where
  "attestation_dict_v2 body_hash curator_id block_height = JDict
     [(''network_id'', JStr GOV_NETWORK_ID), (''version'', JInt 2), (''type'', JStr ''attestation''),
      (''body_hash'', JStr body_hash), (''curator_id'', JStr curator_id), (''block_height'', JInt block_height)]"

definition attestation_message_v2 :: "env \<Rightarrow> string \<Rightarrow> string \<Rightarrow> int \<Rightarrow> bytes res" where
  "attestation_message_v2 E body_hash curator_id block_height =
     hash_object E (attestation_dict_v2 body_hash curator_id block_height)"

definition sign_attestation_v2 :: "env \<Rightarrow> (bytes \<Rightarrow> bytes) \<Rightarrow> string \<Rightarrow> string \<Rightarrow> int \<Rightarrow> (string \<times> json) list res" where
  "sign_attestation_v2 E sk body_hash curator_id block_height =
     bindE (attestation_message_v2 E body_hash curator_id block_height) (\<lambda>msg.
       Inr [(''curator_id'', JStr curator_id), (''block_height'', JInt block_height),
            (''signature'', JStr (hex_of_bytes (sk msg)))])"

text \<open>A key of the right length; the length of a text that is not ASCII differs from that of its
  encoding, but no such text is the hexadecimal form of a key.\<close>

fun check_attestation_v2 :: "env \<Rightarrow> registry_state \<Rightarrow> string \<Rightarrow> int \<Rightarrow> json \<Rightarrow> json \<Rightarrow> json \<Rightarrow> json \<Rightarrow> bool res" where
  "check_attestation_v2 E state body_hash block_height (JStr curator_id) (JStr sig_hex) (JInt witness_height)
       (JStr public_key_hex) =
     (if witness_height \<noteq> block_height then Inr False
      else if length public_key_hex \<noteq> 64 then Inr False
      else if \<not> key_was_valid_at state curator_id public_key_hex block_height then Inr False
      else bindE (decode_public_key E public_key_hex) (\<lambda>pk.
           bindE (attestation_message_v2 E body_hash curator_id block_height) (\<lambda>msg. Inr (verify E pk msg sig_hex))))"
| "check_attestation_v2 E state body_hash block_height _ _ _ _ = Inr False"

text \<open>\<open>witness.get\<close> is reached with a \<open>dict\<close> only: any other value has no string keys.\<close>

definition verify_attestation_v2 :: "env \<Rightarrow> registry_state \<Rightarrow> json \<Rightarrow> string \<Rightarrow> int \<Rightarrow> bool res" where
  "verify_attestation_v2 E state witness body_hash block_height =
     catchE (bindE (jindex witness ''curator_id'') (\<lambda>curator_id.
             bindE (jindex witness ''signature'') (\<lambda>sig_hex.
             bindE (jindex witness ''block_height'') (\<lambda>witness_height.
             bindE (jget witness ''public_key_hex'' JNull) (\<lambda>public_key_hex.
               check_attestation_v2 E state body_hash block_height curator_id sig_hex witness_height public_key_hex)))))
       attestation_caught (Inr False)"

definition verify_transaction_witnesses_v2 :: "env \<Rightarrow> registry_state \<Rightarrow> json \<Rightarrow> int \<Rightarrow> int \<Rightarrow> bool res" where
  "verify_transaction_witnesses_v2 E state txj block_height min_attestations =
     (case txj of
        JDict tx \<Rightarrow>
          (case (dget tx ''body'' JNull, dget tx ''witnesses'' JNull) of
             (JDict body, JList witnesses) \<Rightarrow>
               bindE (hash_object_hex E (JDict body)) (\<lambda>body_hash.
                 enough min_attestations
                   (verify_witnesses
                      (\<lambda>w. bindE (jget w ''curator_id'' JNull) (\<lambda>c.
                         if \<not> is_str c then Inr False else verify_attestation_v2 E state w body_hash block_height))
                      (\<lambda>w. jget w ''curator_id'' JNull) witnesses [] 0))
           | _ \<Rightarrow> Inr False)
      | _ \<Rightarrow> Inr False)"

end
