(* ===== verification/Witness_Props.thy ===== *)
theory Witness_Props
  imports Witness Reducer
begin

text \<open>
  What the witnesses of a transaction guarantee: the checks of version 2 accept exactly the
  transactions with enough valid attestations of different curators, a signed message determines
  what is attested, an attestation made with the private key of an active key verifies, and the
  registry of version 1 cannot rotate a key.
\<close>

section \<open>The loop over the witnesses\<close>

lemma verify_witnesses_iff:
  "verify_witnesses ok who ws seen v = Inr (Some n) \<longleftrightarrow>
     n = v + length ws \<and> (\<forall>w \<in> set ws. ok w = Inr True)
     \<and> (\<exists>cs. mapE who ws = Inr cs \<and> distinct cs \<and> set cs \<inter> set seen = {})"
proof (induction ws arbitrary: seen v)
  case (Cons w ws)
  have "verify_witnesses ok who (w # ws) seen v = Inr (Some n) \<longleftrightarrow>
      (\<exists>c. who w = Inr c \<and> c \<notin> set seen \<and> ok w = Inr True
         \<and> verify_witnesses ok who ws (c # seen) (v + 1) = Inr (Some n))"
    by (auto simp: res_simps)
  also have "\<dots> \<longleftrightarrow> (\<exists>c. who w = Inr c \<and> c \<notin> set seen \<and> ok w = Inr True \<and> n = v + 1 + length ws
      \<and> (\<forall>w \<in> set ws. ok w = Inr True) \<and> (\<exists>cs. mapE who ws = Inr cs \<and> distinct cs \<and> set cs \<inter> set (c # seen) = {}))"
    unfolding Cons.IH by simp
  also have "\<dots> \<longleftrightarrow> n = v + length (w # ws) \<and> (\<forall>w \<in> set (w # ws). ok w = Inr True)
      \<and> (\<exists>cs. mapE who (w # ws) = Inr cs \<and> distinct cs \<and> set cs \<inter> set seen = {})"
    by (auto simp: res_simps)
  finally show ?case .
qed auto

lemma enough_iff: "enough m r = Inr True \<longleftrightarrow> (\<exists>n. r = Inr (Some n) \<and> m \<le> int n)"
  by (cases r) (auto simp: enough_def split: option.split)

section \<open>Attestations of version 2\<close>

text \<open>The contract: a witness that names a curator, the height and a key valid for the curator at
  that height, with a signature of the message under the key.\<close>

definition attested_v2 :: "env \<Rightarrow> registry_state \<Rightarrow> string \<Rightarrow> int \<Rightarrow> json \<Rightarrow> bool" where
  "attested_v2 E state body_hash height w \<longleftrightarrow>
     (\<exists>d c sg key pk msg. w = JDict d \<and> map_of d ''curator_id'' = Some (JStr c)
        \<and> map_of d ''signature'' = Some (JStr sg) \<and> map_of d ''block_height'' = Some (JInt height)
        \<and> dget d ''public_key_hex'' JNull = JStr key \<and> length key = 64
        \<and> key_was_valid_at state c key height \<and> decode_public_key E key = Inr pk
        \<and> attestation_message_v2 E body_hash c height = Inr msg \<and> verify E pk msg sg)"

lemma catchE_False: "catchE m p (Inr False) = Inr True \<longleftrightarrow> m = Inr True"
  by (cases m) auto

lemma check_attestation_v2_iff:
  "check_attestation_v2 E state bh h c sg wh key = Inr True \<longleftrightarrow>
     (\<exists>c' sg' key' pk msg. c = JStr c' \<and> sg = JStr sg' \<and> wh = JInt h \<and> key = JStr key' \<and> length key' = 64
        \<and> key_was_valid_at state c' key' h \<and> decode_public_key E key' = Inr pk
        \<and> attestation_message_v2 E bh c' h = Inr msg \<and> verify E pk msg sg')"
  by (cases "(E, state, bh, h, c, sg, wh, key)" rule: check_attestation_v2.cases) (auto simp: res_simps)

lemma verify_attestation_v2_iff: "verify_attestation_v2 E state w bh h = Inr True \<longleftrightarrow> attested_v2 E state bh h w"
  unfolding verify_attestation_v2_def catchE_False attested_v2_def
  by (auto simp: res_simps check_attestation_v2_iff)

lemma attested_v2_curator: "attested_v2 E state bh h w \<Longrightarrow> \<exists>c. jget w ''curator_id'' JNull = Inr (JStr c)"
  by (auto simp: attested_v2_def dget_def)

lemma mapE_jget:
  "(\<forall>w \<in> set ws. \<exists>d. w = JDict d) \<Longrightarrow> mapE (\<lambda>w. jget w k v) ws = Inr (map (\<lambda>w. case w of JDict d \<Rightarrow> dget d k v | _ \<Rightarrow> v) ws)"
  by (induction ws) auto

definition curator_of :: "json \<Rightarrow> json" where
  "curator_of w = (case w of JDict d \<Rightarrow> dget d ''curator_id'' JNull | _ \<Rightarrow> JNull)"

lemma witnesses_v2_iff:
  "verify_transaction_witnesses_v2 E state tx h m = Inr True \<longleftrightarrow>
     (\<exists>d body ws bh. tx = JDict d \<and> dget d ''body'' JNull = JDict body \<and> dget d ''witnesses'' JNull = JList ws
        \<and> hash_object_hex E (JDict body) = Inr bh \<and> m \<le> int (length ws)
        \<and> distinct (map curator_of ws) \<and> (\<forall>w \<in> set ws. attested_v2 E state bh h w))"
proof -
  let ?ok = "\<lambda>bh w. bindE (jget w ''curator_id'' JNull) (\<lambda>c. if \<not> is_str c then Inr False else verify_attestation_v2 E state w bh h)"
  have ok: "?ok bh w = Inr True \<longleftrightarrow> attested_v2 E state bh h w" for bh w
  proof (cases "attested_v2 E state bh h w")
    case True
    then obtain c where "jget w ''curator_id'' JNull = Inr (JStr c)" using attested_v2_curator by blast
    with True show ?thesis by (simp add: verify_attestation_v2_iff)
  qed (auto simp: res_simps verify_attestation_v2_iff split: if_split_asm)
  have who: "(\<exists>cs. mapE (\<lambda>w. jget w ''curator_id'' JNull) ws = Inr cs \<and> distinct cs) \<longleftrightarrow> distinct (map curator_of ws)"
    if "\<forall>w \<in> set ws. attested_v2 E state bh h w" for ws bh
  proof -
    have "\<forall>w \<in> set ws. \<exists>d. w = JDict d" using that by (auto simp: attested_v2_def)
    from mapE_jget [OF this] show ?thesis by (simp add: curator_of_def cong: map_cong)
  qed
  have loop: "enough m (verify_witnesses (?ok bh) (\<lambda>w. jget w ''curator_id'' JNull) ws [] 0) = Inr True \<longleftrightarrow>
      m \<le> int (length ws) \<and> distinct (map curator_of ws) \<and> (\<forall>w \<in> set ws. attested_v2 E state bh h w)" for bh ws
    unfolding enough_iff verify_witnesses_iff ok using who by auto
  show ?thesis
    by (cases tx; simp add: verify_transaction_witnesses_v2_def)
      (auto simp: res_simps loop split: json.split)
qed

section \<open>The registry of version 1\<close>

text \<open>Every entry is stored under its own id, no id twice, and none revoked before it is active
  by \<open>register\<close>.\<close>

definition wf_curators :: "curators \<Rightarrow> bool" where
  "wf_curators reg \<longleftrightarrow> distinct (map fst reg) \<and> (\<forall>(i, c) \<in> set reg. i = cu_curator_id c \<and> i \<noteq> [])"

lemma wf_register: "wf_curators reg \<Longrightarrow> register_curator reg c = Inr reg' \<Longrightarrow> wf_curators reg'"
  by (auto simp: register_curator_def wf_curators_def split: if_split_asm)

lemma set_revocation_keys: "map fst (set_revocation reg i h) = map fst reg"
  by (simp add: set_revocation_def comp_def case_prod_unfold)

lemma wf_set_revocation: "wf_curators reg \<Longrightarrow> wf_curators (set_revocation reg i h)"
  unfolding wf_curators_def set_revocation_keys by (auto simp: set_revocation_def)

lemma map_of_set_revocation:
  "map_of (set_revocation reg i h) j =
     (if j = i then map_option (\<lambda>c. c\<lparr>cu_revocation_height := Some h\<rparr>) (map_of reg j) else map_of reg j)"
  by (induction reg) (auto simp: set_revocation_def)

lemma wf_registered: "wf_curators reg \<Longrightarrow> wf_curators (fst (registered reg c))"
  using wf_register [of reg c] by (simp add: registered_def split: sum.split)

lemma wf_apply_registry: "wf_curators reg \<Longrightarrow> wf_curators (fst (apply_registry_transaction_v1 reg body h))"
  by (simp add: apply_registry_transaction_v1_def apply_add_action_def apply_revoke_action_def apply_rotate_action_def
      wf_registered wf_set_revocation split: sum.split option.split)

text \<open>The id is taken, by the entry that was just revoked.\<close>

lemma rotate_action:
  assumes "wf_curators reg" and "map_of reg i = Some c"
  shows "apply_rotate_action reg body i key h = (set_revocation reg i h, Inl ValueError)"
proof -
  have "i \<in> fst ` set (set_revocation reg i h)"
    using assms(2) set_revocation_keys [of reg i h] by (metis list.set_map domI dom_map_of_conv_image_fst)
  then show ?thesis using assms(2) by (simp add: apply_rotate_action_def registered_def register_curator_def)
qed

section \<open>What is signed\<close>

definition attestation_text :: "bool \<Rightarrow> string \<Rightarrow> string \<Rightarrow> int \<Rightarrow> json" where
  "attestation_text v2 body_hash curator_id n =
     (if v2 then attestation_dict_v2 body_hash curator_id n else attestation_dict body_hash curator_id n)"

lemma attestation_text_wf: "utf8_valid bh \<Longrightarrow> utf8_valid c \<Longrightarrow> json_wf id (attestation_text v bh c n)"
  by (simp add: attestation_text_def attestation_dict_def attestation_dict_v2_def utf8_valid_ascii GOV_NETWORK_ID_def)

lemma attestation_text_inj:
  assumes "norm_json (attestation_text v bh c n) = norm_json (attestation_text v' bh' c' n')"
  shows "v = v' \<and> bh = bh' \<and> c = c' \<and> n = n'"
  using assms
  by (cases v; cases v') (simp_all add: attestation_text_def attestation_dict_def attestation_dict_v2_def)

definition attestation_digest :: "env \<Rightarrow> bool \<Rightarrow> string \<Rightarrow> string \<Rightarrow> int \<Rightarrow> bytes res" where
  "attestation_digest E v2 body_hash curator_id n =
     (if v2 then attestation_message_v2 E body_hash curator_id n else attestation_message E body_hash curator_id n)"

lemma attestation_digest_text: "attestation_digest E v bh c n = hash_object E (attestation_text v bh c n)"
  by (simp add: attestation_digest_def attestation_text_def attestation_message_def attestation_message_v2_def)

lemma attestation_digest_ok: "utf8_valid bh \<Longrightarrow> utf8_valid c \<Longrightarrow> \<exists>m. attestation_digest E v bh c n = Inr m"
  unfolding attestation_digest_text hash_object_Inr
  by (simp add: attestation_text_def attestation_dict_def attestation_dict_v2_def GOV_NETWORK_ID_def utf8_valid_ascii)

section \<open>Claims\<close>

text \<open>C7: the witnesses of a transaction are checked for what they claim.
  \<open>verify_transaction_witnesses_v2\<close> returns \<open>True\<close> exactly when the transaction has a body and a list of
  at least the wanted number of witnesses, no curator twice, each of them naming the block's height
  and a key that was valid for its curator at that height, with an accepted signature of the message
  for this body, curator and height.\<close>

theorem witnesses_v2_exact:
  "verify_transaction_witnesses_v2 E state tx h m = Inr True \<longleftrightarrow>
     (\<exists>d body ws bh. tx = JDict d \<and> dget d ''body'' JNull = JDict body \<and> dget d ''witnesses'' JNull = JList ws
        \<and> hash_object_hex E (JDict body) = Inr bh \<and> m \<le> int (length ws)
        \<and> distinct (map curator_of ws) \<and> list_all (attested_v2 E state bh h) ws)"
  using witnesses_v2_iff by (simp only: list_all_iff)

text \<open>C35: a signature of an attestation cannot be moved: two attestation messages, of either version,
  with one digest are of the same version and for the same body hash, curator and height (or
  timestamp), or two different texts are a SHA-256 collision.\<close>

theorem attestation_message_binding:
  assumes "utf8_valid bh" and "utf8_valid c" and "utf8_valid bh'" and "utf8_valid c'"
    and "attestation_digest E v bh c n = Inr m" and "attestation_digest E v' bh' c' n' = Inr m"
  shows "(v = v' \<and> bh = bh' \<and> c = c' \<and> n = n') \<or> (\<exists>x y. x \<noteq> y \<and> sha E x = sha E y)"
proof -
  from assms(5,6) obtain b b' where b: "canonical_json (attestation_text v bh c n) = Inr b"
      "canonical_json (attestation_text v' bh' c' n') = Inr b'" "sha E b = sha E b'"
    by (auto simp: attestation_digest_text hash_object_def res_simps)
  show ?thesis
  proof (cases "b = b'")
    case True
    have "norm_json (attestation_text v bh c n) = norm_json (attestation_text v' bh' c' n')"
      by (rule canonical_json_inj [OF attestation_text_wf [OF assms(1,2)] attestation_text_wf [OF assms(3,4)]])
        (use b True in simp_all)
    then show ?thesis using attestation_text_inj by blast
  qed (use b(3) in blast)
qed

theorem attestation_message_binding_witness:
  "\<exists>m. attestation_digest demo_sha True ''ab'' ''alice'' 7 = Inr m
     \<and> ((True = True \<and> ''ab'' = ''ab'' \<and> ''alice'' = ''alice'' \<and> (7::int) = 7) \<or> (\<exists>x y. x \<noteq> y \<and> sha demo_sha x = sha demo_sha y))"
proof -
  have v: "utf8_valid ''ab''" "utf8_valid ''alice''" by (simp_all add: utf8_valid_ascii)
  then obtain m where m: "attestation_digest demo_sha True ''ab'' ''alice'' 7 = Inr m" using attestation_digest_ok by blast
  show ?thesis using attestation_message_binding [OF v v m m] m by blast
qed

text \<open>An attestation verifies.  A witness made by \<open>sign_attestation_v2\<close> with the private key of a key
  that was valid for the curator at the height, completed with that key, is accepted for the body
  and the height it was made for, and refused at every other height.\<close>

theorem signed_attestation_verifies:
  assumes "decode_public_key E key = Inr pk" and "\<forall>m. ed_check E pk m (sk m) \<and> length (sk m) = 64"
    and "length key = 64" and "key_was_valid_at state c key h"
    and "sign_attestation_v2 E sk bh c h = Inr w"
  shows "verify_attestation_v2 E state (JDict (w @ [(''public_key_hex'', JStr key)])) bh h' = Inr (h' = h)"
proof -
  from assms(5) obtain m where m: "attestation_message_v2 E bh c h = Inr m"
    and w: "w = [(''curator_id'', JStr c), (''block_height'', JInt h), (''signature'', JStr (hex_of_bytes (sk m)))]"
    by (auto simp: sign_attestation_v2_def res_simps)
  let ?w = "JDict (w @ [(''public_key_hex'', JStr key)])"
  have eq: "verify_attestation_v2 E state ?w bh h'
      = catchE (check_attestation_v2 E state bh h' (JStr c) (JStr (hex_of_bytes (sk m))) (JInt h) (JStr key))
          attestation_caught (Inr False)"
    by (simp add: w verify_attestation_v2_def dindex_def dget_def)
  show ?thesis
  proof (cases "h' = h")
    case True
    then show ?thesis unfolding eq using assms(1-4) m by (simp add: verify_def)
  qed (simp add: eq)
qed

theorem signed_attestation_verifies_witness:
  "\<exists>w. sign_attestation_v2 demo_env (\<lambda>_. replicate 64 0) ''ab'' ''alice'' 7 = Inr w
     \<and> verify_attestation_v2 demo_env demo_state1 (JDict (w @ [(''public_key_hex'', JStr (demo_key 1))])) ''ab'' 7 = Inr True"
proof -
  obtain m where "attestation_message_v2 demo_env ''ab'' ''alice'' 7 = Inr m"
    using attestation_digest_ok [of "''ab''" "''alice''" demo_env True 7] by (auto simp: attestation_digest_def utf8_valid_ascii)
  then obtain w where w: "sign_attestation_v2 demo_env (\<lambda>_. replicate 64 0) ''ab'' ''alice'' 7 = Inr w"
    by (simp add: sign_attestation_v2_def)
  show ?thesis
    using signed_attestation_verifies [OF _ _ _ _ w, of "demo_key 1" "replicate 32 1" demo_state1 7] w
    by (simp add: decode_public_key_def demo_key_def key_was_valid_at_def records_of_def demo_state1_def
        is_active_at_def demo_record_def registered_record_def demo_register_def)
qed

text \<open>A curator of the version 1 registry cannot change keys: a rotation revokes the entry and then
  fails on its own curator id, so the curator is left with no active key from that height on.\<close>

theorem registry_v1_rotation_fails:
  assumes "wf_curators reg" and "map_of reg i = Some c" and "h \<le> k"
    and "dindex body ''action'' = Inr (JStr ''rotate'')" and "dindex body ''curator_id'' = Inr (JStr i)"
    and "dindex body ''public_key_hex'' = Inr (JStr key)"
  shows "\<exists>reg'. apply_registry_transaction_v1 reg body h = (reg', Inl ValueError) \<and> \<not> curator_is_active reg' i k"
proof -
  have "apply_registry_transaction_v1 reg body h = (set_revocation reg i h, Inl ValueError)"
    using rotate_action [OF assms(1,2)] assms(4-6) by (simp add: apply_registry_transaction_v1_def)
  then show ?thesis
    using assms(2,3) by (simp add: curator_is_active_def map_of_set_revocation curator_active_at_def)
qed

text \<open>Revoking a curator registered with revocation height 0 (never active) makes it active below the
  height of the revocation: \<open>existing.revocation_height or height\<close> takes 0 for missing.\<close>

theorem registry_v1_revoke_activates:
  assumes "map_of reg i = Some c" and "cu_revocation_height c = Some 0" and "cu_activation_height c = 0" and "0 \<le> k" and "k < h"
  shows "\<not> curator_is_active reg i k \<and> curator_is_active (fst (apply_revoke_action reg i h)) i k"
  using assms by (simp add: curator_is_active_def apply_revoke_action_def map_of_set_revocation curator_active_at_def)

end
