(* ===== verification/Sync.thy ===== *)
theory Sync
  imports Wire Chain Store
begin

text \<open>
  \<open>network/sync\<close>: header and block synchronisation and the engine that drives them.  The engine holds
  the ledger and the files of the storage backend; a method returns the engine after the call and
  its reply or exception.  \<open>now\<close> is the clock that \<open>add_block_v2\<close> reads.
\<close>

section \<open>Headers\<close>

text \<open>The loop of \<open>build_locator\<close>: it stops below height 1 or with the locator full, which bounds it.\<close>

function locator_loop :: "env \<Rightarrow> any_block list \<Rightarrow> int \<Rightarrow> int \<Rightarrow> string list \<Rightarrow> string list res" where
  "locator_loop E chain height step locator =
     (if height > 0 \<and> length locator < MAX_LOCATOR_SIZE - 1 then
        bindE (at_res chain (nat height)) (\<lambda>block. bindE (ab_hash E block) (\<lambda>h.
          locator_loop E chain (height - step) (if length locator + 1 > 10 then step * 2 else step) (locator @ [h])))
      else Inr locator)"
  by pat_completeness auto
termination by (relation "measure (\<lambda>(_, _, _, _, locator). MAX_LOCATOR_SIZE - 1 - length locator)") auto

declare locator_loop.simps [simp del]

definition ledger_genesis_hash :: "env \<Rightarrow> ledger \<Rightarrow> string res" where
  "ledger_genesis_hash E L = bindE (at_res (ld_chain L) 0) (ab_hash E)"

definition build_locator :: "env \<Rightarrow> ledger \<Rightarrow> string list res" where
  "build_locator E L =
     bindE (locator_loop E (ld_chain L) (ledger_height L) 1 []) (\<lambda>locator.
     bindE (ledger_genesis_hash E L) (\<lambda>g. Inr (locator @ [g])))"

definition create_get_headers :: "env \<Rightarrow> ledger \<Rightarrow> message res" where
  "create_get_headers E L = bindE (build_locator E L) (\<lambda>l. Inr (MGetHeaders l None (int MAX_HEADERS_RESPONSE)))"

text \<open>One iteration of \<open>parse_headers_message\<close>: the hash and height expected next and the headers so
  far.  Only the decoding is inside the \<open>try\<close>.\<close>

fun parse_header_step :: "env \<Rightarrow> runtime \<Rightarrow> any_block list \<Rightarrow> string \<times> nat \<times> block_header_v2 list \<Rightarrow> header_entry
    \<Rightarrow> (string \<times> nat \<times> block_header_v2 list) res" where
  "parse_header_step E R chain (prev_hash, expected_height, headers) entry =
     bindE (catchE (decode_wire_header R (he_bytes entry)) (\<lambda>_. True) (Inl SyncInvalidDataError)) (\<lambda>header.
     thenE (checkE (bh_prev_hash header = prev_hash) SyncInvalidDataError)
    (bindE (expected_target_at chain expected_height) (\<lambda>expected_target.
     thenE (checkE (bh_target header = expected_target) SyncInvalidDataError)
    (bindE (header_v2_hash E header) (\<lambda>h.
     bindE (satisfies_pow h (bh_target header)) (\<lambda>ok.
     thenE (checkE ok SyncInvalidDataError)
    (thenE (checkE (bh_version header = PROTOCOL_VERSION) SyncInvalidDataError)
       (Inr (h, expected_height + 1, headers @ [header])))))))))"

definition parse_headers_message :: "env \<Rightarrow> runtime \<Rightarrow> ledger \<Rightarrow> header_entry list \<Rightarrow> block_header_v2 list res" where
  "parse_headers_message E R L entries =
     bindE (bindE (last_block L) (ab_hash E)) (\<lambda>prev_hash.
     bindE (foldE (parse_header_step E R (ld_chain L)) (prev_hash, length (ld_chain L), []) entries) (\<lambda>(_, _, headers).
       Inr headers))"

definition compute_chain_work :: "block_header_v2 list \<Rightarrow> int res" where
  "compute_chain_work headers = foldE (\<lambda>total h. bindE (work_for_target_v2 (bh_target h)) (\<lambda>w. Inr (total + w))) 0 headers"

text \<open>The hash of \<open>header_sync.header_hash\<close>, of the JSON form; the target of a decoded header fits 64
  digits.\<close>

definition sync_header_hash :: "env \<Rightarrow> block_header_v2 \<Rightarrow> string res" where
  "sync_header_hash E h =
     bindE (header_v2_to_dict h) (\<lambda>d. bindE (dumps_bytes compact_style (JDict (header_v2_items d))) (\<lambda>raw.
       Inr (hash_single_hex E raw)))"

section \<open>Blocks\<close>

definition create_get_block :: "string \<Rightarrow> message" where
  "create_get_block block_hash = MGetBlock [block_hash] 2000000"

definition parse_block_message :: "runtime \<Rightarrow> ledger \<Rightarrow> (string \<times> string) list \<Rightarrow> nat \<Rightarrow> string \<Rightarrow> block_v2 res" where
  "parse_block_message R L blocks expected_height expected_prev_hash =
     thenE (checkE (length blocks = 1) SyncInvalidDataError)
    (bindE (catchE (decode_block R (snd (blocks ! 0))) (\<lambda>_. True) (Inl SyncInvalidDataError)) (\<lambda>block.
     thenE (checkE (bh_prev_hash (bk_header block) = expected_prev_hash) SyncInvalidDataError)
    (bindE (expected_target_at (ld_chain L) expected_height) (\<lambda>expected_target.
     thenE (checkE (bh_target (bk_header block) = expected_target) SyncInvalidDataError) (Inr block)))))"

section \<open>The engine\<close>

datatype sync_state = IDLE | DISCOVERING_TIP | REQUESTING_HEADERS | VALIDATING_HEADERS | REQUESTING_BLOCKS
  | VALIDATING_BLOCKS | COMMITTING | SYNCED | PEER_INVALID | SYNC_TIMEOUT | INVALID_DATA | STORAGE_FAILURE | RETRY_BACKOFF

record sync_engine =
  sy_ledger :: ledger
  sy_files :: files
  sy_state :: sync_state
  sy_pending_headers :: "block_header_v2 list"
  sy_pending_blocks :: "block_v2 list"
  sy_last_peer_id :: "string option"

datatype sync_reply = SyInvalid | SySynced | SyNoBetterChain | SyRequestBlocks nat | SyUnexpectedBlock | SyNextBlock
  | SyCommitted int

definition new_sync_engine :: "ledger \<Rightarrow> files \<Rightarrow> sync_engine" where
  "new_sync_engine L fs = \<lparr>sy_ledger = L, sy_files = fs, sy_state = IDLE, sy_pending_headers = [],
     sy_pending_blocks = [], sy_last_peer_id = None\<rparr>"

definition start_header_sync :: "env \<Rightarrow> sync_engine \<Rightarrow> sync_engine \<times> bytes res" where
  "start_header_sync E sy =
     (sy\<lparr>sy_state := REQUESTING_HEADERS\<rparr>, bindE (create_get_headers E (sy_ledger sy)) to_payload)"

fun message_headers :: "message \<Rightarrow> header_entry list" where
  "message_headers (MHeaders hs) = hs"
| "message_headers _ = []"

fun message_blocks :: "message \<Rightarrow> (string \<times> string) list" where
  "message_blocks (MBlock bs) = bs"
| "message_blocks _ = []"

definition sync_handle_headers :: "env \<Rightarrow> runtime \<Rightarrow> (int \<Rightarrow> int res) \<Rightarrow> sync_engine \<Rightarrow> string \<Rightarrow> bytes
    \<Rightarrow> sync_engine \<times> sync_reply res" where
  "sync_handle_headers E R v1_work sy peer_id payload =
     (let sy = sy\<lparr>sy_last_peer_id := Some peer_id, sy_state := VALIDATING_HEADERS\<rparr> in
      case bindE (decode_message R HEADERS payload) (\<lambda>m. parse_headers_message E R (sy_ledger sy) (message_headers m)) of
        Inl e \<Rightarrow> if e = SyncInvalidDataError then (sy\<lparr>sy_state := INVALID_DATA\<rparr>, Inr SyInvalid) else (sy, Inl e)
      | Inr headers \<Rightarrow>
          if headers = [] then (sy\<lparr>sy_state := SYNCED\<rparr>, Inr SySynced)
          else (case bindE (compute_chain_work headers) (\<lambda>new_work.
                       bindE (chain_work v1_work (sy_ledger sy)) (\<lambda>local_work. Inr (new_work, local_work))) of
                  Inl e \<Rightarrow> (sy, Inl e)
                | Inr (new_work, local_work) \<Rightarrow>
                    if new_work \<le> local_work then (sy\<lparr>sy_state := SYNCED\<rparr>, Inr SyNoBetterChain)
                    else (sy\<lparr>sy_pending_headers := headers, sy_state := REQUESTING_BLOCKS\<rparr>,
                          Inr (SyRequestBlocks (length headers)))))"

definition next_block_request :: "env \<Rightarrow> sync_engine \<Rightarrow> string option res" where
  "next_block_request E sy =
     (case sy_pending_headers sy of
        [] \<Rightarrow> Inr None
      | header # _ \<Rightarrow> bindE (sync_header_hash E header) (\<lambda>h. Inr (Some h)))"

text \<open>\<open>_commit\<close>: the blocks are already in the ledger, and the state passed for each of them is the one
  below the tip.\<close>

definition commit_blocks :: "env \<Rightarrow> runtime \<Rightarrow> backend \<Rightarrow> ledger \<Rightarrow> block_v2 list \<Rightarrow> unit io" where
  "commit_blocks E R be L blocks =
     seqI (map (\<lambda>block. bindI (liftI (registry_state_at L (nat (ledger_height L - 1)))) (\<lambda>prev_state.
                        bindI (append_block E R be block prev_state) (\<lambda>_. returnI ()))) blocks)"

definition sync_commit :: "env \<Rightarrow> runtime \<Rightarrow> backend \<Rightarrow> sync_engine \<Rightarrow> sync_engine \<times> sync_reply res" where
  "sync_commit E R be sy =
     (let (fs, r) = commit_blocks E R be (sy_ledger sy) (sy_pending_blocks sy) (sy_files sy);
          sy = sy\<lparr>sy_files := fs, sy_pending_blocks := []\<rparr> in
      case r of
        Inl _ \<Rightarrow> (sy\<lparr>sy_state := STORAGE_FAILURE\<rparr>, Inl SyncStorageError)
      | Inr _ \<Rightarrow> (sy\<lparr>sy_state := SYNCED\<rparr>, Inr (SyCommitted (ledger_height (sy_ledger sy)))))"

definition expected_parent :: "env \<Rightarrow> sync_engine \<Rightarrow> string res" where
  "expected_parent E sy =
     (if sy_pending_blocks sy \<noteq> [] then block_hash_v2 E (last (sy_pending_blocks sy))
      else bindE (last_block (sy_ledger sy)) (ab_hash E))"

definition sync_handle_block :: "env \<Rightarrow> runtime \<Rightarrow> backend \<Rightarrow> int \<Rightarrow> sync_engine \<Rightarrow> string \<Rightarrow> bytes
    \<Rightarrow> sync_engine \<times> sync_reply res" where
  "sync_handle_block E R be now sy peer_id payload =
     (let sy = sy\<lparr>sy_last_peer_id := Some peer_id\<rparr> in
      case sy_pending_headers sy of
        [] \<Rightarrow> (sy, Inr SyUnexpectedBlock)
      | _ # rest \<Rightarrow>
          let sy = sy\<lparr>sy_state := VALIDATING_BLOCKS\<rparr>; L = sy_ledger sy in
          (case bindE (expected_parent E sy) (\<lambda>expected_prev_hash.
                bindE (decode_message R BLOCK payload) (\<lambda>m.
                  parse_block_message R L (message_blocks m)
                    (length (ld_chain L) + length (sy_pending_blocks sy)) expected_prev_hash)) of
             Inl e \<Rightarrow> if e = SyncInvalidDataError then (sy\<lparr>sy_state := INVALID_DATA\<rparr>, Inr SyInvalid) else (sy, Inl e)
           | Inr block \<Rightarrow>
               (case add_block_v2 E now L block of
                  Inl e \<Rightarrow> (sy, Inl e)
                | Inr (L', ok) \<Rightarrow>
                    let sy = sy\<lparr>sy_ledger := L'\<rparr> in
                    if \<not> ok then (sy\<lparr>sy_state := INVALID_DATA\<rparr>, Inr SyInvalid)
                    else
                      let sy = sy\<lparr>sy_pending_blocks := sy_pending_blocks sy @ [block], sy_pending_headers := rest\<rparr> in
                      if rest \<noteq> [] then (sy\<lparr>sy_state := REQUESTING_BLOCKS\<rparr>, Inr SyNextBlock)
                      else sync_commit E R be (sy\<lparr>sy_state := COMMITTING\<rparr>))))"

definition sync_reset :: "sync_engine \<Rightarrow> sync_engine" where
  "sync_reset sy = sy\<lparr>sy_state := IDLE, sy_pending_headers := [], sy_pending_blocks := []\<rparr>"

end
