(* ===== verification/Sync_Props.thy ===== *)
theory Sync_Props
  imports Sync Ledger_Tip
begin

text \<open>
  What synchronisation guarantees, and where it stops: accepted headers are a linked chain with work
  on top of the local tip, the locator is bounded and ends in the genesis hash, no peer can make the
  ledger invalid, and past the first retarget window no answer of a peer starts a download.
\<close>

section \<open>Headers\<close>

definition header_ok :: "env \<Rightarrow> any_block list \<Rightarrow> nat \<Rightarrow> string \<Rightarrow> block_header_v2 \<Rightarrow> bool" where
  "header_ok E chain height prev h \<longleftrightarrow>
     bh_prev_hash h = prev \<and> expected_target_at chain height = Inr (bh_target h) \<and> bh_version h = PROTOCOL_VERSION
     \<and> (\<exists>x. header_v2_hash E h = Inr x \<and> satisfies_pow x (bh_target h) = Inr True)"

text \<open>A run of headers from a hash and a height on, each on top of the one before.\<close>

fun header_run :: "env \<Rightarrow> any_block list \<Rightarrow> nat \<Rightarrow> string \<Rightarrow> block_header_v2 list \<Rightarrow> bool" where
  "header_run E chain height prev [] = True"
| "header_run E chain height prev (h # hs) \<longleftrightarrow>
     header_ok E chain height prev h \<and> (\<forall>x. header_v2_hash E h = Inr x \<longrightarrow> header_run E chain (height + 1) x hs)"

lemma parse_header_step_Inr:
  assumes "parse_header_step E R chain (prev, n, acc) entry = Inr s"
  obtains h x where "decode_wire_header R (he_bytes entry) = Inr h" and "header_ok E chain n prev h"
    and "header_v2_hash E h = Inr x" and "s = (x, n + 1, acc @ [h])"
  using assms by (auto simp: res_simps header_ok_def)

lemma parse_headers_run:
  "foldE (parse_header_step E R chain) (prev, n, acc) entries = Inr (x, m, hs) \<Longrightarrow>
     \<exists>new. hs = acc @ new \<and> header_run E chain n prev new \<and> m = n + length new
       \<and> list_all2 (\<lambda>e h. decode_wire_header R (he_bytes e) = Inr h) entries new"
proof (induction entries arbitrary: prev n acc)
  case (Cons e es)
  from Cons.prems obtain s where s: "parse_header_step E R chain (prev, n, acc) e = Inr s"
    and rest: "foldE (parse_header_step E R chain) s es = Inr (x, m, hs)" by (auto simp: bindE_Inr_iff simp del: parse_header_step.simps)
  from s obtain h y where h: "decode_wire_header R (he_bytes e) = Inr h" "header_ok E chain n prev h"
    "header_v2_hash E h = Inr y" "s = (y, n + 1, acc @ [h])" by (rule parse_header_step_Inr)
  from Cons.IH [OF rest [unfolded h(4)]] obtain new where new: "hs = (acc @ [h]) @ new"
    "header_run E chain (n + 1) y new" "m = n + 1 + length new"
    "list_all2 (\<lambda>e h. decode_wire_header R (he_bytes e) = Inr h) es new" by blast
  then show ?case using h by (intro exI [of _ "h # new"]) simp
qed simp

section \<open>The locator\<close>

lemma locator_loop_bound:
  "locator_loop E chain height step acc = Inr l \<Longrightarrow> length acc \<le> MAX_LOCATOR_SIZE - 1 \<Longrightarrow>
     (\<forall>h \<in> set acc. \<exists>b \<in> set chain. ab_hash E b = Inr h) \<Longrightarrow>
     length l \<le> MAX_LOCATOR_SIZE - 1 \<and> (\<forall>h \<in> set l. \<exists>b \<in> set chain. ab_hash E b = Inr h) \<and> (\<exists>r. l = acc @ r)"
proof (induction E chain height step acc arbitrary: l rule: locator_loop.induct)
  case (1 E chain height step acc)
  show ?case
  proof (cases "height > 0 \<and> length acc < MAX_LOCATOR_SIZE - 1")
    case True
    from "1.prems"(1) True obtain b h where b: "at_res chain (nat height) = Inr b" "ab_hash E b = Inr h"
      and rec: "locator_loop E chain (height - step) (if length acc + 1 > 10 then step * 2 else step) (acc @ [h]) = Inr l"
      unfolding locator_loop.simps [of E chain height step acc] bindE_Inr_iff by (auto simp: bindE_Inr_iff)
    have "b \<in> set chain" using b(1) by (auto simp: at_res_def split: if_split_asm)
    with "1.IH" [OF True, of h l] rec b(2) "1.prems"(3) True show ?thesis by fastforce
  next
    case False
    have "locator_loop E chain height step acc = Inr acc"
      by (subst locator_loop.simps) (rule if_not_P [OF False])
    with "1.prems" show ?thesis by simp
  qed
qed

section \<open>The engine keeps the ledger\<close>

lemma commit_ledger: "sy_ledger (fst (sync_commit E R be sy)) = sy_ledger sy"
  by (simp add: sync_commit_def Let_def split: prod.split sum.split)

lemma commit_pending: "sy_pending_blocks (fst (sync_commit E R be sy)) = []"
  by (simp add: sync_commit_def Let_def split: prod.split sum.split)

lemma handle_headers_ledger:
  "sy_ledger (fst (sync_handle_headers E R w sy p payload)) = sy_ledger sy
   \<and> sy_pending_blocks (fst (sync_handle_headers E R w sy p payload)) = sy_pending_blocks sy
   \<and> sy_files (fst (sync_handle_headers E R w sy p payload)) = sy_files sy"
  by (simp add: sync_handle_headers_def Let_def split: sum.split)

text \<open>A block changes the engine's ledger only through \<open>add_block_v2\<close>; a block that was added and
  not committed yet is the last of the ledger and of the pending blocks.\<close>

lemma handle_block_ledger:
  assumes "sync_handle_block E R be now sy p payload = (sy', r)"
  shows "(sy_ledger sy' = sy_ledger sy \<and> sy_pending_blocks sy' = sy_pending_blocks sy)
    \<or> (\<exists>b. add_block E now (sy_ledger sy) (AnyV2 b) = Inr (sy_ledger sy', True)
        \<and> sy_pending_blocks sy' \<in> {[], sy_pending_blocks sy @ [b]})"
proof (cases "sy_pending_headers sy")
  case Nil
  then show ?thesis using assms by (auto simp: sync_handle_block_def Let_def)
next
  case (Cons h rest)
  let ?sy = "sy\<lparr>sy_last_peer_id := Some p, sy_state := VALIDATING_BLOCKS\<rparr>"
  let ?parse = "bindE (expected_parent E ?sy) (\<lambda>expected_prev_hash.
      bindE (decode_message R BLOCK payload) (\<lambda>m. parse_block_message R (sy_ledger sy) (message_blocks m)
        (length (ld_chain (sy_ledger sy)) + length (sy_pending_blocks sy)) expected_prev_hash))"
  show ?thesis
  proof (cases ?parse)
    case (Inl e)
    then show ?thesis using assms Cons by (auto simp: sync_handle_block_def Let_def split: if_split_asm)
  next
    case (Inr b)
    note parsed = this
    show ?thesis
    proof (cases "add_block_v2 E now (sy_ledger sy) b")
      case (Inl e)
      then show ?thesis using assms Cons parsed by (auto simp: sync_handle_block_def Let_def)
    next
      case (Inr x)
      obtain L' ok where x: "x = (L', ok)" by (cases x)
      note add = Inr [unfolded x]
      show ?thesis
      proof (cases ok)
        case False
        then have "L' = sy_ledger sy" using add add_block_Inr(1) [of E now "sy_ledger sy" "AnyV2 b"] by simp
        then show ?thesis using assms Cons parsed add False by (auto simp: sync_handle_block_def Let_def)
      next
        case True
        let ?sy2 = "?sy\<lparr>sy_ledger := L', sy_pending_blocks := sy_pending_blocks sy @ [b], sy_pending_headers := rest\<rparr>"
        have run: "(sy', r) = (if rest \<noteq> [] then (?sy2\<lparr>sy_state := REQUESTING_BLOCKS\<rparr>, Inr SyNextBlock)
            else sync_commit E R be (?sy2\<lparr>sy_state := COMMITTING\<rparr>))"
          using assms Cons parsed add True by (simp add: sync_handle_block_def Let_def)
        then have "sy_ledger sy' = L'" "sy_pending_blocks sy' \<in> {[], sy_pending_blocks sy @ [b]}"
          using commit_ledger [of E R be "?sy2\<lparr>sy_state := COMMITTING\<rparr>"] commit_pending [of E R be "?sy2\<lparr>sy_state := COMMITTING\<rparr>"]
          by (auto split: if_split_asm dest: arg_cong [where f = fst])
        then show ?thesis using add True by auto
      qed
    qed
  qed
qed

text \<open>What may happen to an engine: its own calls and any message of any peer, with the clock of the
  ledger never past \<open>clock\<close>.\<close>

inductive sync_step :: "env \<Rightarrow> runtime \<Rightarrow> backend \<Rightarrow> (int \<Rightarrow> int res) \<Rightarrow> int \<Rightarrow> sync_engine \<Rightarrow> sync_engine \<Rightarrow> bool"
  for E R be w clock where
  start: "sync_step E R be w clock sy (fst (start_header_sync E sy))"
| headers: "sync_step E R be w clock sy (fst (sync_handle_headers E R w sy p payload))"
| block: "now \<le> clock \<Longrightarrow> sync_step E R be w clock sy (fst (sync_handle_block E R be now sy p payload))"
| reset: "sync_step E R be w clock sy (sync_reset sy)"

definition sync_inv :: "env \<Rightarrow> int \<Rightarrow> any_block list \<Rightarrow> sync_engine \<Rightarrow> bool" where
  "sync_inv E clock chain sy \<longleftrightarrow>
     chain_valid E clock (sy_ledger sy)
     \<and> (\<exists>more. ld_chain (sy_ledger sy) = chain @ more @ map AnyV2 (sy_pending_blocks sy))"

lemma sync_step_inv:
  assumes "sync_step E R be w clock sy sy'" and "sync_inv E clock chain sy"
  shows "sync_inv E clock chain sy'"
  using assms
proof cases
  case (headers p payload)
  then show ?thesis using assms(2) handle_headers_ledger [of E R w sy p payload] by (simp add: sync_inv_def)
next
  case (block now p payload)
  from assms(2) obtain more where v: "chain_valid E clock (sy_ledger sy)"
    and more: "ld_chain (sy_ledger sy) = chain @ more @ map AnyV2 (sy_pending_blocks sy)" by (auto simp: sync_inv_def)
  obtain r where r: "sync_handle_block E R be now sy p payload = (sy', r)" using block(1) by (cases "sync_handle_block E R be now sy p payload") simp
  from handle_block_ledger [OF r] show ?thesis
  proof
    assume "sy_ledger sy' = sy_ledger sy \<and> sy_pending_blocks sy' = sy_pending_blocks sy"
    then show ?thesis using assms(2) by (simp add: sync_inv_def)
  next
    assume "\<exists>b. add_block E now (sy_ledger sy) (AnyV2 b) = Inr (sy_ledger sy', True)
      \<and> sy_pending_blocks sy' \<in> {[], sy_pending_blocks sy @ [b]}"
    then obtain b where add: "add_block E now (sy_ledger sy) (AnyV2 b) = Inr (sy_ledger sy', True)"
      and pend: "sy_pending_blocks sy' \<in> {[], sy_pending_blocks sy @ [b]}" by blast
    have c: "ld_chain (sy_ledger sy') = chain @ more @ map AnyV2 (sy_pending_blocks sy) @ [AnyV2 b]"
      using add_block_Inr(2) [OF add] more by auto
    from pend have "\<exists>more'. ld_chain (sy_ledger sy') = chain @ more' @ map AnyV2 (sy_pending_blocks sy')"
      using c by auto
    then show ?thesis using chain_valid_add [OF v add block(2)] by (simp add: sync_inv_def)
  qed
qed (auto simp: sync_inv_def start_header_sync_def sync_reset_def)

lemma sync_steps_inv:
  "(sync_step E R be w clock)\<^sup>*\<^sup>* sy sy' \<Longrightarrow> sync_inv E clock chain sy \<Longrightarrow> sync_inv E clock chain sy'"
  by (induction rule: rtranclp_induct) (auto intro: sync_step_inv)

section \<open>Where synchronisation stops\<close>

lemma work_nonneg: "work_for_target_v2 t = Inr w \<Longrightarrow> 0 \<le> w"
  by (auto simp: work_for_target_v2_def MAX_TARGET_def pos_imp_zdiv_nonneg_iff split: if_split_asm)

lemma fold_work_mono:
  assumes "\<forall>b \<in> set chain. \<exists>v. b = AnyV2 v"
    and "foldE (\<lambda>total b. bindE (block_work w1 b) (\<lambda>w. Inr (total + w))) s chain = Inr t"
  shows "s \<le> t"
  using assms by (induction chain arbitrary: s) (force simp: res_simps dest: work_nonneg)+

lemma chain_work_last:
  assumes "\<forall>b \<in> set (ld_chain L). \<exists>v. b = AnyV2 v" and "ld_chain L \<noteq> []" and "chain_work w1 L = Inr t"
    and "work_for_target_v2 (ab_target (last (ld_chain L))) = Inr w"
  shows "w \<le> t"
proof -
  obtain cs b where c: "ld_chain L = cs @ [b]" using assms(2) by (cases "ld_chain L" rule: rev_cases) auto
  obtain v where v: "b = AnyV2 v" using assms(1) c by auto
  have t: "ab_target b = bh_target (bk_header v)" by (simp add: v ab_target_def block_header.truncate_def)
  from assms(3) obtain s where s: "foldE (\<lambda>total b. bindE (block_work w1 b) (\<lambda>w. Inr (total + w))) 0 cs = Inr s"
    and "t = s + w" using assms(4) by (auto simp: chain_work_def c foldE_append res_simps v t)
  moreover have "0 \<le> s" using fold_work_mono [OF _ s] assms(1) c by auto
  ultimately show ?thesis by simp
qed

lemma target_above_tip:
  assumes "DIFFICULTY_RETARGET_INTERVAL \<le> length chain"
  shows "expected_target_at chain (length chain + 1) = Inl IndexError"
  using assms by (auto simp: expected_target_at_def retarget_def at_res_def DIFFICULTY_RETARGET_INTERVAL_def)

lemma target_at_tip:
  assumes "DIFFICULTY_RETARGET_INTERVAL \<le> length chain" and "length chain mod DIFFICULTY_RETARGET_INTERVAL \<noteq> 0"
  shows "expected_target_at chain (length chain) = Inr (ab_target (last chain))"
proof -
  have "chain \<noteq> []" using assms(1) by (auto simp: DIFFICULTY_RETARGET_INTERVAL_def)
  then show ?thesis using assms by (simp add: expected_target_at_def at_res_def last_conv_nth DIFFICULTY_RETARGET_INTERVAL_def)
qed

lemma sync_stalls_aux:
  assumes "\<forall>b \<in> set (ld_chain (sy_ledger sy)). \<exists>v. b = AnyV2 v"
    and "DIFFICULTY_RETARGET_INTERVAL \<le> length (ld_chain (sy_ledger sy))"
    and "length (ld_chain (sy_ledger sy)) mod DIFFICULTY_RETARGET_INTERVAL \<noteq> 0"
  shows "snd (sync_handle_headers E R w1 sy p payload) \<noteq> Inr (SyRequestBlocks k)"
proof
  assume req: "snd (sync_handle_headers E R w1 sy p payload) = Inr (SyRequestBlocks k)"
  let ?L = "sy_ledger sy" and ?c = "ld_chain (sy_ledger sy)"
  from req obtain m hs nw lw where m: "parse_headers_message E R ?L (message_headers m) = Inr hs" and ne: "hs \<noteq> []"
    and w: "compute_chain_work hs = Inr nw" "chain_work w1 ?L = Inr lw" "lw < nw"
    by (auto simp: sync_handle_headers_def Let_def res_simps split: sum.split_asm if_split_asm prod.split_asm)
  from m obtain prev x n where "foldE (parse_header_step E R ?c) (prev, length ?c, []) (message_headers m) = Inr (x, n, hs)"
    by (auto simp: parse_headers_message_def bindE_Inr_iff)
  from parse_headers_run [OF this] have run: "header_run E ?c (length ?c) prev hs" by auto
  obtain h rest where hs: "hs = h # rest" using ne by (cases hs) auto
  have ok: "header_ok E ?c (length ?c) prev h" using run by (simp add: hs)
  then obtain y where y: "header_v2_hash E h = Inr y" by (auto simp: header_ok_def)
  have "rest = []"
  proof (cases rest)
    case (Cons h2 r2)
    then have "header_ok E ?c (length ?c + 1) y h2" using run y by (simp add: hs)
    then show ?thesis using target_above_tip [OF assms(2)] by (simp add: header_ok_def)
  qed
  moreover have "bh_target h = ab_target (last ?c)" using ok target_at_tip [OF assms(2,3)] by (simp add: header_ok_def)
  ultimately have "work_for_target_v2 (ab_target (last ?c)) = Inr nw" using w(1) by (auto simp: hs compute_chain_work_def res_simps)
  moreover have "?c \<noteq> []" using assms(2) by (auto simp: DIFFICULTY_RETARGET_INTERVAL_def)
  ultimately have "nw \<le> lw" using chain_work_last [OF assms(1) _ w(2)] by blast
  with w(3) show False by simp
qed

section \<open>Claims\<close>

text \<open>C33: accepted headers extend the local chain.  When \<open>parse_headers_message\<close> returns, it has decoded
  every entry, and the headers form a run on top of the local tip: each names the hash of the one
  before, has the target the ledger expects at its height, meets that target and has the protocol
  version.\<close>

theorem sync_headers_sound:
  assumes "parse_headers_message E R L entries = Inr hs"
  shows "\<exists>tip prev. last_block L = Inr tip \<and> ab_hash E tip = Inr prev
    \<and> header_run E (ld_chain L) (length (ld_chain L)) prev hs
    \<and> list_all2 (\<lambda>e h. decode_wire_header R (he_bytes e) = Inr h) entries hs"
proof -
  from assms obtain tip prev x n where tip: "last_block L = Inr tip" "ab_hash E tip = Inr prev"
    and "foldE (parse_header_step E R (ld_chain L)) (prev, length (ld_chain L), []) entries = Inr (x, n, hs)"
    by (auto simp: parse_headers_message_def bindE_Inr_iff)
  from parse_headers_run [OF this(3)] tip show ?thesis by auto
qed

text \<open>Two headers on top of the demonstration ledger.\<close>

lemma demo_parse_headers:
  "\<exists>entries. parse_headers_message demo_env demo_runtime demo_ledger entries = Inr [steady_header 8, steady_header 9]"
proof -
  have wf: "wf_header_v2 (steady_header 8)" "wf_header_v2 (steady_header 9)" by (rule wf_steady_header; simp)+
  obtain s8 s9 where s: "decode_wire_header demo_runtime s8 = Inr (steady_header 8)" "decode_wire_header demo_runtime s9 = Inr (steady_header 9)"
    using wire_header_roundtrip_aux [OF wf(1), of demo_runtime] wire_header_roundtrip_aux [OF wf(2), of demo_runtime] by blast
  have hash: "header_v2_hash demo_env (steady_header ts) = Inr zero_hash" if "0 < ts" "ts < 2 ^ 64" for ts
    using steady_hash [of ts] that by (simp add: steady_block_def block_hash_v2_def)
  have pow: "satisfies_pow zero_hash MAX_TARGET = Inr True"
  proof -
    obtain b where "header_v2_bytes (steady_header 8) = Inr b" using header_v2_roundtrip_aux [OF wf(1)] by blast
    then show ?thesis
      using demo.satisfies_pow_hash [of b MAX_TARGET] hash [of 8] by (simp add: header_v2_hash_bytes demo_double be_val_zeros MAX_TARGET_def)
  qed
  have t: "expected_target_at [steady_block 7] h = Inr MAX_TARGET" if "h \<in> {1, 2}" for h
    using that by (auto simp: expected_target_at_def at_res_def DIFFICULTY_RETARGET_INTERVAL_def)
  have f: "bh_prev_hash (steady_header ts) = zero_hash" "bh_target (steady_header ts) = MAX_TARGET"
    "bh_version (steady_header ts) = PROTOCOL_VERSION" for ts
    by (simp_all add: steady_header_def)
  let ?e = "\<lambda>s. \<lparr>he_height = 1, he_hash = zero_hash, he_bytes = s\<rparr>"
  have "parse_headers_message demo_env demo_runtime demo_ledger [?e s8, ?e s9] = Inr [steady_header 8, steady_header 9]"
    using steady_hash [of 7] t [of 1] t [of 2, unfolded numeral_2_eq_2]
    by (simp add: parse_headers_message_def last_block_def demo_ledger_def s f hash pow checkE_def)
  then show ?thesis by blast
qed

theorem sync_headers_sound_witness:
  "\<exists>entries. parse_headers_message demo_env demo_runtime demo_ledger entries = Inr [steady_header 8, steady_header 9]
    \<and> header_run demo_env (ld_chain demo_ledger) 1 zero_hash [steady_header 8, steady_header 9]
    \<and> list_all2 (\<lambda>e h. decode_wire_header demo_runtime (he_bytes e) = Inr h) entries [steady_header 8, steady_header 9]"
proof -
  obtain entries where e: "parse_headers_message demo_env demo_runtime demo_ledger entries = Inr [steady_header 8, steady_header 9]"
    using demo_parse_headers by blast
  have "last_block demo_ledger = Inr (steady_block 7)" "length (ld_chain demo_ledger) = 1"
    by (simp_all add: last_block_def demo_ledger_def)
  with sync_headers_sound [OF e] e steady_hash [of 7] show ?thesis by (auto simp del: header_run.simps)
qed

text \<open>C34: the locator is bounded: \<open>build_locator\<close> ends for every ledger, with at most \<open>MAX_LOCATOR_SIZE\<close>
  hashes, all of blocks of the chain, the last of them the genesis hash.\<close>

theorem locator_bounded:
  assumes "build_locator E L = Inr l"
  shows "length l \<le> MAX_LOCATOR_SIZE \<and> l \<noteq> [] \<and> ledger_genesis_hash E L = Inr (last l)
    \<and> (\<forall>h \<in> set l. \<exists>b \<in> set (ld_chain L). ab_hash E b = Inr h)"
proof -
  from assms obtain k g where k: "locator_loop E (ld_chain L) (ledger_height L) 1 [] = Inr k"
    and g: "ledger_genesis_hash E L = Inr g" and l: "l = k @ [g]" by (auto simp: build_locator_def bindE_Inr_iff)
  from locator_loop_bound [OF k] have "length k \<le> MAX_LOCATOR_SIZE - 1" "\<forall>h \<in> set k. \<exists>b \<in> set (ld_chain L). ab_hash E b = Inr h"
    by simp_all
  moreover have "\<exists>b \<in> set (ld_chain L). ab_hash E b = Inr g"
    using g by (auto simp: ledger_genesis_hash_def bindE_Inr_iff at_res_def split: if_split_asm)
  ultimately show ?thesis using g by (auto simp: l MAX_LOCATOR_SIZE_def)
qed

theorem locator_bounded_witness: "\<exists>l. build_locator demo_env demo_ledger = Inr l \<and> length l \<le> 32"
proof -
  obtain h where h: "ab_hash demo_env (steady_block 7) = Inr h" using steady_hash by auto
  have "locator_loop demo_env (ld_chain demo_ledger) (ledger_height demo_ledger) 1 [] = Inr []"
    by (subst locator_loop.simps) (simp add: ledger_height_def demo_ledger_def)
  then have "build_locator demo_env demo_ledger = Inr [h]"
    using h by (simp add: build_locator_def ledger_genesis_hash_def at_res_def demo_ledger_def)
  from locator_bounded [OF this] this show ?thesis by (simp add: MAX_LOCATOR_SIZE_def)
qed

text \<open>C8: no peer can spoil the ledger through synchronisation.  Starting from a ledger that validates at
  \<open>clock\<close>, after any sequence of calls and messages the ledger still validates and its chain extends
  the one at the start; the blocks still to be stored are its last ones.\<close>

theorem sync_keeps_ledger_valid:
  assumes "chain_valid E clock L" and "(sync_step E R be w clock)\<^sup>*\<^sup>* (new_sync_engine L fs) sy"
  shows "chain_valid E clock (sy_ledger sy)
    \<and> (\<exists>more. ld_chain (sy_ledger sy) = ld_chain L @ more @ map AnyV2 (sy_pending_blocks sy))"
proof -
  have "sync_inv E clock (ld_chain L) (new_sync_engine L fs)"
    using assms(1) by (simp add: sync_inv_def new_sync_engine_def)
  from sync_steps_inv [OF assms(2) this] show ?thesis by (simp add: sync_inv_def)
qed

lemma demo_chain_valid: "chain_valid demo_env clock demo_ledger"
  unfolding chain_valid_def using demo_validate by (blast intro: ledger_reachable.init [OF demo_ledger_ok])

theorem sync_keeps_ledger_valid_witness:
  "chain_valid demo_env 9 (sy_ledger (fst (sync_handle_headers demo_env demo_runtime Inr (new_sync_engine demo_ledger []) ''p'' [])))"
proof -
  have "(sync_step demo_env demo_runtime be Inr 9)\<^sup>*\<^sup>* (new_sync_engine demo_ledger [])
      (fst (sync_handle_headers demo_env demo_runtime Inr (new_sync_engine demo_ledger []) ''p'' []))" for be
    by (rule r_into_rtranclp) (rule sync_step.headers)
  from sync_keeps_ledger_valid [OF demo_chain_valid this] show ?thesis by blast
qed

text \<open>Past the first retarget window synchronisation does nothing.  With ten or more blocks, at every
  height that is not a retarget boundary, no \<open>HEADERS\<close> message of any peer makes the engine request
  blocks: the target of a second header is looked up beyond the local chain, which raises
  \<open>IndexError\<close>, and the work of a single header, which is compared with the work of the whole local
  chain, is never more.\<close>

theorem sync_stalls:
  assumes "\<forall>b \<in> set (ld_chain (sy_ledger sy)). \<exists>v. b = AnyV2 v"
    and "DIFFICULTY_RETARGET_INTERVAL \<le> length (ld_chain (sy_ledger sy))"
    and "length (ld_chain (sy_ledger sy)) mod DIFFICULTY_RETARGET_INTERVAL \<noteq> 0"
  shows "snd (sync_handle_headers E R v1_work sy p payload) \<noteq> Inr (SyRequestBlocks k)"
  by (rule sync_stalls_aux [OF assms])

theorem sync_stalls_witness:
  "snd (sync_handle_headers demo_env demo_runtime Inr
      (new_sync_engine (demo_ledger\<lparr>ld_chain := map steady_block [0..10]\<rparr>) []) ''p'' []) \<noteq> Inr (SyRequestBlocks 1)"
  by (rule sync_stalls) (auto simp: new_sync_engine_def steady_block_def DIFFICULTY_RETARGET_INTERVAL_def)

end
