(* ===== verification/Relay.thy ===== *)
theory Relay
  imports Complex_Main Sync
begin

text \<open>
  \<open>network/relay\<close>: the cache of seen blocks, the inventory tracker, the limits and the engine that
  answers inventories, block requests and blocks.  Times are rational seconds; each call takes one
  reading \<open>now\<close> of the monotonic clock, and \<open>clock\<close> is the wall clock \<open>add_block_v2\<close> reads.  An
  \<open>OrderedDict\<close> or \<open>dict\<close> is the list of its items in insertion order.  A method returns the engine
  after the call with its reply or exception.
\<close>

section \<open>Limits\<close>

record relay_limits =
  rl_max_inv_items :: nat
  rl_max_inv_per_peer_per_minute :: nat
  rl_max_get_block_burst :: nat
  rl_max_blocks_response :: nat
  rl_max_block_bytes_total :: int
  rl_seen_cache_size :: nat
  rl_seen_cache_ttl_seconds :: rat
  rl_max_orphan_blocks :: nat
  rl_orphan_max_age_seconds :: rat

definition default_relay_limits :: relay_limits where
  "default_relay_limits = \<lparr>rl_max_inv_items = 256, rl_max_inv_per_peer_per_minute = 60,
     rl_max_get_block_burst = 16, rl_max_blocks_response = 32, rl_max_block_bytes_total = 2000000,
     rl_seen_cache_size = 50000, rl_seen_cache_ttl_seconds = 7200, rl_max_orphan_blocks = 1024,
     rl_orphan_max_age_seconds = 7200\<rparr>"

section \<open>The cache of seen blocks\<close>

record seen_entry =
  sn_timestamp :: rat
  sn_source_peer :: string

record relay_seen_cache =
  sc_max_entries :: nat
  sc_ttl :: rat
  sc_cache :: "(string \<times> seen_entry) list"

definition seen_evict_expired :: "rat \<Rightarrow> relay_seen_cache \<Rightarrow> relay_seen_cache" where
  "seen_evict_expired now c = c\<lparr>sc_cache := filter (\<lambda>(_, e). \<not> now - sn_timestamp e > sc_ttl c) (sc_cache c)\<rparr>"

text \<open>\<open>popitem\<close> of an empty cache, when the maximum is 0, raises \<open>KeyError\<close>.\<close>

definition seen_add :: "rat \<Rightarrow> string \<Rightarrow> string \<Rightarrow> relay_seen_cache \<Rightarrow> relay_seen_cache \<times> unit res" where
  "seen_add now block_hash source_peer c =
     (let c = seen_evict_expired now c; entry = (block_hash, \<lparr>sn_timestamp = now, sn_source_peer = source_peer\<rparr>) in
      if block_hash \<in> fst ` set (sc_cache c) then (c, Inr ())
      else if length (sc_cache c) \<ge> sc_max_entries c then
        (case sc_cache c of
           [] \<Rightarrow> (c, Inl KeyError)
         | _ # es \<Rightarrow> (c\<lparr>sc_cache := es @ [entry]\<rparr>, Inr ()))
      else (c\<lparr>sc_cache := sc_cache c @ [entry]\<rparr>, Inr ()))"

definition seen_has :: "rat \<Rightarrow> string \<Rightarrow> relay_seen_cache \<Rightarrow> relay_seen_cache \<times> bool" where
  "seen_has now block_hash c =
     (case map_of (sc_cache c) block_hash of
        None \<Rightarrow> (c, False)
      | Some e \<Rightarrow>
          if now - sn_timestamp e > sc_ttl c
          then (c\<lparr>sc_cache := filter (\<lambda>e. fst e \<noteq> block_hash) (sc_cache c)\<rparr>, False)
          else (c, True))"

section \<open>The inventory tracker\<close>

record inventory_tracker =
  it_max_items :: nat
  it_pending :: "(string \<times> string) list"
  it_known_hashes :: "string set"

definition add_pending :: "inventory_tracker \<Rightarrow> string \<times> string \<Rightarrow> inventory_tracker res" where
  "add_pending t entry =
     (if length (it_pending t) \<ge> it_max_items t then Inl ValueError
      else if snd entry \<in> it_known_hashes t then Inr t
      else Inr (t\<lparr>it_pending := it_pending t @ [entry], it_known_hashes := insert (snd entry) (it_known_hashes t)\<rparr>))"

definition pop_pending :: "inventory_tracker \<Rightarrow> inventory_tracker \<times> (string \<times> string) list" where
  "pop_pending t = (t\<lparr>it_pending := [], it_known_hashes := {}\<rparr>, it_pending t)"

definition mark_known :: "inventory_tracker \<Rightarrow> string \<Rightarrow> inventory_tracker" where
  "mark_known t h = t\<lparr>it_known_hashes := insert h (it_known_hashes t)\<rparr>"

definition is_known :: "inventory_tracker \<Rightarrow> string \<Rightarrow> bool" where
  "is_known t h = (h \<in> it_known_hashes t)"

definition build_inv_message :: "inventory_tracker \<Rightarrow> inventory_tracker \<times> (string \<times> json) list" where
  "build_inv_message t =
     (let (t, entries) = pop_pending t in (t, [(''type'', JStr ''block''), (''hashes'', strings (map snd entries))]))"

section \<open>The engine\<close>

record request_state =
  rq_block_hash :: string
  rq_peer_id :: string
  rq_timestamp :: rat
  rq_retry_count :: int

record relay_engine =
  re_ledger :: ledger
  re_files :: files
  re_limits :: relay_limits
  re_seen :: relay_seen_cache
  re_pending :: "(string \<times> request_state) list"
  re_orphans :: "(string \<times> block_v2 \<times> rat) list"
  re_inv_times :: "string \<rightharpoonup> rat list"
  re_announce :: "string list"

definition new_relay_engine :: "ledger \<Rightarrow> files \<Rightarrow> relay_limits \<Rightarrow> relay_engine" where
  "new_relay_engine L fs limits = \<lparr>re_ledger = L, re_files = fs, re_limits = limits,
     re_seen = \<lparr>sc_max_entries = rl_seen_cache_size limits, sc_ttl = rl_seen_cache_ttl_seconds limits, sc_cache = []\<rparr>,
     re_pending = [], re_orphans = [], re_inv_times = Map.empty, re_announce = []\<rparr>"

definition on_local_block :: "env \<Rightarrow> rat \<Rightarrow> relay_engine \<Rightarrow> block_v2 \<Rightarrow> relay_engine \<times> unit res" where
  "on_local_block E now g block =
     (case block_hash_v2 E block of
        Inl e \<Rightarrow> (g, Inl e)
      | Inr h \<Rightarrow>
          let (c, known) = seen_has now h (re_seen g); g = g\<lparr>re_seen := c\<rparr> in
          if known then (g, Inr ())
          else let (c, r) = seen_add now h ''local'' (re_seen g); g = g\<lparr>re_seen := c\<rparr> in
            (case r of Inl e \<Rightarrow> (g, Inl e) | Inr _ \<Rightarrow> (g\<lparr>re_announce := re_announce g @ [h]\<rparr>, Inr ())))"

definition build_announcements :: "relay_engine \<Rightarrow> relay_engine \<times> string list" where
  "build_announcements g = (g\<lparr>re_announce := []\<rparr>, re_announce g)"

definition create_inv_message :: "relay_engine \<Rightarrow> string list option \<Rightarrow> relay_engine \<times> message" where
  "create_inv_message g hashes =
     (let (g, target_hashes) = (case hashes of Some hs \<Rightarrow> (g, hs) | None \<Rightarrow> build_announcements g) in
      (g, if target_hashes = [] then MInventory ''blocks'' []
          else MInventory ''blocks'' (take (rl_max_inv_items (re_limits g)) target_hashes)))"

definition check_rate :: "(string \<rightharpoonup> rat list) \<Rightarrow> string \<Rightarrow> nat \<Rightarrow> rat \<Rightarrow> (string \<rightharpoonup> rat list) \<times> bool" where
  "check_rate buckets peer_id limit_per_minute now =
     (let window = (case buckets peer_id of None \<Rightarrow> [] | Some w \<Rightarrow> w);
          window = dropWhile (\<lambda>t. t < now - 60) window in
      if length window \<ge> limit_per_minute then (buckets(peer_id \<mapsto> window), False)
      else (buckets(peer_id \<mapsto> window @ [now]), True))"

datatype relay_reply = RlIgnored | RlRateLimited | RlRequested "string list" | RlInvalid | RlUnknown | RlSent bytes

text \<open>The loop over the hashes of an inventory.\<close>

fun request_hashes :: "rat \<Rightarrow> string \<Rightarrow> relay_engine \<Rightarrow> string list \<Rightarrow> relay_engine \<times> string list" where
  "request_hashes now peer_id g [] = (g, [])"
| "request_hashes now peer_id g (h # hs) =
     (let (c, known) = seen_has now h (re_seen g); g = g\<lparr>re_seen := c\<rparr> in
      if known then request_hashes now peer_id g hs
      else if length (re_pending g) \<ge> rl_max_get_block_burst (re_limits g) then (g, [])
      else if h \<in> fst ` set (re_pending g) then request_hashes now peer_id g hs
      else
        let state = \<lparr>rq_block_hash = h, rq_peer_id = peer_id, rq_timestamp = now, rq_retry_count = 0\<rparr>;
            (g, requested) = request_hashes now peer_id (g\<lparr>re_pending := re_pending g @ [(h, state)]\<rparr>) hs in
        (g, h # requested))"

fun message_inventory :: "message \<Rightarrow> string \<times> string list" where
  "message_inventory (MInventory inv_type hashes) = (inv_type, hashes)"
| "message_inventory _ = ([], [])"

definition handle_inv :: "runtime \<Rightarrow> rat \<Rightarrow> relay_engine \<Rightarrow> string \<Rightarrow> bytes \<Rightarrow> relay_engine \<times> relay_reply res" where
  "handle_inv R now g peer_id payload =
     (case decode_message R INVENTORY payload of
        Inl e \<Rightarrow> (g, Inl e)
      | Inr m \<Rightarrow>
          let (inv_type, hashes) = message_inventory m in
          if inv_type \<noteq> ''blocks'' then (g, Inr RlIgnored)
          else
            let (buckets, ok) = check_rate (re_inv_times g) peer_id (rl_max_inv_per_peer_per_minute (re_limits g)) now;
                g = g\<lparr>re_inv_times := buckets\<rparr> in
            if \<not> ok then (g, Inr RlRateLimited)
            else let (g, requested) = request_hashes now peer_id g hashes in (g, Inr (RlRequested requested)))"

definition next_get_block_requests :: "relay_engine \<Rightarrow> (string \<times> bytes) list res" where
  "next_get_block_requests g =
     mapE (\<lambda>(_, state).
       bindE (to_payload (MGetBlock [rq_block_hash state] (rl_max_block_bytes_total (re_limits g)))) (\<lambda>p.
         Inr (rq_peer_id state, p))) (re_pending g)"

section \<open>Blocks\<close>

datatype block_status = HashMismatch | Duplicate | ConsensusRejected | StorageFailed | Accepted

definition drop_pending :: "string \<Rightarrow> relay_engine \<Rightarrow> relay_engine" where
  "drop_pending h g = g\<lparr>re_pending := filter (\<lambda>e. fst e \<noteq> h) (re_pending g)\<rparr>"

definition try_connect_orphans :: "string \<Rightarrow> relay_engine \<Rightarrow> relay_engine" where
  "try_connect_orphans connected_hash g =
     g\<lparr>re_orphans := filter (\<lambda>(_, b, _). bh_prev_hash (bk_header b) \<noteq> connected_hash) (re_orphans g)\<rparr>"

definition store_relayed :: "env \<Rightarrow> runtime \<Rightarrow> backend \<Rightarrow> ledger \<Rightarrow> block_v2 \<Rightarrow> registry_state io" where
  "store_relayed E R be L block =
     bindI (liftI (registry_state_at L (nat (ledger_height L - 1)))) (append_block E R be block)"

text \<open>What follows when the ledger has accepted the block: the commit through the storage, whose
  exceptions become a result, and the bookkeeping.\<close>

definition settle_block :: "env \<Rightarrow> runtime \<Rightarrow> backend \<Rightarrow> rat \<Rightarrow> string \<Rightarrow> string \<Rightarrow> block_v2 \<Rightarrow> relay_engine
    \<Rightarrow> relay_engine \<times> (string \<times> block_status) res" where
  "settle_block E R be now peer_id h block g =
     (let (fs, stored) = store_relayed E R be (re_ledger g) block (re_files g); g = g\<lparr>re_files := fs\<rparr> in
      case stored of
        Inl _ \<Rightarrow> (drop_pending h g, Inr (h, StorageFailed))
      | Inr _ \<Rightarrow>
          let (c, r) = seen_add now h peer_id (re_seen g); g = g\<lparr>re_seen := c\<rparr> in
          (case r of
             Inl e \<Rightarrow> (g, Inl e)
           | Inr _ \<Rightarrow>
               let g = drop_pending h g; g = g\<lparr>re_announce := re_announce g @ [h]\<rparr> in
               (try_connect_orphans h g, Inr (h, Accepted))))"

text \<open>One entry of a \<open>BLOCK\<close> response, from the decoding to its result.\<close>

definition relay_block :: "env \<Rightarrow> runtime \<Rightarrow> backend \<Rightarrow> int \<Rightarrow> rat \<Rightarrow> string \<Rightarrow> relay_engine \<Rightarrow> string \<times> string
    \<Rightarrow> relay_engine \<times> (string \<times> block_status) res" where
  "relay_block E R be clock now peer_id g entry =
     (case bindE (decode_block R (snd entry)) (\<lambda>block. bindE (block_hash_v2 E block) (\<lambda>h. Inr (block, h))) of
        Inl e \<Rightarrow> (g, Inl e)
      | Inr (block, h) \<Rightarrow>
          if h \<noteq> fst entry then (g, Inr (fst entry, HashMismatch))
          else
            let (c, known) = seen_has now h (re_seen g); g = g\<lparr>re_seen := c\<rparr> in
            if known then (drop_pending h g, Inr (h, Duplicate))
            else
              (case add_block_v2 E clock (re_ledger g) block of
                 Inl e \<Rightarrow> (g, Inl e)
               | Inr (L, ok) \<Rightarrow>
                   let g = g\<lparr>re_ledger := L\<rparr> in
                   if \<not> ok then (drop_pending h g, Inr (h, ConsensusRejected))
                   else settle_block E R be now peer_id h block g))"

fun relay_blocks :: "env \<Rightarrow> runtime \<Rightarrow> backend \<Rightarrow> int \<Rightarrow> rat \<Rightarrow> string \<Rightarrow> relay_engine \<Rightarrow> (string \<times> string) list
    \<Rightarrow> relay_engine \<times> (string \<times> block_status) list res" where
  "relay_blocks E R be clock now peer_id g [] = (g, Inr [])"
| "relay_blocks E R be clock now peer_id g (entry # entries) =
     (case relay_block E R be clock now peer_id g entry of
        (g, Inl e) \<Rightarrow> (g, Inl e)
      | (g, Inr r) \<Rightarrow>
          (case relay_blocks E R be clock now peer_id g entries of
             (g, Inl e) \<Rightarrow> (g, Inl e)
           | (g, Inr rs) \<Rightarrow> (g, Inr (r # rs))))"

text \<open>\<open>None\<close>: too many blocks.\<close>

definition relay_handle_block :: "env \<Rightarrow> runtime \<Rightarrow> backend \<Rightarrow> int \<Rightarrow> rat \<Rightarrow> relay_engine \<Rightarrow> string \<Rightarrow> bytes
    \<Rightarrow> relay_engine \<times> (string \<times> block_status) list option res" where
  "relay_handle_block E R be clock now g peer_id payload =
     (case decode_message R BLOCK payload of
        Inl e \<Rightarrow> (g, Inl e)
      | Inr m \<Rightarrow>
          if length (message_blocks m) > rl_max_blocks_response (re_limits g) then (g, Inr None)
          else (case relay_blocks E R be clock now peer_id g (message_blocks m) of
                  (g, Inl e) \<Rightarrow> (g, Inl e)
                | (g, Inr rs) \<Rightarrow> (g, Inr (Some rs))))"

section \<open>Serving blocks\<close>

text \<open>The search for a hash among the stored blocks: unreadable heights are skipped.\<close>

fun find_block :: "env \<Rightarrow> runtime \<Rightarrow> files \<Rightarrow> string \<Rightarrow> int list \<Rightarrow> block_v2 option res" where
  "find_block E R fs block_hash [] = Inr None"
| "find_block E R fs block_hash (h # hs) =
     (case read_block E R fs h of
        Inl e \<Rightarrow> if e = KeyError \<or> e = StorageIOError \<or> is_value_error e then find_block E R fs block_hash hs else Inl e
      | Inr candidate \<Rightarrow> bindE (block_hash_v2 E candidate) (\<lambda>ch.
          if ch = block_hash then Inr (Some candidate) else find_block E R fs block_hash hs))"

fun collect_blocks :: "env \<Rightarrow> runtime \<Rightarrow> relay_engine \<Rightarrow> string list \<Rightarrow> (string \<times> string) list \<Rightarrow> (string \<times> string) list res" where
  "collect_blocks E R g [] blocks = Inr blocks"
| "collect_blocks E R g (block_hash # hashes) blocks =
     bindE (find_block E R (re_files g) block_hash [0..ledger_height (re_ledger g)]) (\<lambda>found.
       case found of
         None \<Rightarrow> collect_blocks E R g hashes blocks
       | Some block \<Rightarrow>
           bindE (block_hash_v2 E block) (\<lambda>h. bindE (encode_block E block) (\<lambda>bytes_hex.
             let blocks = blocks @ [(h, bytes_hex)] in
             if length blocks \<ge> rl_max_blocks_response (re_limits g) then Inr blocks
             else collect_blocks E R g hashes blocks)))"

fun message_get_block :: "message \<Rightarrow> string list" where
  "message_get_block (MGetBlock hashes _) = hashes"
| "message_get_block _ = []"

definition handle_get_block :: "env \<Rightarrow> runtime \<Rightarrow> relay_engine \<Rightarrow> string \<Rightarrow> bytes \<Rightarrow> relay_reply res" where
  "handle_get_block E R g peer_id payload =
     bindE (decode_message R GET_BLOCK payload) (\<lambda>m.
       let hashes = message_get_block m in
       if length hashes > rl_max_blocks_response (re_limits g) then Inr RlRateLimited
       else bindE (collect_blocks E R g hashes []) (\<lambda>blocks.
         if blocks = [] then Inr RlUnknown
         else bindE (to_payload (MBlock blocks)) (\<lambda>p. Inr (RlSent p))))"

section \<open>Orphans\<close>

definition add_orphan :: "env \<Rightarrow> rat \<Rightarrow> relay_engine \<Rightarrow> block_v2 \<Rightarrow> relay_engine \<times> unit res" where
  "add_orphan E now g block =
     (if length (re_orphans g) \<ge> rl_max_orphan_blocks (re_limits g) \<and> re_orphans g = [] then (g, Inl KeyError)
      else
        let orphans = (if length (re_orphans g) \<ge> rl_max_orphan_blocks (re_limits g) then tl (re_orphans g) else re_orphans g);
            orphans = filter (\<lambda>(_, _, ts). \<not> now - ts > rl_orphan_max_age_seconds (re_limits g)) orphans in
        (case block_hash_v2 E block of
           Inl e \<Rightarrow> (g\<lparr>re_orphans := orphans\<rparr>, Inl e)
         | Inr h \<Rightarrow> (g\<lparr>re_orphans := AList.update h (block, now) orphans\<rparr>, Inr ())))"

end
