(* ===== verification/Json_Shape.thy ===== *)
theory Json_Shape
  imports Json_Access
begin

text \<open>
  What a value has learned on its way.  Whatever \<open>json.loads\<close> returns has distinct keys and
  floats that read as themselves, and whatever \<open>json.dumps(\<dots>, ensure_ascii=False)\<close> turns into
  UTF-8 holds no surrogate: together they give the values that survive a round trip.
\<close>

section \<open>Shape and texts\<close>

fun json_shape :: "(string \<Rightarrow> string) \<Rightarrow> json \<Rightarrow> bool" where
  "json_shape fl (JFloat f) = float_ok fl f"
| "json_shape fl (JList xs) = (\<forall>x \<in> set xs. json_shape fl x)"
| "json_shape fl (JDict d) = (distinct (map fst d) \<and> (\<forall>(k, v) \<in> set d. json_shape fl v))"
| "json_shape fl _ = True"

fun json_utf8 :: "json \<Rightarrow> bool" where
  "json_utf8 (JStr s) = utf8_valid s"
| "json_utf8 (JList xs) = (\<forall>x \<in> set xs. json_utf8 x)"
| "json_utf8 (JDict d) = (\<forall>(k, v) \<in> set d. utf8_valid k \<and> json_utf8 v)"
| "json_utf8 _ = True"

lemma json_wf_split: "json_wf fl j \<longleftrightarrow> json_shape fl j \<and> json_utf8 j"
  by (induction j) (fastforce simp: snds.simps)+

text \<open>Documented behaviour of the interpreter: \<open>float(repr(x)) == x\<close>, so the text of a float read from
  a literal is a literal that reads as itself (or one of the three words for no finite number).\<close>

definition float_reader :: "(string \<Rightarrow> string) \<Rightarrow> bool" where
  "float_reader fl \<longleftrightarrow> (\<forall>s f r. scan_number fl s = Some (JFloat f, r) \<longrightarrow> float_ok fl f)"

section \<open>What is read has the shape\<close>

lemma shape_dict_set: "(\<forall>(k, v) \<in> set d. json_shape fl v) \<Longrightarrow> json_shape fl v \<Longrightarrow> \<forall>(k, v) \<in> set (dict_set d k v). json_shape fl v"
  using set_dict_set [of d k v] by auto

lemma shape_dict_of:
  assumes "\<forall>(k, v) \<in> set kvs. json_shape fl v"
  shows "json_shape fl (JDict (dict_of kvs))"
proof -
  have "json_shape fl (JDict d) \<Longrightarrow> \<forall>(k, v) \<in> set kvs. json_shape fl v \<Longrightarrow>
      json_shape fl (JDict (foldl (\<lambda>d (k, v). dict_set d k v) d kvs))" for d
  proof (induction kvs arbitrary: d)
    case (Cons kv kvs)
    obtain k v where kv: "kv = (k, v)" by fastforce
    have "json_shape fl (JDict (dict_set d k v))"
      using Cons.prems kv distinct_dict_set [of d k v] shape_dict_set [of d fl v k] by simp
    with Cons kv show ?case by simp
  qed simp
  from this [of "[]"] assms show ?thesis by (simp add: dict_of_def)
qed

lemma shape_atom:
  assumes "float_reader fl" and "scan_atom fl s = Inr (j, z)"
  shows "json_shape fl j"
proof (cases "scan_literal literals s")
  case None
  with assms(2) have n: "scan_number fl s = Some (j, z)" by (simp add: scan_atom_def res_simps)
  then have "(\<exists>i. j = JInt i) \<or> (\<exists>f. j = JFloat f)"
    by (auto simp: scan_number_def Let_def split: list.split_asm if_split_asm option.split_asm prod.split_asm)
  with n assms(1) show ?thesis unfolding float_reader_def by auto blast
next
  case (Some r)
  with assms(2) have "scan_literal literals s = Some (j, z)" by (simp add: scan_atom_def)
  then have "j \<in> snd ` set literals"
    by (auto simp: literals_def split: option.split_asm)
  then show ?thesis by (auto simp: literals_def float_ok_def)
qed

lemma parse_shape:
  assumes "float_reader fl"
  shows "(\<forall>v r. parse_value fl s = Inr (v, r) \<longrightarrow> json_shape fl v)
   \<and> (\<forall>xs r. parse_items fl s = Inr (xs, r) \<longrightarrow> (\<forall>x \<in> set xs. json_shape fl x))
   \<and> (\<forall>kvs r. parse_members fl s = Inr (kvs, r) \<longrightarrow> (\<forall>(k, v) \<in> set kvs. json_shape fl v))"
proof (induction "length s" arbitrary: s rule: less_induct)
  case less
  have val: "json_shape fl v" if p: "parse_value fl s = Inr (v, r)" for v r
  proof (cases s)
    case (Cons c t)
    consider "c = quote" | "c = CHR ''{''" | "c = CHR ''[''" | "c \<noteq> quote" "c \<noteq> CHR ''{''" "c \<noteq> CHR ''[''"
      by blast
    then show ?thesis
    proof cases
      case 1
      with p Cons show ?thesis by (auto simp: parse_text_Inr)
    next
      case 2
      from p [unfolded Cons 2 parse_object_Inr] obtain d q where d: "skip_ws t = d # q"
        and v: "v = JDict [] \<or> (\<exists>kvs. parse_members fl q = Inr (kvs, r) \<and> v = JDict (dict_of kvs))" by blast
      from skip_ws_Cons [OF d] have q: "length q < length s" using Cons by auto
      from v show ?thesis
      proof (elim disjE exE conjE)
        fix kvs assume "parse_members fl q = Inr (kvs, r)" "v = JDict (dict_of kvs)"
        with less [OF q] shape_dict_of [of kvs fl] show ?thesis by (auto simp del: json_shape.simps)
      qed simp
    next
      case 3
      from p [unfolded Cons 3 parse_array_Inr] obtain d q where d: "skip_ws t = d # q"
        and v: "v = JList [] \<or> (\<exists>xs. parse_items fl (d # q) = Inr (xs, r) \<and> v = JList xs)" by blast
      from skip_ws_Cons [OF d] have "length (d # q) < length s" using Cons by auto
      with v less [of "d # q"] show ?thesis by auto
    next
      case 4
      with p Cons show ?thesis by (auto simp: parse_atom dest: shape_atom [OF assms])
    qed
  qed (use p in simp)
  moreover have "\<forall>x \<in> set xs. json_shape fl x" if p: "parse_items fl s = Inr (xs, r)" for xs r
  proof -
    from parse_items_Inr [THEN iffD1, OF p] obtain v y d q where v: "parse_value fl s = Inr (v, y)" and d: "skip_ws y = d # q"
      and r: "xs = [v] \<or> length q < length s \<and> (\<exists>vs. parse_items fl (skip_ws q) = Inr (vs, r) \<and> xs = v # vs)"
      by blast
    from parse_value_shrinks [OF v] skip_ws_Cons [OF d] have "length (skip_ws q) < length s"
      using length_skip_ws [of q] by linarith
    with r less [of "skip_ws q"] val [OF v] show ?thesis by auto
  qed
  moreover have "\<forall>(k, v) \<in> set kvs. json_shape fl v" if p: "parse_members fl s = Inr (kvs, r)" for kvs r
  proof -
    from parse_members_Inr [THEN iffD1, OF p] obtain q k v y where q: "length q < length s" and v: "parse_value fl (skip_ws q) = Inr (v, y)"
      and r: "kvs = [(k, v)] \<or> (\<exists>w kvs'. length w < length s \<and> parse_members fl w = Inr (kvs', r) \<and> kvs = (k, v) # kvs')"
      by blast
    from q have "length (skip_ws q) < length s" using length_skip_ws [of q] by linarith
    with less v have "json_shape fl v" by blast
    with r less show ?thesis by fastforce
  qed
  ultimately show ?case by blast
qed

lemma loads_shape:
  assumes "float_reader (rt_float R)" and "loads R b = Inr j"
  shows "json_shape (rt_float R) j"
proof -
  from assms(2) obtain s r where "parse_value (rt_float R) s = Inr (j, r)"
    by (auto simp: loads_def loads_bytes_def json_loads_def res_simps split: if_split_asm sum.split_asm)
  with parse_shape [OF assms(1), of s] show ?thesis by blast
qed

lemma jiter_shape:
  assumes "jiter j = Inr xs" and "json_shape fl j"
  shows "\<forall>x \<in> set xs. json_shape fl x"
  using assms by (cases j) (auto simp: of_option_def split: option.split_asm)

section \<open>What is written in UTF-8 has no surrogate\<close>

lemma text_points_cut:
  assumes "(of_char c :: nat) < 128"
  shows "text_points strict (s @ c # t) \<noteq> None \<Longrightarrow> text_points strict s \<noteq> None \<and> text_points strict t \<noteq> None"
proof (induction strict s rule: text_points.induct)
  case (1 strict)
  then show ?case using assms by (simp add: Let_def)
next
  case (2 strict d cs)
  have [simp]: "utf8_cont c = None" using assms by (simp add: utf8_cont_def)
  from 2 show ?case
    by (auto simp: Let_def split: if_split_asm list.split list.split_asm option.split_asm)
qed

lemma utf8_valid_cut: "utf8_valid (s @ c # t) \<Longrightarrow> (of_char c :: nat) < 128 \<Longrightarrow> utf8_valid s \<and> utf8_valid t"
  using text_points_cut [of c True s t] by (simp add: utf8_valid_def)

lemma utf8_valid_ascii_append: "ascii p \<Longrightarrow> utf8_valid (p @ s) \<longleftrightarrow> utf8_valid s"
  by (induction p) (auto simp: utf8_valid_def Let_def)

lemma escape_raw_ascii: "(of_char c :: nat) < 128 \<Longrightarrow> ascii (escape_raw c) \<and> escape_raw c \<noteq> []"
  using ascii_escape_point [of "of_char c"] by (auto simp: escape_raw_def Let_def escape_point_def)

lemma escape_raw_high: "\<not> (of_char c :: nat) < 128 \<Longrightarrow> escape_raw c = [c]"
  by (auto simp: escape_raw_def Let_def)

lemma text_points_ascii: "ascii p \<Longrightarrow> text_points strict (p @ s) \<noteq> None \<longleftrightarrow> text_points strict s \<noteq> None"
  by (induction p) (auto simp: Let_def)

text \<open>A continuation byte is never an escape, so the escapes fall between the code points.\<close>

lemma escape_raw_cont:
  assumes "concat (map escape_raw s) = d # u" and "utf8_cont d = Some x"
  obtains r where "s = d # r" and "u = concat (map escape_raw r)"
proof (cases s)
  case (Cons c r)
  have "\<not> (of_char c :: nat) < 128"
  proof
    assume c: "(of_char c :: nat) < 128"
    then obtain e v where e: "escape_raw c = e # v" "(of_char e :: nat) < 128"
      using escape_raw_ascii [OF c] by (cases "escape_raw c") auto
    with assms Cons show False by (auto simp: utf8_cont_def Let_def split: if_split_asm)
  qed
  with assms(1) Cons show ?thesis by (intro that [of r]) (simp_all add: escape_raw_high)
qed (use assms in simp)

lemma text_points_multi:
  assumes "\<not> (of_char c :: nat) < 128" and "text_points strict (c # s) \<noteq> None"
  shows "\<exists>ds r. s = ds @ r \<and> ds \<noteq> [] \<and> list_all (\<lambda>d. utf8_cont d \<noteq> None) ds \<and> text_points strict r \<noteq> None
    \<and> (\<forall>q. text_points strict q \<noteq> None \<longrightarrow> text_points strict (c # ds @ q) \<noteq> None)"
proof -
  let ?b = "of_char c :: nat"
  from assms(2) obtain ps where ps: "text_points strict (c # s) = Some ps" by blast
  note a = ps [unfolded text_points.simps Let_def if_not_P [OF assms(1)]]
  have "(194 \<le> ?b \<and> ?b \<le> 223) \<or> (224 \<le> ?b \<and> ?b \<le> 239) \<or> (240 \<le> ?b \<and> ?b \<le> 244)"
  proof (rule ccontr)
    assume "\<not> ?thesis"
    then have n: "\<not> (194 \<le> ?b \<and> ?b \<le> 223)" "\<not> (224 \<le> ?b \<and> ?b \<le> 239)" "\<not> (240 \<le> ?b \<and> ?b \<le> 244)" by blast+
    show False using a unfolding if_not_P [OF n(1)] if_not_P [OF n(2)] if_not_P [OF n(3)] by simp
  qed
  then consider (two) "194 \<le> ?b" "?b \<le> 223" | (three) "224 \<le> ?b" "?b \<le> 239" | (four) "240 \<le> ?b" "?b \<le> 244"
    by blast
  then show ?thesis
  proof cases
    case two
    with a obtain d r where "s = [d] @ r" "utf8_cont d \<noteq> None" "text_points strict r \<noteq> None"
      by (auto split: list.split_asm option.split_asm)
    with two show ?thesis by (intro exI [of _ "[d]"] exI [of _ r]) (auto simp: Let_def)
  next
    case three
    then have n: "\<not> (194 \<le> ?b \<and> ?b \<le> 223)" by simp
    note p = a [unfolded if_not_P [OF n] if_P [OF conjI [OF three]]]
    from p obtain d e r where s: "s = d # e # r" by (auto split: list.split_asm)
    from p obtain x where x: "utf8_cont d = Some x" unfolding s by (cases "utf8_cont d") auto
    from p obtain y where y: "utf8_cont e = Some y" unfolding s by (cases "utf8_cont e") (auto simp: x)
    from p have c: "\<not> (?b = 224 \<and> x < 32 \<or> strict \<and> ?b = 237 \<and> 32 \<le> x)"
      by (simp add: s x y del: de_Morgan_disj split: if_split_asm)
    from p have r: "text_points strict r \<noteq> None" by (simp add: s x y if_not_P [OF c] del: de_Morgan_disj) blast
    have "text_points strict (c # [d, e] @ q) \<noteq> None" if "text_points strict q \<noteq> None" for q
      using that by (simp only: text_points.simps Let_def append.simps list.case x y option.case prod.case
        if_not_P [OF assms(1)] if_not_P [OF n] if_P [OF conjI [OF three]] if_not_P [OF c] option.map_disc_iff simp_thms)
    with r x y s show ?thesis by (intro exI [of _ "[d, e]"] exI [of _ r]) simp
  next
    case four
    then have n: "\<not> (194 \<le> ?b \<and> ?b \<le> 223)" "\<not> (224 \<le> ?b \<and> ?b \<le> 239)" by simp_all
    note p = a [unfolded if_not_P [OF n(1)] if_not_P [OF n(2)] if_P [OF conjI [OF four]]]
    from p obtain d e f r where s: "s = d # e # f # r" by (auto split: list.split_asm)
    from p obtain x where x: "utf8_cont d = Some x" unfolding s by (cases "utf8_cont d") auto
    from p obtain y where y: "utf8_cont e = Some y" unfolding s by (cases "utf8_cont e") (auto simp: x)
    from p obtain z where z: "utf8_cont f = Some z" unfolding s by (cases "utf8_cont f") (auto simp: x y)
    from p have c: "\<not> (?b = 240 \<and> x < 16 \<or> ?b = 244 \<and> 16 \<le> x)"
      by (simp add: s x y z del: de_Morgan_disj split: if_split_asm)
    from p have r: "text_points strict r \<noteq> None" by (simp add: s x y z if_not_P [OF c] del: de_Morgan_disj) blast
    have "text_points strict (c # [d, e, f] @ q) \<noteq> None" if "text_points strict q \<noteq> None" for q
      using that by (simp only: text_points.simps Let_def append.simps list.case x y z option.case prod.case
        if_not_P [OF assms(1)] if_not_P [OF n(1)] if_not_P [OF n(2)] if_P [OF conjI [OF four]] if_not_P [OF c] option.map_disc_iff simp_thms)
    with r x y z s show ?thesis by (intro exI [of _ "[d, e, f]"] exI [of _ r]) simp
  qed
qed

lemma escape_raw_conts:
  "concat (map escape_raw s) = ds @ u \<Longrightarrow> list_all (\<lambda>d. utf8_cont d \<noteq> None) ds \<Longrightarrow> \<exists>r. s = ds @ r \<and> u = concat (map escape_raw r)"
proof (induction ds arbitrary: s)
  case (Cons d ds)
  from Cons.prems(2) obtain x where "utf8_cont d = Some x" by auto
  with Cons.prems(1) obtain r where "s = d # r" "ds @ u = concat (map escape_raw r)" by (auto elim: escape_raw_cont)
  with Cons show ?case by fastforce
qed auto

lemma text_points_escape_raw:
  "text_points strict (concat (map escape_raw s)) \<noteq> None \<Longrightarrow> text_points strict s \<noteq> None"
proof (induction s rule: length_induct)
  case (1 s)
  let ?esc = "\<lambda>s. concat (map escape_raw s)"
  show ?case
  proof (cases s)
    case (Cons c cs)
    show ?thesis
    proof (cases "(of_char c :: nat) < 128")
      case True
      from "1.prems" Cons have "text_points strict (escape_raw c @ ?esc cs) \<noteq> None" by simp
      then have "text_points strict (?esc cs) \<noteq> None" using text_points_ascii escape_raw_ascii [OF True] by blast
      with "1.IH" Cons True show ?thesis by (simp add: Let_def)
    next
      case False
      from "1.prems" False Cons have "text_points strict (c # ?esc cs) \<noteq> None" by (simp add: escape_raw_high)
      from text_points_multi [OF False this] obtain ds q where q: "?esc cs = ds @ q" "list_all (\<lambda>d. utf8_cont d \<noteq> None) ds"
        and ok: "text_points strict q \<noteq> None" "\<And>q. text_points strict q \<noteq> None \<Longrightarrow> text_points strict (c # ds @ q) \<noteq> None"
        by blast
      from escape_raw_conts [OF q] obtain r where r: "cs = ds @ r" "q = ?esc r" by blast
      with "1.IH" ok(1) Cons have "text_points strict r \<noteq> None" by simp
      from ok(2) [OF this] Cons r show ?thesis by simp
    qed
  qed simp
qed

lemma utf8_valid_raw_text: "utf8_valid (raw_text s) \<Longrightarrow> utf8_valid s"
proof -
  assume "utf8_valid (raw_text s)"
  then have "utf8_valid (concat (map escape_raw s) @ CHR 0x22 # [])"
    by (simp add: raw_text_def utf8_valid_def Let_def del: map_map split: option.split_asm)
  then have "utf8_valid (concat (map escape_raw s))" by (rule utf8_valid_cut [THEN conjunct1]) simp
  then show ?thesis using text_points_escape_raw [of True s] by (simp add: utf8_valid_def)
qed

lemma utf8_valid_join: "utf8_valid (join '','' ts) \<Longrightarrow> t \<in> set ts \<Longrightarrow> utf8_valid t"
proof (induction "'',''" ts rule: join.induct)
  case (3 x y xs)
  have "utf8_valid x \<and> utf8_valid (join '','' (y # xs))" by (rule utf8_valid_cut [of _ "CHR '',''"]) (use 3(2) in simp_all)
  with 3 show ?case by auto
qed simp_all

lemma record_style_fields:
  "js_item record_style = '',''" "js_key record_style = '':''" "js_indent record_style = None" "\<not> js_ascii record_style"
  by (simp_all add: record_style_def compact_style_def canonical_style_def)

lemma record_bracket: "bracket record_style d op cl ts = op @ join '','' ts @ cl"
  by (simp add: bracket_def line_break_def record_style_fields)

lemma utf8_valid_bracket:
  assumes "utf8_valid (bracket record_style d [a] [z] ts)" and "(of_char a :: nat) < 128" and "(of_char z :: nat) < 128" and "t \<in> set ts"
  shows "utf8_valid t"
proof -
  from assms(1) have "utf8_valid ([] @ a # (join '','' ts @ [z]))" by (simp add: record_bracket)
  then have "utf8_valid (join '','' ts @ z # [])" by (rule utf8_valid_cut [OF _ assms(2), THEN conjunct2])
  then have "utf8_valid (join '','' ts)" by (rule utf8_valid_cut [OF _ assms(3), THEN conjunct1])
  then show ?thesis by (rule utf8_valid_join [OF _ assms(4)])
qed

lemma jdump_utf8: "jdump record_style d j = Some t \<Longrightarrow> utf8_valid t \<Longrightarrow> json_utf8 j"
proof (induction j arbitrary: d t)
  case (JStr s)
  then show ?case by (auto simp: style_text_def record_style_fields dest: utf8_valid_raw_text)
next
  case (JList xs)
  then obtain ts where ts: "jdump_list record_style (Suc d) xs = Some ts" and t: "t = bracket record_style d ''['' '']'' ts" by auto
  have "json_utf8 x" if "x \<in> set xs" for x
  proof -
    have "jdump record_style (Suc d) x \<noteq> None" using ts that jdump_None(1,2) [of record_style "Suc d"] by (metis option.distinct(1))
    then obtain u where u: "jdump record_style (Suc d) x = Some u" by blast
    with jdump_list_set [OF ts] that have "u \<in> set ts" by force
    then have "utf8_valid u" by - (rule utf8_valid_bracket [OF JList.prems(2) [unfolded t]], simp_all)
    with JList.IH [OF that u] show ?thesis by simp
  qed
  then show ?case by simp
next
  case (JDict kvs)
  then obtain its where its: "jdump_items record_style (Suc d) kvs = Some its"
    and t: "t = bracket record_style d ''{'' ''}'' (map snd (sort_key fst its))" by auto
  have "utf8_valid k \<and> json_utf8 v" if kv: "(k, v) \<in> set kvs" for k v
  proof -
    have "style_text record_style k \<noteq> None" "jdump record_style (Suc d) v \<noteq> None"
      using its kv jdump_None(1,3) [of record_style "Suc d"] by (metis option.distinct(1) style_text_None case_prodD)+
    then obtain kt vt where k: "style_text record_style k = Some kt" and v: "jdump record_style (Suc d) v = Some vt" by blast
    then have kt: "kt = raw_text k" by (simp add: style_text_def record_style_fields)
    have "(k, kt @ '':'' @ vt) \<in> set its"
      using jdump_items_set [OF its] kv k v by (force simp: item_text_def record_style_fields)
    then have "kt @ '':'' @ vt \<in> set (map snd (sort_key fst its))" by force
    then have "utf8_valid (kt @ '':'' @ vt)" by - (rule utf8_valid_bracket [OF JDict.prems(2) [unfolded t]], simp_all)
    then have "utf8_valid kt \<and> utf8_valid vt" by (intro utf8_valid_cut [of _ "CHR '':''"]) simp_all
    with JDict.IH [OF kv, of v "Suc d" vt] v kt show ?thesis by (auto simp: snds.simps dest: utf8_valid_raw_text)
  qed
  then show ?case by auto
qed simp_all

lemma dumps_bytes_utf8: "dumps_bytes record_style j = Inr b \<Longrightarrow> json_utf8 j"
  by (auto simp: dumps_bytes_def json_dumps_def encode_utf8_def res_simps split: if_split_asm dest: jdump_utf8)

section \<open>An interpreter that keeps the text of a float\<close>

lemma digits_stop:
  "takeWhile is_digit (takeWhile is_digit s) = takeWhile is_digit s" "dropWhile is_digit (takeWhile is_digit s) = []"
  by (auto simp: takeWhile_eq_all_conv dropWhile_eq_Nil_conv dest: set_takeWhileD)

lemma digits_stop_before:
  "t = [] \<or> \<not> is_digit (hd t) \<Longrightarrow> takeWhile is_digit (takeWhile is_digit s @ t) = takeWhile is_digit s"
  "t = [] \<or> \<not> is_digit (hd t) \<Longrightarrow> dropWhile is_digit (takeWhile is_digit s @ t) = t"
  by (cases t; auto simp: takeWhile_append dropWhile_append dest: set_takeWhileD)+

lemma exp_stops:
  assumes "scan_exp s = (ex, r)"
  shows "scan_exp ex = (ex, []) \<and> (ex = [] \<or> hd ex = CHR ''e'' \<or> hd ex = CHR ''E'')"
  using assms
  by (auto simp: scan_exp_def scan_sign_def digits_stop split: list.split_asm if_split_asm)

lemma frac_stops:
  assumes "scan_frac s = (fr, r)" and "ex = [] \<or> hd ex = CHR ''e'' \<or> hd ex = CHR ''E''"
  shows "scan_frac (fr @ ex) = (fr, ex) \<and> (fr = [] \<or> hd fr = CHR ''.'')"
proof -
  have ex: "ex = [] \<or> \<not> is_digit (hd ex)" using assms(2) by (auto simp: is_digit_def)
  have "scan_frac ex = ([], ex)" using assms(2) by (cases ex) (auto simp: scan_frac_def split: list.split)
  with assms(1) digits_stop_before [OF ex] show ?thesis
    by (auto simp: scan_frac_def split: list.split_asm if_split_asm)
qed

lemma int_stops:
  assumes "scan_int s = Some (ds, r)" and "t = [] \<or> \<not> is_digit (hd t)"
  shows "scan_int (ds @ t) = Some (ds, t) \<and> ds \<noteq> [] \<and> is_digit (hd ds)"
  using assms(1) digits_stop_before [OF assms(2)]
  by (auto simp: scan_int_def is_digit_zero split: list.split_asm if_split_asm)

lemma scan_number_stops:
  assumes "scan_number id s = Some (JFloat f, r)"
  shows "scan_number id f = Some (JFloat f, [])"
proof -
  obtain neg s1 where neg: "(case s of c # r \<Rightarrow> if c = CHR ''-'' then (True, r) else (False, s) | [] \<Rightarrow> (False, s)) = (neg, s1)"
    by fastforce
  with assms obtain ds s2 fr s3 ex where i: "scan_int s1 = Some (ds, s2)" and f: "scan_frac s2 = (fr, s3)"
    and e: "scan_exp s3 = (ex, r)" and ne: "\<not> (fr = [] \<and> ex = [])" and t: "f = (if neg then ''-'' else []) @ ds @ fr @ ex"
    by (auto simp: scan_number_def Let_def split: option.split_asm prod.split_asm if_split_asm)
  note e = exp_stops [OF e]
  note f = frac_stops [OF f e [THEN conjunct2]]
  have "fr @ ex = [] \<or> \<not> is_digit (hd (fr @ ex))"
    using e f ne by (cases "fr = []") (auto simp: is_digit_def hd_append)
  note i = int_stops [OF i this]
  have "hd ds \<noteq> CHR ''-''" using i by (auto simp: is_digit_def)
  then have "(case f of c # r \<Rightarrow> if c = CHR ''-'' then (True, r) else (False, f) | [] \<Rightarrow> (False, f)) = (neg, ds @ fr @ ex)"
    using i by (cases ds) (auto simp: t)
  then show ?thesis unfolding scan_number_def Let_def using i f e ne by (simp add: t)
qed

lemma demo_float_reader: "float_reader (rt_float demo_runtime)"
  using scan_number_stops by (auto simp: float_reader_def float_ok_def demo_runtime_def)

end
