(* ===== verification/Relay_Props.thy ===== *)
theory Relay_Props
  imports Relay Ledger_Tip Store_Live Json_Shape
begin

text \<open>
  What the relay guarantees: its tables stay within their limits whatever the peers send, the ledger
  stays valid, and as long as no write to the storage fails the storage holds exactly the chain of
  the ledger.
\<close>

section \<open>Bounds\<close>

definition seen_ok :: "relay_seen_cache \<Rightarrow> bool" where
  "seen_ok c \<longleftrightarrow> distinct (map fst (sc_cache c)) \<and> length (sc_cache c) \<le> sc_max_entries c"

lemma seen_ok_filter: "seen_ok c \<Longrightarrow> seen_ok (c\<lparr>sc_cache := filter P (sc_cache c)\<rparr>)"
  by (auto simp: seen_ok_def distinct_map_filter intro: order_trans [OF length_filter_le])

lemma seen_ok_has: "seen_ok c \<Longrightarrow> seen_ok (fst (seen_has now h c))"
  using seen_ok_filter [of c "\<lambda>e. fst e \<noteq> h"] by (auto simp: seen_has_def split: option.split)

lemma seen_ok_evict: "seen_ok c \<Longrightarrow> seen_ok (seen_evict_expired now c)"
  unfolding seen_evict_expired_def by (rule seen_ok_filter)

lemma seen_ok_add:
  assumes "seen_ok c"
  shows "seen_ok (fst (seen_add now h p c))"
proof -
  have c: "seen_ok (seen_evict_expired now c)" by (rule seen_ok_evict [OF assms])
  show ?thesis
  proof (cases "sc_cache (seen_evict_expired now c)")
    case Nil
    then show ?thesis using c by (simp add: seen_add_def Let_def seen_ok_def)
  next
    case (Cons e es)
    then show ?thesis using c by (auto simp: seen_add_def Let_def seen_ok_def)
  qed
qed

lemma seen_limits [simp]:
  "sc_max_entries (fst (seen_has now h c)) = sc_max_entries c" "sc_max_entries (fst (seen_add now h p c)) = sc_max_entries c"
  by (simp_all add: seen_has_def seen_add_def seen_evict_expired_def Let_def split: option.split list.split)

definition relay_wf :: "relay_engine \<Rightarrow> bool" where
  "relay_wf g \<longleftrightarrow> seen_ok (re_seen g) \<and> sc_max_entries (re_seen g) = rl_seen_cache_size (re_limits g)
     \<and> distinct (map fst (re_pending g)) \<and> length (re_pending g) \<le> rl_max_get_block_burst (re_limits g)
     \<and> length (re_orphans g) \<le> rl_max_orphan_blocks (re_limits g)
     \<and> (\<forall>w \<in> ran (re_inv_times g). length w \<le> rl_max_inv_per_peer_per_minute (re_limits g))"

text \<open>The engine after a change of the seen cache.\<close>

lemma relay_wf_seen:
  assumes "relay_wf g"
  shows "relay_wf (g\<lparr>re_seen := fst (seen_has now h (re_seen g))\<rparr>)" "relay_wf (g\<lparr>re_seen := fst (seen_add now h p (re_seen g))\<rparr>)"
  using assms by (simp_all add: relay_wf_def seen_ok_has seen_ok_add)

lemma request_hashes_wf:
  "relay_wf g \<Longrightarrow> relay_wf (fst (request_hashes now p g hs)) \<and> re_ledger (fst (request_hashes now p g hs)) = re_ledger g
     \<and> re_files (fst (request_hashes now p g hs)) = re_files g \<and> re_limits (fst (request_hashes now p g hs)) = re_limits g"
proof (induction hs arbitrary: g)
  case (Cons h hs)
  obtain c known where c: "seen_has now h (re_seen g) = (c, known)" by fastforce
  have w: "relay_wf (g\<lparr>re_seen := c\<rparr>)" using relay_wf_seen(1) [OF Cons.prems, of now h] c by simp
  let ?state = "\<lparr>rq_block_hash = h, rq_peer_id = p, rq_timestamp = now, rq_retry_count = 0\<rparr>"
  let ?g = "g\<lparr>re_seen := c, re_pending := re_pending g @ [(h, ?state)]\<rparr>"
  have run: "fst (request_hashes now p g (h # hs)) =
      (if known then fst (request_hashes now p (g\<lparr>re_seen := c\<rparr>) hs)
       else if length (re_pending g) \<ge> rl_max_get_block_burst (re_limits g) then g\<lparr>re_seen := c\<rparr>
       else if h \<in> fst ` set (re_pending g) then fst (request_hashes now p (g\<lparr>re_seen := c\<rparr>) hs)
       else fst (request_hashes now p ?g hs))"
    by (simp add: c Let_def split: prod.split)
  have "relay_wf ?g" if "\<not> length (re_pending g) \<ge> rl_max_get_block_burst (re_limits g)" "h \<notin> fst ` set (re_pending g)"
    using w that by (simp add: relay_wf_def)
  then show ?case unfolding run using Cons.IH [OF w] Cons.IH [of ?g] w by simp
qed simp

lemma check_rate_bound:
  assumes "\<forall>w \<in> ran buckets. length w \<le> n" and "check_rate buckets p n now = (buckets', ok)"
  shows "\<forall>w \<in> ran buckets'. length w \<le> n"
proof -
  let ?w = "dropWhile (\<lambda>t. t < now - 60) (case buckets p of None \<Rightarrow> [] | Some w \<Rightarrow> w)"
  have old: "buckets q = Some w \<Longrightarrow> length w \<le> n" for q w using assms(1) by (auto intro: ranI)
  have "length ?w \<le> n"
    using old [of p] length_dropWhile_le [of "\<lambda>t. t < now - 60"] by (auto split: option.split intro: order_trans)
  moreover have "buckets' = buckets(p \<mapsto> (if length ?w \<ge> n then ?w else ?w @ [now]))"
    using assms(2) by (auto simp: check_rate_def Let_def split: if_split_asm)
  ultimately show ?thesis using old unfolding ran_def by (auto split: if_split_asm)
qed

lemma handle_inv_wf:
  assumes "relay_wf g"
  shows "relay_wf (fst (handle_inv R now g p payload)) \<and> re_ledger (fst (handle_inv R now g p payload)) = re_ledger g"
proof (cases "decode_message R INVENTORY payload")
  case (Inr m)
  obtain ty hs where m: "message_inventory m = (ty, hs)" by fastforce
  obtain b ok where b: "check_rate (re_inv_times g) p (rl_max_inv_per_peer_per_minute (re_limits g)) now = (b, ok)" by fastforce
  have "relay_wf (g\<lparr>re_inv_times := b\<rparr>)"
    using assms check_rate_bound [OF _ b] by (simp add: relay_wf_def)
  moreover obtain g1 req where "request_hashes now p (g\<lparr>re_inv_times := b\<rparr>) hs = (g1, req)" by fastforce
  ultimately show ?thesis
    using assms request_hashes_wf [of "g\<lparr>re_inv_times := b\<rparr>" now p hs] by (simp add: handle_inv_def Inr m b Let_def)
qed (simp add: handle_inv_def assms)

lemma relay_wf_local [simp]:
  "relay_wf (g\<lparr>re_ledger := L\<rparr>) = relay_wf g" "relay_wf (g\<lparr>re_files := fs\<rparr>) = relay_wf g" "relay_wf (g\<lparr>re_announce := hs\<rparr>) = relay_wf g"
  by (simp_all add: relay_wf_def)

lemma drop_pending_wf: "relay_wf g \<Longrightarrow> relay_wf (drop_pending h g)"
  by (auto simp: relay_wf_def drop_pending_def distinct_map_filter intro: order_trans [OF length_filter_le])

lemma try_connect_wf: "relay_wf g \<Longrightarrow> relay_wf (try_connect_orphans h g)"
  by (auto simp: relay_wf_def try_connect_orphans_def intro: order_trans [OF length_filter_le])

lemma engine_fields [simp]:
  "re_ledger (drop_pending h g) = re_ledger g" "re_ledger (try_connect_orphans h g) = re_ledger g"
  "re_files (drop_pending h g) = re_files g" "re_files (try_connect_orphans h g) = re_files g"
  by (simp_all add: drop_pending_def try_connect_orphans_def)

section \<open>One relayed block\<close>

text \<open>The outcomes of \<open>relay_block\<close>, with what it did to the ledger and the files.\<close>

definition relay_same :: "relay_engine \<Rightarrow> relay_engine \<Rightarrow> (string \<times> block_status) res \<Rightarrow> bool" where
  "relay_same g g' r \<longleftrightarrow> re_ledger g' = re_ledger g \<and> re_files g' = re_files g
     \<and> (\<forall>h. r \<noteq> Inr (h, Accepted) \<and> r \<noteq> Inr (h, StorageFailed))"

definition relay_added :: "env \<Rightarrow> runtime \<Rightarrow> backend \<Rightarrow> int \<Rightarrow> relay_engine \<Rightarrow> string \<times> string \<Rightarrow> relay_engine
    \<Rightarrow> (string \<times> block_status) res \<Rightarrow> bool" where
  "relay_added E R be clock g entry g' r \<longleftrightarrow>
     (\<exists>b h st. decode_block R (snd entry) = Inr b \<and> add_block_v2 E clock (re_ledger g) b = Inr (re_ledger g', True)
        \<and> store_relayed E R be (re_ledger g') b (re_files g) = (re_files g', st)
        \<and> (case st of Inl _ \<Rightarrow> r = Inr (h, StorageFailed) | Inr _ \<Rightarrow> r = Inr (h, Accepted) \<or> r = Inl KeyError))"

lemma relay_addedI:
  assumes "decode_block R (snd entry) = Inr b" and "add_block_v2 E clock (re_ledger g) b = Inr (re_ledger g', True)"
    and "store_relayed E R be (re_ledger g') b (re_files g) = (re_files g', st)"
    and "case st of Inl _ \<Rightarrow> r = Inr (h, StorageFailed) | Inr _ \<Rightarrow> r = Inr (h, Accepted) \<or> r = Inl KeyError"
  shows "relay_added E R be clock g entry g' r"
  unfolding relay_added_def using assms by blast

lemma settle_block_cases:
  assumes "settle_block E R be now p h b g = (g', r)"
  shows "\<exists>st. store_relayed E R be (re_ledger g) b (re_files g) = (re_files g', st) \<and> re_ledger g' = re_ledger g
    \<and> (case st of Inl _ \<Rightarrow> r = Inr (h, StorageFailed) | Inr _ \<Rightarrow> r = Inr (h, Accepted) \<or> r = Inl KeyError)"
    and "relay_wf g \<Longrightarrow> relay_wf g'"
proof -
  obtain fs st where st: "store_relayed E R be (re_ledger g) b (re_files g) = (fs, st)" by fastforce
  obtain c r2 where c: "seen_add now h p (re_seen g) = (c, r2)" by fastforce
  have r2: "r2 = Inr () \<or> r2 = Inl KeyError"
    using c by (auto simp: seen_add_def Let_def split: if_split_asm list.split_asm)
  note run = assms [unfolded settle_block_def st Let_def prod.case]
  show "\<exists>st. store_relayed E R be (re_ledger g) b (re_files g) = (re_files g', st) \<and> re_ledger g' = re_ledger g
    \<and> (case st of Inl _ \<Rightarrow> r = Inr (h, StorageFailed) | Inr _ \<Rightarrow> r = Inr (h, Accepted) \<or> r = Inl KeyError)"
    using run st c r2 by (intro exI [of _ st]) (auto split: sum.split_asm)
  assume w: "relay_wf g"
  have "relay_wf (g\<lparr>re_files := fs, re_seen := c\<rparr>)" using relay_wf_seen(2) [of "g\<lparr>re_files := fs\<rparr>" now h p] w c by simp
  then show "relay_wf g'"
    using run c w by (auto split: sum.split_asm intro!: try_connect_wf drop_pending_wf)
qed

lemma relay_block_cases:
  assumes "relay_block E R be clock now p g entry = (g', r)"
  shows "(relay_same g g' r \<or> relay_added E R be clock g entry g' r) \<and> (relay_wf g \<longrightarrow> relay_wf g')"
  proof (cases "bindE (decode_block R (snd entry)) (\<lambda>block. bindE (block_hash_v2 E block) (\<lambda>h. Inr (block, h)))")
    case (Inl e)
    then have "g' = g" "r = Inl e" using assms by (simp_all add: relay_block_def)
    then show ?thesis by (simp add: relay_same_def)
  next
    case (Inr x)
    obtain b h where x: "x = (b, h)" by (cases x)
    note dec = Inr [unfolded x]
    from dec have b: "decode_block R (snd entry) = Inr b" by (auto simp: res_simps)
    obtain c known where c: "seen_has now h (re_seen g) = (c, known)" by fastforce
    let ?g = "g\<lparr>re_seen := c\<rparr>"
    have w: "relay_wf g \<Longrightarrow> relay_wf ?g" using relay_wf_seen(1) [of g now h] c by simp
    show ?thesis
    proof (cases "h \<noteq> fst entry \<or> known")
      case True
      then show ?thesis using assms dec c w by (auto simp: relay_block_def relay_same_def Let_def drop_pending_wf split: if_split_asm)
    next
      case False
      note live = this
      show ?thesis
      proof (cases "add_block_v2 E clock (re_ledger g) b")
        case (Inl e)
        then show ?thesis using assms dec c live w by (auto simp: relay_block_def relay_same_def Let_def)
      next
        case (Inr y)
        obtain L ok where y: "y = (L, ok)" by (cases y)
        note add = Inr [unfolded y]
        show ?thesis
        proof (cases ok)
          case False
          then have "L = re_ledger g" using add_block_v2_Inr(1) [OF add] by simp
          then show ?thesis using assms dec c live add False w by (auto simp: relay_block_def relay_same_def Let_def drop_pending_wf)
        next
          case True
          have run: "settle_block E R be now p h b (?g\<lparr>re_ledger := L\<rparr>) = (g', r)"
            using assms dec c live add True by (auto simp: relay_block_def Let_def)
          from settle_block_cases(1) [OF run] obtain st where st: "store_relayed E R be L b (re_files g) = (re_files g', st)" "re_ledger g' = L"
            "case st of Inl _ \<Rightarrow> r = Inr (h, StorageFailed) | Inr _ \<Rightarrow> r = Inr (h, Accepted) \<or> r = Inl KeyError" by auto
          have "relay_added E R be clock g entry g' r"
            by (rule relay_addedI [of R entry b E clock g g' be st r h]) (use b add True st in simp_all)
          moreover have "relay_wf g \<longrightarrow> relay_wf g'" using settle_block_cases(2) [OF run] w by simp
          ultimately show ?thesis by blast
        qed
      qed
    qed
qed

section \<open>Whole messages\<close>

lemma relay_same_refl: "\<forall>h. r \<noteq> Inr (h, Accepted) \<and> r \<noteq> Inr (h, StorageFailed) \<Longrightarrow> relay_same g g r"
  by (simp add: relay_same_def)

lemma relay_blocks_keep:
  assumes "\<And>g entry g' r. P g \<Longrightarrow> relay_block E R be clock now p g entry = (g', r) \<Longrightarrow> P g'"
  shows "P g \<Longrightarrow> P (fst (relay_blocks E R be clock now p g entries))"
proof (induction entries arbitrary: g)
  case (Cons entry entries)
  obtain g1 r where r: "relay_block E R be clock now p g entry = (g1, r)" by fastforce
  have "P g1" by (rule assms [OF Cons.prems r])
  moreover obtain g2 r2 where r2: "relay_blocks E R be clock now p g1 entries = (g2, r2)" by fastforce
  ultimately show ?case using Cons.IH [of g1] by (cases r; cases r2) (simp_all add: r)
qed simp

lemma handle_block_keep:
  assumes "\<And>g entry g' r. P g \<Longrightarrow> relay_block E R be clock now p g entry = (g', r) \<Longrightarrow> P g'" and "P g"
  shows "P (fst (relay_handle_block E R be clock now g p payload))"
proof -
  have "P (fst (relay_blocks E R be clock now p g es))" for es
    by (rule relay_blocks_keep [where P = P, OF _ assms(2)]) (rule assms(1))
  with assms(2) show ?thesis by (auto simp: relay_handle_block_def split: sum.split prod.split) (metis fst_conv)+
qed

lemma relay_block_valid:
  assumes "relay_wf g \<and> chain_valid E limit (re_ledger g)" and "relay_block E R be clock now p g entry = (g', r)" and "clock \<le> limit"
  shows "relay_wf g' \<and> chain_valid E limit (re_ledger g')"
proof -
  note c = relay_block_cases [OF assms(2)]
  from c have "relay_wf g'" using assms(1) by blast
  moreover have "chain_valid E limit (re_ledger g')"
  proof (cases "relay_same g g' r")
    case True
    then show ?thesis using assms(1) by (simp add: relay_same_def)
  next
    case False
    with c obtain b where "add_block_v2 E clock (re_ledger g) b = Inr (re_ledger g', True)" by (auto simp: relay_added_def)
    then show ?thesis using chain_valid_add [of E limit "re_ledger g" clock "AnyV2 b"] assms(1,3) by simp
  qed
  ultimately show ?thesis by blast
qed

inductive relay_step :: "env \<Rightarrow> runtime \<Rightarrow> backend \<Rightarrow> int \<Rightarrow> relay_engine \<Rightarrow> relay_engine \<Rightarrow> bool" for E R be limit where
  inv: "relay_step E R be limit g (fst (handle_inv R now g p payload))"
| block: "clock \<le> limit \<Longrightarrow> relay_step E R be limit g (fst (relay_handle_block E R be clock now g p payload))"
| local: "relay_step E R be limit g (fst (on_local_block E now g b))"
| orphan: "relay_step E R be limit g (fst (add_orphan E now g b))"
| announce: "relay_step E R be limit g (fst (create_inv_message g hs))"

lemma on_local_wf: "relay_wf g \<Longrightarrow> relay_wf (fst (on_local_block E now g b)) \<and> re_ledger (fst (on_local_block E now g b)) = re_ledger g"
proof (cases "block_hash_v2 E b")
  case (Inr h)
  assume w: "relay_wf g"
  obtain c k where c: "seen_has now h (re_seen g) = (c, k)" by fastforce
  obtain c2 r where c2: "seen_add now h ''local'' c = (c2, r)" by fastforce
  have w1: "relay_wf (g\<lparr>re_seen := c\<rparr>)" using relay_wf_seen(1) [OF w, of now h] c by simp
  then have "relay_wf (g\<lparr>re_seen := c2\<rparr>)" using relay_wf_seen(2) [OF w1, of now h "''local''"] c2 by simp
  then show ?thesis using w1 by (simp add: on_local_block_def Inr c c2 Let_def split: sum.split)
qed (simp add: on_local_block_def)

lemma relay_wf_orphans: "relay_wf g \<Longrightarrow> length os \<le> rl_max_orphan_blocks (re_limits g) \<Longrightarrow> relay_wf (g\<lparr>re_orphans := os\<rparr>)"
  by (simp add: relay_wf_def)

lemma length_update: "length (AList.update k v d) \<le> Suc (length d)"
  by (induction d) auto

lemma add_orphan_wf: "relay_wf g \<Longrightarrow> relay_wf (fst (add_orphan E now g b)) \<and> re_ledger (fst (add_orphan E now g b)) = re_ledger g"
proof -
  assume w: "relay_wf g"
  let ?m = "rl_max_orphan_blocks (re_limits g)"
  define old where "old = (if length (re_orphans g) \<ge> ?m then tl (re_orphans g) else re_orphans g)"
  define f where "f = filter (\<lambda>(_, _, ts). \<not> now - ts > rl_orphan_max_age_seconds (re_limits g)) old"
  show ?thesis
  proof (cases "length (re_orphans g) \<ge> ?m \<and> re_orphans g = []")
    case True
    then show ?thesis using w unfolding add_orphan_def if_P [OF True] by simp
  next
    case False
    then have "length old < ?m" using w by (cases "re_orphans g") (auto simp: relay_wf_def old_def)
    then have f: "length f < ?m" unfolding f_def by (rule le_less_trans [OF length_filter_le])
    have u: "length (AList.update h x f) \<le> ?m" for h x using f length_update [of h x f] by linarith
    have "fst (add_orphan E now g b) = (case block_hash_v2 E b of Inl _ \<Rightarrow> g\<lparr>re_orphans := f\<rparr>
        | Inr h \<Rightarrow> g\<lparr>re_orphans := AList.update h (b, now) f\<rparr>)"
      unfolding add_orphan_def if_not_P [OF False] Let_def old_def [symmetric] f_def [symmetric] by (simp split: sum.split)
    moreover have "relay_wf (g\<lparr>re_orphans := f\<rparr>)" "relay_wf (g\<lparr>re_orphans := AList.update h (b, now) f\<rparr>)" for h
      by (rule relay_wf_orphans [OF w less_imp_le [OF f]], rule relay_wf_orphans [OF w u])
    ultimately show ?thesis by (simp split: sum.split)
  qed
qed

lemma create_inv_wf: "relay_wf g \<Longrightarrow> relay_wf (fst (create_inv_message g hs)) \<and> re_ledger (fst (create_inv_message g hs)) = re_ledger g"
  by (cases hs) (simp_all add: create_inv_message_def build_announcements_def)

lemma relay_step_inv:
  assumes "relay_step E R be limit g g'" and "relay_wf g \<and> chain_valid E limit (re_ledger g)"
  shows "relay_wf g' \<and> chain_valid E limit (re_ledger g')"
  using assms(1)
proof cases
  case (block clock now p payload)
  show ?thesis
    unfolding block(1)
    by (rule handle_block_keep [where P = "\<lambda>g. relay_wf g \<and> chain_valid E limit (re_ledger g)", OF _ assms(2)])
      (rule relay_block_valid [OF _ _ block(2)])
qed (use assms(2) handle_inv_wf on_local_wf add_orphan_wf create_inv_wf in simp_all)

lemma relay_steps_inv:
  "(relay_step E R be limit)\<^sup>*\<^sup>* g g' \<Longrightarrow> relay_wf g \<and> chain_valid E limit (re_ledger g) \<Longrightarrow>
     relay_wf g' \<and> chain_valid E limit (re_ledger g')"
  by (induction rule: rtranclp_induct) (auto dest: relay_step_inv)

section \<open>Ledger and storage\<close>

text \<open>The storage holds the blocks of the ledger above the genesis block.\<close>

definition mirrors :: "env \<Rightarrow> runtime \<Rightarrow> backend \<Rightarrow> relay_engine \<Rightarrow> bool" where
  "mirrors E R be g \<longleftrightarrow>
     (\<exists>genesis bs. ld_chain (re_ledger g) = genesis # map AnyV2 bs
        \<and> stored E R be (map read_form bs) (int (length bs)) (re_files g))"

text \<open>What the ledger accepts and the storage writes is read back: the header passed the checks of the
  ledger, the transactions came from \<open>json.loads\<close> and were written in UTF-8.\<close>

lemma decode_block_shape:
  assumes "float_reader (rt_float R)" and "decode_block R s = Inr b"
  shows "\<forall>tx \<in> set (bk_transactions b). json_shape (rt_float R) tx"
proof -
  from assms(2) obtain raw j where j: "loads R raw = Inr j" and b: "block_v2_from_dict R j = Inr b"
    by (auto simp: decode_block_def res_simps)
  from b obtain d where d: "j = JDict d" "jiter (dget d ''transactions'' (JList [])) = Inr (bk_transactions b)"
    by (auto simp: block_v2_from_dict_def res_simps)
  from loads_shape [OF assms(1) j] d(1) have "json_shape (rt_float R) (dget d ''transactions'' (JList []))"
    by (auto simp: dget_def dest: map_of_SomeD split: option.split)
  from jiter_shape [OF d(2) this] show ?thesis .
qed

lemma append_block_utf8:
  assumes "append_block E R be b prev fs = (fs', Inr s)"
  shows "json_utf8 (JList (bk_transactions b))"
proof -
  from assms obtain h x st f1 where "store_block E R be b h x st f1 = (fs', Inr ())"
    by (auto simp: append_block_def Let_def bindI_Inr returnI_def)
  then obtain rb where "encode_block_record E b = Inr rb" by (auto simp: store_block_def bindI_Inr liftI_def)
  then have "\<exists>body. dumps_bytes record_style (JList (bk_transactions b)) = Inr body"
    by (auto simp: encode_block_record_def res_simps Let_def)
  then show ?thesis by (auto dest: dumps_bytes_utf8)
qed

lemma added_storable:
  assumes "hash_length E" and "float_reader (rt_float R)" and "decode_block R s = Inr b"
    and "add_block_v2 E clock L b = Inr (L', True)" and "append_block E R be b prev fs = (fs', Inr st)"
  shows "storable R b"
proof -
  let ?h = "bk_header b"
  note acc = add_block_v2_Inr(2) [OF assms(4) TrueI, unfolded Let_def]
  from acc obtain i s where prev: "ab_hash E (ld_chain L ! i) = Inr (bh_prev_hash ?h)" and r: "registry_root E s = Inr (bh_registry_root ?h)"
    by blast
  from acc obtain a c d e where v: "verify_block_v2 E b a False c d e = Inr True" by blast
  then have mr: "transactions_merkle_root E (bk_transactions b) = Inr (bh_merkle_root ?h)"
    and "bindE (block_hash_v2 E b) (\<lambda>x. satisfies_pow x (bh_target ?h)) = Inr True"
    unfolding verify_block_v2_True Let_def by auto
  then obtain y where "header_v2_bytes ?h = Inr y" by (auto simp: block_hash_v2_def header_v2_hash_bytes bindE_Inr_iff)
  then have "wf_header_v2 ?h"
    by (rule wf_header_of_bytes)
      (rule ab_hash_hex64 [OF assms(1) prev] transactions_merkle_root_hex64 [OF assms(1) mr] registry_root_hex64 [OF assms(1) r])+
  moreover have "json_wf (rt_float R) (JList (bk_transactions b))"
    using decode_block_shape [OF assms(2,3)] append_block_utf8 [OF assms(5)] by (simp add: json_wf_split)
  ultimately show ?thesis by (simp add: storable_def)
qed

lemma relay_added_mirrors:
  assumes "hash_length E" and "wf_backend be" and "mirrors E R be g" and "relay_added E R be clock g entry g' r"
    and "float_reader (rt_float R)" and "\<forall>h. r \<noteq> Inr (h, StorageFailed)"
  shows "mirrors E R be g'"
proof -
  from assms(3) obtain genesis bs where c: "ld_chain (re_ledger g) = genesis # map AnyV2 bs"
    and st: "stored E R be (map read_form bs) (int (length (map read_form bs))) (re_files g)" by (auto simp: mirrors_def)
  from assms(4) obtain b h sr where b: "decode_block R (snd entry) = Inr b"
    and add: "add_block_v2 E clock (re_ledger g) b = Inr (re_ledger g', True)"
    and run: "store_relayed E R be (re_ledger g') b (re_files g) = (re_files g', sr)"
    and r: "case sr of Inl _ \<Rightarrow> r = Inr (h, StorageFailed) | Inr _ \<Rightarrow> r = Inr (h, Accepted) \<or> r = Inl KeyError"
    by (auto simp: relay_added_def)
  from r assms(6) obtain s where s: "sr = Inr s" by (cases sr) auto
  with run obtain prev where run': "append_block E R be b prev (re_files g) = (re_files g', Inr s)"
    by (auto simp: store_relayed_def bindI_def liftI_def split: sum.split_asm)
  note acc = add_block_v2_Inr(2) [OF add, simplified Let_def]
  have link: "bh_prev_hash (bk_header b) = block_id E (last (map read_form bs))" if "map read_form bs \<noteq> []"
  proof -
    have ne: "bs \<noteq> []" using that by simp
    have "last (ld_chain (re_ledger g)) = ld_chain (re_ledger g) ! (length (ld_chain (re_ledger g)) - 1)"
      by (rule last_conv_nth) (simp add: c)
    then have "ab_hash E (last (ld_chain (re_ledger g))) = Inr (bh_prev_hash (bk_header b))"
      using acc [OF TrueI] by (elim conjE exE) (simp only:)
    then have "block_hash_v2 E (last bs) = Inr (bh_prev_hash (bk_header b))" using ne by (simp add: c last_map)
    then show ?thesis using ne by (simp add: last_map block_id_def block_hash_v2_def read_form_def)
  qed
  from hash_length.append_block_cases [OF assms(1,2) st added_storable [OF assms(1,5) b add run'] link run']
  have "stored E R be (map read_form (bs @ [b])) (int (length (bs @ [b]))) (re_files g')" by simp
  moreover have "ld_chain (re_ledger g') = genesis # map AnyV2 (bs @ [b])" using acc c by auto
  ultimately show ?thesis unfolding mirrors_def by blast
qed

lemma relay_blocks_mirrors:
  assumes "hash_length E" and "wf_backend be" and "float_reader (rt_float R)"
  shows "mirrors E R be g \<Longrightarrow> relay_blocks E R be clock now p g entries = (g', Inr rs) \<Longrightarrow>
    StorageFailed \<notin> snd ` set rs \<Longrightarrow>
    mirrors E R be g'"
proof (induction entries arbitrary: g rs)
  case (Cons entry entries)
  from Cons.prems(2) obtain g1 r rs' where r: "relay_block E R be clock now p g entry = (g1, Inr r)"
    and rest: "relay_blocks E R be clock now p g1 entries = (g', Inr rs')" and rs: "rs = r # rs'"
    by (auto split: prod.split_asm sum.split_asm)
  have "mirrors E R be g1"
  proof (cases "relay_same g g1 (Inr r)")
    case True
    then show ?thesis using Cons.prems(1) by (simp add: mirrors_def relay_same_def)
  next
    case False
    then have added: "relay_added E R be clock g entry g1 (Inr r)" using relay_block_cases [OF r] by blast
    show ?thesis
      by (rule relay_added_mirrors [OF assms(1,2) Cons.prems(1) added assms(3)]) (use Cons.prems(3) rs in auto)
  qed
  from Cons.IH [OF this rest] Cons.prems(3) rs show ?case by simp
qed simp

section \<open>Claims\<close>

text \<open>C20: no peer can exhaust or spoil a relaying node.  From a new engine over a ledger that validates,
  after any sequence of inventories, blocks, local blocks, orphans and announcements, with the wall
  clock never past \<open>limit\<close>: the cache of seen blocks, the outstanding requests, the orphans and every
  peer's rate window are within the limits of the policy, and the ledger still validates.\<close>

theorem relay_engine_invariant:
  assumes "chain_valid E limit L" and "(relay_step E R be limit)\<^sup>*\<^sup>* (new_relay_engine L fs limits) g"
  shows "relay_wf g \<and> chain_valid E limit (re_ledger g)"
proof (rule relay_steps_inv [OF assms(2)])
  show "relay_wf (new_relay_engine L fs limits) \<and> chain_valid E limit (re_ledger (new_relay_engine L fs limits))"
    using assms(1) by (simp add: relay_wf_def new_relay_engine_def seen_ok_def)
qed

theorem relay_engine_invariant_witness:
  "relay_wf (fst (handle_inv demo_runtime 1 (new_relay_engine demo_ledger [] default_relay_limits) ''p'' []))"
proof -
  have "chain_valid demo_env 9 demo_ledger"
    unfolding chain_valid_def using demo_validate by (blast intro: ledger_reachable.init [OF demo_ledger_ok])
  moreover have "(relay_step demo_env demo_runtime be 9)\<^sup>*\<^sup>* (new_relay_engine demo_ledger [] default_relay_limits)
      (fst (handle_inv demo_runtime 1 (new_relay_engine demo_ledger [] default_relay_limits) ''p'' []))" for be
    by (rule r_into_rtranclp) (rule relay_step.inv)
  ultimately show ?thesis using relay_engine_invariant by blast
qed

text \<open>C9: the storage mirrors the ledger.  If the storage directory holds the blocks of the ledger above
  the genesis block, it still does after a \<open>BLOCK\<close> message, whatever its blocks are (accepted, unknown,
  repeated or invalid), as long as none of the results is a storage error: every block the ledger
  accepted has been committed at its height, its parent below it.  Of the interpreter it is only
  assumed that the text of a float reads back as itself.\<close>

theorem relay_storage_mirrors_ledger:
  assumes "hash_length E" and "wf_backend be" and "float_reader (rt_float R)" and "mirrors E R be g"
    and "relay_handle_block E R be clock now g p payload = (g', Inr (Some rs))" and "StorageFailed \<notin> snd ` set rs"
  shows "mirrors E R be g'"
proof -
  from assms(5) obtain m where run: "relay_blocks E R be clock now p g (message_blocks m) = (g', Inr rs)"
    by (auto simp: relay_handle_block_def split: sum.split_asm if_split_asm prod.split_asm)
  show ?thesis by (rule relay_blocks_mirrors [OF assms(1-4) run assms(6)])
qed

text \<open>A block of its time is relayed to a fresh node, accepted and committed.\<close>

lemma demo_stored_block8:
  assumes "b = \<lparr>bk_header = steady_header 8, bk_transactions = []\<rparr>"
  shows "\<exists>fs. append_block demo_env demo_runtime silent_backend b demo_state0 [] = (fs, Inr demo_state0)"
proof -
  have b: "bk_header b = steady_header 8" "bk_transactions b = []" by (simp_all add: assms)
  have wf: "wf_header_v2 (bk_header b)" unfolding b by (rule wf_steady_header) simp_all
  obtain hb where hb: "header_v2_bytes (steady_header 8) = Inr hb" "length hb = 149"
    using header_v2_roundtrip_aux [OF wf] unfolding b by blast
  have body: "dumps_bytes record_style (JList []) = Inr (str_bytes ''[]'')"
    by (simp add: dumps_bytes_def json_dumps_def encode_utf8_def record_bracket utf8_valid_ascii)
  obtain rb where rb: "encode_block_record demo_env b = Inr rb" "length rb \<le> MAX_JOURNAL_PAYLOAD"
    using hb by (simp add: encode_block_record_def b header_v2_bytes_def HEADER_LEN_def checkE_def body
        MAX_TX_COUNT_def MAX_BODY_LEN_def MAX_JOURNAL_PAYLOAD_def demo_double Let_def)
  obtain sb where sb: "serialize_registry_state demo_state0 = Inr sb" "length sb \<le> MAX_JOURNAL_PAYLOAD"
    using demo_state_bytes by blast
  have st: "stored demo_env demo_runtime silent_backend [] (int (length [])) []" using stored_empty by simp
  show ?thesis
    using demo.append_block_returns_aux [OF silent_backend_ok st ready_empty wf _ _ rb sb] demo_ctx_ok
    by (simp add: b replay_block_def demo_state0_def)
qed

lemma demo_relayed:
  "\<exists>payload g'. relay_handle_block demo_env demo_runtime silent_backend 8 1 (new_relay_engine demo_ledger [] default_relay_limits) ''p'' payload
      = (g', Inr (Some [(zero_hash, Accepted)])) \<and> length (ld_chain (re_ledger g')) = 2"
proof -
  define b where "b = \<lparr>bk_header = steady_header 8, bk_transactions = []\<rparr>"
  have b: "bk_header b = steady_header 8" "bk_transactions b = []" by (simp_all add: b_def)
  have wf: "wf_header_v2 (bk_header b)" unfolding b by (rule wf_steady_header) simp_all
  have "json_wf (rt_float demo_runtime) (JList (bk_transactions b))" by (simp add: b)
  from block_wire_read [OF demo.hash_length_axioms wf this] obtain s where s: "encode_block demo_env b = Inr s"
    "decode_block demo_runtime s = Inr b" by (auto simp: b)
  have hash: "block_hash_v2 demo_env b = Inr zero_hash" using steady_hash [of 8] by (simp add: b_def steady_block_def)
  have "utf8_valid s" using s(1) by (auto simp: encode_block_def res_simps)
  then have "wf_message (MBlock [(zero_hash, s)])" by (simp add: hex64_zero_hash MAX_BLOCKS_RESPONSE_def)
  from message_roundtrip_aux [OF this, of demo_runtime] obtain payload
    where m: "decode_message demo_runtime BLOCK payload = Inr (MBlock [(zero_hash, s)])" by auto
  obtain L where L: "add_block_v2 demo_env 8 demo_ledger b = Inr (L, True)"
    using demo_add by (auto simp: b_def steady_block_def)
  from add_block_v2_Inr(2) [OF L TrueI] have c: "ld_chain L = [steady_block 7, AnyV2 b]"
    and st: "ld_registry_states L 0 = Some demo_state0"
    by (auto simp: Let_def demo_ledger_def)
  obtain fs where fs: "append_block demo_env demo_runtime silent_backend b demo_state0 [] = (fs, Inr demo_state0)"
    using demo_stored_block8 [OF b_def] by blast
  let ?g = "new_relay_engine demo_ledger [] default_relay_limits"
  have g: "re_ledger ?g = demo_ledger" "re_files ?g = []" by (simp_all add: new_relay_engine_def)
  have seen: "seen_has 1 zero_hash (re_seen ?g) = (re_seen ?g, False)" by (simp add: new_relay_engine_def seen_has_def)
  have add: "\<exists>c. seen_add 1 zero_hash ''p'' (re_seen ?g) = (c, Inr ())"
    by (simp add: new_relay_engine_def seen_add_def seen_evict_expired_def default_relay_limits_def Let_def)
  have "nat (ledger_height L - 1) = 0" by (simp add: ledger_height_def c)
  then have store: "store_relayed demo_env demo_runtime silent_backend L b [] = (fs, Inr demo_state0)"
    using fs st by (simp add: store_relayed_def registry_state_at_def bindI_def liftI_def)
  from add have "\<exists>g'. settle_block demo_env demo_runtime silent_backend 1 ''p'' zero_hash b (?g\<lparr>re_seen := re_seen ?g, re_ledger := L\<rparr>)
      = (g', Inr (zero_hash, Accepted)) \<and> re_ledger g' = L"
    by (auto simp: settle_block_def store g drop_pending_def try_connect_orphans_def Let_def)
  then obtain g' where "relay_block demo_env demo_runtime silent_backend 8 1 ''p'' ?g (zero_hash, s) = (g', Inr (zero_hash, Accepted))"
    and "re_ledger g' = L"
    by (auto simp: relay_block_def s(2) hash seen g L Let_def)
  then have "relay_handle_block demo_env demo_runtime silent_backend 8 1 ?g ''p'' payload = (g', Inr (Some [(zero_hash, Accepted)]))
      \<and> length (ld_chain (re_ledger g')) = 2"
    by (simp add: relay_handle_block_def m c) (simp add: new_relay_engine_def default_relay_limits_def)
  then show ?thesis by blast
qed

theorem relay_storage_mirrors_ledger_witness:
  "\<exists>payload g'. relay_handle_block demo_env demo_runtime silent_backend 8 1 (new_relay_engine demo_ledger [] default_relay_limits) ''p'' payload
      = (g', Inr (Some [(zero_hash, Accepted)]))
    \<and> length (ld_chain (re_ledger g')) = 2 \<and> mirrors demo_env demo_runtime silent_backend g'"
proof -
  let ?g = "new_relay_engine demo_ledger [] default_relay_limits"
  obtain payload g' where run: "relay_handle_block demo_env demo_runtime silent_backend 8 1 ?g ''p'' payload
      = (g', Inr (Some [(zero_hash, Accepted)]))" and two: "length (ld_chain (re_ledger g')) = 2"
    using demo_relayed by blast
  have start: "mirrors demo_env demo_runtime silent_backend ?g"
    unfolding mirrors_def using stored_empty
    by (intro exI [of _ "steady_block 7"] exI [of _ "[]"]) (simp add: new_relay_engine_def demo_ledger_def)
  have "mirrors demo_env demo_runtime silent_backend g'"
    by (rule relay_storage_mirrors_ledger [OF demo.hash_length_axioms silent_backend_ok(2) demo_float_reader start run]) simp
  with run two show ?thesis by blast
qed

text \<open>A storage error is reported and forgotten: the ledger keeps the block, the storage does not have
  it, and the engine drops its request, so the directory no longer holds the chain of the ledger.\<close>

theorem relay_storage_failure_diverges:
  assumes "mirrors E R be g" and "relay_block E R be clock now p g entry = (g', Inr (h, StorageFailed))"
    and "re_files g' = re_files g"
  shows "\<exists>genesis bs b. ld_chain (re_ledger g') = genesis # map AnyV2 (bs @ [b])
    \<and> stored E R be (map read_form bs) (int (length bs)) (re_files g')"
proof -
  from relay_block_cases [OF assms(2)] have "relay_added E R be clock g entry g' (Inr (h, StorageFailed))"
    by (simp add: relay_same_def)
  then obtain b where "add_block_v2 E clock (re_ledger g) b = Inr (re_ledger g', True)" by (auto simp: relay_added_def)
  from add_block_v2_Inr(2) [OF this TrueI] have c: "ld_chain (re_ledger g') = ld_chain (re_ledger g) @ [AnyV2 b]"
    by (auto simp: Let_def)
  from assms(1,3) obtain genesis bs where "ld_chain (re_ledger g) = genesis # map AnyV2 bs"
    "stored E R be (map read_form bs) (int (length bs)) (re_files g')" by (auto simp: mirrors_def)
  with c show ?thesis by (intro exI [of _ genesis] exI [of _ bs] exI [of _ b]) simp
qed

text \<open>What the inventory tracker builds, the receiver refuses: its inventory type is \<open>block\<close>, and only
  \<open>blocks\<close> is known.\<close>

theorem tracker_message_refused:
  assumes "build_inv_message t = (t', its)" and "encode_payload (JDict its) = Inr b" and "\<forall>e \<in> set (it_pending t). utf8_valid (snd e)"
  shows "decode_message R INVENTORY b = Inl NetworkValidationError"
proof -
  have f: "its = [(''type'', JStr ''block''), (''hashes'', strings (map snd (it_pending t)))]"
    using assms(1) by (simp add: build_inv_message_def pop_pending_def Let_def)
  have wf: "json_wf (rt_float R) (JDict its)" using assms(3) by (auto simp: f strings_def utf8_valid_ascii)
  have "decode_payload R b = Inr (norm_json (JDict its))"
    using assms(2) loads_dumps_bytes [OF _ wf, of canonical_style b]
    by (simp add: decode_payload_def loads_def encode_payload_def dumps_bytes_def)
  then show ?thesis
    unfolding norm_JDict
    by (simp add: decode_message_def message_from_def message_types inventory_from_def norm_dget f inventory_types_def
        checkE_def)
qed

end
