(* ===== verification/Discovery.thy ===== *)
theory Discovery
  imports Complex_Main Json_Access "HOL-Library.Product_Lexorder" "HOL-Library.AList"
begin

text \<open>
  \<open>network/discovery\<close>: the peer table with its eviction and selection rules, the bootstrap sources and
  the manager.  The table's dictionaries are an association list in insertion order and a map.  The
  record objects of an in-memory source are shared with the table that takes them over, and the manager
  keeps track of which are (\<open>dm_shared\<close>); a record passed to \<open>add_discovered\<close> is a value.  Times are
  rational seconds.  Addresses of version 6 are a parameter (\<open>v6\<close>: the network address of a text with
  a prefix length, or none); those of version 4 are parsed as \<open>ipaddress\<close> does.
\<close>

datatype peer_source = BOOTSTRAP | DNS | MANUAL | PEX | CACHE
datatype peer_status = CANDIDATE | CONNECTING | ACTIVE | FAILED | BANNED

record peer_record =
  pr_peer_id :: string
  pr_host :: string
  pr_port :: int
  pr_source :: peer_source
  pr_score :: int
  pr_capabilities :: "(string \<times> json) list"
  pr_last_seen :: "rat option"
  pr_last_attempt :: "rat option"
  pr_failure_count :: nat
  pr_status :: peer_status

definition new_peer :: "string \<Rightarrow> string \<Rightarrow> int \<Rightarrow> peer_source \<Rightarrow> int \<Rightarrow> (string \<times> json) list \<Rightarrow> peer_record" where
  "new_peer peer_id host port source score capabilities = \<lparr>pr_peer_id = peer_id, pr_host = host, pr_port = port,
     pr_source = source, pr_score = score, pr_capabilities = capabilities, pr_last_seen = None,
     pr_last_attempt = None, pr_failure_count = 0, pr_status = CANDIDATE\<rparr>"

definition pr_address :: "peer_record \<Rightarrow> string \<times> int" where
  "pr_address r = (pr_host r, pr_port r)"

definition touch_attempt :: "rat \<Rightarrow> peer_record \<Rightarrow> peer_record" where
  "touch_attempt now r = r\<lparr>pr_last_attempt := Some now\<rparr>"

definition touch_success :: "rat \<Rightarrow> peer_record \<Rightarrow> peer_record" where
  "touch_success now r = r\<lparr>pr_last_seen := Some now, pr_last_attempt := Some now, pr_failure_count := 0\<rparr>"

definition touch_failure :: "peer_record \<Rightarrow> peer_record" where
  "touch_failure r = r\<lparr>pr_failure_count := pr_failure_count r + 1\<rparr>"

definition is_banned :: "peer_record \<Rightarrow> bool" where
  "is_banned r = (pr_status r = BANNED)"

definition seen_or_zero :: "peer_record \<Rightarrow> rat" where
  "seen_or_zero r = (case pr_last_seen r of None \<Rightarrow> 0 | Some t \<Rightarrow> t)"

section \<open>The table\<close>

record peer_table =
  pt_max_entries :: nat
  pt_max_same_source_ratio :: rat
  pt_max_same_prefix_peers :: int
  pt_ipv4_prefix_bits :: int
  pt_ipv6_prefix_bits :: int
  pt_records :: "(string \<times> peer_record) list"
  pt_address_index :: "string \<times> int \<rightharpoonup> string"

definition new_peer_table :: "int \<Rightarrow> rat \<Rightarrow> int \<Rightarrow> int \<Rightarrow> int \<Rightarrow> peer_table res" where
  "new_peer_table max_entries ratio prefix_peers v4_bits v6_bits =
     (if max_entries \<le> 0 then Inl ValueError
      else Inr \<lparr>pt_max_entries = nat max_entries, pt_max_same_source_ratio = max 0 (min 1 ratio),
             pt_max_same_prefix_peers = max 0 prefix_peers, pt_ipv4_prefix_bits = v4_bits,
             pt_ipv6_prefix_bits = v6_bits, pt_records = [], pt_address_index = Map.empty\<rparr>)"

definition default_peer_table :: peer_table where
  "default_peer_table = \<lparr>pt_max_entries = 4096, pt_max_same_source_ratio = 1 / 4, pt_max_same_prefix_peers = 2,
     pt_ipv4_prefix_bits = 24, pt_ipv6_prefix_bits = 48, pt_records = [], pt_address_index = Map.empty\<rparr>"

definition pt_size :: "peer_table \<Rightarrow> nat" where
  "pt_size t = length (pt_records t)"

definition get_peer :: "peer_table \<Rightarrow> string \<Rightarrow> peer_record option" where
  "get_peer t peer_id = map_of (pt_records t) peer_id"

definition all_peers :: "peer_table \<Rightarrow> peer_record list" where
  "all_peers t = map snd (pt_records t)"

definition put_peer :: "string \<Rightarrow> peer_record \<Rightarrow> peer_table \<Rightarrow> peer_table" where
  "put_peer i r t = t\<lparr>pt_records := AList.update i r (pt_records t)\<rparr>"

definition update_existing :: "peer_record \<Rightarrow> peer_record \<Rightarrow> peer_record" where
  "update_existing existing record =
     existing\<lparr>pr_score := max (pr_score existing) (pr_score record),
       pr_capabilities := foldl (\<lambda>d (k, v). dict_set d k v) (pr_capabilities existing) (pr_capabilities record),
       pr_last_seen := (case pr_last_seen record of
          None \<Rightarrow> pr_last_seen existing
        | Some t \<Rightarrow> (case pr_last_seen existing of None \<Rightarrow> Some t | Some s \<Rightarrow> if t > s then Some t else Some s))\<rparr>"

definition remove_peer :: "peer_table \<Rightarrow> string \<Rightarrow> peer_table \<times> bool" where
  "remove_peer t peer_id =
     (case get_peer t peer_id of
        None \<Rightarrow> (t, False)
      | Some r \<Rightarrow> (t\<lparr>pt_records := filter (\<lambda>e. fst e \<noteq> peer_id) (pt_records t),
                    pt_address_index := (pt_address_index t)(pr_address r := None)\<rparr>, True))"

definition ban_peer :: "peer_table \<Rightarrow> string \<Rightarrow> peer_table \<times> bool" where
  "ban_peer t peer_id =
     (case get_peer t peer_id of
        None \<Rightarrow> (t, False)
      | Some r \<Rightarrow> (put_peer peer_id (r\<lparr>pr_status := BANNED\<rparr>) t, True))"

definition evictable :: "peer_record \<Rightarrow> peer_record \<Rightarrow> bool" where
  "evictable candidate r = (pr_status r = BANNED \<or> (pr_source r = pr_source candidate \<and> pr_score r < pr_score candidate))"

definition victim_key :: "peer_record \<Rightarrow> int \<times> rat \<times> string" where
  "victim_key r = (pr_score r, seen_or_zero r, pr_peer_id r)"

text \<open>\<open>min(xs, key=f)\<close> is the head of the list sorted by the key.\<close>

definition evict_for :: "peer_table \<Rightarrow> peer_record \<Rightarrow> peer_table \<times> bool" where
  "evict_for t candidate =
     (case sort_key victim_key (filter (evictable candidate) (all_peers t)) of
        [] \<Rightarrow> (t, False)
      | victim # _ \<Rightarrow> remove_peer t (pr_peer_id victim))"

definition insert_peer :: "peer_table \<Rightarrow> peer_record \<Rightarrow> peer_table" where
  "insert_peer t r = (put_peer (pr_peer_id r) r t)\<lparr>pt_address_index := (pt_address_index t)(pr_address r \<mapsto> pr_peer_id r)\<rparr>"

definition add_peer :: "peer_table \<Rightarrow> peer_record \<Rightarrow> peer_table \<times> bool res" where
  "add_peer t r =
     (case get_peer t (pr_peer_id r) of
        Some existing \<Rightarrow> (put_peer (pr_peer_id r) (update_existing existing r) t, Inr False)
      | None \<Rightarrow>
          (case pt_address_index t (pr_address r) of
             Some existing_id \<Rightarrow>
               (case get_peer t existing_id of
                  None \<Rightarrow> (t, Inl KeyError)
                | Some existing \<Rightarrow> (put_peer existing_id (update_existing existing r) t, Inr False))
           | None \<Rightarrow>
               if pt_size t \<ge> pt_max_entries t
               then (case evict_for t r of
                       (t', False) \<Rightarrow> (t', Inl PeerTableFullError)
                     | (t', True) \<Rightarrow> (insert_peer t' r, Inr True))
               else (insert_peer t r, Inr True)))"

section \<open>Network prefixes\<close>

fun split_dots :: "string \<Rightarrow> string \<Rightarrow> string list" where
  "split_dots acc [] = [rev acc]"
| "split_dots acc (c # s) = (if c = CHR ''.'' then rev acc # split_dots [] s else split_dots (c # acc) s)"

text \<open>An octet: one to three ASCII digits, no leading zero, at most 255.\<close>

definition octet :: "string \<Rightarrow> int option" where
  "octet s =
     (if s = [] \<or> \<not> list_all is_digit s \<or> length s > 3 \<or> (s \<noteq> ''0'' \<and> hd s = CHR ''0'') \<or> digits_val 0 s > 255 then None
      else Some (int (digits_val 0 s)))"

definition parse_ipv4 :: "string \<Rightarrow> int option" where
  "parse_ipv4 host =
     (case map octet (split_dots [] host) of
        [Some a, Some b, Some c, Some d] \<Rightarrow> Some (((a * 256 + b) * 256 + c) * 256 + d)
      | _ \<Rightarrow> None)"

definition ipv4_text :: "int \<Rightarrow> string" where
  "ipv4_text n = int_text (n div 2 ^ 24 mod 256) @ ''.'' @ int_text (n div 2 ^ 16 mod 256) @ ''.''
     @ int_text (n div 2 ^ 8 mod 256) @ ''.'' @ int_text (n mod 256)"

definition network_prefix :: "(string \<Rightarrow> int \<Rightarrow> string option) \<Rightarrow> peer_table \<Rightarrow> string \<Rightarrow> string option" where
  "network_prefix v6 t host =
     (case parse_ipv4 host of
        Some n \<Rightarrow>
          (let bits = pt_ipv4_prefix_bits t in
           if bits < 0 \<or> bits > 32 then None
           else Some (ipv4_text (n div 2 ^ nat (32 - bits) * 2 ^ nat (32 - bits))))
      | None \<Rightarrow> v6 host (pt_ipv6_prefix_bits t))"

section \<open>Selection\<close>

definition select_key :: "peer_record \<Rightarrow> int \<times> rat \<times> string" where
  "select_key r = (- pr_score r, - seen_or_zero r, pr_peer_id r)"

definition viable :: "peer_record \<Rightarrow> bool" where
  "viable r = (pr_status r \<in> {CANDIDATE, FAILED} \<and> \<not> is_banned r)"

text \<open>The loop: the peers still to look at, the chosen ones and the two counters.\<close>

fun choose_peers :: "(string \<Rightarrow> string option) \<Rightarrow> bool \<Rightarrow> nat \<Rightarrow> int \<Rightarrow> int \<Rightarrow> peer_record list \<Rightarrow> peer_record list
    \<Rightarrow> (peer_source \<Rightarrow> int) \<Rightarrow> (string \<Rightarrow> int) \<Rightarrow> peer_record list" where
  "choose_peers prefix diverse wanted per_source per_prefix [] chosen sources prefixes = chosen"
| "choose_peers prefix diverse wanted per_source per_prefix (r # rs) chosen sources prefixes =
     (if length chosen \<ge> wanted then chosen
      else if diverse then
        if sources (pr_source r) \<ge> per_source
        then choose_peers prefix diverse wanted per_source per_prefix rs chosen sources prefixes
        else
          (case prefix (pr_host r) of
             None \<Rightarrow> choose_peers prefix diverse wanted per_source per_prefix rs (chosen @ [r])
                       (sources(pr_source r := sources (pr_source r) + 1)) prefixes
           | Some p \<Rightarrow>
               if p \<noteq> [] \<and> prefixes p \<ge> per_prefix
               then choose_peers prefix diverse wanted per_source per_prefix rs chosen sources prefixes
               else choose_peers prefix diverse wanted per_source per_prefix rs (chosen @ [r])
                      (sources(pr_source r := sources (pr_source r) + 1))
                      (if p \<noteq> [] then prefixes(p := prefixes p + 1) else prefixes))
      else choose_peers prefix diverse wanted per_source per_prefix rs (chosen @ [r]) sources prefixes)"

definition max_per_source :: "peer_table \<Rightarrow> nat \<Rightarrow> int" where
  "max_per_source t wanted = max 1 \<lfloor>pt_max_same_source_ratio t * of_nat wanted\<rfloor>"

definition select_candidates :: "(string \<Rightarrow> int \<Rightarrow> string option) \<Rightarrow> peer_table \<Rightarrow> int \<Rightarrow> bool \<Rightarrow> peer_record list" where
  "select_candidates v6 t wanted require_source_diversity =
     (if wanted \<le> 0 then []
      else choose_peers (network_prefix v6 t) require_source_diversity (nat wanted) (max_per_source t (nat wanted))
             (pt_max_same_prefix_peers t) (sort_key select_key (filter viable (all_peers t))) [] (\<lambda>_. 0) (\<lambda>_. 0))"

section \<open>Sources and the manager\<close>

text \<open>A configuration entry with its defaults filled in.\<close>

record bootstrap_entry =
  bs_host :: string
  bs_port :: int
  bs_trusted :: bool

fun static_records :: "nat \<Rightarrow> bootstrap_entry list \<Rightarrow> peer_record list" where
  "static_records idx [] = []"
| "static_records idx (e # es) =
     (if bs_host e = [] \<or> bs_port e = 0 then static_records (idx + 1) es
      else new_peer (''static_bootstrap-'' @ nat_text idx @ ''-'' @ bs_host e @ ''-'' @ int_text (bs_port e))
             (bs_host e) (bs_port e) BOOTSTRAP (if bs_trusted e then 900 else 600) [(''trusted'', JBool (bs_trusted e))]
           # static_records (idx + 1) es)"

definition static_load :: "bootstrap_entry list \<Rightarrow> peer_record list" where
  "static_load entries = static_records 0 entries"

text \<open>\<open>load\<close> of a static source makes new record objects every time; that of an in-memory source returns the
  objects it was given, here by their references.\<close>

datatype bootstrap_source = StaticSource "bootstrap_entry list" | MemorySource "nat list"

datatype record_object = Fresh peer_record | Shared nat

fun source_load :: "bootstrap_source \<Rightarrow> record_object list" where
  "source_load (StaticSource entries) = map Fresh (static_load entries)"
| "source_load (MemorySource records) = map Shared records"

text \<open>\<open>dm_objects\<close>: the objects of the in-memory sources.  Those in \<open>dm_shared\<close> are also in the table, under
  their id, and have the value they have there.\<close>

record discovery_manager =
  dm_table :: peer_table
  dm_sources :: "bootstrap_source list"
  dm_max_outbound :: int
  dm_loaded :: bool
  dm_objects :: "nat \<Rightarrow> peer_record"
  dm_shared :: "nat list"

definition new_manager :: "peer_table option \<Rightarrow> bootstrap_source list \<Rightarrow> int \<Rightarrow> (nat \<Rightarrow> peer_record) \<Rightarrow> discovery_manager" where
  "new_manager table sources max_outbound objects =
     \<lparr>dm_table = (case table of None \<Rightarrow> default_peer_table | Some t \<Rightarrow> t), dm_sources = sources,
      dm_max_outbound = max 0 max_outbound, dm_loaded = False, dm_objects = objects, dm_shared = []\<rparr>"

definition add_source :: "discovery_manager \<Rightarrow> bootstrap_source \<Rightarrow> discovery_manager" where
  "add_source m source = m\<lparr>dm_sources := dm_sources m @ [source]\<rparr>"

fun object_value :: "discovery_manager \<Rightarrow> record_object \<Rightarrow> peer_record" where
  "object_value m (Fresh r) = r"
| "object_value m (Shared k) =
     (if k \<in> set (dm_shared m)
      then (case get_peer (dm_table m) (pr_peer_id (dm_objects m k)) of Some r \<Rightarrow> r | None \<Rightarrow> dm_objects m k)
      else dm_objects m k)"

text \<open>\<open>table.add\<close> of an object.  An object that is evicted keeps its last value; one that is inserted is
  shared from then on.\<close>

definition still_in :: "peer_table \<Rightarrow> discovery_manager \<Rightarrow> nat \<Rightarrow> bool" where
  "still_in t m k = (get_peer t (pr_peer_id (dm_objects m k)) \<noteq> None)"

definition add_object :: "discovery_manager \<Rightarrow> record_object \<Rightarrow> discovery_manager \<times> bool res" where
  "add_object m ob =
     (let (t, res) = add_peer (dm_table m) (object_value m ob) in
      (m\<lparr>dm_table := t,
         dm_objects := (\<lambda>k. if k \<in> set (dm_shared m) \<and> \<not> still_in t m k then object_value m (Shared k) else dm_objects m k),
         dm_shared := filter (still_in t m) (dm_shared m)
           @ (case ob of Shared k \<Rightarrow> if res = Inr True then [k] else [] | Fresh r \<Rightarrow> [])\<rparr>, res))"

definition is_discovery_error :: "py_error \<Rightarrow> bool" where
  "is_discovery_error e = (e = DiscoveryError \<or> e = PeerTableFullError)"

text \<open>One source: a full table ends it, any other exception skips the record; every record that did not
  raise counts.\<close>

fun load_source :: "discovery_manager \<Rightarrow> nat \<Rightarrow> record_object list \<Rightarrow> discovery_manager \<times> nat" where
  "load_source m added [] = (m, added)"
| "load_source m added (ob # obs) =
     (case add_object m ob of
        (m, Inl e) \<Rightarrow> if is_discovery_error e then (m, added) else load_source m added obs
      | (m, Inr _) \<Rightarrow> load_source m (added + 1) obs)"

definition load_bootstrap :: "discovery_manager \<Rightarrow> discovery_manager \<times> nat" where
  "load_bootstrap m =
     (let (m, added) = foldl (\<lambda>(m, added) source. load_source m added (source_load source)) (m, 0) (dm_sources m) in
      (m\<lparr>dm_loaded := True\<rparr>, added))"

definition add_discovered :: "discovery_manager \<Rightarrow> peer_record \<Rightarrow> discovery_manager \<times> bool res" where
  "add_discovered m r =
     (case add_object m (Fresh r) of
        (m, Inl e) \<Rightarrow> (m, if is_discovery_error e then Inr False else Inl e)
      | (m, Inr b) \<Rightarrow> (m, Inr b))"

definition manager_candidates :: "(string \<Rightarrow> int \<Rightarrow> string option) \<Rightarrow> discovery_manager \<Rightarrow> discovery_manager \<times> peer_record list" where
  "manager_candidates v6 m =
     (let m = (if dm_loaded m then m else fst (load_bootstrap m)) in
      (m, select_candidates v6 (dm_table m) (dm_max_outbound m) True))"

definition report_handshake_success :: "rat \<Rightarrow> discovery_manager \<Rightarrow> string \<Rightarrow> discovery_manager \<times> bool" where
  "report_handshake_success now m peer_id =
     (case get_peer (dm_table m) peer_id of
        None \<Rightarrow> (m, False)
      | Some r \<Rightarrow>
          let r = touch_success now r; r = r\<lparr>pr_status := ACTIVE, pr_score := min 1000 (pr_score r + 50)\<rparr> in
          (m\<lparr>dm_table := put_peer peer_id r (dm_table m)\<rparr>, True))"

definition report_handshake_failure :: "discovery_manager \<Rightarrow> string \<Rightarrow> discovery_manager \<times> bool" where
  "report_handshake_failure m peer_id =
     (case get_peer (dm_table m) peer_id of
        None \<Rightarrow> (m, False)
      | Some r \<Rightarrow>
          let r = touch_failure r; r = r\<lparr>pr_score := max 0 (pr_score r - 100)\<rparr>;
              r = (if pr_failure_count r \<ge> 3 then r\<lparr>pr_status := BANNED, pr_score := 0\<rparr>
                   else if pr_status r \<noteq> BANNED then r\<lparr>pr_status := FAILED\<rparr> else r) in
          (m\<lparr>dm_table := put_peer peer_id r (dm_table m)\<rparr>, True))"

definition manager_ban :: "discovery_manager \<Rightarrow> string \<Rightarrow> discovery_manager \<times> bool" where
  "manager_ban m peer_id = (let (t, b) = ban_peer (dm_table m) peer_id in (m\<lparr>dm_table := t\<rparr>, b))"

end
