(* ===== verification/Discovery_Props.thy ===== *)
theory Discovery_Props
  imports Discovery "HOL-Library.Sublist"
begin

text \<open>
  What the peer table guarantees: its two dictionaries agree and stay within the capacity, a flood of
  records of one source cannot push out the peers of another, and a selection is bounded per source
  and per network prefix.
\<close>

section \<open>The invariant of the table\<close>

definition wf_table :: "peer_table \<Rightarrow> bool" where
  "wf_table t \<longleftrightarrow> distinct (map fst (pt_records t)) \<and> (\<forall>i r. get_peer t i = Some r \<longrightarrow> pr_peer_id r = i)
     \<and> 0 < pt_max_entries t \<and> pt_size t \<le> pt_max_entries t
     \<and> (\<forall>a i. pt_address_index t a = Some i \<longleftrightarrow> (\<exists>r. get_peer t i = Some r \<and> pr_address r = a))"

lemma wf_tableI:
  assumes "distinct (map fst (pt_records t))" and "\<And>i r. get_peer t i = Some r \<Longrightarrow> pr_peer_id r = i"
    and "0 < pt_max_entries t" and "pt_size t \<le> pt_max_entries t"
    and "\<And>a i. pt_address_index t a = Some i \<longleftrightarrow> (\<exists>r. get_peer t i = Some r \<and> pr_address r = a)"
  shows "wf_table t"
  unfolding wf_table_def using assms by blast

lemma wf_table:
  assumes "wf_table t"
  shows wf_distinct: "distinct (map fst (pt_records t))" and wf_id: "get_peer t i = Some r \<Longrightarrow> pr_peer_id r = i"
    and wf_cap: "0 < pt_max_entries t" and wf_size: "pt_size t \<le> pt_max_entries t"
    and wf_index: "pt_address_index t a = Some i \<longleftrightarrow> (\<exists>r. get_peer t i = Some r \<and> pr_address r = a)"
  using assms unfolding wf_table_def by blast+

lemma get_put [simp]: "get_peer (put_peer i r t) j = (if j = i then Some r else get_peer t j)"
  by (simp add: get_peer_def put_peer_def update_conv)

lemma keys_put: "get_peer t i \<noteq> None \<Longrightarrow> map fst (pt_records (put_peer i r t)) = map fst (pt_records t)"
proof -
  have "map_of xs i \<noteq> None \<Longrightarrow> map fst (AList.update i r xs) = map fst xs" for xs by (induction xs) auto
  then show "get_peer t i \<noteq> None \<Longrightarrow> map fst (pt_records (put_peer i r t)) = map fst (pt_records t)"
    by (simp add: get_peer_def put_peer_def)
qed

lemma put_fields [simp]:
  "pt_max_entries (put_peer i r t) = pt_max_entries t" "pt_address_index (put_peer i r t) = pt_address_index t"
  by (simp_all add: put_peer_def)

text \<open>A change of a record that keeps its id and address.\<close>

lemma wf_put:
  assumes "wf_table t" and "get_peer t i = Some x" and "pr_peer_id r = pr_peer_id x" and "pr_address r = pr_address x"
  shows "wf_table (put_peer i r t)"
proof (rule wf_tableI)
  have k: "map fst (pt_records (put_peer i r t)) = map fst (pt_records t)" using assms(2) by (intro keys_put) simp
  then have "pt_size (put_peer i r t) = pt_size t" unfolding pt_size_def by (metis length_map)
  then show "pt_size (put_peer i r t) \<le> pt_max_entries (put_peer i r t)" using wf_size [OF assms(1)] by simp
  show "distinct (map fst (pt_records (put_peer i r t)))" using k wf_distinct [OF assms(1)] by simp
  show "0 < pt_max_entries (put_peer i r t)" using wf_cap [OF assms(1)] by simp
  show "pr_peer_id y = j" if "get_peer (put_peer i r t) j = Some y" for j y
    using that wf_id [OF assms(1)] assms(2,3) by (auto split: if_splits)
  show "pt_address_index (put_peer i r t) a = Some j \<longleftrightarrow> (\<exists>y. get_peer (put_peer i r t) j = Some y \<and> pr_address y = a)" for a j
    using wf_index [OF assms(1), of a j] assms(2,4) by simp
qed

lemma update_existing_fields [simp]:
  "pr_peer_id (update_existing x r) = pr_peer_id x" "pr_address (update_existing x r) = pr_address x"
  "pr_source (update_existing x r) = pr_source x" "pr_status (update_existing x r) = pr_status x"
  "pr_score x \<le> pr_score (update_existing x r)"
  by (simp_all add: update_existing_def pr_address_def)

lemma map_of_without: "map_of (filter (\<lambda>e. fst e \<noteq> i) xs) j = (if j = i then None else map_of xs j)"
  by (induction xs) auto

lemma get_remove:
  assumes "get_peer t i = Some x"
  shows "get_peer (fst (remove_peer t i)) j = (if j = i then None else get_peer t j)"
proof -
  have "pt_records (fst (remove_peer t i)) = filter (\<lambda>e. fst e \<noteq> i) (pt_records t)"
    using assms by (simp add: remove_peer_def)
  then show ?thesis by (simp add: get_peer_def map_of_without)
qed

lemma wf_remove:
  assumes "wf_table t" and "get_peer t i = Some x"
  shows "wf_table (fst (remove_peer t i))" and "pt_size (fst (remove_peer t i)) < pt_max_entries t"
    and "pt_max_entries (fst (remove_peer t i)) = pt_max_entries t"
proof -
  have recs: "pt_records (fst (remove_peer t i)) = filter (\<lambda>e. fst e \<noteq> i) (pt_records t)"
    and idx: "pt_address_index (fst (remove_peer t i)) = (pt_address_index t)(pr_address x := None)"
    and mx: "pt_max_entries (fst (remove_peer t i)) = pt_max_entries t"
    using assms(2) by (simp_all add: remove_peer_def)
  have "(i, x) \<in> set (pt_records t)" using assms(2) by (auto simp: get_peer_def dest: map_of_SomeD)
  then have "length (filter (\<lambda>e. fst e \<noteq> i) (pt_records t)) < length (pt_records t)"
    by (auto intro: length_filter_less)
  then show less: "pt_size (fst (remove_peer t i)) < pt_max_entries t" using wf_size [OF assms(1)] recs by (simp add: pt_size_def)
  show "pt_max_entries (fst (remove_peer t i)) = pt_max_entries t" by (rule mx)
  show "wf_table (fst (remove_peer t i))"
  proof (rule wf_tableI)
    show "distinct (map fst (pt_records (fst (remove_peer t i))))"
      using wf_distinct [OF assms(1)] by (simp add: recs distinct_map_filter)
    show "pr_peer_id y = j" if "get_peer (fst (remove_peer t i)) j = Some y" for j y
      using that wf_id [OF assms(1)] by (simp add: get_remove [OF assms(2)] split: if_splits)
    show "0 < pt_max_entries (fst (remove_peer t i))" using mx wf_cap [OF assms(1)] by simp
    show "pt_size (fst (remove_peer t i)) \<le> pt_max_entries (fst (remove_peer t i))" using less mx by simp
    show "pt_address_index (fst (remove_peer t i)) a = Some j \<longleftrightarrow>
        (\<exists>r. get_peer (fst (remove_peer t i)) j = Some r \<and> pr_address r = a)" for a j
    proof (cases "a = pr_address x")
      case True
      have "pt_address_index t (pr_address x) = Some i" using wf_index [OF assms(1)] assms(2) by blast
      then have "\<not> (\<exists>r. get_peer t j = Some r \<and> pr_address r = pr_address x)" if "j \<noteq> i"
        using that wf_index [OF assms(1), of "pr_address x" j] by simp
      then show ?thesis using True by (auto simp: idx get_remove [OF assms(2)])
    next
      case False
      then show ?thesis using wf_index [OF assms(1), of a j] assms(2) by (auto simp: idx get_remove [OF assms(2)])
    qed
  qed
qed

lemma get_insert [simp]: "get_peer (insert_peer t r) j = (if j = pr_peer_id r then Some r else get_peer t j)"
  using get_put [of "pr_peer_id r" r t j] by (simp add: insert_peer_def get_peer_def)

lemma alist_update_new: "map_of xs i = None \<Longrightarrow> AList.update i r xs = xs @ [(i, r)]"
  by (induction xs) (auto split: if_splits)

lemma wf_insert:
  assumes "wf_table t" and "get_peer t (pr_peer_id r) = None" and "pt_address_index t (pr_address r) = None"
    and "pt_size t < pt_max_entries t"
  shows "wf_table (insert_peer t r)"
proof (rule wf_tableI)
  have recs: "pt_records (insert_peer t r) = pt_records t @ [(pr_peer_id r, r)]"
    using alist_update_new assms(2) by (simp add: insert_peer_def put_peer_def get_peer_def)
  have idx: "pt_address_index (insert_peer t r) = (pt_address_index t)(pr_address r \<mapsto> pr_peer_id r)"
    and mx: "pt_max_entries (insert_peer t r) = pt_max_entries t" by (simp_all add: insert_peer_def)
  have "pr_peer_id r \<notin> fst ` set (pt_records t)" using assms(2) by (simp add: get_peer_def map_of_eq_None_iff)
  then show "distinct (map fst (pt_records (insert_peer t r)))" using wf_distinct [OF assms(1)] by (simp add: recs)
  show "0 < pt_max_entries (insert_peer t r)" using mx wf_cap [OF assms(1)] by simp
  show "pt_size (insert_peer t r) \<le> pt_max_entries (insert_peer t r)" using assms(4) mx recs by (simp add: pt_size_def)
  show "pr_peer_id y = j" if "get_peer (insert_peer t r) j = Some y" for j y
    using that wf_id [OF assms(1)] by (simp split: if_splits)
  show "pt_address_index (insert_peer t r) a = Some j \<longleftrightarrow> (\<exists>y. get_peer (insert_peer t r) j = Some y \<and> pr_address y = a)" for a j
  proof (cases "a = pr_address r")
    case True
    then have "\<not> (\<exists>y. get_peer t j = Some y \<and> pr_address y = a)" using wf_index [OF assms(1), of a j] assms(3) by simp
    then show ?thesis using True by (auto simp: idx)
  next
    case False
    then show ?thesis using wf_index [OF assms(1), of a j] assms(2) by (auto simp: idx)
  qed
qed

section \<open>Adding a record\<close>

lemma evict_for_cases:
  assumes "wf_table t" and "evict_for t r = (t', b)"
  shows "(\<not> b \<and> t' = t) \<or> (b \<and> (\<exists>i x. get_peer t i = Some x \<and> evictable r x \<and> t' = fst (remove_peer t i)))"
proof (cases "sort_key victim_key (filter (evictable r) (all_peers t))")
  case Nil
  then show ?thesis using assms(2) by (simp add: evict_for_def)
next
  case (Cons v vs)
  then have "v \<in> set (filter (evictable r) (all_peers t))" by (metis list.set_intros(1) set_sort)
  then obtain i where i: "(i, v) \<in> set (pt_records t)" "evictable r v" by (auto simp: all_peers_def)
  then have g: "get_peer t i = Some v" using wf_distinct [OF assms(1)] by (simp add: get_peer_def)
  have id: "pr_peer_id v = i" by (rule wf_id [OF assms(1) g])
  have "evict_for t r = remove_peer t i" using Cons id by (simp add: evict_for_def)
  then have r: "remove_peer t i = (t', b)" using assms(2) by simp
  moreover have "snd (remove_peer t i)" using g by (simp add: remove_peer_def)
  ultimately have "t' = fst (remove_peer t i)" "b" by simp_all
  then show ?thesis using g i(2) by blast
qed

lemma add_peer_cases:
  assumes "wf_table t" and "add_peer t r = (t', res)"
  obtains (merged) i x where "get_peer t i = Some x" "t' = put_peer i (update_existing x r) t" "res = Inr False"
  | (full) "t' = t" "res = Inl PeerTableFullError"
  | (added) "get_peer t (pr_peer_id r) = None" "pt_address_index t (pr_address r) = None" "pt_size t < pt_max_entries t"
      "t' = insert_peer t r" "res = Inr True"
  | (evicted) i x where "get_peer t (pr_peer_id r) = None" "pt_address_index t (pr_address r) = None"
      "get_peer t i = Some x" "evictable r x" "t' = insert_peer (fst (remove_peer t i)) r" "res = Inr True"
proof (cases "get_peer t (pr_peer_id r)")
  case (Some x)
  then show ?thesis using assms(2) merged by (simp add: add_peer_def)
next
  case None
  show ?thesis
  proof (cases "pt_address_index t (pr_address r)")
    case (Some i)
    then obtain x where "get_peer t i = Some x" using wf_index [OF assms(1)] by blast
    then show ?thesis using assms(2) None Some merged by (simp add: add_peer_def)
  next
    case no_addr: None
    show ?thesis
    proof (cases "pt_size t \<ge> pt_max_entries t")
      case False
      then show ?thesis using assms(2) None no_addr added by (simp add: add_peer_def)
    next
      case True
      obtain t1 b where e: "evict_for t r = (t1, b)" by fastforce
      have step: "add_peer t r = (case evict_for t r of (t', False) \<Rightarrow> (t', Inl PeerTableFullError)
          | (t', True) \<Rightarrow> (insert_peer t' r, Inr True))"
        using None no_addr True by (simp add: add_peer_def)
      from evict_for_cases [OF assms(1) e] show ?thesis
      proof (elim disjE conjE exE)
        assume "\<not> b" "t1 = t"
        then show ?thesis using step e assms(2) full by simp
      next
        fix i x
        assume v: "b" "get_peer t i = Some x" "evictable r x" "t1 = fst (remove_peer t i)"
        then have "t' = insert_peer (fst (remove_peer t i)) r" "res = Inr True" using step e assms(2) by simp_all
        then show ?thesis using evicted None no_addr v by blast
      qed
    qed
  qed
qed

lemma wf_add_peer:
  assumes "wf_table t" and "add_peer t r = (t', res)"
  shows "wf_table t'" and "res \<noteq> Inl KeyError"
proof -
  have "wf_table t' \<and> res \<noteq> Inl KeyError"
    using assms
  proof (cases rule: add_peer_cases)
    case (merged i x)
    then show ?thesis using wf_put [OF assms(1) merged(1)] by simp
  next
    case (evicted i x)
    have "wf_table (insert_peer (fst (remove_peer t i)) r)"
    proof (rule wf_insert)
      show "wf_table (fst (remove_peer t i))" by (rule wf_remove(1) [OF assms(1) evicted(3)])
      show "get_peer (fst (remove_peer t i)) (pr_peer_id r) = None"
        using evicted(1) by (simp add: get_remove [OF evicted(3)])
      show "pt_address_index (fst (remove_peer t i)) (pr_address r) = None"
        using evicted(2,3) by (simp add: remove_peer_def)
      show "pt_size (fst (remove_peer t i)) < pt_max_entries (fst (remove_peer t i))"
        using wf_remove(2,3) [OF assms(1) evicted(3)] by simp
    qed
    then show ?thesis using evicted by simp
  qed (use assms(1) wf_insert in simp_all)
  then show "wf_table t'" "res \<noteq> Inl KeyError" by blast+
qed

text \<open>A peer of another source that is not banned stays, with its place and at least its score.\<close>

definition same_peer :: "peer_record \<Rightarrow> peer_record \<Rightarrow> bool" where
  "same_peer x y \<longleftrightarrow> pr_address y = pr_address x \<and> pr_source y = pr_source x \<and> pr_status y = pr_status x \<and> pr_score x \<le> pr_score y"

lemma add_keeps_others:
  assumes "wf_table t" and "add_peer t r = (t', res)" and "get_peer t i = Some x"
    and "pr_source x \<noteq> pr_source r" and "pr_status x \<noteq> BANNED"
  shows "\<exists>y. get_peer t' i = Some y \<and> same_peer x y"
  using assms(1,2)
proof (cases rule: add_peer_cases)
  case (merged j z)
  then show ?thesis using assms(3) by (cases "i = j") (auto simp: same_peer_def)
next
  case added
  then show ?thesis using assms(3) by (auto simp: same_peer_def)
next
  case (evicted j z)
  have "i \<noteq> j" using evicted(3,4) assms(3-5) by (auto simp: evictable_def)
  moreover have "i \<noteq> pr_peer_id r" using evicted(1) assms(3) by auto
  ultimately show ?thesis using assms(3) evicted(3,5) by (simp add: get_remove same_peer_def)
qed (use assms(3) in \<open>simp add: same_peer_def\<close>)

fun add_all :: "peer_table \<Rightarrow> peer_record list \<Rightarrow> peer_table" where
  "add_all t [] = t"
| "add_all t (r # rs) = add_all (fst (add_peer t r)) rs"

lemma add_all_keeps_others:
  "wf_table t \<Longrightarrow> get_peer t i = Some x \<Longrightarrow> pr_status x \<noteq> BANNED \<Longrightarrow> (\<forall>r \<in> set rs. pr_source r \<noteq> pr_source x) \<Longrightarrow>
     wf_table (add_all t rs) \<and> (\<exists>y. get_peer (add_all t rs) i = Some y \<and> same_peer x y)"
proof (induction rs arbitrary: t x)
  case (Cons r rs)
  obtain t1 res where t1: "add_peer t r = (t1, res)" by fastforce
  have "pr_source x \<noteq> pr_source r" using Cons.prems(4) by auto
  then obtain y where y: "get_peer t1 i = Some y" "same_peer x y"
    using add_keeps_others [OF Cons.prems(1) t1 Cons.prems(2)] Cons.prems(3) by blast
  have "pr_status y \<noteq> BANNED" "\<forall>r \<in> set rs. pr_source r \<noteq> pr_source y" using y(2) Cons.prems(3,4) by (auto simp: same_peer_def)
  from Cons.IH [OF wf_add_peer(1) [OF Cons.prems(1) t1] y(1) this] y(2) show ?case
    by (auto simp: t1 same_peer_def intro: order_trans)
qed (auto simp: same_peer_def)

text \<open>C37: However many records of one source arrive, they cannot displace a peer of another source: every peer of
  another source that is not banned is still in the table afterwards, at its address, with its status and
  at least its score, and the table keeps its invariant and capacity.\<close>

theorem peer_flood_bounded:
  assumes "wf_table t" and "get_peer t i = Some x" and "pr_status x \<noteq> BANNED"
    and "\<forall>r \<in> set rs. pr_source r \<noteq> pr_source x"
  shows "wf_table (add_all t rs) \<and> (\<exists>y. get_peer (add_all t rs) i = Some y \<and> same_peer x y)"
  by (rule add_all_keeps_others [OF assms])

section \<open>The operations of the manager\<close>

lemma add_object_table:
  assumes "add_object m ob = (m', res)"
  shows "add_peer (dm_table m) (object_value m ob) = (dm_table m', res)"
  using assms by (auto simp: add_object_def Let_def split: prod.split_asm)

lemma load_source_wf: "wf_table (dm_table m) \<Longrightarrow> wf_table (dm_table (fst (load_source m n obs)))"
proof (induction obs arbitrary: m n)
  case (Cons ob obs)
  obtain m1 res where a: "add_object m ob = (m1, res)" by fastforce
  have "wf_table (dm_table m1)" by (rule wf_add_peer(1) [OF Cons.prems add_object_table [OF a]])
  then show ?case using Cons.IH [of m1] a by (cases res) simp_all
qed simp

lemma load_sources_wf:
  "wf_table (dm_table m) \<Longrightarrow>
     wf_table (dm_table (fst (foldl (\<lambda>(m, added) source. load_source m added (source_load source)) (m, n) sources)))"
proof (induction sources arbitrary: m n)
  case (Cons s sources)
  obtain m1 n1 where l: "load_source m n (source_load s) = (m1, n1)" by fastforce
  have "wf_table (dm_table m1)" using load_source_wf [OF Cons.prems, of n "source_load s"] l by simp
  from Cons.IH [OF this, of n1] show ?case by (simp add: l)
qed simp

datatype manager_op =
    Load_Bootstrap
  | Add_Discovered peer_record
  | Report_Success rat string
  | Report_Failure string
  | Ban_Peer string

fun manager_step :: "discovery_manager \<Rightarrow> manager_op \<Rightarrow> discovery_manager" where
  "manager_step m Load_Bootstrap = fst (load_bootstrap m)"
| "manager_step m (Add_Discovered r) = fst (add_discovered m r)"
| "manager_step m (Report_Success now i) = fst (report_handshake_success now m i)"
| "manager_step m (Report_Failure i) = fst (report_handshake_failure m i)"
| "manager_step m (Ban_Peer i) = fst (manager_ban m i)"

lemma report_wf:
  assumes "wf_table (dm_table m)"
  shows "wf_table (dm_table (fst (report_handshake_success now m i)))"
    and "wf_table (dm_table (fst (report_handshake_failure m i)))"
  using assms wf_put [OF assms, of i]
  by (cases "get_peer (dm_table m) i";
      simp add: report_handshake_success_def report_handshake_failure_def touch_success_def touch_failure_def pr_address_def Let_def)+

lemma manager_step_wf: "wf_table (dm_table m) \<Longrightarrow> wf_table (dm_table (manager_step m op))"
proof (cases op)
  case Load_Bootstrap
  moreover assume "wf_table (dm_table m)"
  ultimately show ?thesis using load_sources_wf [of m 0 "dm_sources m"]
    by (simp add: load_bootstrap_def Let_def case_prod_beta)
next
  case (Add_Discovered r)
  moreover assume wf: "wf_table (dm_table m)"
  moreover obtain m1 res where a: "add_object m (Fresh r) = (m1, res)" by fastforce
  ultimately show ?thesis using wf_add_peer(1) [OF wf add_object_table [OF a]] by (cases res) (auto simp: add_discovered_def)
next
  case (Ban_Peer i)
  moreover assume wf: "wf_table (dm_table m)"
  ultimately show ?thesis using wf_put [OF wf, of i]
    by (cases "get_peer (dm_table m) i") (simp_all add: manager_ban_def ban_peer_def pr_address_def)
qed (simp_all add: report_wf)

lemma manager_steps_wf: "wf_table (dm_table m) \<Longrightarrow> wf_table (dm_table (foldl manager_step m ops))"
  by (induction ops arbitrary: m) (simp_all add: manager_step_wf)

lemma new_table_wf:
  assumes "new_peer_table k ratio p v4 v6 = Inr t"
  shows "wf_table t" and "int (pt_max_entries t) = k"
proof -
  show "int (pt_max_entries t) = k" using assms by (auto simp: new_peer_table_def split: if_splits)
  show "wf_table t"
    using assms by (intro wf_tableI) (auto simp: new_peer_table_def get_peer_def pt_size_def split: if_splits)
qed

text \<open>C36: Whatever the sources, the discovered records, the handshake reports and the bans, and in whatever order,
  the two dictionaries of the peer table agree (an address is indexed exactly when the peer it names is
  there and has it), the table stays within its capacity, and adding a record never ends in the
  \<open>KeyError\<close> of a dangling index entry.\<close>

theorem peer_table_invariant:
  assumes "new_peer_table k ratio p v4 v6 = Inr t"
  shows "wf_table (dm_table (foldl manager_step (new_manager (Some t) sources n objects) ops))
    \<and> snd (add_discovered (foldl manager_step (new_manager (Some t) sources n objects) ops) r) \<in> {Inr True, Inr False}"
proof -
  define m where "m = foldl manager_step (new_manager (Some t) sources n objects) ops"
  have wf: "wf_table (dm_table m)"
    unfolding m_def by (rule manager_steps_wf) (simp add: new_manager_def new_table_wf(1) [OF assms])
  obtain m1 res where o: "add_object m (Fresh r) = (m1, res)" by fastforce
  note a = add_object_table [OF o, unfolded object_value.simps]
  have "snd (add_discovered m r) \<in> {Inr True, Inr False}"
    using wf a by (cases rule: add_peer_cases) (simp_all add: add_discovered_def o is_discovery_error_def)
  then show ?thesis using wf unfolding m_def by blast
qed

section \<open>Selection\<close>

definition of_source :: "peer_source \<Rightarrow> peer_record list \<Rightarrow> int" where
  "of_source s rs = int (length (filter (\<lambda>r. pr_source r = s) rs))"

definition of_prefix :: "(string \<Rightarrow> string option) \<Rightarrow> string \<Rightarrow> peer_record list \<Rightarrow> int" where
  "of_prefix pref p rs = int (length (filter (\<lambda>r. pref (pr_host r) = Some p \<and> p \<noteq> []) rs))"

definition bounded_choice :: "(string \<Rightarrow> string option) \<Rightarrow> nat \<Rightarrow> int \<Rightarrow> int \<Rightarrow> peer_record list \<Rightarrow> bool" where
  "bounded_choice pref wanted per_source per_prefix rs \<longleftrightarrow>
     length rs \<le> wanted \<and> (\<forall>s. of_source s rs \<le> per_source) \<and> (\<forall>p. of_prefix pref p rs \<le> per_prefix)"

lemma of_source_simps [simp]:
  "of_source s [] = 0" "of_source s (rs @ [r]) = of_source s rs + (if pr_source r = s then 1 else 0)"
  by (simp_all add: of_source_def)

lemma of_prefix_simps [simp]:
  "of_prefix pref p [] = 0"
  "of_prefix pref p (rs @ [r]) = of_prefix pref p rs + (if pref (pr_host r) = Some p \<and> p \<noteq> [] then 1 else 0)"
  by (simp_all add: of_prefix_def)

lemma bounded_choice_add:
  assumes "bounded_choice pref wanted k q rs" and "length rs < wanted" and "of_source (pr_source r) rs < k"
    and "\<And>p. pref (pr_host r) = Some p \<Longrightarrow> p \<noteq> [] \<Longrightarrow> of_prefix pref p rs < q"
  shows "bounded_choice pref wanted k q (rs @ [r])"
  using assms by (auto simp: bounded_choice_def)

lemma choose_peers_bounded:
  assumes "bounded_choice pref wanted k q chosen" and "sources = (\<lambda>s. of_source s chosen)"
    and "prefs = (\<lambda>p. of_prefix pref p chosen)"
  shows "bounded_choice pref wanted k q (choose_peers pref True wanted k q rs chosen sources prefs)"
  using assms
proof (induction rs arbitrary: chosen sources prefs)
  case (Cons r rs)
  note sources = Cons.prems(2) and prefs = Cons.prems(3)
  consider (full) "length chosen \<ge> wanted" | (source) "length chosen < wanted" "of_source (pr_source r) chosen \<ge> k"
    | (blocked) p where "length chosen < wanted" "of_source (pr_source r) chosen < k"
        "pref (pr_host r) = Some p" "p \<noteq> []" "of_prefix pref p chosen \<ge> q"
    | (none) "length chosen < wanted" "of_source (pr_source r) chosen < k" "pref (pr_host r) = None"
    | (take) p where "length chosen < wanted" "of_source (pr_source r) chosen < k"
        "pref (pr_host r) = Some p" "p \<noteq> [] \<Longrightarrow> of_prefix pref p chosen < q"
    by (cases "pref (pr_host r)") (force simp: not_le)+
  then show ?case
  proof cases
    case full
    then show ?thesis using Cons.prems(1) by simp
  next
    case source
    then show ?thesis using Cons.IH [OF Cons.prems] sources by simp
  next
    case (blocked p)
    then show ?thesis using Cons.IH [OF Cons.prems] sources prefs by simp
  next
    case none
    have "bounded_choice pref wanted k q (chosen @ [r])" by (rule bounded_choice_add) (use Cons.prems(1) none in simp_all)
    then show ?thesis using none sources prefs by (simp, intro Cons.IH) (auto simp: fun_eq_iff)
  next
    case (take p)
    have "bounded_choice pref wanted k q (chosen @ [r])" by (rule bounded_choice_add) (use Cons.prems(1) take in simp_all)
    then show ?thesis using take sources prefs by (cases "p = []"; simp, intro Cons.IH) (auto simp: fun_eq_iff)
  qed
qed simp

lemma choose_peers_subseq:
  "\<exists>ys. choose_peers pref d wanted k q rs chosen sources prefs = chosen @ ys \<and> subseq ys rs"
proof (induction rs arbitrary: chosen sources prefs)
  case (Cons r rs)
  define P where "P x = (\<exists>ys. x = chosen @ ys \<and> subseq ys (r # rs))" for x
  have "P chosen" by (simp add: P_def)
  moreover have "P (choose_peers pref d wanted k q rs chosen s p)" for s p
    using Cons.IH [of chosen s p] by (auto simp: P_def)
  moreover have "P (choose_peers pref d wanted k q rs (chosen @ [r]) s p)" for s p
    using Cons.IH [of "chosen @ [r]" s p] by (auto simp: P_def)
  ultimately have "P (choose_peers pref d wanted k q (r # rs) chosen sources prefs)"
    by (cases d) (simp_all split: option.split)
  then show ?case by (simp add: P_def)
qed simp

lemma wf_ids:
  assumes "wf_table t"
  shows "distinct (map pr_peer_id (all_peers t))"
proof -
  have "map pr_peer_id (all_peers t) = map fst (pt_records t)"
    using wf_distinct [OF assms] wf_id [OF assms] by (auto simp: all_peers_def get_peer_def)
  then show ?thesis using wf_distinct [OF assms] by simp
qed

lemma distinct_map_subseq: "subseq xs ys \<Longrightarrow> distinct (map f ys) \<Longrightarrow> distinct (map f xs)"
  by (metis distinct_nthsI nths_map subseq_conv_nths)

lemma distinct_map_sorted: "distinct (map f xs) \<Longrightarrow> distinct (map f (sort_key k xs))"
  by (simp add: distinct_map)

text \<open>C38: The candidates chosen for outbound connections are at most as many as asked for, are different peers of the
  table in the order of score, recency and id, are candidates or failed peers but never banned or
  connected ones, and are spread: at most the configured share from one source (at least one), and at
  most the configured number from one network prefix.\<close>

theorem peer_selection_bounded:
  assumes "wf_table t" and "0 \<le> pt_max_same_prefix_peers t"
  shows "bounded_choice (network_prefix v6 t) (nat n) (max_per_source t (nat n)) (pt_max_same_prefix_peers t)
        (select_candidates v6 t n True)
    \<and> subseq (select_candidates v6 t n True) (sort_key select_key (filter viable (all_peers t)))
    \<and> distinct (map pr_peer_id (select_candidates v6 t n True))"
proof -
  define sorted where "sorted = sort_key select_key (filter viable (all_peers t))"
  have empty: "bounded_choice (network_prefix v6 t) m (max_per_source t m) (pt_max_same_prefix_peers t) []" for m
    using assms(2) by (simp add: bounded_choice_def max_per_source_def)
  have bounded: "bounded_choice (network_prefix v6 t) (nat n) (max_per_source t (nat n)) (pt_max_same_prefix_peers t)
      (select_candidates v6 t n True)"
    using empty [of 0] choose_peers_bounded [OF empty refl refl] by (simp add: select_candidates_def)
  have sub: "subseq (select_candidates v6 t n True) sorted"
    using choose_peers_subseq [of "network_prefix v6 t" True "nat n" "max_per_source t (nat n)" "pt_max_same_prefix_peers t"
        sorted "[]" "\<lambda>_. 0" "\<lambda>_. 0"] by (auto simp: select_candidates_def sorted_def)
  have "distinct (map pr_peer_id sorted)"
    unfolding sorted_def by (intro distinct_map_sorted distinct_map_filter wf_ids assms(1))
  with sub have "distinct (map pr_peer_id (select_candidates v6 t n True))" by (rule distinct_map_subseq)
  then show ?thesis using bounded sub unfolding sorted_def by blast
qed

text \<open>Two sources and a table of two entries.\<close>

definition demo_peer :: "string \<Rightarrow> string \<Rightarrow> peer_source \<Rightarrow> int \<Rightarrow> peer_record" where
  "demo_peer i host source score = new_peer i host 8333 source score []"

definition demo_table :: peer_table where
  "demo_table = \<lparr>pt_max_entries = 2, pt_max_same_source_ratio = 1 / 4, pt_max_same_prefix_peers = 2,
     pt_ipv4_prefix_bits = 24, pt_ipv6_prefix_bits = 48, pt_records = [], pt_address_index = Map.empty\<rparr>"

definition demo_known :: peer_table where
  "demo_known = insert_peer demo_table (demo_peer ''home'' ''10.0.0.1'' BOOTSTRAP 600)"

lemma demo_table_made: "new_peer_table 2 (1 / 4) 2 24 48 = Inr demo_table"
  by (simp add: new_peer_table_def demo_table_def)

lemma demo_known_wf: "wf_table demo_known" "get_peer demo_known ''home'' = Some (demo_peer ''home'' ''10.0.0.1'' BOOTSTRAP 600)"
proof -
  have "wf_table demo_table" by (rule new_table_wf(1) [OF demo_table_made])
  then show "wf_table demo_known"
    unfolding demo_known_def
    by (rule wf_insert) (simp_all add: demo_table_def demo_peer_def new_peer_def get_peer_def pt_size_def)
  show "get_peer demo_known ''home'' = Some (demo_peer ''home'' ''10.0.0.1'' BOOTSTRAP 600)"
    by (simp add: demo_known_def) (simp add: demo_peer_def new_peer_def)
qed

theorem peer_flood_bounded_witness:
  "\<exists>y. get_peer (add_all demo_known [demo_peer ''a'' ''6.6.6.1'' PEX 900, demo_peer ''b'' ''6.6.6.2'' PEX 950,
      demo_peer ''c'' ''6.6.6.3'' PEX 990]) ''home'' = Some y"
  using peer_flood_bounded [OF demo_known_wf, of "[demo_peer ''a'' ''6.6.6.1'' PEX 900, demo_peer ''b'' ''6.6.6.2'' PEX 950,
      demo_peer ''c'' ''6.6.6.3'' PEX 990]"]
  by (auto simp: demo_peer_def new_peer_def)

theorem peer_table_invariant_witness:
  "wf_table (dm_table (foldl manager_step (new_manager (Some demo_table) [MemorySource [0]] 8 (\<lambda>_. demo_peer ''home'' ''10.0.0.1'' BOOTSTRAP 600))
      [Load_Bootstrap, Report_Failure ''home'', Add_Discovered (demo_peer ''a'' ''10.0.0.1'' PEX 900), Ban_Peer ''home'']))"
  using peer_table_invariant [OF demo_table_made] by blast

theorem peer_selection_bounded_witness:
  "bounded_choice (network_prefix (\<lambda>_ _. None) demo_known) 8 2 2 (select_candidates (\<lambda>_ _. None) demo_known 8 True)
    \<and> select_candidates (\<lambda>_ _. None) demo_known 8 True = [demo_peer ''home'' ''10.0.0.1'' BOOTSTRAP 600]"
proof -
  have "max_per_source demo_known 8 = 2" "pt_max_same_prefix_peers demo_known = 2"
    by (simp_all add: max_per_source_def demo_known_def insert_peer_def put_peer_def demo_table_def)
  moreover have "select_candidates (\<lambda>_ _. None) demo_known 8 True = [demo_peer ''home'' ''10.0.0.1'' BOOTSTRAP 600]"
    by code_simp
  ultimately show ?thesis
    using peer_selection_bounded [OF demo_known_wf(1), of "\<lambda>_ _. None" 8] by simp
qed

section \<open>Loading twice\<close>

lemma dict_set_same: "distinct (map fst d) \<Longrightarrow> (k, v) \<in> set d \<Longrightarrow> dict_set d k v = d"
  by (induction d k v rule: dict_set.induct) force+

lemma update_same:
  assumes "distinct (map fst (pr_capabilities x))"
  shows "update_existing x x = x"
proof -
  have "set kvs \<subseteq> set d \<Longrightarrow> distinct (map fst d) \<Longrightarrow> foldl (\<lambda>d (k, v). dict_set d k v) d kvs = d" for kvs d
    by (induction kvs) (auto simp: dict_set_same)
  from this [OF subset_refl assms] show ?thesis by (simp add: update_existing_def split: option.split)
qed

text \<open>An object of an in-memory source that is in the table is merged with itself: whatever its score has
  become, a second load does not change the table.\<close>

theorem shared_object_reload:
  assumes "wf_table (dm_table m)" and "k \<in> set (dm_shared m)"
    and "get_peer (dm_table m) (pr_peer_id (dm_objects m k)) = Some x" and "distinct (map fst (pr_capabilities x))"
  shows "dm_table (fst (add_object m (Shared k))) = dm_table m \<and> snd (add_object m (Shared k)) = Inr False"
proof -
  let ?t = "dm_table m"
  have v: "object_value m (Shared k) = x" using assms(2,3) by simp
  have id: "pr_peer_id x = pr_peer_id (dm_objects m k)" by (rule wf_id [OF assms(1,3)])
  have "map_of xs i = Some r \<Longrightarrow> AList.update i r xs = xs" for xs i r by (induction xs) (auto split: if_splits)
  then have "AList.update (pr_peer_id x) x (pt_records ?t) = pt_records ?t" using assms(3) by (simp add: get_peer_def id)
  then have "put_peer (pr_peer_id x) x ?t = ?t" by (simp add: put_peer_def)
  then have "add_peer ?t x = (?t, Inr False)" using assms(3) by (simp add: add_peer_def id update_same [OF assms(4)])
  then show ?thesis by (simp only: add_object_def v Let_def prod.case) simp
qed

text \<open>A static source makes new records, so for its peers a second load undoes what the handshakes have
  taken from the score.\<close>

definition demo_entry :: bootstrap_entry where
  "demo_entry = \<lparr>bs_host = ''10.0.0.1'', bs_port = 8333, bs_trusted = False\<rparr>"

definition demo_id :: string where
  "demo_id = ''static_bootstrap-'' @ nat_text 0 @ ''-10.0.0.1-'' @ int_text 8333"

definition score_after :: "bootstrap_source \<Rightarrow> manager_op list \<Rightarrow> int list" where
  "score_after source ops = map pr_score (all_peers (dm_table (foldl manager_step
     (new_manager (Some demo_table) [source] 8 (\<lambda>_. demo_peer demo_id ''10.0.0.1'' BOOTSTRAP 600)) ops)))"

lemma demo_static_load: "static_load [demo_entry] = [new_peer demo_id ''10.0.0.1'' 8333 BOOTSTRAP 600 [(''trusted'', JBool False)]]"
  by (simp add: static_load_def demo_entry_def demo_id_def)

theorem reload_restores_score:
  "score_after (StaticSource [demo_entry]) [Load_Bootstrap, Report_Failure demo_id] = [500]
   \<and> score_after (StaticSource [demo_entry]) [Load_Bootstrap, Report_Failure demo_id, Load_Bootstrap] = [600]
   \<and> score_after (MemorySource [0]) [Load_Bootstrap, Report_Failure demo_id, Load_Bootstrap] = [500]"
  by (simp add: score_after_def new_manager_def load_bootstrap_def demo_static_load add_object_def still_in_def add_peer_def
      insert_peer_def put_peer_def get_peer_def all_peers_def pt_size_def demo_table_def demo_peer_def new_peer_def
      report_handshake_failure_def touch_failure_def update_existing_def pr_address_def Let_def)

end
