(* ===== verification/Block_Codec.thy ===== *)
theory Block_Codec
  imports Wire Chain
begin

text \<open>
  The binary form of transactions and blocks: \<open>encode_transaction\<close> and \<open>decode_transaction\<close> of
  \<open>chainbreaker/codec.py\<close> with the address codec beside them, and \<open>block_encode\<close> and \<open>block_decode\<close> of
  \<open>chainbreaker/chain.py\<close>, which choose the header version by the bytes at the front.  A transaction is
  any JSON value; a decoder returns the value with its four keys.
\<close>

section \<open>Addresses\<close>

definition ADDR_LEN :: nat where
  "ADDR_LEN = 20"

definition encode_address :: "string \<Rightarrow> bytes res" where
  "encode_address addr =
     bindE (of_option ValueError (fromhex (if take 2 addr = ''CB'' then drop 2 addr else addr))) (\<lambda>raw.
       if length raw \<noteq> ADDR_LEN then Inl CodecError else Inr raw)"

definition decode_address :: "bytes \<Rightarrow> string res" where
  "decode_address data = (if length data \<noteq> ADDR_LEN then Inl CodecError else Inr (''CB'' @ hex_of_bytes data))"

lemma address_roundtrip: "decode_address b = Inr a \<Longrightarrow> encode_address a = Inr b"
  by (auto simp: decode_address_def encode_address_def split: if_splits)

section \<open>Transactions\<close>

definition TYPE_TX :: byte where
  "TYPE_TX = 0x01"

definition MAX_TX_TYPE_LEN :: nat where
  "MAX_TX_TYPE_LEN = 64"

definition MAX_TX_BODY_LEN :: nat where
  "MAX_TX_BODY_LEN = 1024 * 1024"

definition MAX_WITNESSES_LEN :: nat where
  "MAX_WITNESSES_LEN = 1024 * 1024"

fun tx_type_bytes :: "json \<Rightarrow> bytes res" where
  "tx_type_bytes (JStr s) =
     bindE (encode_utf8 s) (\<lambda>raw. if length raw > MAX_TX_TYPE_LEN then Inl CodecError else Inr raw)"
| "tx_type_bytes _ = Inl CodecError"

definition canonical_part :: "nat \<Rightarrow> json \<Rightarrow> bytes res" where
  "canonical_part limit j = bindE (canonical_json j) (\<lambda>b. if length b > limit then Inl CodecError else Inr b)"

definition encode_transaction :: "runtime \<Rightarrow> json \<Rightarrow> bytes res" where
  "encode_transaction R tx =
     bindE (bindE (jget tx ''type'' (JStr '''')) tx_type_bytes) (\<lambda>tx_type.
     bindE (bindE (jget tx ''body'' (JDict [])) (canonical_part MAX_TX_BODY_LEN)) (\<lambda>body.
     bindE (bindE (jget tx ''witnesses'' (JList [])) (canonical_part MAX_WITNESSES_LEN)) (\<lambda>witnesses.
     bindE (bindE (bindE (jindex tx ''version'') (py_int R)) encode_varint) (\<lambda>v.
     bindE (encode_bytes tx_type) (\<lambda>t.
     bindE (encode_bytes body) (\<lambda>b.
     bindE (encode_bytes witnesses) (\<lambda>w. Inr (TYPE_TX # v @ t @ b @ w))))))))"

definition tx_dict :: "int \<Rightarrow> string \<Rightarrow> json \<Rightarrow> json \<Rightarrow> json" where
  "tx_dict version tx_type body witnesses =
     JDict [(''version'', JInt version), (''type'', JStr tx_type), (''body'', body), (''witnesses'', witnesses)]"

definition decode_transaction :: "runtime \<Rightarrow> bytes \<Rightarrow> nat \<Rightarrow> (json \<times> nat) res" where
  "decode_transaction R data offset =
     bindE (need data offset 1) (\<lambda>_.
     if data ! offset \<noteq> TYPE_TX then Inl CodecError
     else
       bindE (decode_varint data (offset + 1)) (\<lambda>(version, offset).
       bindE (decode_string data offset) (\<lambda>(tx_type, offset).
       bindE (decode_bytes data offset) (\<lambda>(body_b, offset).
       bindE (decode_bytes data offset) (\<lambda>(witnesses_b, offset).
       bindE (catchE (bindE (loads R body_b) (\<lambda>body. bindE (loads R witnesses_b) (\<lambda>w. Inr (body, w))))
                (\<lambda>e. e = UnicodeError \<or> e = JSONDecodeError) (Inl CodecError)) (\<lambda>(body, witnesses).
         Inr (tx_dict version tx_type body witnesses, offset)))))))"

section \<open>Blocks\<close>

definition encode_body :: "runtime \<Rightarrow> bytes \<Rightarrow> json list \<Rightarrow> bytes res" where
  "encode_body R header txs =
     bindE (encode_varint (int (length txs))) (\<lambda>n.
     bindE (mapE (encode_transaction R) txs) (\<lambda>bs. Inr (header @ n @ concat bs)))"

fun block_encode :: "runtime \<Rightarrow> any_block \<Rightarrow> bytes res" where
  "block_encode R (AnyV2 b) =
     bindE (bindE (header_v2_to_dict (bk_header b)) encode_header_v2) (\<lambda>h. encode_body R h (bk_transactions b))"
| "block_encode R (AnyV1 b) =
     bindE (bindE (header_to_dict (bk_header b)) encode_header) (\<lambda>h. encode_body R h (bk_transactions b))"

definition decode_transactions :: "runtime \<Rightarrow> bytes \<Rightarrow> nat \<Rightarrow> (json list \<times> nat) res" where
  "decode_transactions R data offset =
     bindE (decode_varint data offset) (\<lambda>(n, offset). decode_n (decode_transaction R) (nat n) data offset)"

definition looks_v2 :: "bytes \<Rightarrow> bool" where
  "looks_v2 data = (149 \<le> length data \<and> data ! 0 = TYPE_HEADER \<and> le_val (slice 1 4 data) = 2)"

definition block_decode :: "runtime \<Rightarrow> bytes \<Rightarrow> (any_block \<times> nat) res" where
  "block_decode R data =
     (if looks_v2 data then
        bindE (decode_header_v2 data 0 False) (\<lambda>(d, offset).
        bindE (decode_transactions R data offset) (\<lambda>(txs, offset).
        bindE (header_v2_from_dict d) (\<lambda>h. Inr (AnyV2 \<lparr>bk_header = h, bk_transactions = txs\<rparr>, offset))))
      else
        bindE (decode_header data 0) (\<lambda>(d, offset).
        bindE (decode_transactions R data offset) (\<lambda>(txs, offset).
        bindE (header_from_dict d) (\<lambda>h. Inr (AnyV1 \<lparr>bk_header = h, bk_transactions = txs\<rparr>, offset)))))"

section \<open>A codec whose decoder returns a normal form\<close>

locale reading_codec =
  fixes enc :: "'a \<Rightarrow> bytes res"
    and dec :: "bytes \<Rightarrow> nat \<Rightarrow> ('b \<times> nat) res"
    and wf :: "'a \<Rightarrow> bool"
    and rd :: "'a \<Rightarrow> 'b"
  assumes dec_enc_read:
    "wf x \<Longrightarrow> enc x = Inr b \<Longrightarrow> drop off data = b @ suf \<Longrightarrow> dec data off = Inr (rd x, off + length b)"
begin

lemma decode_n_read:
  assumes "\<forall>x \<in> set xs. wf x" and "mapE enc xs = Inr bs" and "drop off data = concat bs @ suf"
  shows "decode_n dec (length xs) data off = Inr (map rd xs, off + length (concat bs))"
  using assms
proof (induction xs arbitrary: bs off)
  case (Cons x xs)
  then obtain b bs' where b: "enc x = Inr b" "mapE enc xs = Inr bs'" "bs = b # bs'" by (auto simp: res_simps)
  with Cons.prems have d: "dec data off = Inr (rd x, off + length b)" by (intro dec_enc_read) auto
  have "decode_n dec (length xs) data (off + length b) = Inr (map rd xs, off + length b + length (concat bs'))"
    using Cons.prems b by (intro Cons.IH) (auto intro: drop_append_next)
  with d b show ?case by (simp add: add.assoc)
qed simp

end

text \<open>What the decoder returns for a transaction, and the transactions it returns it for.\<close>

definition tx_version :: "runtime \<Rightarrow> json \<Rightarrow> int" where
  "tx_version R tx = (case bindE (jindex tx ''version'') (py_int R) of Inr v \<Rightarrow> v | Inl _ \<Rightarrow> 0)"

fun str_part :: "json \<Rightarrow> string" where
  "str_part (JStr s) = s"
| "str_part _ = []"

fun part :: "json \<Rightarrow> string \<Rightarrow> json \<Rightarrow> json" where
  "part (JDict d) k v = dget d k v"
| "part _ k v = v"

definition read_tx :: "runtime \<Rightarrow> json \<Rightarrow> json" where
  "read_tx R tx = tx_dict (tx_version R tx) (str_part (part tx ''type'' (JStr [])))
     (norm_json (part tx ''body'' (JDict []))) (norm_json (part tx ''witnesses'' (JList [])))"

definition wf_tx :: "runtime \<Rightarrow> json \<Rightarrow> bool" where
  "wf_tx R tx = (json_wf (rt_float R) (part tx ''body'' (JDict [])) \<and> json_wf (rt_float R) (part tx ''witnesses'' (JList [])))"

lemma canonical_part_loads:
  "json_wf (rt_float R) j \<Longrightarrow> canonical_part k j = Inr b \<Longrightarrow> loads R b = Inr (norm_json j)"
  by (auto simp: canonical_part_def loads_def res_simps loads_canonical_json split: if_splits)

lemma tx_type_bytes_Inr: "tx_type_bytes j = Inr b \<Longrightarrow> \<exists>s. j = JStr s \<and> utf8_valid s \<and> b = str_bytes s"
  by (cases j) (auto simp: encode_utf8_def res_simps split: if_splits)

lemma decode_encode_transaction:
  assumes "wf_tx R tx" and "encode_transaction R tx = Inr b" and d: "drop off data = b @ suf"
  shows "decode_transaction R data off = Inr (read_tx R tx, off + length b)"
proof -
  from assms(2) obtain D where D: "tx = JDict D" by (cases tx) (simp_all add: encode_transaction_def)
  define ty where "ty = dget D ''type'' (JStr '''')"
  define bo where "bo = dget D ''body'' (JDict [])"
  define wi where "wi = dget D ''witnesses'' (JList [])"
  from assms(2) obtain tyb bob wib n v t bb w where
    f: "tx_type_bytes ty = Inr tyb" "canonical_part MAX_TX_BODY_LEN bo = Inr bob"
      "canonical_part MAX_WITNESSES_LEN wi = Inr wib" "bindE (jindex tx ''version'') (py_int R) = Inr n"
      "encode_varint n = Inr v" "encode_bytes tyb = Inr t" "encode_bytes bob = Inr bb" "encode_bytes wib = Inr w"
      "b = TYPE_TX # v @ t @ bb @ w"
    unfolding encode_transaction_def D jget.simps ty_def bo_def wi_def by (auto simp: bindE_Inr_iff)
  from tx_type_bytes_Inr [OF f(1)] obtain s where s: "ty = JStr s" "utf8_valid s" "tyb = str_bytes s" by blast
  have wf: "json_wf (rt_float R) bo" "json_wf (rt_float R) wi" using assms(1) by (simp_all add: wf_tx_def D bo_def wi_def)
  have d0: "drop off data = TYPE_TX # (v @ t @ bb @ w) @ suf" using d f(9) by simp
  have d1: "drop (off + 1) data = v @ t @ bb @ w @ suf" using drop_ConsD [OF d0] by simp
  note d2 = drop_append_next [OF d1]
  note d3 = drop_append_next [OF d2]
  note d4 = drop_append_next [OF d3]
  have "decode_string data (off + 1 + length v) = Inr (s, off + 1 + length v + length t)"
    using lenbytes.dec_enc [OF TrueI f(6) d2] s(2,3) by (simp add: decode_string_def)
  then show ?thesis
    using drop_ConsD [OF d0] varint.dec_enc [OF TrueI f(5) d1] lenbytes.dec_enc [OF TrueI f(7) d3]
      lenbytes.dec_enc [OF TrueI f(8) d4] canonical_part_loads [OF wf(1) f(2)] canonical_part_loads [OF wf(2) f(3)]
      f(4,9) s(1)
    by (simp add: decode_transaction_def need_def read_tx_def tx_version_def D ty_def bo_def wi_def)
qed

interpretation transactions: reading_codec "encode_transaction R" "decode_transaction R" "wf_tx R" "read_tx R"
  by unfold_locales (rule decode_encode_transaction)

interpretation varints: reading_codec encode_varint decode_varint "\<lambda>_. True" "\<lambda>n. n"
  by unfold_locales (rule varint.dec_enc)

end
