(* ===== verification/Block_Codec_Props.thy ===== *)
theory Block_Codec_Props
  imports Block_Codec
begin

text \<open>
  The block codec: what \<open>block_encode\<close> writes \<open>block_decode\<close> reads, whatever follows it, and whatever
  \<open>block_decode\<close> accepts has header fields of their width and transactions of the four keys.
\<close>

section \<open>Version 1 headers\<close>

lemma decode_encode_header:
  assumes "wf_hdr_dict h" and "encode_header h = Inr b" and d: "drop off data = b @ suf"
  shows "decode_header data off = Inr (hdr_dict.truncate h, off + 117)"
proof -
  from assms(2) obtain v p m t g n where
    f: "struct_pack 4 (hd_version h) = Inr v" "encode_hash (hd_prev_hash h) = Inr p"
      "encode_hash (hd_merkle_root h) = Inr m" "struct_pack 8 (hd_timestamp h) = Inr t"
      "encode_hash (hd_target h) = Inr g" "struct_pack 8 (hd_nonce h) = Inr n"
    and b: "b = TYPE_HEADER # v @ p @ m @ t @ g @ n"
    by (auto simp: encode_header_Inr)
  note len = f(1,4,6)[THEN struct_pack_length] f(2,3,5)[THEN encode_hash_Inr_length]
  from assms(1) have wf: "hex64 (hd_prev_hash h)" "hex64 (hd_merkle_root h)" "hex64 (hd_target h)"
    by (auto simp: wf_hdr_dict_def)
  have d0: "drop off data = TYPE_HEADER # (v @ p @ m @ t @ g @ n) @ suf" using d b by simp
  have d1: "drop (off + 1) data = v @ p @ m @ t @ g @ n @ suf" using drop_ConsD [OF d0] by simp
  note d2 = drop_append_next [OF d1]
  note d3 = drop_append_next [OF d2]
  note d4 = drop_append_next [OF d3]
  note d5 = drop_append_next [OF d4]
  note d6 = drop_append_next [OF d5]
  note reads = u32_field.dec_enc [OF TrueI f(1) d1] hash_field.dec_enc [OF wf(1) f(2) d2]
    hash_field.dec_enc [OF wf(2) f(3) d3] u64_field.dec_enc [OF TrueI f(4) d4] hash_field.dec_enc [OF wf(3) f(5) d5]
    u64_field.dec_enc [OF TrueI f(6) d6]
  show ?thesis
    using drop_ConsD [OF d0] reads by (simp add: decode_header_def need_def len hdr_dict.defs)
qed

text \<open>The ranges of the fields, for both versions.\<close>

definition wf_header_fields :: "'a block_header_scheme \<Rightarrow> bool" where
  "wf_header_fields h =
     (0 \<le> bh_version h \<and> bh_version h < 2 ^ 32 \<and> hex64 (bh_prev_hash h) \<and> hex64 (bh_merkle_root h)
      \<and> 0 \<le> bh_timestamp h \<and> bh_timestamp h < 2 ^ 64
      \<and> 0 \<le> bh_target h \<and> bh_target h < 2 ^ 256 \<and> 0 \<le> bh_nonce h \<and> bh_nonce h < 2 ^ 64)"

lemma wf_header_v2_fields: "wf_header_v2 h \<longleftrightarrow> wf_header_fields h \<and> hex64 (bh_registry_root h)"
  by (auto simp: wf_header_v2_def wf_header_fields_def)

lemma header_v1_read:
  assumes "wf_header_fields (h :: block_header)" and "bindE (header_to_dict h) encode_header = Inr b" and "drop off data = b @ suf"
  shows "length b = 117 \<and> hd b = TYPE_HEADER \<and> slice 1 4 b = le_bytes 4 (nat (bh_version h))
    \<and> (\<exists>d. decode_header data off = Inr (d, off + 117) \<and> header_from_dict d = Inr h)"
proof -
  from assms(2) obtain t d where t: "target_to_hex (bh_target h) = Inr t" and b: "encode_header d = Inr b"
    and d: "d = \<lparr>hd_version = bh_version h, hd_prev_hash = bh_prev_hash h, hd_merkle_root = bh_merkle_root h,
      hd_timestamp = bh_timestamp h, hd_target = t, hd_nonce = bh_nonce h\<rparr>"
    by (auto simp: header_to_dict_def bindE_Inr_iff)
  have "hex64 t" using target_to_hex_total [of "bh_target h"] assms(1) t by (auto simp: wf_header_fields_def)
  then have wf: "wf_hdr_dict d" using assms(1) by (simp add: wf_hdr_dict_def d wf_header_fields_def)
  have "hdr_dict.truncate d = d" by (simp add: hdr_dict.defs)
  then have "decode_header data off = Inr (d, off + 117)" using decode_encode_header [OF wf b assms(3)] by simp
  moreover have "header_from_dict d = Inr h" using hex_to_target_to_hex [OF t] by (simp add: header_from_dict_def d)
  moreover obtain v r where "struct_pack 4 (bh_version h) = Inr v" "b = TYPE_HEADER # v @ r"
    using b by (auto simp: encode_header_Inr d)
  moreover have "length b = 117" by (rule encode_header_length [OF b])
  ultimately show ?thesis by (auto simp: slice_def struct_pack_Inr)
qed

lemma header_v2_read:
  assumes "wf_header_v2 h" and "bindE (header_v2_to_dict h) encode_header_v2 = Inr b" and "drop off data = b @ suf"
  shows "length b = 149 \<and> hd b = TYPE_HEADER \<and> slice 1 4 b = le_bytes 4 (nat (bh_version h))
    \<and> (\<exists>d. decode_header_v2 data off False = Inr (d, off + 149) \<and> header_v2_from_dict d = Inr h)"
proof -
  from assms(2) obtain t d where t: "target_to_hex (bh_target h) = Inr t" and b: "encode_header_v2 d = Inr b"
    and d: "d = \<lparr>hd_version = bh_version h, hd_prev_hash = bh_prev_hash h, hd_merkle_root = bh_merkle_root h,
      hd_timestamp = bh_timestamp h, hd_target = t, hd_nonce = bh_nonce h, hd_registry_root = bh_registry_root h\<rparr>"
    by (auto simp: header_v2_to_dict_def bindE_Inr_iff)
  have "hex64 t" using target_to_hex_total [of "bh_target h"] assms(1) t by (auto simp: wf_header_v2_def)
  then have wf: "wf_hdr_dict_v2 d" using assms(1) by (simp add: wf_hdr_dict_v2_def wf_hdr_dict_def d wf_header_v2_def)
  have "decode_header_v2 data off False = Inr (d, off + 149)"
    using decode_encode_header_v2 [OF wf b assms(3), of False] by simp
  moreover have "header_v2_from_dict d = Inr h" using hex_to_target_to_hex [OF t] by (simp add: header_v2_from_dict_def d)
  moreover obtain v r where "struct_pack 4 (bh_version h) = Inr v" "b = TYPE_HEADER # v @ r"
    using b by (auto simp: encode_header_v2_Inr d)
  moreover have "length b = 149" by (rule encode_header_v2_length [OF b])
  ultimately show ?thesis by (auto simp: slice_def struct_pack_Inr)
qed

section \<open>Round trip of blocks\<close>

text \<open>The blocks the front bytes identify: version 2 of the header for a \<open>BlockV2\<close>, another one for a \<open>Block\<close>.\<close>

fun codec_block :: "runtime \<Rightarrow> any_block \<Rightarrow> bool" where
  "codec_block R (AnyV2 b) =
     (wf_header_v2 (bk_header b) \<and> bh_version (bk_header b) = 2 \<and> (\<forall>tx \<in> set (bk_transactions b). wf_tx R tx))"
| "codec_block R (AnyV1 b) =
     (wf_header_fields (bk_header b) \<and> bh_version (bk_header b) \<noteq> 2 \<and> (\<forall>tx \<in> set (bk_transactions b). wf_tx R tx))"

fun read_block_of :: "runtime \<Rightarrow> any_block \<Rightarrow> any_block" where
  "read_block_of R (AnyV2 b) = AnyV2 (b\<lparr>bk_transactions := map (read_tx R) (bk_transactions b)\<rparr>)"
| "read_block_of R (AnyV1 b) = AnyV1 (b\<lparr>bk_transactions := map (read_tx R) (bk_transactions b)\<rparr>)"

lemma decode_body:
  assumes "encode_body R h txs = Inr s" and "\<forall>tx \<in> set txs. wf_tx R tx" and "drop off data = s @ suf"
  shows "\<exists>r. s = h @ r \<and> decode_transactions R data (off + length h) = Inr (map (read_tx R) txs, off + length s)"
proof -
  from assms(1) obtain n bs where f: "encode_varint (int (length txs)) = Inr n" "mapE (encode_transaction R) txs = Inr bs"
    "s = h @ n @ concat bs" by (auto simp: encode_body_def bindE_Inr_iff)
  have d0: "drop off data = h @ n @ concat bs @ suf" using assms(3) f(3) by simp
  note d1 = drop_append_next [OF d0]
  note d2 = drop_append_next [OF d1]
  show ?thesis
    using varint.dec_enc [OF TrueI f(1) d1] transactions.decode_n_read [OF assms(2) f(2) d2] f(3)
    by (simp add: decode_transactions_def add.assoc)
qed

lemma looks_v2_front:
  assumes "length h = k" and "117 \<le> k" and "hd h = TYPE_HEADER" and "slice 1 4 h = le_bytes 4 (nat v)" and "0 \<le> v" "v < 2 ^ 32"
  shows "looks_v2 (h @ r) \<longleftrightarrow> 149 \<le> k + length r \<and> v = 2"
proof -
  have "(h @ r) ! 0 = TYPE_HEADER" using assms(1-3) by (cases h) auto
  moreover have "slice 1 4 (h @ r) = le_bytes 4 (nat v)" using assms(1,2,4) by (simp add: slice_def)
  moreover have "nat v < 256 ^ 4" using assms(5,6) by simp
  then have "le_val (le_bytes 4 (nat v)) = nat v" by (rule le_val_le_bytes_id)
  ultimately show ?thesis using assms(1,5) by (auto simp: looks_v2_def)
qed

lemma block_decode_encode:
  assumes "codec_block R b" and "block_encode R b = Inr s"
  shows "block_decode R (s @ suf) = Inr (read_block_of R b, length s)"
proof (cases b)
  case (AnyV2 k)
  with assms have wf: "wf_header_v2 (bk_header k)" "bh_version (bk_header k) = 2" "\<forall>tx \<in> set (bk_transactions k). wf_tx R tx"
    by simp_all
  from assms(2) AnyV2 obtain h where h: "bindE (header_v2_to_dict (bk_header k)) encode_header_v2 = Inr h"
    "encode_body R h (bk_transactions k) = Inr s" unfolding AnyV2 block_encode.simps bindE_Inr_iff by blast
  from decode_body [OF h(2) wf(3), of 0 "s @ suf" suf] obtain r where
    r: "s = h @ r" "decode_transactions R (s @ suf) (length h) = Inr (map (read_tx R) (bk_transactions k), length s)" by auto
  have d: "drop 0 (s @ suf) = h @ r @ suf" using r(1) by simp
  from header_v2_read [OF wf(1) h(1) d] obtain e where e: "length h = 149" "hd h = TYPE_HEADER"
    "slice 1 4 h = le_bytes 4 (nat (bh_version (bk_header k)))"
    "decode_header_v2 (s @ suf) 0 False = Inr (e, 149)" "header_v2_from_dict e = Inr (bk_header k)" by auto
  have "looks_v2 (s @ suf)"
    using looks_v2_front [OF e(1) _ e(2,3), of "r @ suf"] wf(2) r(1) by simp
  then show ?thesis using e(1,4,5) r(2) AnyV2 by (simp add: block_decode_def)
next
  case (AnyV1 k)
  with assms have wf: "wf_header_fields (bk_header k)" "bh_version (bk_header k) \<noteq> 2" "\<forall>tx \<in> set (bk_transactions k). wf_tx R tx"
    by simp_all
  from assms(2) AnyV1 obtain h where h: "bindE (header_to_dict (bk_header k)) encode_header = Inr h"
    "encode_body R h (bk_transactions k) = Inr s" unfolding AnyV1 block_encode.simps bindE_Inr_iff by blast
  from decode_body [OF h(2) wf(3), of 0 "s @ suf" suf] obtain r where
    r: "s = h @ r" "decode_transactions R (s @ suf) (length h) = Inr (map (read_tx R) (bk_transactions k), length s)" by auto
  have d: "drop 0 (s @ suf) = h @ r @ suf" using r(1) by simp
  from header_v1_read [OF wf(1) h(1) d] obtain e where e: "length h = 117" "hd h = TYPE_HEADER"
    "slice 1 4 h = le_bytes 4 (nat (bh_version (bk_header k)))"
    "decode_header (s @ suf) 0 = Inr (e, 117)" "header_from_dict e = Inr (bk_header k)" by auto
  have "\<not> looks_v2 (s @ suf)"
    using looks_v2_front [OF e(1) _ e(2,3), of "r @ suf"] wf(1,2) r(1) by (simp add: wf_header_fields_def)
  then show ?thesis using e(1,4,5) r(2) AnyV1 by (simp add: block_decode_def)
qed

text \<open>C15: A block put into its binary form comes back from it: whatever bytes follow, \<open>block_decode\<close> finds the header
  version, returns the header and the transactions, each reduced to its four keys with the keys of its
  body and witnesses sorted, and stops exactly behind the block.\<close>

theorem block_codec_roundtrip:
  assumes "codec_block R b" and "block_encode R b = Inr s"
  shows "block_decode R (s @ suf) = Inr (read_block_of R b, length s)"
  by (rule block_decode_encode [OF assms])

section \<open>What the decoder returns\<close>

definition typed_tx :: "json \<Rightarrow> bool" where
  "typed_tx tx \<longleftrightarrow> (\<exists>version tx_type body witnesses. tx = tx_dict version tx_type body witnesses
     \<and> 0 \<le> version \<and> version \<le> MAX_VARINT \<and> utf8_valid tx_type)"

fun typed_block :: "any_block \<Rightarrow> bool" where
  "typed_block (AnyV2 b) = (wf_header_v2 (bk_header b) \<and> bh_version (bk_header b) = 2 \<and> list_all typed_tx (bk_transactions b))"
| "typed_block (AnyV1 b) = (wf_header_fields (bk_header b) \<and> list_all typed_tx (bk_transactions b))"

lemma need_bound: "need data off k = Inr u \<Longrightarrow> off + k \<le> length data"
  by (simp add: need_def split: if_splits)

lemma decode_bytes_bound: "decode_bytes data off = Inr (x, off') \<Longrightarrow> off' \<le> length data"
  by (auto simp: decode_bytes_def bindE_Inr_iff dest!: need_bound)

lemma decode_transaction_typed:
  assumes "decode_transaction R data off = Inr (tx, off')"
  shows "typed_tx tx \<and> off' \<le> length data"
proof -
  from assms obtain v o1 t o2 bb o3 wb o4 body w where
    f: "decode_varint data (off + 1) = Inr (v, o1)" "decode_string data o1 = Inr (t, o2)"
      "decode_bytes data o2 = Inr (bb, o3)" "decode_bytes data o3 = Inr (wb, off')" "tx = tx_dict v t body w"
    by (auto simp: decode_transaction_def bindE_Inr_iff split: if_splits prod.splits)
  from encode_decode_varint [OF f(1)] have "0 \<le> v \<and> v \<le> MAX_VARINT"
    by (auto simp: encode_varint_shape MAX_VARINT_def)
  moreover have "utf8_valid t"
    using f(2) by (auto simp: decode_string_def decode_utf8_def bindE_Inr_iff catchE_def split: sum.splits if_splits)
  ultimately show ?thesis using f(4,5) decode_bytes_bound by (auto simp: typed_tx_def)
qed

lemma decode_n_typed:
  assumes "\<And>off x off'. dec data off = Inr (x, off') \<Longrightarrow> P x \<and> off' \<le> length data"
  shows "off \<le> length data \<Longrightarrow> decode_n dec n data off = Inr (xs, off') \<Longrightarrow> list_all P xs \<and> off' \<le> length data"
proof (induction n arbitrary: off xs off')
  case (Suc n)
  from Suc.prems(2) obtain x off1 ys where f: "dec data off = Inr (x, off1)" "decode_n dec n data off1 = Inr (ys, off')" "xs = x # ys"
    by (auto simp: bindE_Inr_iff)
  from assms [OF f(1)] have "P x" "off1 \<le> length data" by auto
  with Suc.IH [OF this(2) f(2)] f(3) show ?case by simp
qed simp

lemma decode_transactions_typed:
  assumes "decode_transactions R data off = Inr (txs, off')"
  shows "list_all typed_tx txs \<and> off' \<le> length data"
proof -
  from assms obtain n o1 where f: "decode_varint data off = Inr (n, o1)" "decode_n (decode_transaction R) (nat n) data o1 = Inr (txs, off')"
    by (auto simp: decode_transactions_def bindE_Inr_iff)
  from encode_decode_varint [OF f(1)] obtain b suf where b: "encode_varint n = Inr b" "drop off data = b @ suf" "o1 = off + length b" by blast
  have "b \<noteq> []" using b(1) by (auto simp: encode_varint_shape)
  then have o1: "o1 \<le> length data" using drop_append_bound [OF b(2)] b(3) by simp
  show ?thesis by (rule decode_n_typed [OF _ o1 f(2)]) (rule decode_transaction_typed)
qed

lemma hex_to_target_range:
  assumes "hex64 t" and "hex_to_target t = Inr v"
  shows "0 \<le> v \<and> v < 2 ^ 256"
proof -
  from assms(1) obtain b where b: "t = hex_of_bytes b" "length b = 32" by (elim hex64E) auto
  then have v: "v = int (be_val b)" using assms(2) by (simp add: hex_to_target_def)
  have "be_val b < 256 ^ 32" using be_val_less [of b] b(2) by simp
  then have "int (be_val b) < 2 ^ 256" by simp
  then show ?thesis using v by simp
qed

lemma decode_header_v2_typed:
  assumes "decode_header_v2 data 0 False = Inr (d, off)" and "header_v2_from_dict d = Inr h"
  shows "wf_header_v2 h \<and> bh_version h = int (le_val (slice 1 4 data))"
proof -
  from encode_decode_header_v2 [OF assms(1)] obtain b suf where
    wf: "wf_hdr_dict_v2 d" and b: "encode_header_v2 d = Inr b" "data = b @ suf" by auto
  from b(1) obtain v p m r t g n where f: "struct_pack 4 (hd_version d) = Inr v" "struct_pack 8 (hd_timestamp d) = Inr t"
    "struct_pack 8 (hd_nonce d) = Inr n" "b = TYPE_HEADER # v @ p @ m @ r @ t @ g @ n" by (auto simp: encode_header_v2_Inr)
  have range: "0 \<le> hd_version d" "hd_version d < 2 ^ 32" "0 \<le> hd_timestamp d" "hd_timestamp d < 2 ^ 64"
    "0 \<le> hd_nonce d" "hd_nonce d < 2 ^ 64" "v = le_bytes 4 (nat (hd_version d))"
    using f(1-3) by (auto simp: struct_pack_Inr)
  have "slice 1 4 data = v" using f(4) b(2) range(7) by (simp add: slice_def)
  moreover have "nat (hd_version d) < 256 ^ 4" using range(1,2) by simp
  then have "le_val (le_bytes 4 (nat (hd_version d))) = nat (hd_version d)" by (rule le_val_le_bytes_id)
  ultimately have version: "hd_version d = int (le_val (slice 1 4 data))" using range(1,7) by simp
  from assms(2) obtain target where "hex_to_target (hd_target d) = Inr target"
    and h: "h = \<lparr>bh_version = hd_version d, bh_prev_hash = hd_prev_hash d, bh_merkle_root = hd_merkle_root d,
      bh_timestamp = hd_timestamp d, bh_target = target, bh_nonce = hd_nonce d, bh_registry_root = hd_registry_root d\<rparr>"
    by (auto simp: header_v2_from_dict_def bindE_Inr_iff)
  moreover have "hex64 (hd_target d)" using wf by (simp add: wf_hdr_dict_v2_def wf_hdr_dict_def)
  ultimately have "0 \<le> target \<and> target < 2 ^ 256" using hex_to_target_range by blast
  then show ?thesis
    using wf h range(1-6) version by (simp add: wf_header_v2_def wf_hdr_dict_v2_def wf_hdr_dict_def)
qed

lemma decode_header_typed:
  assumes "decode_header data off = Inr (d, off')" and "header_from_dict d = Inr h"
  shows "wf_header_fields h"
proof -
  from assms(1) obtain v p m t g n o1 o2 o3 o4 o5 where
    r: "read_le 4 data (off + 1) = Inr (v, o1)" "read_hash data o1 = Inr (p, o2)" "read_hash data o2 = Inr (m, o3)"
      "read_le 8 data o3 = Inr (t, o4)" "read_hash data o4 = Inr (g, o5)" "read_le 8 data o5 = Inr (n, off')"
    and d: "d = \<lparr>hd_version = v, hd_prev_hash = p, hd_merkle_root = m, hd_timestamp = t, hd_target = g, hd_nonce = n\<rparr>"
    by (auto simp: decode_header_def bindE_Inr_iff split: if_splits prod.splits)
  have "0 \<le> v \<and> v < 2 ^ 32" using u32_field.enc_dec [OF r(1)] by (auto simp: struct_pack_Inr)
  moreover have "0 \<le> t \<and> t < 2 ^ 64" using u64_field.enc_dec [OF r(4)] by (auto simp: struct_pack_Inr)
  moreover have "0 \<le> n \<and> n < 2 ^ 64" using u64_field.enc_dec [OF r(6)] by (auto simp: struct_pack_Inr)
  moreover have "hex64 p" "hex64 m" "hex64 g" using r(2,3,5) [THEN hash_field.enc_dec] by auto
  moreover from assms(2) obtain target where "hex_to_target g = Inr target"
    "h = \<lparr>bh_version = v, bh_prev_hash = p, bh_merkle_root = m, bh_timestamp = t, bh_target = target, bh_nonce = n\<rparr>"
    by (auto simp: header_from_dict_def bindE_Inr_iff d)
  ultimately show ?thesis using hex_to_target_range by (simp add: wf_header_fields_def)
qed

text \<open>C16: Whatever bytes a peer or a file supplies, a block \<open>block_decode\<close> returns is well typed: version, time and
  nonce fit their 4 and 8 bytes, the hashes are 64 lower-case hexadecimal digits, the target is below
  \<open>2 ^ 256\<close>, every transaction has exactly the four keys with an unsigned 64-bit version and a valid
  text as type, a \<open>BlockV2\<close> has version 2, and the offset returned is within the input.\<close>

theorem block_decode_typed:
  assumes "block_decode R data = Inr (b, off)"
  shows "typed_block b \<and> off \<le> length data"
proof (cases "looks_v2 data")
  case True
  with assms obtain d o1 txs h where f: "decode_header_v2 data 0 False = Inr (d, o1)"
    "decode_transactions R data o1 = Inr (txs, off)" "header_v2_from_dict d = Inr h"
    "b = AnyV2 \<lparr>bk_header = h, bk_transactions = txs\<rparr>" by (auto simp: block_decode_def bindE_Inr_iff)
  have "le_val (slice 1 4 data) = 2" using True by (simp add: looks_v2_def)
  then show ?thesis
    using decode_header_v2_typed [OF f(1,3)] decode_transactions_typed [OF f(2)] f(4) by simp
next
  case False
  with assms obtain d o1 txs h where f: "decode_header data 0 = Inr (d, o1)"
    "decode_transactions R data o1 = Inr (txs, off)" "header_from_dict d = Inr h"
    "b = AnyV1 \<lparr>bk_header = h, bk_transactions = txs\<rparr>" by (auto simp: block_decode_def bindE_Inr_iff)
  then show ?thesis using decode_header_typed [OF f(1,3)] decode_transactions_typed [OF f(2)] by simp
qed

section \<open>A concrete block\<close>

definition demo_wire_tx :: json where
  "demo_wire_tx = JDict [(''type'', JStr ''genesis''), (''version'', JInt 1), (''body'', JDict [(''b'', JInt 2), (''a'', JNull)])]"

definition demo_wire_block :: any_block where
  "demo_wire_block = AnyV2 \<lparr>bk_header = demo_header\<lparr>bh_version := 2\<rparr>, bk_transactions = [demo_wire_tx]\<rparr>"

lemma demo_wire_block_ok: "codec_block demo_runtime demo_wire_block"
  using wf_demo_header by (simp add: demo_wire_block_def demo_wire_tx_def wf_tx_def wf_header_v2_def dget_def utf8_valid_ascii)

lemma demo_canonical:
  "canonical_json (JDict [(''b'', JInt 2), (''a'', JNull)]) = Inr (str_bytes (''{'' @ [quote] @ ''a'' @ [quote] @ '':null,'' @ [quote] @ ''b'' @ [quote] @ '':2}''))"
  "canonical_json (JList []) = Inr (str_bytes ''[]'')"
  by code_simp+

lemma encode_bytes_total:
  assumes "length x \<le> MAX_TX_BODY_LEN"
  shows "\<exists>b. encode_bytes x = Inr b"
proof -
  have "\<exists>b. encode_varint (int (length x)) = Inr b"
    using assms by (auto simp: encode_varint_def struct_pack_def MAX_TX_BODY_LEN_def MAX_VARINT_def)
  then show ?thesis by (auto simp: encode_bytes_def)
qed

lemma demo_wire_tx_encodes: "\<exists>b. encode_transaction demo_runtime demo_wire_tx = Inr b"
proof -
  have ty: "tx_type_bytes (JStr ''genesis'') = Inr (str_bytes ''genesis'')"
    by (simp add: encode_utf8_def utf8_valid_ascii MAX_TX_TYPE_LEN_def str_bytes_def)
  obtain b w where parts: "canonical_part MAX_TX_BODY_LEN (JDict [(''b'', JInt 2), (''a'', JNull)]) = Inr b"
    "canonical_part MAX_WITNESSES_LEN (JList []) = Inr w"
    by (simp add: canonical_part_def demo_canonical MAX_TX_BODY_LEN_def MAX_WITNESSES_LEN_def str_bytes_def)
  then have "length b \<le> MAX_TX_BODY_LEN" "length w \<le> MAX_TX_BODY_LEN"
    by (auto simp: canonical_part_def bindE_Inr_iff MAX_TX_BODY_LEN_def MAX_WITNESSES_LEN_def split: if_splits)
  moreover have "length (str_bytes ''genesis'') \<le> MAX_TX_BODY_LEN" by (simp add: str_bytes_def MAX_TX_BODY_LEN_def)
  ultimately obtain x y z where "encode_bytes (str_bytes ''genesis'') = Inr x" "encode_bytes b = Inr y" "encode_bytes w = Inr z"
    using encode_bytes_total by blast
  moreover have "encode_varint 1 = Inr [1]" by (simp add: encode_varint_def struct_pack_def)
  ultimately show ?thesis
    by (simp add: encode_transaction_def demo_wire_tx_def dget_def dindex_def ty parts del: tx_type_bytes.simps)
qed

lemma demo_wire_block_encodes: "\<exists>s. block_encode demo_runtime demo_wire_block = Inr s"
proof -
  obtain t where t: "encode_transaction demo_runtime demo_wire_tx = Inr t" using demo_wire_tx_encodes by blast
  have "wf_header_v2 (demo_header\<lparr>bh_version := 2\<rparr>)" using wf_demo_header by (simp add: wf_header_v2_def)
  from header_v2_roundtrip_aux [OF this] obtain h where "header_v2_bytes (demo_header\<lparr>bh_version := 2\<rparr>) = Inr h" by blast
  then have h: "bindE (header_v2_to_dict (demo_header\<lparr>bh_version := 2\<rparr>)) encode_header_v2 = Inr h"
    unfolding header_v2_bytes_def .
  have "encode_varint (int (length [demo_wire_tx])) = Inr [1]" by (simp add: encode_varint_def struct_pack_def)
  then have "encode_body demo_runtime h [demo_wire_tx] = Inr (h @ [1] @ t)" by (simp add: encode_body_def t del: list.size)
  then show ?thesis
    unfolding demo_wire_block_def block_encode.simps block.simps h bindE_simps by blast
qed

theorem block_codec_roundtrip_witness:
  "\<exists>s. block_encode demo_runtime demo_wire_block = Inr s
     \<and> block_decode demo_runtime (s @ [7, 7]) = Inr (read_block_of demo_runtime demo_wire_block, length s)"
  using demo_wire_block_encodes block_codec_roundtrip [OF demo_wire_block_ok] by blast

theorem block_decode_typed_witness:
  "\<exists>s. block_encode demo_runtime demo_wire_block = Inr s \<and> typed_block (read_block_of demo_runtime demo_wire_block)"
proof -
  obtain s where s: "block_encode demo_runtime demo_wire_block = Inr s" using demo_wire_block_encodes by blast
  have "block_decode demo_runtime (s @ []) = Inr (read_block_of demo_runtime demo_wire_block, length s)"
    by (rule block_decode_encode [OF demo_wire_block_ok s])
  from block_decode_typed [OF this] s show ?thesis by blast
qed

end
