(* ===== verification/Archive.thy ===== *)
theory Archive
  imports Messages Governance Formats "HOL-Library.AList"
begin

text \<open>
  \<open>chainbreaker/archive.py\<close>: the content-addressed archive with its manifests.  The two directories are
  one association list from paths to contents; a name is taken as one path component, so the three
  levels of an object path are its name.  \<open>zlib\<close> is a parameter: a compression and a decompression
  that may raise \<open>zlib.error\<close>.  A method that writes returns the files after the call with its
  result, so that what is written before an exception stays written.
\<close>

record zlib =
  zl_compress :: "bytes \<Rightarrow> bytes"
  zl_decompress :: "bytes \<Rightarrow> bytes res"

datatype archive_path = ObjectPath string | ManifestPath string

type_synonym archive = "(archive_path \<times> bytes) list"

definition read_archive :: "archive \<Rightarrow> archive_path \<Rightarrow> bytes res" where
  "read_archive a p = of_option FileNotFound (map_of a p)"

definition object_path :: "string \<Rightarrow> archive_path res" where
  "object_path content_hash = (if py_len content_hash < 4 then Inl ValueError else Inr (ObjectPath content_hash))"

section \<open>Adding a document\<close>

text \<open>The optional arguments of \<open>add_document\<close>; no metadata and empty metadata are treated alike.\<close>

record document_info =
  di_title :: json
  di_media_type :: json
  di_language :: json
  di_source :: json
  di_source_uri :: json
  di_acquisition_date :: json
  di_license :: json
  di_parent_hash :: json
  di_notes_hash :: json
  di_metadata :: "(string \<times> json) list"

definition default_info :: "string \<Rightarrow> document_info" where
  "default_info title = \<lparr>di_title = JStr title, di_media_type = JStr ''application/octet-stream'', di_language = JNull,
     di_source = JNull, di_source_uri = JNull, di_acquisition_date = JNull, di_license = JNull,
     di_parent_hash = JNull, di_notes_hash = JNull, di_metadata = []\<rparr>"

definition manifest_items :: "string \<Rightarrow> int \<Rightarrow> string \<Rightarrow> document_info \<Rightarrow> (string \<times> json) list" where
  "manifest_items content_hash byte_length metadata_hash di =
     [(''schema'', JStr ''chainbreaker-manifest-v1''), (''network_id'', JStr GOV_NETWORK_ID),
      (''schema_version'', JInt 1), (''content_hash'', JStr content_hash), (''byte_length'', JInt byte_length),
      (''media_type'', di_media_type di), (''title'', di_title di), (''language'', di_language di),
      (''source'', di_source di), (''source_uri'', di_source_uri di),
      (''acquisition_date'', di_acquisition_date di), (''license'', di_license di),
      (''parent_hash'', di_parent_hash di), (''metadata_hash'', JStr metadata_hash), (''notes_hash'', di_notes_hash di)]"

definition metadata_blob :: "(string \<times> json) list \<Rightarrow> bytes res" where
  "metadata_blob metadata = (if metadata = [] then Inr (str_bytes ''{}'') else canonical_json (JDict metadata))"

definition manifest_bytes :: "env \<Rightarrow> bytes \<Rightarrow> document_info \<Rightarrow> bytes res" where
  "manifest_bytes E data di =
     bindE (metadata_blob (di_metadata di)) (\<lambda>blob.
       let manifest = JDict (manifest_items (hash_single_hex E data) (int (length data)) (hash_single_hex E blob) di) in
       thenE (validate_scripture_body manifest) (canonical_json manifest))"

definition add_document :: "env \<Rightarrow> zlib \<Rightarrow> archive \<Rightarrow> bytes \<Rightarrow> document_info \<Rightarrow> archive \<times> string res" where
  "add_document E Z a data di =
     (case object_path (hash_single_hex E data) of
        Inl e \<Rightarrow> (a, Inl e)
      | Inr obj_path \<Rightarrow>
          let a = AList.update obj_path (zl_compress Z data) a in
          case manifest_bytes E data di of
            Inl e \<Rightarrow> (a, Inl e)
          | Inr m \<Rightarrow> (AList.update (ManifestPath (hash_single_hex E m)) m a, Inr (hash_single_hex E m)))"

section \<open>Reading\<close>

definition checked_manifest :: "runtime \<Rightarrow> bytes \<Rightarrow> json res" where
  "checked_manifest R data = bindE (loads R data) (\<lambda>m. thenE (validate_scripture_body m) (Inr m))"

definition get_manifest :: "runtime \<Rightarrow> archive \<Rightarrow> string \<Rightarrow> json res" where
  "get_manifest R a manifest_hash = bindE (read_archive a (ManifestPath manifest_hash)) (checked_manifest R)"

definition get_document :: "env \<Rightarrow> zlib \<Rightarrow> archive \<Rightarrow> string \<Rightarrow> bool \<Rightarrow> bytes res" where
  "get_document E Z a content_hash check =
     bindE (object_path content_hash) (\<lambda>p.
     bindE (read_archive a p) (\<lambda>compressed.
     bindE (zl_decompress Z compressed) (\<lambda>data.
       if check \<and> hash_single_hex E data \<noteq> content_hash then Inl ValueError else Inr data)))"

definition get_document_unverified :: "env \<Rightarrow> zlib \<Rightarrow> archive \<Rightarrow> string \<Rightarrow> bytes res" where
  "get_document_unverified E Z a content_hash = get_document E Z a content_hash False"

text \<open>\<open>except Exception: return False\<close>\<close>

definition verify_manifest :: "env \<Rightarrow> runtime \<Rightarrow> archive \<Rightarrow> string \<Rightarrow> bool" where
  "verify_manifest E R a manifest_hash =
     (case bindE (read_archive a (ManifestPath manifest_hash)) (\<lambda>stored.
             bindE (checked_manifest R stored) (\<lambda>_. Inr (hash_single_hex E stored = manifest_hash))) of
        Inl _ \<Rightarrow> False
      | Inr b \<Rightarrow> b)"

text \<open>\<open>len(data) != manifest["byte_length"]\<close>, where the schema has made sure of an integer, and the
  lookup by a hash the schema has made sure to be a text.\<close>

definition verify_document :: "env \<Rightarrow> zlib \<Rightarrow> runtime \<Rightarrow> archive \<Rightarrow> string \<Rightarrow> json res" where
  "verify_document E Z R a manifest_hash =
     bindE (read_archive a (ManifestPath manifest_hash)) (\<lambda>stored.
     if hash_single_hex E stored \<noteq> manifest_hash then Inl ValueError
     else
       bindE (checked_manifest R stored) (\<lambda>manifest.
       bindE (jindex manifest ''content_hash'') (\<lambda>content_hash.
       bindE (get_document E Z a (py_str R content_hash) True) (\<lambda>data.
       bindE (jindex manifest ''byte_length'') (\<lambda>n.
         if JInt (int (length data)) \<noteq> n then Inl ValueError else Inr manifest)))))"

definition get_verified_document :: "env \<Rightarrow> zlib \<Rightarrow> runtime \<Rightarrow> archive \<Rightarrow> string \<Rightarrow> (json \<times> bytes) res" where
  "get_verified_document E Z R a manifest_hash =
     bindE (verify_document E Z R a manifest_hash) (\<lambda>manifest.
     bindE (jindex manifest ''content_hash'') (\<lambda>content_hash.
     bindE (get_document E Z a (py_str R content_hash) True) (\<lambda>content. Inr (manifest, content))))"

section \<open>The module functions\<close>

definition make_manifest :: "env \<Rightarrow> int \<Rightarrow> string \<Rightarrow> string \<Rightarrow> string \<Rightarrow> string \<Rightarrow> string \<Rightarrow> string \<Rightarrow> (string \<times> bytes) list
    \<Rightarrow> (string \<times> json) list res" where
  "make_manifest E now schema title language source_url source_date canon_tier documents =
     (let manifest =
        [(''schema'', JStr schema), (''title'', JStr title), (''language'', JStr language),
         (''source_url'', JStr source_url), (''source_date'', JStr source_date), (''canon_tier'', JStr canon_tier),
         (''created_at'', JInt now),
         (''document_hashes'', JDict (map (\<lambda>(name, data). (name, JStr (hash_single_hex E data))) documents))] in
      bindE (dumps_bytes compact_style (JDict manifest)) (\<lambda>canonical.
        Inr (manifest @ [(''manifest_hash'', JStr (hash_single_hex E canonical))])))"

definition store_manifest :: "env \<Rightarrow> zlib \<Rightarrow> archive \<Rightarrow> (string \<times> json) list \<Rightarrow> archive \<times> string res" where
  "store_manifest E Z a manifest =
     (let body = filter (\<lambda>kv. fst kv \<noteq> ''manifest_hash'') manifest in
      case dumps_bytes compact_style (JDict body) of
        Inl e \<Rightarrow> (a, Inl e)
      | Inr canonical \<Rightarrow>
          add_document E Z a canonical ((default_info [])\<lparr>di_title := dget body ''title'' (JStr ''manifest'')\<rparr>))"

definition load_manifest :: "runtime \<Rightarrow> archive \<Rightarrow> string \<Rightarrow> json res" where
  "load_manifest R a manifest_hash = get_manifest R a manifest_hash"

end
