(* ===== verification/Archive_Props.thy ===== *)
theory Archive_Props
  imports Archive Wire
begin

text \<open>
  The archive returns what was put into it, and a manifest hash fixes the manifest and the document.
\<close>

declare norm_json.simps(2) [simp del]

section \<open>The schema check does not see the order of the keys\<close>

lemma norm_is_hash [simp]: "is_hash (norm_json v) = is_hash v"
  by (cases v) (simp_all add: norm_JDict)

lemma norm_require_int [simp]: "require_int (norm_json v) lo hi = require_int v lo hi"
  by (cases v) (simp_all add: norm_JDict)

lemma norm_require_string [simp]: "require_string (norm_json v) nullable = require_string v nullable"
  by (cases v) (simp_all add: norm_JDict)

lemma norm_eq_str [simp]: "norm_json v = JStr s \<longleftrightarrow> v = JStr s" "norm_json v = JNull \<longleftrightarrow> v = JNull"
  by (cases v; simp add: norm_JDict)+

lemma require_field_norm:
  assumes "distinct (map fst d)" and "\<And>v. p (norm_json v) = p v"
  shows "require_field (norm_items d) k p = require_field d k p"
  using assms by (cases "map_of d k") (simp_all add: require_field_def dindex_def of_option_def map_of_norm_items)

lemma require_text_norm:
  assumes "distinct (map fst d)"
  shows "require_text (norm_items d) = require_text d"
proof
  fix k
  show "require_text (norm_items d) k = require_text d k"
    using assms by (cases "map_of d k") (simp_all add: require_text_def dindex_def of_option_def map_of_norm_items)
qed

lemma dkeys_norm: "distinct (map fst d) \<Longrightarrow> dkeys (norm_items d) = dkeys d"
  by (rule set_eqI) (simp add: dkeys_map_of map_of_norm_items)

lemma validate_norm:
  assumes "distinct (map fst d)"
  shows "validate_scripture_body (JDict (norm_items d)) = validate_scripture_body (JDict d)"
  using assms by (simp add: require_field_norm require_text_norm dkeys_norm)

section \<open>Reading back\<close>

definition wf_info :: "runtime \<Rightarrow> document_info \<Rightarrow> bool" where
  "wf_info R di = list_all (json_wf (rt_float R))
     [di_title di, di_media_type di, di_language di, di_source di, di_source_uri di, di_acquisition_date di,
      di_license di, di_parent_hash di, di_notes_hash di]"

definition zlib_inverse :: "zlib \<Rightarrow> bool" where
  "zlib_inverse Z \<longleftrightarrow> (\<forall>d. zl_decompress Z (zl_compress Z d) = Inr d)"

lemma manifest_keys: "distinct (map fst (manifest_items c n m di))"
  by (simp add: manifest_items_def)

lemma manifest_read:
  assumes "hash_length E" and "wf_info R di" and "manifest_bytes E data di = Inr m"
  shows "\<exists>h. checked_manifest R m = Inr (norm_json (JDict (manifest_items (hash_single_hex E data) (int (length data)) h di)))"
proof -
  from assms(3) obtain blob where
    v: "validate_scripture_body (JDict (manifest_items (hash_single_hex E data) (int (length data)) (hash_single_hex E blob) di)) = Inr ()"
    and c: "canonical_json (JDict (manifest_items (hash_single_hex E data) (int (length data)) (hash_single_hex E blob) di)) = Inr m"
    by (auto simp: manifest_bytes_def Let_def bindE_Inr_iff)
  define d where "d = manifest_items (hash_single_hex E data) (int (length data)) (hash_single_hex E blob) di"
  have "utf8_valid (hash_single_hex E x)" for x using hash_length.hash_single_hex64 [OF assms(1)] by simp
  then have "json_wf (rt_float R) (JDict d)"
    using assms(2) by (simp add: d_def manifest_items_def wf_info_def GOV_NETWORK_ID_def utf8_valid_ascii)
  from loads_canonical_json [OF this c [folded d_def]] have "loads R m = Inr (norm_json (JDict d))" by (simp add: loads_def)
  moreover have "validate_scripture_body (norm_json (JDict d)) = Inr ()"
    using validate_norm [of d] v manifest_keys unfolding d_def norm_JDict by metis
  ultimately show ?thesis unfolding d_def by (auto simp: checked_manifest_def)
qed

lemma manifest_fields:
  "jindex (norm_json (JDict (manifest_items c n h di))) ''content_hash'' = Inr (JStr c)"
  "jindex (norm_json (JDict (manifest_items c n h di))) ''byte_length'' = Inr (JInt n)"
  unfolding norm_JDict jindex.simps by (simp_all add: norm_dindex [OF manifest_keys]) (simp_all add: manifest_items_def)

lemma add_then_read:
  assumes "hash_length E" and "zlib_inverse Z" and "wf_info R di" and "add_document E Z a data di = (a', Inr h)"
  shows "\<exists>m. get_verified_document E Z R a' h = Inr (m, data) \<and> get_manifest R a' h = Inr m \<and> verify_manifest E R a' h"
proof -
  note hash = hash_length.hash_single_hex64 [OF assms(1)]
  have len: "\<not> py_len (hash_single_hex E data) < 4" using hash [of data] hex64_py_len by simp
  from assms(4) len obtain m where m: "manifest_bytes E data di = Inr m" "h = hash_single_hex E m"
    "a' = AList.update (ManifestPath h) m (AList.update (ObjectPath (hash_single_hex E data)) (zl_compress Z data) a)"
    by (auto simp: add_document_def object_path_def Let_def split: sum.splits)
  from manifest_read [OF assms(1,3) m(1)] obtain k where
    k: "checked_manifest R m = Inr (norm_json (JDict (manifest_items (hash_single_hex E data) (int (length data)) k di)))" by blast
  have files: "read_archive a' (ManifestPath h) = Inr m" "read_archive a' (ObjectPath (hash_single_hex E data)) = Inr (zl_compress Z data)"
    by (simp_all add: read_archive_def m(3) update_conv of_option_def)
  have doc: "get_document E Z a' (hash_single_hex E data) True = Inr data"
    using files(2) len assms(2) by (simp add: get_document_def object_path_def zlib_inverse_def)
  show ?thesis
    using files(1) doc k m(2)
    by (simp add: get_verified_document_def verify_document_def get_manifest_def verify_manifest_def manifest_fields)
qed

text \<open>C18: The archive is content-addressed and loses nothing: when \<open>zlib\<close> decompresses what it compressed, a
  document that was added is returned unchanged by \<open>get_verified_document\<close> under the manifest hash that
  \<open>add_document\<close> returned, with the manifest \<open>get_manifest\<close> returns, and \<open>verify_manifest\<close> accepts it.\<close>

theorem archive_roundtrip:
  assumes "hash_length E" and "zlib_inverse Z" and "wf_info R di" and "add_document E Z a data di = (a', Inr h)"
  shows "\<exists>m. get_verified_document E Z R a' h = Inr (m, data) \<and> get_manifest R a' h = Inr m \<and> verify_manifest E R a' h"
  by (rule add_then_read [OF assms])

section \<open>A manifest hash fixes the document\<close>

lemma hash_eq_sha: "hash_single_hex E x = hash_single_hex E y \<longleftrightarrow> sha E x = sha E y"
  by (simp add: hash_single_hex_def)

lemma verified_parts:
  assumes "get_verified_document E Z R a h = Inr (m, data)"
  obtains stored c where "hash_single_hex E stored = h" "checked_manifest R stored = Inr m"
    "jindex m ''content_hash'' = Inr c" "hash_single_hex E data = py_str R c"
    "jindex m ''byte_length'' = Inr (JInt (int (length data)))"
proof -
  from assms obtain stored c n where f: "read_archive a (ManifestPath h) = Inr stored" "hash_single_hex E stored = h"
    "checked_manifest R stored = Inr m" "jindex m ''content_hash'' = Inr c" "get_document E Z a (py_str R c) True = Inr data"
    "jindex m ''byte_length'' = Inr n" "JInt (int (length data)) = n"
    by (auto simp: get_verified_document_def verify_document_def bindE_Inr_iff split: if_splits)
  then have "hash_single_hex E data = py_str R c"
    by (auto simp: get_document_def bindE_Inr_iff split: if_splits)
  with f that show thesis by metis
qed

text \<open>C17: A manifest hash fixes the document: whatever the two archives hold, however they were written and
  whatever the decompression returns, two successful verified reads under one manifest hash return the
  same manifest and the same document, or two byte strings with one SHA-256 hash.\<close>

theorem archive_binding:
  assumes "get_verified_document E Z R a h = Inr (m, data)" and "get_verified_document E Z' R a' h = Inr (m', data')"
  shows "(m = m' \<and> data = data') \<or> (\<exists>x y. x \<noteq> y \<and> sha E x = sha E y)"
proof -
  from verified_parts [OF assms(1)] obtain s c where
    f: "hash_single_hex E s = h" "checked_manifest R s = Inr m" "jindex m ''content_hash'' = Inr c" "hash_single_hex E data = py_str R c"
    by metis
  from verified_parts [OF assms(2)] obtain s' c' where
    g: "hash_single_hex E s' = h" "checked_manifest R s' = Inr m'" "jindex m' ''content_hash'' = Inr c'" "hash_single_hex E data' = py_str R c'"
    by metis
  have stored: "sha E s = sha E s'" using f(1) g(1) by (metis hash_eq_sha)
  show ?thesis
  proof (cases "s = s'")
    case True
    then have "m = m'" "c = c'" using f(2,3) g(2,3) by auto
    then have "sha E data = sha E data'" using f(4) g(4) by (metis hash_eq_sha)
    then show ?thesis using \<open>m = m'\<close> by blast
  qed (use stored in blast)
qed

section \<open>A concrete archive\<close>

definition demo_zlib :: zlib where
  "demo_zlib = \<lparr>zl_compress = id, zl_decompress = Inr\<rparr>"

lemma demo_zlib_inverse: "zlib_inverse demo_zlib"
  by (simp add: zlib_inverse_def demo_zlib_def)

lemma demo_info_wf: "wf_info demo_runtime (default_info ''gospel'')"
  by (simp add: wf_info_def default_info_def utf8_valid_ascii)

lemma demo_manifest: "\<exists>m. manifest_bytes demo_env [1, 2, 3] (default_info ''gospel'') = Inr m"
proof -
  define items where "items = manifest_items (hash_single_hex demo_env [1, 2, 3]) 3 (hash_single_hex demo_env (str_bytes ''{}'')) (default_info ''gospel'')"
  have hash: "hash_re_match (hash_single_hex demo_env x)" for x
    using demo.hash_single_hex64 [of x] by (simp add: hash_re_match_def)
  have "validate_scripture_body (JDict items) = Inr ()"
    by (simp add: items_def manifest_items_def default_info_def require_field_def dindex_def dkeys_def scripture_required_def checkE_def hash
        require_text_def scripture_texts_def encode_utf8_def utf8_valid_ascii)
  moreover have "json_ok (JDict items)"
    by (simp add: items_def manifest_items_def default_info_def GOV_NETWORK_ID_def utf8_valid_ascii hash_single_hex_def)
  then obtain b where "canonical_json (JDict items) = Inr b" using canonical_json_Inr by blast
  ultimately show ?thesis
    by (simp add: manifest_bytes_def metadata_blob_def default_info_def [of "''gospel''"] items_def)
qed

lemma demo_document: "\<exists>h. \<forall>a. \<exists>a'. add_document demo_env demo_zlib a [1, 2, 3] (default_info ''gospel'') = (a', Inr h)"
proof -
  obtain m where m: "manifest_bytes demo_env [1, 2, 3] (default_info ''gospel'') = Inr m" using demo_manifest by blast
  have "\<not> py_len (hash_single_hex demo_env [1, 2, 3]) < 4" using demo.hash_single_hex64 hex64_py_len by simp
  then show ?thesis using m by (simp add: add_document_def object_path_def Let_def)
qed

theorem archive_roundtrip_witness:
  "\<exists>a h m. add_document demo_env demo_zlib [] [1, 2, 3] (default_info ''gospel'') = (a, Inr h)
     \<and> get_verified_document demo_env demo_zlib demo_runtime a h = Inr (m, [1, 2, 3])"
  using demo_document archive_roundtrip [OF demo.hash_length_axioms demo_zlib_inverse demo_info_wf] by blast

text \<open>The same document in an empty archive and beside an older object.\<close>

theorem archive_binding_witness:
  "\<exists>a a' h m m'. get_verified_document demo_env demo_zlib demo_runtime a h = Inr (m, [1, 2, 3])
     \<and> get_verified_document demo_env demo_zlib demo_runtime a' h = Inr (m', [1, 2, 3])
     \<and> (m = m' \<or> (\<exists>x y. x \<noteq> y \<and> sha demo_env x = sha demo_env y))"
proof -
  obtain h where h: "\<forall>a. \<exists>a'. add_document demo_env demo_zlib a [1, 2, 3] (default_info ''gospel'') = (a', Inr h)"
    using demo_document by blast
  have "\<exists>a' m. get_verified_document demo_env demo_zlib demo_runtime a' h = Inr (m, [1, 2, 3])" for a :: archive
    using h add_then_read [OF demo.hash_length_axioms demo_zlib_inverse demo_info_wf] by blast
  then obtain a a' m m' where
    "get_verified_document demo_env demo_zlib demo_runtime a h = Inr (m, [1, 2, 3])"
    "get_verified_document demo_env demo_zlib demo_runtime a' h = Inr (m', [1, 2, 3])" by blast
  with archive_binding [OF this] show ?thesis by blast
qed

end
