(* ===== verification/Ledger_Json.thy ===== *)
theory Ledger_Json
  imports Wire Chain Handshake
begin

text \<open>
  The JSON form a ledger is stored and exchanged in: \<open>NetworkIdentity.from_dict\<close>, the version 1 block, and
  \<open>Ledger.to_dict\<close> and \<open>Ledger.from_dict\<close>, which rebuilds the ledger from its blocks through the
  constructor, with the checks of the identity and the replay of the registry.
\<close>

section \<open>Identities\<close>

text \<open>\<open>a or b\<close>.\<close>

definition py_or :: "json \<Rightarrow> json \<Rightarrow> json" where
  "py_or a b = (if truthy a then a else b)"

definition identity_from_dict :: "runtime \<Rightarrow> json \<Rightarrow> network_identity res" where
  "identity_from_dict R data =
     bindE (bindE (jindex data ''governance_keys'') jiter) (\<lambda>keys.
     bindE (jget data ''genesis_header_bytes_hex'' JNull) (\<lambda>raw_hex.
     bindE (jget data ''genesis_header_bytes'' JNull) (\<lambda>raw_old.
     bindE (jindex data ''network_id'') (\<lambda>network_id.
     bindE (jindex data ''kind'') (\<lambda>kind.
     bindE (jindex data ''genesis_hash'') (\<lambda>genesis_hash.
     bindE (jindex data ''genesis_registry_root'') (\<lambda>registry_root_hex.
     bindE (bindE (jindex data ''governance_threshold'') (py_int R)) (\<lambda>threshold.
     bindE (of_option ValueError (fromhex (py_str R (py_or raw_hex raw_old)))) (\<lambda>header_bytes.
     bindE (bindE (jget data ''genesis_timestamp'' (JInt 1704067200)) (py_int R)) (\<lambda>timestamp.
       Inr \<lparr>ni_network_id = py_str R network_id, ni_kind = py_str R kind, ni_genesis_hash = py_str R genesis_hash,
            ni_genesis_registry_root = py_str R registry_root_hex, ni_governance_keys = map (py_str R) keys,
            ni_governance_threshold = threshold, ni_genesis_header_bytes = header_bytes,
            ni_genesis_timestamp = timestamp\<rparr>))))))))))"

section \<open>Version 1 blocks\<close>

definition header_v1_items :: "hdr_dict \<Rightarrow> (string \<times> json) list" where
  "header_v1_items d =
     [(''version'', JInt (hd_version d)), (''prev_hash'', JStr (hd_prev_hash d)),
      (''merkle_root'', JStr (hd_merkle_root d)), (''timestamp'', JInt (hd_timestamp d)),
      (''target'', JStr (hd_target d)), (''nonce'', JInt (hd_nonce d))]"

definition header_v1_from_json :: "runtime \<Rightarrow> json \<Rightarrow> block_header res" where
  "header_v1_from_json R data =
     bindE (bindE (jindex data ''version'') (py_int R)) (\<lambda>version.
     bindE (jindex data ''prev_hash'') (\<lambda>prev_hash.
     bindE (jindex data ''merkle_root'') (\<lambda>merkle_root.
     bindE (bindE (jindex data ''timestamp'') (py_int R)) (\<lambda>timestamp.
     bindE (bindE (jindex data ''target'') (\<lambda>t. hex_to_target (py_str R t))) (\<lambda>target.
     bindE (bindE (jindex data ''nonce'') (py_int R)) (\<lambda>nonce.
       Inr \<lparr>bh_version = version, bh_prev_hash = py_str R prev_hash, bh_merkle_root = py_str R merkle_root,
            bh_timestamp = timestamp, bh_target = target, bh_nonce = nonce\<rparr>))))))"

definition block_v1_to_dict :: "env \<Rightarrow> block_v1 \<Rightarrow> (string \<times> json) list res" where
  "block_v1_to_dict E b =
     bindE (header_to_dict (bk_header b)) (\<lambda>d.
     bindE (block_hash_v1 E b) (\<lambda>h.
       Inr [(''header'', JDict (header_v1_items d)), (''transactions'', JList (bk_transactions b)), (''hash'', JStr h)]))"

definition block_v1_from_dict :: "runtime \<Rightarrow> json \<Rightarrow> block_v1 res" where
  "block_v1_from_dict R data =
     bindE (bindE (jindex data ''header'') (header_v1_from_json R)) (\<lambda>header.
     bindE (bindE (jget data ''transactions'' (JList [])) jiter) (\<lambda>transactions.
       Inr \<lparr>bk_header = header, bk_transactions = transactions\<rparr>))"

fun any_to_dict :: "env \<Rightarrow> any_block \<Rightarrow> json res" where
  "any_to_dict E (AnyV1 b) = bindE (block_v1_to_dict E b) (\<lambda>d. Inr (JDict d))"
| "any_to_dict E (AnyV2 b) = bindE (block_v2_to_dict E b) (\<lambda>d. Inr (JDict d))"

text \<open>The choice of the class: \<open>"registry_root" not in b["header"]\<close>.\<close>

definition any_from_dict :: "runtime \<Rightarrow> json \<Rightarrow> any_block res" where
  "any_from_dict R b =
     bindE (bindE (jindex b ''header'') (\<lambda>h. has_key h ''registry_root'')) (\<lambda>v2.
       if v2 then bindE (block_v2_from_dict R b) (\<lambda>x. Inr (AnyV2 x))
       else bindE (block_v1_from_dict R b) (\<lambda>x. Inr (AnyV1 x)))"

section \<open>Ledgers\<close>

definition ledger_to_dict :: "env \<Rightarrow> (int \<Rightarrow> int res) \<Rightarrow> ledger \<Rightarrow> (string \<times> json) list res" where
  "ledger_to_dict E v1_work L =
     bindE (mapE (any_to_dict E) (ld_chain L)) (\<lambda>blocks.
     bindE (chain_work v1_work L) (\<lambda>work.
       Inr [(''network_id'', JStr (ld_network_id L)), (''chain'', JList blocks), (''chain_work'', JInt work),
            (''governance_keys'', JList (map JStr (ld_governance_keys L))),
            (''governance_threshold'', JInt (ld_governance_threshold L)),
            (''network_identity'', identity_to_dict (ld_identity L))]))"

fun stored_keys :: "json \<Rightarrow> string list option res" where
  "stored_keys JNull = Inr None"
| "stored_keys (JList xs) = (if list_all is_str xs then Inr (Some (map (\<lambda>j. case j of JStr s \<Rightarrow> s | _ \<Rightarrow> []) xs)) else Inl LedgerError)"
| "stored_keys _ = Inl LedgerError"

fun stored_threshold :: "json \<Rightarrow> int option res" where
  "stored_threshold JNull = Inr None"
| "stored_threshold (JInt n) = Inr (Some n)"
| "stored_threshold _ = Inl LedgerError"

definition stored_identity :: "runtime \<Rightarrow> json \<Rightarrow> json \<Rightarrow> network_identity option res" where
  "stored_identity R data identity_data =
     (if identity_data = JNull then Inr None
      else
        bindE (catchE (identity_from_dict R identity_data) (\<lambda>e. e = KeyError \<or> is_value_error e \<or> e = TypeError)
                 (Inl LedgerError)) (\<lambda>ident.
        bindE (jget data ''network_id'' JNull) (\<lambda>n.
          if n \<noteq> JStr (ni_network_id ident) then Inl LedgerError else Inr (Some ident))))"

definition ledger_from_dict :: "env \<Rightarrow> runtime \<Rightarrow> (json \<Rightarrow> bool res) option \<Rightarrow> json \<Rightarrow> ledger res" where
  "ledger_from_dict E R validator data =
     bindE (bindE (bindE (jindex data ''chain'') jiter) (mapE (any_from_dict R))) (\<lambda>chain.
     bindE (jget data ''governance_keys'' JNull) (\<lambda>keys_data.
     bindE (jget data ''governance_threshold'' JNull) (\<lambda>threshold_data.
     bindE (stored_keys keys_data) (\<lambda>governance_keys.
     bindE (stored_threshold threshold_data) (\<lambda>governance_threshold.
     bindE (bindE (jget data ''network_identity'' JNull) (stored_identity R data)) (\<lambda>network_identity.
       new_ledger E (Some chain) validator governance_keys governance_threshold network_identity True))))))"

section \<open>Round trips\<close>

lemma map_strings [simp]: "map (py_str R) (map JStr ks) = ks" "map (\<lambda>j. case j of JStr s \<Rightarrow> s | _ \<Rightarrow> []) (map JStr ks) = ks"
  by (induction ks) simp_all

lemma identity_roundtrip:
  assumes "ni_genesis_header_bytes i \<noteq> []"
  shows "identity_from_dict R (identity_to_dict i) = Inr i"
proof -
  have "hex_of_bytes (ni_genesis_header_bytes i) \<noteq> []" using assms by (cases "ni_genesis_header_bytes i") auto
  then show ?thesis
    by (simp add: identity_from_dict_def identity_to_dict_def dindex_def dget_def py_or_def)
qed

lemma any_roundtrip:
  assumes "any_to_dict E b = Inr j"
  shows "any_from_dict R j = Inr b"
proof (cases b)
  case (AnyV2 k)
  with assms obtain t h where t: "target_to_hex (bh_target (bk_header k)) = Inr t" and
    j: "j = JDict [(''header'', JDict (header_v2_items \<lparr>hd_version = bh_version (bk_header k), hd_prev_hash = bh_prev_hash (bk_header k),
         hd_merkle_root = bh_merkle_root (bk_header k), hd_timestamp = bh_timestamp (bk_header k), hd_target = t,
         hd_nonce = bh_nonce (bk_header k), hd_registry_root = bh_registry_root (bk_header k)\<rparr>)),
       (''transactions'', JList (bk_transactions k)), (''hash'', JStr h)]"
    by (auto simp: block_v2_to_dict_def header_v2_to_dict_def bindE_Inr_iff)
  show ?thesis
    using hex_to_target_to_hex [OF t] AnyV2
    by (simp add: j any_from_dict_def block_v2_from_dict_def header_v2_from_json_def header_v2_items_def dindex_def dget_def dkeys_def)
next
  case (AnyV1 k)
  with assms obtain t h where t: "target_to_hex (bh_target (bk_header k)) = Inr t" and
    j: "j = JDict [(''header'', JDict (header_v1_items \<lparr>hd_version = bh_version (bk_header k), hd_prev_hash = bh_prev_hash (bk_header k),
         hd_merkle_root = bh_merkle_root (bk_header k), hd_timestamp = bh_timestamp (bk_header k), hd_target = t,
         hd_nonce = bh_nonce (bk_header k)\<rparr>)),
       (''transactions'', JList (bk_transactions k)), (''hash'', JStr h)]"
    by (auto simp: block_v1_to_dict_def header_to_dict_def bindE_Inr_iff)
  show ?thesis
    using hex_to_target_to_hex [OF t] AnyV1
    by (simp add: j any_from_dict_def block_v1_from_dict_def header_v1_from_json_def header_v1_items_def dindex_def dget_def dkeys_def)
qed

lemma any_roundtrips: "mapE (any_to_dict E) bs = Inr js \<Longrightarrow> mapE (any_from_dict R) js = Inr bs"
  by (induction bs arbitrary: js) (auto simp: res_simps any_roundtrip)

end
