(* ===== verification/Ledger_Json_Props.thy ===== *)
theory Ledger_Json_Props
  imports Ledger_Json Ledger_Reach
begin

text \<open>
  Saving a ledger and loading it again: the blocks, the configuration and the registry cache of a ledger
  that the program built come back, because the constructor's replay recomputes what was cached.
\<close>

section \<open>The constructor on the fields of a ledger\<close>

text \<open>The replay succeeds when every height has a state.\<close>

lemma replay_succeeds:
  assumes "\<And>h. h \<le> n + m \<Longrightarrow> \<exists>s. state_at E L h = Inr s" and "n + m < length (ld_chain L)"
    and "\<exists>s. states n = Some s \<and> state_at E L n = Inr s"
  shows "\<exists>states'. foldE (replay_step E L) states [Suc n..<n + Suc m] = Inr states'
    \<and> (\<exists>s. states' (n + m) = Some s \<and> state_at E L (n + m) = Inr s)"
  using assms
proof (induction m)
  case 0
  then show ?case by simp
next
  case (Suc m)
  from Suc.IH Suc.prems obtain mid p where mid: "foldE (replay_step E L) states [Suc n..<n + Suc m] = Inr mid"
    "mid (n + m) = Some p" "state_at E L (n + m) = Inr p" by force
  from Suc.prems(1) [of "n + Suc m"] obtain s where s: "state_at E L (Suc (n + m)) = Inr s" by auto
  have "apply_block E L p (ld_chain L ! Suc (n + m)) (Suc (n + m)) = Inr s"
    using state_at_Suc [of "n + m" L E] Suc.prems(2) s mid(3) by simp
  then have step: "replay_step E L mid (n + Suc m) = Inr (mid(n + Suc m \<mapsto> s))"
    using mid(2) by (simp add: replay_step_def of_option_def)
  have "[Suc n..<n + Suc (Suc m)] = [Suc n..<n + Suc m] @ [n + Suc m]" by simp
  then have "foldE (replay_step E L) states [Suc n..<n + Suc (Suc m)] = Inr (mid(n + Suc m \<mapsto> s))"
    using mid(1) step by (simp only: foldE_append bindE_simps foldE.simps)
  then show ?case using s by simp
qed

lemma replay_total:
  assumes "ld_chain L \<noteq> []" and "\<And>h. h < length (ld_chain L) \<Longrightarrow> \<exists>s. state_at E L h = Inr s"
  shows "\<exists>L'. replay_registry_states E L = Inr L'"
proof -
  obtain m where m: "length (ld_chain L) = Suc m" using assms(1) by (cases "length (ld_chain L)") auto
  from assms(2) [of 0] m obtain s where s: "state_at E L 0 = Inr s" by auto
  then have init: "initial_state L = Inr s" using state_at_0 [OF assms(1)] by simp
  have "\<exists>states'. foldE (replay_step E L) [0 \<mapsto> s] [Suc 0..<0 + Suc m] = Inr states'
    \<and> (\<exists>t. states' (0 + m) = Some t \<and> state_at E L (0 + m) = Inr t)"
    by (rule replay_succeeds) (use assms(2) m s in auto)
  then show ?thesis using init m by (auto simp: replay_registry_states_def One_nat_def)
qed

definition all_v2 :: "ledger \<Rightarrow> bool" where
  "all_v2 L \<longleftrightarrow> list_all (\<lambda>b. as_v2 b \<noteq> None) (ld_chain L)"

text \<open>The replay of a ledger whose blocks are all of version 2 gives the ledger.\<close>

lemma replay_again:
  assumes "ledger_inv E L" and "all_v2 L"
  shows "replay_registry_states E (L\<lparr>ld_registry_states := m\<rparr>) = Inr L"
proof -
  let ?L = "L\<lparr>ld_registry_states := m\<rparr>"
  note inv = assms(1) [unfolded ledger_inv_def]
  have chain: "ld_chain ?L \<noteq> []" "ld_chain ?L = ld_chain L" using inv by simp_all
  have at: "state_at E ?L h = state_at E L h" for h by simp
  have cached: "\<exists>s. ld_registry_states L h = Some s \<and> state_at E L h = Inr s" if "h < length (ld_chain L)" for h
  proof -
    have "as_v2 (ld_chain L ! h) \<noteq> None" using assms(2) that by (simp add: all_v2_def list_all_length)
    then have "ld_registry_states L h \<noteq> None" using inv that by blast
    then obtain s where "ld_registry_states L h = Some s" by blast
    then show ?thesis using inv cache_soundD by blast
  qed
  obtain L' where L': "replay_registry_states E ?L = Inr L'"
    using replay_total [OF chain(1), of E] cached at chain(2) by metis
  from replay_cache_sound [OF L' chain(1)] have r: "cache_sound E L'" "\<And>h. h < length (ld_chain L) \<Longrightarrow> ld_registry_states L' h \<noteq> None"
    "L' = ?L\<lparr>ld_registry_states := ld_registry_states L'\<rparr>" by auto
  have at': "state_at E L' h = state_at E L h" for h by (subst r(3)) simp
  have "ld_registry_states L' h = ld_registry_states L h" for h
  proof (cases "h < length (ld_chain L)")
    case True
    then show ?thesis using cached [OF True] r(2) [OF True] cache_soundD [OF r(1)] at' by fastforce
  next
    case False
    then have "state_at E L h = Inl LedgerError" by (simp add: state_at_def)
    then show ?thesis
      using cache_soundD [OF r(1), of h] cache_soundD [of E L h] inv at'
      by (cases "ld_registry_states L' h"; cases "ld_registry_states L h") auto
  qed
  then have "ld_registry_states L' = ld_registry_states L" by (rule ext)
  with r(3) have "L' = L" by simp
  with L' show ?thesis by simp
qed

text \<open>The configuration of a reachable ledger: the context is the one of its keys and threshold.\<close>

definition ledger_config :: "ledger \<Rightarrow> bool" where
  "ledger_config L = (governance_context (ld_governance_keys L) (ld_governance_threshold L) (ld_network_id L) = Inr (ld_context L))"

lemma replay_config: "replay_registry_states E L = Inr L' \<Longrightarrow> ledger_config L' = ledger_config L"
  by (auto simp: replay_registry_states_def bindE_Inr_iff ledger_config_def ld_network_id_def)

lemma new_ledger_config: "new_ledger E chain v keys t ident strict = Inr L \<Longrightarrow> ledger_config L"
  by (auto simp: new_ledger_def Let_def bindE_Inr_iff split: if_split_asm dest!: replay_config)
    (auto simp: ledger_config_def ld_network_id_def)

lemma reachable_config: "ledger_reachable E L \<Longrightarrow> ledger_config L"
proof (induction rule: ledger_reachable.induct)
  case (add L now b L' ok)
  then show ?case using add_block_Inr [OF add.hyps(2)] by (auto simp: ledger_config_def ld_network_id_def)
next
  case (validate L clock L' ok)
  from ledger_reachable_inv [OF validate.hyps(1)] have "ld_chain L \<noteq> []" "cache_sound E L" by (auto simp: ledger_inv_def)
  with validate_chain_Inr [OF validate.hyps(2)] have "same_but_cache L L'" by auto
  then obtain m where "L' = L\<lparr>ld_registry_states := m\<rparr>" by (rule same_but_cacheE)
  then show ?case using validate.IH by (simp add: ledger_config_def ld_network_id_def)
qed (rule new_ledger_config)

lemma validate_identity_cache: "validate_genesis_identity E (L\<lparr>ld_registry_states := m\<rparr>) = validate_genesis_identity E L"
proof -
  have "initial_state (L\<lparr>ld_registry_states := m\<rparr>) = initial_state L" by simp
  then show ?thesis by (cases "ld_chain L") (simp_all add: validate_genesis_identity_def cong: if_cong)
qed

lemma rebuild_ledger:
  assumes "ledger_reachable E L" and "all_v2 L" and "validate_genesis_identity E L = Inr ()"
  shows "new_ledger E (Some (ld_chain L)) (ld_validator L) (Some (ld_governance_keys L)) (Some (ld_governance_threshold L))
    (Some (ld_identity L)) True = Inr L"
proof -
  have inv: "ledger_inv E L" by (rule ledger_reachable_inv [OF assms(1)])
  have ctx: "governance_context (ld_governance_keys L) (ld_governance_threshold L) (ni_network_id (ld_identity L)) = Inr (ld_context L)"
    using reachable_config [OF assms(1)] by (simp add: ledger_config_def ld_network_id_def)
  then obtain k ks where keys: "ld_governance_keys L = k # ks"
    by (cases "ld_governance_keys L") (auto simp: governance_context_def)
  define L0 where "L0 = L\<lparr>ld_registry_states := Map.empty\<rparr>"
  have L0: "\<lparr>ld_chain = ld_chain L, ld_identity = ld_identity L, ld_validator = ld_validator L,
      ld_governance_keys = ld_governance_keys L, ld_governance_threshold = ld_governance_threshold L,
      ld_context = ld_context L, ld_registry_states = Map.empty\<rparr> = L0" by (simp add: L0_def)
  have id: "validate_genesis_identity E L0 = Inr ()"
    using assms(3) by (simp add: L0_def validate_identity_cache)
  have "replay_registry_states E L0 = Inr L" unfolding L0_def by (rule replay_again [OF inv assms(2)])
  moreover have "ld_chain L \<noteq> []" using inv by (simp add: ledger_inv_def)
  moreover have "(case Some (ld_governance_keys L) of Some (k # ks) \<Rightarrow> k # ks | _ \<Rightarrow> ni_governance_keys (ld_identity L)) = ld_governance_keys L"
    using keys by simp
  ultimately show ?thesis
    unfolding new_ledger_def choose_identity_def Let_def option.case bindE_simps using ctx L0 id by simp
qed

lemma new_ledger_strict:
  assumes "new_ledger E chain v keys t ident True = Inr L"
  shows "validate_genesis_identity E L = Inr ()"
proof -
  from assms obtain L0 where "validate_genesis_identity E L0 = Inr ()" "replay_registry_states E L0 = Inr L"
    by (auto simp: new_ledger_def Let_def bindE_Inr_iff split: if_split_asm)
  then show ?thesis by (auto simp: replay_registry_states_def bindE_Inr_iff validate_identity_cache)
qed

section \<open>Saving and loading\<close>

text \<open>C19: Saving and loading loses nothing: a ledger that construction, additions and validations built from blocks
  of version 2, whose genesis block belongs to its identity, is rebuilt by \<open>from_dict\<close> from what
  \<open>to_dict\<close> writes: the same blocks, configuration and cached registry states; the stored hashes and the
  stored work are not trusted.\<close>

theorem ledger_reload:
  assumes "ledger_reachable E L" and "all_v2 L" and "validate_genesis_identity E L = Inr ()"
    and "ni_genesis_header_bytes (ld_identity L) \<noteq> []" and "ledger_to_dict E v1_work L = Inr d"
  shows "ledger_from_dict E R (ld_validator L) (JDict d) = Inr L"
proof -
  from assms(5) obtain blocks work where b: "mapE (any_to_dict E) (ld_chain L) = Inr blocks" and
    d: "d = [(''network_id'', JStr (ld_network_id L)), (''chain'', JList blocks), (''chain_work'', JInt work),
      (''governance_keys'', JList (map JStr (ld_governance_keys L))),
      (''governance_threshold'', JInt (ld_governance_threshold L)), (''network_identity'', identity_to_dict (ld_identity L))]"
    by (auto simp: ledger_to_dict_def bindE_Inr_iff)
  have i: "identity_to_dict (ld_identity L) \<noteq> JNull" by (simp add: identity_to_dict_def)
  have k: "stored_keys (JList (map JStr ks)) = Inr (Some ks)" for ks
  proof -
    have "list_all is_str (map JStr ks)" by (induction ks) simp_all
    then show ?thesis unfolding stored_keys.simps map_strings(2) by simp
  qed
  have fields: "map_of d ''chain'' = Some (JList blocks)" "map_of d ''governance_keys'' = Some (JList (map JStr (ld_governance_keys L)))"
    "map_of d ''governance_threshold'' = Some (JInt (ld_governance_threshold L))"
    "map_of d ''network_identity'' = Some (identity_to_dict (ld_identity L))"
    "map_of d ''network_id'' = Some (JStr (ni_network_id (ld_identity L)))"
    by (simp_all add: d ld_network_id_def)
  have "stored_identity R (JDict d) (identity_to_dict (ld_identity L)) = Inr (Some (ld_identity L))"
    using i identity_roundtrip [OF assms(4), of R] fields(5) by (simp add: stored_identity_def catchE_def dget_def)
  then show ?thesis
    using any_roundtrips [OF b, of R] fields(1-4) rebuild_ledger [OF assms(1-3)] k [of "ld_governance_keys L"]
    by (simp add: ledger_from_dict_def dindex_def dget_def of_option_def del: stored_keys.simps)
qed

lemma demo_identity_bytes: "ni_genesis_header_bytes demo_identity \<noteq> []"
proof -
  from header_v2_roundtrip_aux [OF wf_steady_header [of 7]] obtain b where "header_v2_bytes (steady_header 7) = Inr b" "length b = 149" by auto
  then show ?thesis by (auto simp: demo_identity_def)
qed

lemma demo_ledger_saves: "\<exists>d. ledger_to_dict demo_env Inr demo_ledger = Inr d"
proof -
  have wf: "wf_header_v2 (steady_header 7)" by (rule wf_steady_header) simp_all
  from header_v2_roundtrip_aux [OF wf] obtain b h where b: "header_v2_bytes (steady_header 7) = Inr b" "header_v2_to_dict (steady_header 7) = Inr h"
    by (auto simp: header_v2_bytes_def bindE_Inr_iff)
  have "block_hash_v2 demo_env \<lparr>bk_header = steady_header 7, bk_transactions = []\<rparr> = Inr zero_hash"
    using steady_hash [of 7] by (simp add: steady_block_def)
  then have "\<exists>j. any_to_dict demo_env (steady_block 7) = Inr j" using b(2) by (simp add: steady_block_def block_v2_to_dict_def)
  moreover have "\<exists>w. block_work Inr (steady_block 7) = Inr w"
    by (simp add: steady_block_def work_for_target_v2_def) (simp add: steady_header_def MAX_TARGET_def)
  ultimately show ?thesis by (auto simp: ledger_to_dict_def chain_work_def demo_ledger_def)
qed

theorem ledger_reload_witness:
  "\<exists>d. ledger_to_dict demo_env Inr demo_ledger = Inr d \<and> ledger_from_dict demo_env demo_runtime None (JDict d) = Inr demo_ledger"
proof -
  have reach: "ledger_reachable demo_env demo_ledger" by (rule ledger_reachable.init [OF demo_ledger_ok])
  have v2: "all_v2 demo_ledger" by (simp add: all_v2_def demo_ledger_def steady_block_def)
  have id: "validate_genesis_identity demo_env demo_ledger = Inr ()"
    using demo_ledger_ok new_ledger_strict by blast
  have bytes: "ni_genesis_header_bytes (ld_identity demo_ledger) \<noteq> []" using demo_identity_bytes by (simp add: demo_ledger_def)
  obtain d where d: "ledger_to_dict demo_env Inr demo_ledger = Inr d" using demo_ledger_saves by blast
  have "ld_validator demo_ledger = None" by (simp add: demo_ledger_def)
  with ledger_reload [OF reach v2 id bytes d, of demo_runtime] d show ?thesis by simp
qed

end
