(* ===== verification/Transport_Limits.thy ===== *)
theory Transport_Limits
  imports Complex_Main Prelude
begin

text \<open>
  \<open>network/transport/limits.py\<close>: the limits of a transport and its sliding-window rate limiter.  Times are
  rational seconds, read once per call; a deque is a list with the oldest entry first.  The last section
  bounds what the limiter admits in any window.
\<close>

record transport_limits =
  tl_max_inbound_queue_depth :: int
  tl_max_outbound_queue_depth :: int
  tl_max_inbound_queue_bytes :: int
  tl_max_outbound_queue_bytes :: int
  tl_max_messages_per_window :: int
  tl_max_bytes_per_window :: int
  tl_window_seconds :: rat
  tl_max_pending_sends :: int
  tl_max_pending_receives :: int
  tl_connect_timeout_seconds :: rat
  tl_receive_timeout_seconds :: rat
  tl_send_timeout_seconds :: rat
  tl_idle_timeout_seconds :: rat

definition default_transport_limits :: transport_limits where
  "default_transport_limits = \<lparr>tl_max_inbound_queue_depth = 128, tl_max_outbound_queue_depth = 128,
     tl_max_inbound_queue_bytes = 8388608, tl_max_outbound_queue_bytes = 8388608,
     tl_max_messages_per_window = 1000, tl_max_bytes_per_window = 16777216, tl_window_seconds = 1,
     tl_max_pending_sends = 64, tl_max_pending_receives = 64, tl_connect_timeout_seconds = 10,
     tl_receive_timeout_seconds = 30, tl_send_timeout_seconds = 30, tl_idle_timeout_seconds = 300\<rparr>"

definition check_limits :: "transport_limits \<Rightarrow> unit res" where
  "check_limits l =
     thenE (checkE (0 < tl_max_inbound_queue_depth l) ValueError)
    (thenE (checkE (0 < tl_max_outbound_queue_depth l) ValueError)
    (thenE (checkE (0 < tl_max_messages_per_window l) ValueError)
       (checkE (0 < tl_window_seconds l) ValueError)))"

section \<open>The rate limiter\<close>

record rate_limiter =
  lm_limits :: transport_limits
  lm_message_times :: "rat list"
  lm_byte_windows :: "(rat \<times> int) list"

definition new_rate_limiter :: "transport_limits \<Rightarrow> rate_limiter" where
  "new_rate_limiter l = \<lparr>lm_limits = l, lm_message_times = [], lm_byte_windows = []\<rparr>"

definition limiter_check :: "rat \<Rightarrow> nat \<Rightarrow> int \<Rightarrow> rate_limiter \<Rightarrow> rate_limiter \<times> bool" where
  "limiter_check now message_count byte_count r =
     (let cutoff = now - tl_window_seconds (lm_limits r);
          r = r\<lparr>lm_message_times := dropWhile (\<lambda>t. t \<le> cutoff) (lm_message_times r),
                lm_byte_windows := dropWhile (\<lambda>(t, _). t \<le> cutoff) (lm_byte_windows r)\<rparr> in
      if int (length (lm_message_times r)) + int message_count > tl_max_messages_per_window (lm_limits r) then (r, False)
      else (r, sum_list (map snd (lm_byte_windows r)) + byte_count \<le> tl_max_bytes_per_window (lm_limits r)))"

definition limiter_record :: "rat \<Rightarrow> nat \<Rightarrow> int \<Rightarrow> rate_limiter \<Rightarrow> rate_limiter" where
  "limiter_record now message_count byte_count r =
     r\<lparr>lm_message_times := lm_message_times r @ replicate message_count now,
       lm_byte_windows := lm_byte_windows r @ (if byte_count \<noteq> 0 then [(now, byte_count)] else [])\<rparr>"

text \<open>The use of the limiter in \<open>MemoryTransport.send\<close>: what passes the check is recorded.\<close>

definition limiter_send :: "rat \<times> nat \<times> int \<Rightarrow> rate_limiter \<Rightarrow> rate_limiter \<times> bool" where
  "limiter_send e r =
     (case e of (now, n, b) \<Rightarrow> (case limiter_check now n b r of
        (r, True) \<Rightarrow> (limiter_record now n b r, True)
      | (r, False) \<Rightarrow> (r, False)))"

fun run_limiter :: "rate_limiter \<Rightarrow> (rat \<times> nat \<times> int) list \<Rightarrow> (rat \<times> nat \<times> int) list \<Rightarrow> rate_limiter \<times> (rat \<times> nat \<times> int) list" where
  "run_limiter r hist [] = (r, hist)"
| "run_limiter r hist (e # es) =
     (case limiter_send e r of
        (r, True) \<Rightarrow> run_limiter r (hist @ [e]) es
      | (r, False) \<Rightarrow> run_limiter r hist es)"

section \<open>What it admits\<close>

definition in_window :: "rat \<Rightarrow> rat \<Rightarrow> (rat \<times> nat \<times> int) list \<Rightarrow> (rat \<times> nat \<times> int) list" where
  "in_window from to hist = filter (\<lambda>(t, _). from < t \<and> t \<le> to) hist"

definition messages :: "(rat \<times> nat \<times> int) list \<Rightarrow> int" where
  "messages hist = int (sum_list (map (\<lambda>(_, n, _). n) hist))"

definition volume :: "(rat \<times> nat \<times> int) list \<Rightarrow> int" where
  "volume hist = sum_list (map (\<lambda>(_, _, b). b) hist)"

definition window_bounded :: "transport_limits \<Rightarrow> (rat \<times> nat \<times> int) list \<Rightarrow> bool" where
  "window_bounded l hist \<longleftrightarrow> (\<forall>T. messages (in_window (T - tl_window_seconds l) T hist) \<le> tl_max_messages_per_window l
     \<and> volume (in_window (T - tl_window_seconds l) T hist) \<le> tl_max_bytes_per_window l)"

text \<open>The log after a time, and what the limiter keeps of it.\<close>

definition since :: "rat \<Rightarrow> (rat \<times> nat \<times> int) list \<Rightarrow> (rat \<times> nat \<times> int) list" where
  "since c hist = filter (\<lambda>(t, _). c < t) hist"

definition log_times :: "(rat \<times> nat \<times> int) list \<Rightarrow> rat list" where
  "log_times hist = concat (map (\<lambda>(t, n, _). replicate n t) hist)"

definition log_bytes :: "(rat \<times> nat \<times> int) list \<Rightarrow> (rat \<times> int) list" where
  "log_bytes hist = concat (map (\<lambda>(t, _, b). if b \<noteq> 0 then [(t, b)] else []) hist)"

lemma log_simps [simp]:
  "log_times [] = []" "log_times (xs @ ys) = log_times xs @ log_times ys" "log_times [(t, n, b)] = replicate n t"
  "log_bytes [] = []" "log_bytes (xs @ ys) = log_bytes xs @ log_bytes ys" "log_bytes [(t, n, b)] = (if b \<noteq> 0 then [(t, b)] else [])"
  "messages [] = 0" "messages (xs @ ys) = messages xs + messages ys" "messages [(t, n, b)] = int n"
  "volume [] = 0" "volume (xs @ ys) = volume xs + volume ys" "volume [(t, n, b)] = b"
  "since c [] = []" "since c (xs @ ys) = since c xs @ since c ys"
  by (simp_all add: log_times_def log_bytes_def messages_def volume_def since_def)

lemma log_counts: "int (length (log_times hist)) = messages hist" "sum_list (map snd (log_bytes hist)) = volume hist"
  by (induction hist) (auto simp: log_times_def log_bytes_def messages_def volume_def)

lemma filter_times: "filter (\<lambda>t. c < t) (log_times hist) = log_times (since c hist)"
  by (induction hist) (auto simp: log_times_def since_def)

lemma filter_bytes: "filter (\<lambda>(t, _). c < t) (log_bytes hist) = log_bytes (since c hist)"
  by (induction hist) (auto simp: log_bytes_def since_def)

lemma since_since: "c \<le> d \<Longrightarrow> since d (since c hist) = since d hist"
  by (induction hist) (auto simp: since_def)

lemma dropWhile_sorted:
  "sorted (map f xs) \<Longrightarrow> dropWhile (\<lambda>x. f x \<le> c) xs = filter (\<lambda>x. c < f x) xs" for f :: "'a \<Rightarrow> rat"
proof (induction xs)
  case (Cons x xs)
  show ?case
  proof (cases "f x \<le> c")
    case False
    then have "filter (\<lambda>x. c < f x) (x # xs) = x # xs" using Cons.prems by (intro filter_True) auto
    then show ?thesis using False by simp
  qed (use Cons in auto)
qed simp

lemma sorted_times: "sorted (map fst hist) \<Longrightarrow> sorted (log_times hist)"
  by (induction hist) (auto simp: log_times_def sorted_append)

lemma sorted_bytes: "sorted (map fst hist) \<Longrightarrow> sorted (map fst (log_bytes hist))"
  by (induction hist) (auto simp: log_bytes_def sorted_append split: if_splits)

lemma sorted_since: "sorted (map fst hist) \<Longrightarrow> sorted (map fst (since c hist))"
  by (simp add: since_def sorted_filter)

definition limiter_inv :: "transport_limits \<Rightarrow> rat \<Rightarrow> rate_limiter \<Rightarrow> (rat \<times> nat \<times> int) list \<Rightarrow> bool" where
  "limiter_inv l now r hist \<longleftrightarrow> lm_limits r = l \<and> sorted (map fst hist) \<and> (\<forall>t \<in> fst ` set hist. t \<le> now)
     \<and> window_bounded l hist
     \<and> (\<exists>c \<le> now - tl_window_seconds l. lm_message_times r = log_times (since c hist) \<and> lm_byte_windows r = log_bytes (since c hist))"

definition in_order :: "rat \<Rightarrow> (rat \<times> nat \<times> int) list \<Rightarrow> bool" where
  "in_order now es \<longleftrightarrow> sorted (map fst es) \<and> list_all (\<lambda>(t, _, b). now \<le> t \<and> 0 \<le> b) es"

lemma messages_mono: "(\<And>e. P e \<Longrightarrow> Q e) \<Longrightarrow> messages (filter P xs) \<le> messages (filter Q xs)"
  by (induction xs) (auto simp: messages_def)

lemma volume_mono:
  "(\<And>e. P e \<Longrightarrow> Q e) \<Longrightarrow> list_all (\<lambda>(_, _, b). 0 \<le> b) xs \<Longrightarrow> volume (filter P xs) \<le> volume (filter Q xs)"
  by (induction xs) (force simp: volume_def)+

lemma check_view:
  assumes "limiter_inv l now0 r hist" and "now0 \<le> now"
  shows "limiter_check now n b r =
    (r\<lparr>lm_message_times := log_times (since (now - tl_window_seconds l) hist), lm_byte_windows := log_bytes (since (now - tl_window_seconds l) hist)\<rparr>,
     messages (since (now - tl_window_seconds l) hist) + int n \<le> tl_max_messages_per_window l
     \<and> volume (since (now - tl_window_seconds l) hist) + b \<le> tl_max_bytes_per_window l)"
proof -
  let ?d = "now - tl_window_seconds l"
  from assms(1) obtain c where c: "c \<le> now0 - tl_window_seconds l" "lm_message_times r = log_times (since c hist)"
    "lm_byte_windows r = log_bytes (since c hist)" and l: "lm_limits r = l" and s: "sorted (map fst hist)"
    unfolding limiter_inv_def by blast
  have cd: "c \<le> ?d" using c(1) assms(2) by linarith
  have "dropWhile (\<lambda>t. t \<le> ?d) (lm_message_times r) = log_times (since ?d hist)"
    using dropWhile_sorted [of "\<lambda>t. t" "log_times (since c hist)" ?d] sorted_times [OF sorted_since [OF s]]
    by (simp add: c(2) filter_times since_since [OF cd])
  moreover have "dropWhile (\<lambda>(t, _). t \<le> ?d) (lm_byte_windows r) = log_bytes (since ?d hist)"
    using dropWhile_sorted [of fst "log_bytes (since c hist)" ?d] sorted_bytes [OF sorted_since [OF s]]
      filter_bytes [of ?d "since c hist"]
    by (simp add: c(3) since_since [OF cd] case_prod_unfold)
  ultimately show ?thesis
    by (simp add: limiter_check_def Let_def l log_counts)
qed

lemma send_step:
  assumes window: "0 < tl_window_seconds l" and inv: "limiter_inv l now0 r hist" and now: "now0 \<le> now" and pos: "list_all (\<lambda>(_, _, b). 0 \<le> b) hist" "0 \<le> b"
    and step: "limiter_send (now, n, b) r = (r', ok)"
  shows "limiter_inv l now r' (if ok then hist @ [(now, n, b)] else hist)"
proof -
  let ?w = "tl_window_seconds l" let ?old = "since (now - ?w) hist"
  note check = check_view [OF inv now, of n b]
  from inv have l: "lm_limits r = l" and s: "sorted (map fst hist)" and t: "\<forall>t \<in> fst ` set hist. t \<le> now"
    and wb: "window_bounded l hist" using now unfolding limiter_inv_def by force+
  show ?thesis
  proof (cases ok)
    case False
    then have "r' = r\<lparr>lm_message_times := log_times ?old, lm_byte_windows := log_bytes ?old\<rparr>"
      using step check by (auto simp: limiter_send_def split: prod.splits bool.splits)
    then show ?thesis using False l s t wb unfolding limiter_inv_def by auto
  next
    case True
    then have r': "r' = limiter_record now n b (r\<lparr>lm_message_times := log_times ?old, lm_byte_windows := log_bytes ?old\<rparr>)"
      and fits: "messages ?old + int n \<le> tl_max_messages_per_window l" "volume ?old + b \<le> tl_max_bytes_per_window l"
      using step check by (auto simp: limiter_send_def split: prod.splits bool.splits)
    have bound: "messages (in_window (T - ?w) T (hist @ [(now, n, b)])) \<le> tl_max_messages_per_window l
      \<and> volume (in_window (T - ?w) T (hist @ [(now, n, b)])) \<le> tl_max_bytes_per_window l" for T
    proof (cases "T < now")
      case True
      then have "in_window (T - ?w) T (hist @ [(now, n, b)]) = in_window (T - ?w) T hist" by (simp add: in_window_def)
      then show ?thesis using wb unfolding window_bounded_def by simp
    next
      case False
      have "messages (in_window (T - ?w) T hist) \<le> messages ?old" "volume (in_window (T - ?w) T hist) \<le> volume ?old"
        unfolding in_window_def since_def using False pos(1) by (intro messages_mono volume_mono; auto)+
      moreover have "messages (in_window (T - ?w) T [(now, n, b)]) \<le> int n" "volume (in_window (T - ?w) T [(now, n, b)]) \<le> b"
        using pos(2) by (simp_all add: in_window_def)
      moreover have "in_window (T - ?w) T (hist @ [(now, n, b)]) = in_window (T - ?w) T hist @ in_window (T - ?w) T [(now, n, b)]"
        by (simp add: in_window_def)
      ultimately show ?thesis using fits by simp
    qed
    have "since (now - ?w) [(now, n, b)] = [(now, n, b)]" using window by (simp add: since_def)
    then show ?thesis
      using True l s t bound unfolding limiter_inv_def r' window_bounded_def
      by (auto simp: limiter_record_def sorted_append intro!: exI [of _ "now - ?w"])
  qed
qed

lemma run_bounded:
  assumes "0 < tl_window_seconds l"
  shows "limiter_inv l now r hist \<Longrightarrow> list_all (\<lambda>(_, _, b). 0 \<le> b) hist \<Longrightarrow> in_order now es \<Longrightarrow>
    window_bounded l (snd (run_limiter r hist es))"
proof (induction es arbitrary: now r hist)
  case Nil
  then show ?case by (simp add: limiter_inv_def)
next
  case (Cons e es)
  obtain t n b where e: "e = (t, n, b)" by (cases e)
  obtain r' ok where step: "limiter_send e r = (r', ok)" by fastforce
  have o: "now \<le> t" "0 \<le> b" "in_order t es" using Cons.prems(3) by (auto simp: in_order_def e list_all_iff)
  have inv: "limiter_inv l t r' (if ok then hist @ [(t, n, b)] else hist)"
    by (rule send_step [OF assms Cons.prems(1) o(1) Cons.prems(2) o(2)]) (use step e in simp)
  have pos: "list_all (\<lambda>(_, _, b). 0 \<le> b) (if ok then hist @ [(t, n, b)] else hist)" using Cons.prems(2) o(2) by simp
  show ?case using Cons.IH [OF inv pos o(3)] step e by (cases ok) simp_all
qed

lemma new_limiter_inv:
  assumes "check_limits l = Inr ()" and "0 \<le> tl_max_bytes_per_window l"
  shows "limiter_inv l now (new_rate_limiter l) []"
  using assms by (auto simp: limiter_inv_def new_rate_limiter_def window_bounded_def in_window_def check_limits_def checkE_def
      bindE_Inr_iff split: if_splits)

text \<open>Whatever is sent, a transport that checks and records with the rate limiter admits in no window of the
  configured length, wherever it begins, more messages or bytes than the limits allow, as long as the
  clock does not run backwards.\<close>

theorem rate_limiter_window:
  assumes "check_limits l = Inr ()" and "0 \<le> tl_max_bytes_per_window l" and "in_order now es"
  shows "window_bounded l (snd (run_limiter (new_rate_limiter l) [] es))"
proof -
  have "0 < tl_window_seconds l" using assms(1) by (auto simp: check_limits_def checkE_def bindE_Inr_iff split: if_splits)
  from run_bounded [OF this new_limiter_inv [OF assms(1,2)] _ assms(3)] show ?thesis by simp
qed

theorem rate_limiter_window_witness:
  "window_bounded (default_transport_limits\<lparr>tl_max_messages_per_window := 2\<rparr>)
     (snd (run_limiter (new_rate_limiter (default_transport_limits\<lparr>tl_max_messages_per_window := 2\<rparr>)) []
       [(0, 1, 10), (1 / 2, 1, 10), (3 / 4, 1, 10), (5 / 4, 1, 10)]))
   \<and> map fst (snd (run_limiter (new_rate_limiter (default_transport_limits\<lparr>tl_max_messages_per_window := 2\<rparr>)) []
       [(0, 1, 10), (1 / 2, 1, 10), (3 / 4, 1, 10), (5 / 4, 1, 10)])) = [0, 1 / 2, 5 / 4]"
proof -
  have "check_limits (default_transport_limits\<lparr>tl_max_messages_per_window := 2\<rparr>) = Inr ()"
    "0 \<le> tl_max_bytes_per_window (default_transport_limits\<lparr>tl_max_messages_per_window := 2\<rparr>)"
    by (simp_all add: check_limits_def default_transport_limits_def checkE_def)
  note bounded = rate_limiter_window [OF this, of 0 "[(0, 1, 10), (1 / 2, 1, 10), (3 / 4, 1, 10), (5 / 4, 1, 10)]"]
  have "in_order 0 [(0, 1, 10), (1 / 2, 1, 10), (3 / 4, 1, 10), (5 / 4, 1, 10)]" by (simp add: in_order_def)
  with bounded show ?thesis
    by (simp add: new_rate_limiter_def limiter_send_def limiter_check_def limiter_record_def default_transport_limits_def)
qed

end
