(* ===== verification/Spec2Isabelle.thy ===== *)
theory Spec2Isabelle
  imports Reorg_Props Messages Store_Live Gossip_Props Witness_Props Sync_Props Relay_Props Discovery_Props Block_Codec_Props
    Archive_Props Ledger_Json_Props Transport_Limits
begin

text \<open>
  Chain-Breaker in Isabelle/HOL.

  Chain-Breaker is a small proof-of-work chain in Python whose blocks carry hashes of documents, changes
  to a registry of curators and the attestations of those curators.  The sources are under
  \<open>src/chainbreaker/\<close>; every definition below translates a class, a function or a method there and keeps
  its name where Isabelle allows it.  Theories named \<open>X_Props\<close>, \<open>X_Reach\<close>, \<open>X_Tip\<close> and \<open>X_Live\<close> hold the
  theorems of the component \<open>X\<close>.

  \<^bold>\<open>How the program fits together.\<close>  The bytes of headers and transactions (\<open>codec.py\<close>) are hashed
  (\<open>crypto.py\<close>) into blocks (\<open>block.py\<close>).  The ledger (\<open>chain.py\<close>) keeps the blocks, computes the
  target of the next one, and folds their registry transactions, checked by \<open>governance.py\<close>, into the
  registry (\<open>registry_state.py\<close>); every version 2 header commits to the root of that registry.  Attestations
  (\<open>witness.py\<close>) are checked against the registry at the height of a block.  \<open>reorg.py\<close> compares branches.
  The storage (\<open>storage/\<close>) writes a block as a sequence of files with a journal, and repairs what a crash
  left behind.  The network (\<open>network/\<close>) cuts TCP streams into envelopes, runs a handshake per
  connection, and has one engine each for gossip, synchronisation, relay and peer discovery; the last two
  steps of synchronisation and relay add blocks to the ledger and the storage.

  \<^bold>\<open>Theories and sources.\<close>
  \<^item> Foundations.  \<open>Prelude\<close>: exceptions as values (\<open>py_error + 'a\<close>), bytes, \<open>struct\<close>, slices.  \<open>Hex\<close>:
    \<open>bytes.hex\<close> and \<open>bytes.fromhex\<close>.  \<open>Json\<close>, \<open>Json_Read\<close>, \<open>Json_Round\<close>, \<open>Json_Access\<close>,
    \<open>Json_Shape\<close>: JSON values, \<open>json.dumps\<close> in the styles used, \<open>json.loads\<close>, what indexing, \<open>get\<close> and
    \<open>isinstance\<close> do on values of any shape, and what is known of a value that was read or written.  \<open>Sha256\<close>: FIPS 180-4, executable.
  \<^item> Consensus.  \<open>Crypto\<close> (\<open>crypto.py\<close>); \<open>Codec\<close>, \<open>Block_Codec\<close> (\<open>BinaryCodec\<close> of \<open>codec.py\<close> and the binary
    blocks of \<open>block.py\<close>); \<open>Schema\<close> (the validators of \<open>codec.py\<close>); \<open>Block\<close>, \<open>Genesis\<close>,
    \<open>Genesis_Digests\<close> (\<open>block.py\<close>); \<open>Registry\<close>, \<open>Registry_Codec\<close>, \<open>Reducer\<close> (\<open>registry_state.py\<close>);
    \<open>Governance\<close> (\<open>governance.py\<close>); \<open>Network_Identity\<close> (\<open>network_identity.py\<close>); \<open>Chain\<close>,
    \<open>Chain_Props\<close>, \<open>Ledger_Props\<close>, \<open>Ledger_Reach\<close>, \<open>Ledger_Tip\<close>, \<open>Ledger_Json\<close> (\<open>chain.py\<close>); \<open>Reorg\<close>
    (\<open>reorg.py\<close>); \<open>Witness\<close> (\<open>witness.py\<close>); \<open>Archive\<close> (\<open>archive.py\<close>).
  \<^item> Storage.  \<open>Files\<close> (\<open>storage/filesystem.py\<close>), \<open>Formats\<close> (\<open>storage/formats.py\<close>), \<open>Journal\<close>
    (\<open>storage/journal.py\<close>), \<open>Store\<close> (\<open>storage/backend.py\<close>), \<open>Recovery\<close> (\<open>storage/recovery.py\<close>).
  \<^item> Network.  \<open>Envelope\<close> (\<open>network/envelope.py\<close>), \<open>Framing\<close> (\<open>network/socket/\<close>), \<open>Handshake\<close> and
    \<open>Transport_Limits\<close> (\<open>network/transport/\<close>), \<open>Messages\<close> and \<open>Wire\<close> (\<open>network/messages.py\<close> and the JSON
    form of blocks), \<open>Gossip\<close>, \<open>Sync\<close>, \<open>Relay\<close>, \<open>Discovery\<close> (the packages of those names).

  \<^bold>\<open>How code becomes definitions.\<close>  A class is a record, an enumeration a datatype, a method a function that
  returns the changed record.  Whatever may raise returns \<open>py_error + 'a\<close>; a method whose effects
  survive the exception returns the changed state beside the result, so a caller that swallows the
  exception (the relay, the registry of version 1) is modelled as it behaves.  Python integers are
  \<open>int\<close> or \<open>nat\<close>, SHA-256 uses \<open>32 word\<close>, bytes are \<open>8 word\<close>, a \<open>str\<close> is its UTF-8 encoding, in which
  a lone surrogate is let through, so that the places where \<open>encode("utf-8")\<close> raises are seen.  A dictionary is an
  association list where its order is visible (JSON, the gossip cache, the peer table) and a map
  otherwise.  A directory is a map from paths to contents; storage steps are computations over it, and a
  failpoint is a function from the names of the points to whether it fires.

  \<^bold>\<open>Parameters.\<close>  Code outside \<open>src/\<close> is an argument: \<open>env\<close> holds SHA-256 and the Ed25519 functions of the
  \<open>cryptography\<close> package, \<open>runtime\<close> the parsing and printing of floats, \<open>zlib\<close> functions stand for the
  compression of the archive, a function of the seed for the shuffle of peers, a function for the prefix of
  an IPv6 address, and a function for the floating-point work of version 1 blocks.  Every use of the clock
  is an argument.  What a theorem needs of a parameter is one of its hypotheses (that \<open>decompress\<close>
  inverts \<open>compress\<close>, that a digest has 32 bytes, that the text of a float that was read reads back as itself);
  security of SHA-256 is never assumed, the binding theorems give the collision instead.  The witnesses instantiate \<open>env\<close> with
  \<open>Sha256\<close> or with a constant digest.

  \<^bold>\<open>Interfaces.\<close>  \<open>stream_codec\<close> and its extension \<open>canonical_codec\<close> (\<open>Codec\<close>) state what a pair of an encoder
  and a decoder promises and give the round trip of sequences; they are interpreted for variable-length integers,
  byte strings, fixed-width fields, hashes, headers, and the records of the registry.  \<open>reading_codec\<close>
  (\<open>Block_Codec\<close>) does the same for decoders that normalise what they read.  \<open>dict_codec\<close> (\<open>Governance\<close>)
  is the contract of \<open>to_dict\<close> and \<open>from_dict\<close>, interpreted for the three registry transactions.
  \<open>hash_length\<close> (\<open>Crypto\<close>) is what the Merkle proofs, envelopes and framing need of the hash.
  \<open>prefix_local\<close> (\<open>Chain_Props\<close>) is the law that a consensus rule looks only at the blocks below the
  height it is applied to, interpreted for the target rule and the median of the block times.

  \<^bold>\<open>What the lemmas show.\<close>
  \<^item> Registry and governance: an applied change carries threshold signatures, the right previous root, a
    future height and the curator's signature; the threshold check in closed form; reachable registry states
    are sorted, keep at most two records per curator and give no key, as it is written, to two curators.
  \<^item> Ledger: adding a block keeps a ledger valid; the registry cache of every reachable ledger is
    the replay of its chain; targets stay in bounds; mining finds the first nonce or fails exactly when there
    is none; a mined block is accepted exactly when its transactions are, by the validator and the registry; the tip hash fixes the headers; a saved ledger is rebuilt by loading.
  \<^item> Fork choice: a switch connects a validated suffix with strictly more work above the highest shared
    block, within the depth policy.
  \<^item> Storage: \<open>stored\<close> relates a directory to the chain it holds.  A commit refines appending to that
    chain; cut off at any failpoint, recovery ends with the old or the new chain; with silent failpoints
    the commit returns.
  \<^item> Network: the envelope parser accepts exactly what the serialiser writes; however a stream is cut the
    messages come out once and in order; an established session has seen a matching HELLO; every
    well-formed message is read back; a gossip message is forwarded on exactly while its hops and lifetime last; the tables of gossip, relay
    and discovery stay within their bounds under every sequence of operations; no peer can make the ledger
    invalid by synchronisation or relay; without a storage error storage and ledger stay equal.

  \<^bold>\<open>Bounds and fuel.\<close>  No loop has a fuel of the model's own.  Loops over data are structural recursion; the
  readers of JSON, of journal records and of the receive buffer, the levels of the Merkle tree and the locator of the
  synchronisation are functions with a measure (what is left of the input, or of the allowed length).  The one loop of the code that is bounded by a number, mining, recurses on
  the number of iterations the code is given.  Widths are written out where they matter: a value that
  \<open>struct.pack\<close> does not accept raises, and hypotheses such as heights below \<open>2 ^ 32\<close> are the widths of
  the fields.

  \<^bold>\<open>Defects.\<close>  Several theorems state behaviour the code does not intend; each stands beside the component and
  says so: a revocation resets the governance configuration (\<open>revoke_effect\<close>), an early rotation locks a curator
  out (\<open>rotate_early_activation_locks\<close>), one key in two spellings serves two curators
  (\<open>registry_key_two_spellings\<close>), a block linked to nothing can win the fork choice (\<open>reorg_accepts_unlinked\<close>),
  recovery after a journal rotation erases the chain (\<open>recovery_without_journal_erases\<close>), a torn journal
  tail hides later records (\<open>journal_torn_hides\<close>), the receiving loop of TCP loses messages
  (\<open>tcp_receive_loses_message\<close>), connections without a HELLO fill the slots (\<open>silent_connections_exhaust\<close>),
  synchronisation stalls beyond the first retarget window (\<open>sync_stalls\<close>), and a failed write leaves
  ledger and storage apart (\<open>relay_storage_failure_diverges\<close>).  Loading the static bootstrap
  entries again undoes what failed handshakes have taken from the score of their peers (\<open>reload_restores_score\<close>).

  \<^bold>\<open>Not modelled.\<close>  The limits of Python itself (recursion depth of the JSON parser, digits of an
  integer literal, memory); the arithmetic of floats, for which clock values are rationals or integers read once per
  call and the difficulty helpers are left out; key generation and signing, which happen in the
  \<open>cryptography\<close> package; file locks, \<open>fsync\<close> and the creation of directories, which do not change contents;
  the coroutines of \<open>network/transport\<close> and \<open>network/socket\<close> that only drive asyncio queues and streams (their limits,
  framing and state machines are modelled); the command line (\<open>cli.py\<close>, \<open>cli_v2.py\<close>), which parses options and
  prints around the modelled operations; the benchmarks, scripts, tests and test vectors.  Python objects
  that two tables share are values, since the code changes each in one place only; the records of an in-memory bootstrap source,
  which the peer table changes and a second load reads, are the exception, and are objects (\<open>Discovery\<close>).
\<close>

end
